(* ===== verification/Simian_Prelude.thy ===== *)
theory Simian_Prelude
  imports Complex_Main "HOL-Library.AList" "HOL-Library.Char_ord"
    "HOL-Library.List_Lexorder" "HOL-Library.Sublist"
begin

text \<open>
  Shared vocabulary of the development: decoded JSON values, the Go standard
  library functions the program uses on strings, maps and sorted slices, the
  error-and-state computations the pipeline is written in with the small
  Hoare logic used to reason about them, and the generic interface contracts
  (keyed stores, bounded logs, transition systems) the components implement.

  Conventions.  A Go string is a \<^typ>\<open>string\<close>, one \<^typ>\<open>char\<close> per byte; string
  functions are modelled on ASCII text.  A Go map is an association list
  with distinct keys, read by \<^const>\<open>map_of\<close> and written by the operations of
  the library theory AList.  Where the program iterates over a map, Go
  leaves the order unspecified; the model iterates in list order and the
  theorems never depend on it unless the program sorts afterwards.
\<close>

section \<open>Lemma collections\<close>

named_theorems const_defs \<open>the program's string constants\<close>
named_theorems hoare \<open>rules of the Hoare logic on error-and-state computations\<close>


section \<open>Decoded JSON values\<close>

text \<open>
  The dynamic types a Go \<^verbatim>\<open>any\<close> has after JSON decoding (\<open>JNum\<close> is float64),
  and \<open>JInt\<close> for the int and int64 values Go code stores itself.
\<close>

datatype json =
    JNull
  | JBool bool
  | JNum rat
  | JInt int
  | JStr string
  | JArr "json list"
  | JObj "(string \<times> json) list"

type_synonym jobj = "(string \<times> json) list"
type_synonym 'v gomap = "(string \<times> 'v) list"

text \<open>The type assertions \<^verbatim>\<open>v.(string)\<close>, \<^verbatim>\<open>v.([]any)\<close>, \<^verbatim>\<open>v.(map[string]any)\<close>, \<^verbatim>\<open>v.(bool)\<close>
  of a map entry, \<^const>\<open>None\<close> when the entry is missing or has another type.\<close>

fun as_str :: "json option \<Rightarrow> string option" where
  "as_str (Some (JStr s)) = Some s"
| "as_str _ = None"

fun as_arr :: "json option \<Rightarrow> json list option" where
  "as_arr (Some (JArr xs)) = Some xs"
| "as_arr _ = None"

fun as_obj :: "json option \<Rightarrow> jobj option" where
  "as_obj (Some (JObj m)) = Some m"
| "as_obj _ = None"

fun as_bool :: "json option \<Rightarrow> bool option" where
  "as_bool (Some (JBool b)) = Some b"
| "as_bool _ = None"

lemma as_str_Some [simp]: "as_str v = Some s \<longleftrightarrow> v = Some (JStr s)"
  by (cases "v" rule: as_str.cases) auto

lemma as_arr_Some [simp]: "as_arr v = Some xs \<longleftrightarrow> v = Some (JArr xs)"
  by (cases "v" rule: as_arr.cases) auto

lemma as_obj_Some [simp]: "as_obj v = Some m \<longleftrightarrow> v = Some (JObj m)"
  by (cases "v" rule: as_obj.cases) auto

lemma as_bool_Some [simp]: "as_bool v = Some b \<longleftrightarrow> v = Some (JBool b)"
  by (cases "v" rule: as_bool.cases) auto

text \<open>The value, or Go's zero value, of \<^verbatim>\<open>s, _ := v.(string)\<close>.\<close>

definition str_or_empty :: "json option \<Rightarrow> string" where
  "str_or_empty v = (case as_str v of None \<Rightarrow> '''' | Some s \<Rightarrow> s)"

fun json_wf :: "json \<Rightarrow> bool" where
  "json_wf (JArr xs) = (\<forall>x \<in> set xs. json_wf x)"
| "json_wf (JObj m) = (distinct (map fst m) \<and> (\<forall>p \<in> set m. json_wf (snd p)))"
| "json_wf _ = True"


section \<open>Go strings\<close>

text \<open>\<^verbatim>\<open>strings.Split(s, sep)\<close> for a one-byte separator, and \<^verbatim>\<open>strings.Join\<close>.\<close>

fun split_on :: "char \<Rightarrow> string \<Rightarrow> string list" where
  "split_on c [] = [[]]"
| "split_on c (x # xs) =
     (if x = c then [] # split_on c xs
      else (case split_on c xs of [] \<Rightarrow> [[x]] | y # ys \<Rightarrow> (x # y) # ys))"

fun join_with :: "string \<Rightarrow> string list \<Rightarrow> string" where
  "join_with sep [] = []"
| "join_with sep [x] = x"
| "join_with sep (x # y # ys) = x @ sep @ join_with sep (y # ys)"

lemma split_on_nonempty [simp]: "split_on c s \<noteq> []"
  by (induction s) (auto split: list.splits)

lemma split_on_free: "c \<notin> set s \<Longrightarrow> split_on c s = [s]"
  by (induction s) auto

lemma split_on_append:
  "c \<notin> set x \<Longrightarrow> split_on c (x @ c # s) = x # split_on c s"
  by (induction x) auto

lemma split_join:
  "xs \<noteq> [] \<Longrightarrow> \<forall>x \<in> set xs. c \<notin> set x \<Longrightarrow> split_on c (join_with [c] xs) = xs"
  by (induction "[c]" xs rule: join_with.induct) (auto simp: split_on_free split_on_append)

lemma split_on_sep_free: "x \<in> set (split_on c s) \<Longrightarrow> c \<notin> set x"
  by (induction s arbitrary: x) (auto split: list.splits if_splits)

text \<open>\<^verbatim>\<open>strings.TrimSpace\<close> on ASCII text.\<close>

definition is_space :: "char \<Rightarrow> bool" where
  "is_space c \<longleftrightarrow> c \<in> {CHR '' '', CHR 0x09, CHR 0x0A, CHR 0x0B, CHR 0x0C, CHR 0x0D}"

definition trim_space :: "string \<Rightarrow> string" where
  "trim_space s = rev (dropWhile is_space (rev (dropWhile is_space s)))"

lemma trim_space_free: "\<forall>c \<in> set s. \<not> is_space c \<Longrightarrow> trim_space s = s"
proof -
  assume a: "\<forall>c \<in> set s. \<not> is_space c"
  have "dropWhile is_space xs = xs" if "\<forall>c \<in> set xs. \<not> is_space c" for xs
    using that by (cases xs) auto
  from this [of s] this [of "rev s"] a show ?thesis by (simp add: trim_space_def)
qed

lemma set_trim_space: "set (trim_space s) \<subseteq> set s"
  unfolding trim_space_def by (metis set_dropWhileD set_rev subsetI)

text \<open>\<^verbatim>\<open>strings.HasSuffix\<close>, \<^verbatim>\<open>strings.HasPrefix\<close>, \<^verbatim>\<open>strings.TrimSuffix\<close>, \<^verbatim>\<open>strings.TrimPrefix\<close>,
  \<^verbatim>\<open>strings.ToLower\<close> and \<^verbatim>\<open>strings.EqualFold\<close> on ASCII text.\<close>

definition has_suffix :: "string \<Rightarrow> string \<Rightarrow> bool" where
  "has_suffix s suf \<longleftrightarrow> suffix suf s"

definition has_prefix :: "string \<Rightarrow> string \<Rightarrow> bool" where
  "has_prefix s pre \<longleftrightarrow> prefix pre s"

definition trim_suffix :: "string \<Rightarrow> string \<Rightarrow> string" where
  "trim_suffix s suf = (if suffix suf s then take (length s - length suf) s else s)"

definition trim_prefix :: "string \<Rightarrow> string \<Rightarrow> string" where
  "trim_prefix s pre = (if prefix pre s then drop (length pre) s else s)"

definition lower_char :: "char \<Rightarrow> char" where
  "lower_char c = (if 65 \<le> (of_char c :: nat) \<and> (of_char c :: nat) \<le> 90
                   then char_of ((of_char c :: nat) + 32) else c)"

definition to_lower :: "string \<Rightarrow> string" where
  "to_lower s = map lower_char s"

definition equal_fold :: "string \<Rightarrow> string \<Rightarrow> bool" where
  "equal_fold a b \<longleftrightarrow> to_lower a = to_lower b"

text \<open>Decimal numerals, as \<^verbatim>\<open>%d\<close> prints them.\<close>

definition digit_char :: "int \<Rightarrow> char" where
  "digit_char n = char_of (48 + n)"

function dec_digits :: "int \<Rightarrow> string" where
  "dec_digits n =
     (if n < 10 then [digit_char n] else dec_digits (n div 10) @ [digit_char (n mod 10)])"
  by pat_completeness auto
termination
  by (relation "measure nat") auto

declare dec_digits.simps [simp del]

definition int_dec :: "int \<Rightarrow> string" where
  "int_dec i = (if i < 0 then ''-'' @ dec_digits (- i) else dec_digits i)"

text \<open>
  \<^verbatim>\<open>fmt.Sprintf\<close> on the verbs the error messages use.  \<open>AQ\<close> is an argument
  printed by \<^verbatim>\<open>%q\<close>: the string in double quotes, with the quote and the
  backslash escaped.
\<close>

datatype fmt_arg = AS string | AQ string | AD int

definition quote_str :: "string \<Rightarrow> string" where
  "quote_str s = [CHR 0x22] @
     concat (map (\<lambda>c. if c = CHR 0x22 \<or> c = CHR 0x5C then [CHR 0x5C, c] else [c]) s) @ [CHR 0x22]"

fun show_arg :: "fmt_arg \<Rightarrow> string" where
  "show_arg (AS s) = s"
| "show_arg (AQ s) = quote_str s"
| "show_arg (AD i) = int_dec i"

text \<open>A \<^verbatim>\<open>%\<close> in the format stands for the next argument.\<close>

fun sprintf :: "string \<Rightarrow> fmt_arg list \<Rightarrow> string" where
  "sprintf [] as = []"
| "sprintf (c # cs) as =
     (if c = CHR 0x25 then (case as of [] \<Rightarrow> c # sprintf cs [] | a # as' \<Rightarrow> show_arg a @ sprintf cs as')
      else c # sprintf cs as)"


text \<open>The three bytes of the ellipsis character and of the dash.\<close>

definition ellipsis :: string where "ellipsis = [CHR 0xE2, CHR 0x80, CHR 0xA6]"
definition em_dash :: string where "em_dash = [CHR 0xE2, CHR 0x80, CHR 0x94]"


section \<open>Go maps and sorted slices\<close>

text \<open>The keys of a map, sorted; the distinct non-empty strings of a slice, sorted
  (the \<^verbatim>\<open>seen\<close> map idiom).\<close>

definition sorted_keys :: "'v gomap \<Rightarrow> string list" where
  "sorted_keys m = sort (map fst m)"

definition dedup_sorted :: "string list \<Rightarrow> string list" where
  "dedup_sorted xs = sort (remdups (filter (\<lambda>x. x \<noteq> '''') xs))"

lemma set_dedup_sorted [simp]: "set (dedup_sorted xs) = set xs - {''''}"
  by (auto simp: dedup_sorted_def)

lemma distinct_dedup_sorted [simp]: "distinct (dedup_sorted xs)"
  by (simp add: dedup_sorted_def)

lemma sorted_dedup_sorted [simp]: "sorted (dedup_sorted xs)"
  by (simp add: dedup_sorted_def)

lemma dedup_sorted_Nil [simp]: "dedup_sorted [] = []"
  by (simp add: dedup_sorted_def)

text \<open>\<^verbatim>\<open>maps.Equal\<close>.\<close>

definition map_equal :: "string gomap \<Rightarrow> string gomap \<Rightarrow> bool" where
  "map_equal a b \<longleftrightarrow> length a = length b \<and> (\<forall>p \<in> set a. map_of b (fst p) = Some (snd p))"

lemma map_equal_map_of:
  assumes "distinct (map fst a)" "distinct (map fst b)"
  shows "map_equal a b \<longleftrightarrow> map_of a = map_of b"
proof
  assume eq: "map_equal a b"
  then have sub: "set a \<subseteq> set b"
    by (auto simp: map_equal_def dest!: bspec map_of_SomeD)
  have "card (set a) = length a" "card (set b) = length b"
    using assms by (auto simp: distinct_map intro!: distinct_card)
  with eq sub have "set a = set b"
    by (intro card_subset_eq) (auto simp: map_equal_def)
  with assms show "map_of a = map_of b"
    by (simp add: map_of_inject_set)
next
  assume eq: "map_of a = map_of b"
  with assms have "set a = set b"
    by (simp add: map_of_inject_set)
  moreover have "card (set a) = length a" "card (set b) = length b"
    using assms by (auto simp: distinct_map intro!: distinct_card)
  ultimately show "map_equal a b"
    using assms by (auto simp: map_equal_def)
qed

lemma map_of_update [simp]: "map_of (AList.update k v m) = (map_of m)(k \<mapsto> v)"
  by (simp add: update_conv')

lemma map_of_del [simp]: "map_of (AList.delete k m) = (map_of m)(k := None)"
  by (simp add: delete_conv')

lemma length_update_le: "length (AList.update k v m) \<le> Suc (length m)"
  by (induction m) auto

lemma length_update_fresh: "map_of m k = None \<Longrightarrow> length (AList.update k v m) = Suc (length m)"
  by (induction m) (auto split: if_splits)

lemma length_update_old: "map_of m k \<noteq> None \<Longrightarrow> length (AList.update k v m) = length m"
  by (induction m) (auto split: if_splits)

lemma length_delete_old:
  "distinct (map fst m) \<Longrightarrow> map_of m k \<noteq> None \<Longrightarrow> Suc (length (AList.delete k m)) = length m"
proof (induction m)
  case (Cons p m)
  obtain a b where p: "p = (a, b)" by (cases p)
  show ?case
  proof (cases "a = k")
    case True
    with Cons.prems p have "k \<notin> fst ` set m" by auto
    with True p show ?thesis by simp
  next
    case False
    with Cons p show ?thesis by auto
  qed
qed simp


section \<open>Error-and-state computations\<close>

text \<open>
  The executor is a sequence of stages, each of which may change the state
  and return early with an error.  A stage is a function from the state to
  the error or result and the new state: an early return keeps every change
  made before it, as in the program.
\<close>

type_synonym ('s, 'e, 'a) em = "'s \<Rightarrow> ('e + 'a) \<times> 's"

definition retE :: "'a \<Rightarrow> ('s, 'e, 'a) em" where
  "retE a = (\<lambda>s. (Inr a, s))"

definition throwE :: "'e \<Rightarrow> ('s, 'e, 'a) em" where
  "throwE e = (\<lambda>s. (Inl e, s))"

definition bindE :: "('s, 'e, 'a) em \<Rightarrow> ('a \<Rightarrow> ('s, 'e, 'b) em) \<Rightarrow> ('s, 'e, 'b) em" where
  "bindE m f = (\<lambda>s. case m s of (Inl e, t) \<Rightarrow> (Inl e, t) | (Inr a, t) \<Rightarrow> f a t)"

definition modifyE :: "('s \<Rightarrow> 's) \<Rightarrow> ('s, 'e, unit) em" where
  "modifyE g = (\<lambda>s. (Inr (), g s))"

definition getE :: "('s \<Rightarrow> 'a) \<Rightarrow> ('s, 'e, 'a) em" where
  "getE g = (\<lambda>s. (Inr (g s), s))"

definition onErrorE :: "('s, 'e, 'a) em \<Rightarrow> ('e \<Rightarrow> 's \<Rightarrow> 's) \<Rightarrow> ('s, 'e, 'a) em" where
  "onErrorE m h = (\<lambda>s. case m s of (Inl e, t) \<Rightarrow> (Inl e, h e t) | (Inr a, t) \<Rightarrow> (Inr a, t))"

definition finallyE :: "('s, 'e, 'a) em \<Rightarrow> ('s \<Rightarrow> 's) \<Rightarrow> ('s, 'e, 'a) em" where
  "finallyE m h = (\<lambda>s. case m s of (r, t) \<Rightarrow> (r, h t))"

lemmas em_defs = retE_def throwE_def bindE_def modifyE_def getE_def onErrorE_def finallyE_def

text \<open>
  Validity: from a state satisfying \<open>P\<close>, a normal return satisfies \<open>Q\<close> and an
  early one \<open>E\<close>.
\<close>

definition validE ::
  "('s \<Rightarrow> bool) \<Rightarrow> ('s, 'e, 'a) em \<Rightarrow> ('a \<Rightarrow> 's \<Rightarrow> bool) \<Rightarrow> ('e \<Rightarrow> 's \<Rightarrow> bool) \<Rightarrow> bool" where
  "validE P m Q E \<longleftrightarrow>
     (\<forall>s. P s \<longrightarrow> (case m s of (Inl e, t) \<Rightarrow> E e t | (Inr a, t) \<Rightarrow> Q a t))"

lemma validE_ret [hoare]: "validE (Q a) (retE a) Q E"
  by (simp add: validE_def retE_def)

lemma validE_throw [hoare]: "validE (E e) (throwE e) Q E"
  by (simp add: validE_def throwE_def)

lemma validE_modify [hoare]: "validE (\<lambda>s. Q () (g s)) (modifyE g) Q E"
  by (simp add: validE_def modifyE_def)

lemma validE_get [hoare]: "validE (\<lambda>s. Q (g s) s) (getE g) Q E"
  by (simp add: validE_def getE_def)

lemma validE_bind:
  assumes "validE P m R E" and "\<And>a. validE (R a) (f a) Q E"
  shows "validE P (bindE m f) Q E"
  using assms by (fastforce simp: validE_def bindE_def split: sum.splits prod.splits)

lemma validE_onError:
  assumes "validE P m Q (\<lambda>e s. E e (h e s))"
  shows "validE P (onErrorE m h) Q E"
  using assms by (fastforce simp: validE_def onErrorE_def split: sum.splits prod.splits)

lemma validE_finally:
  assumes "validE P m (\<lambda>a s. Q a (h s)) (\<lambda>e s. E e (h s))"
  shows "validE P (finallyE m h) Q E"
  using assms by (fastforce simp: validE_def finallyE_def split: sum.splits prod.splits)

lemma validE_weaken:
  assumes "validE P m Q E" and "\<And>s. P' s \<Longrightarrow> P s"
    and "\<And>a s. Q a s \<Longrightarrow> Q' a s" and "\<And>e s. E e s \<Longrightarrow> E' e s"
  shows "validE P' m Q' E'"
  using assms by (fastforce simp: validE_def split: sum.splits prod.splits)

lemma validE_conj:
  assumes "validE P m Q E" and "validE P' m Q' E'"
  shows "validE (\<lambda>s. P s \<and> P' s) m (\<lambda>a s. Q a s \<and> Q' a s) (\<lambda>e s. E e s \<and> E' e s)"
  using assms by (fastforce simp: validE_def split: sum.splits prod.splits)

lemma validE_ok:
  "validE P m Q E \<Longrightarrow> P s \<Longrightarrow> m s = (Inr a, t) \<Longrightarrow> Q a t"
  by (fastforce simp: validE_def)

lemma validE_err:
  "validE P m Q E \<Longrightarrow> P s \<Longrightarrow> m s = (Inl e, t) \<Longrightarrow> E e t"
  by (fastforce simp: validE_def)

text \<open>A computation that keeps an invariant on every path.\<close>

abbreviation keepsE :: "('s \<Rightarrow> bool) \<Rightarrow> ('s, 'e, 'a) em \<Rightarrow> bool" where
  "keepsE I m \<equiv> validE I m (\<lambda>_. I) (\<lambda>_. I)"

lemma keepsE_bind: "keepsE I m \<Longrightarrow> (\<And>a. keepsE I (f a)) \<Longrightarrow> keepsE I (bindE m f)"
  by (rule validE_bind)


text \<open>
  A computation whose final state is related to its initial state on every
  path, for a reflexive and transitive relation: what a stage does not touch,
  or how far it may change what it touches.
\<close>

definition evolves :: "('s \<Rightarrow> 's \<Rightarrow> bool) \<Rightarrow> ('s, 'e, 'a) em \<Rightarrow> bool" where
  "evolves R m \<longleftrightarrow> (\<forall>s. R s (snd (m s)))"

locale evolution =
  fixes R :: "'s \<Rightarrow> 's \<Rightarrow> bool"
  assumes R_refl: "R s s" and R_trans: "R s t \<Longrightarrow> R t u \<Longrightarrow> R s u"
begin

lemma ev_ret: "evolves R (retE a)"
  by (simp add: evolves_def retE_def R_refl)

lemma ev_throw: "evolves R (throwE e)"
  by (simp add: evolves_def throwE_def R_refl)

lemma ev_get: "evolves R (getE g)"
  by (simp add: evolves_def getE_def R_refl)

lemma ev_modify: "(\<And>s. R s (g s)) \<Longrightarrow> evolves R (modifyE g)"
  by (simp add: evolves_def modifyE_def)

lemma ev_bind:
  assumes "evolves R m" and "\<And>a. evolves R (f a)"
  shows "evolves R (bindE m f)"
  unfolding evolves_def
proof
  fix s
  obtain r t where m: "m s = (r, t)" by (cases "m s")
  have "R s t" using assms(1) m by (metis evolves_def snd_conv)
  then show "R s (snd (bindE m f s))"
    using assms(2) R_trans m by (auto simp: bindE_def evolves_def split: sum.split)
qed

lemma ev_onError:
  assumes "evolves R m" and "\<And>e s. R s (h e s)"
  shows "evolves R (onErrorE m h)"
  unfolding evolves_def
proof
  fix s
  obtain r t where m: "m s = (r, t)" by (cases "m s")
  have "R s t" using assms(1) m by (metis evolves_def snd_conv)
  then show "R s (snd (onErrorE m h s))"
    using assms(2) R_trans m by (auto simp: onErrorE_def split: sum.split)
qed

lemma ev_finally:
  assumes "evolves R m" and "\<And>s. R s (h s)"
  shows "evolves R (finallyE m h)"
  unfolding evolves_def
proof
  fix s
  obtain r t where m: "m s = (r, t)" by (cases "m s")
  have "R s t" using assms(1) m by (metis evolves_def snd_conv)
  then show "R s (snd (finallyE m h s))"
    using assms(2) R_trans m by (simp add: finallyE_def)
qed

lemma ev_if: "(b \<Longrightarrow> evolves R m) \<Longrightarrow> (\<not> b \<Longrightarrow> evolves R n) \<Longrightarrow> evolves R (if b then m else n)"
  by simp

lemmas ev_rules = ev_ret ev_throw ev_get ev_modify ev_bind ev_onError ev_finally

end


text \<open>A value or an error, and what follows it.\<close>

definition bindR :: "'e + 'a \<Rightarrow> ('a \<Rightarrow> 'e + 'b) \<Rightarrow> 'e + 'b" where
  "bindR r f = (case r of Inl e \<Rightarrow> Inl e | Inr a \<Rightarrow> f a)"

lemma bindR_simps [simp]: "bindR (Inl e) f = Inl e" "bindR (Inr a) f = f a"
  by (simp_all add: bindR_def)

lemma bindR_Inr [simp]: "bindR r f = Inr b \<longleftrightarrow> (\<exists>a. r = Inr a \<and> f a = Inr b)"
  by (cases r) (simp_all add: bindR_def)


section \<open>Interface contracts\<close>

text \<open>
  A keyed store with a count: the contract between the lease registry and
  the executor that budgets against it.
\<close>

locale keyed_store =
  fixes inv :: "'m \<Rightarrow> bool"
    and get :: "'m \<Rightarrow> 'k \<Rightarrow> 'v option"
    and put :: "'k \<Rightarrow> 'v \<Rightarrow> 'm \<Rightarrow> 'm"
    and del :: "'k \<Rightarrow> 'm \<Rightarrow> 'm"
    and count :: "'m \<Rightarrow> nat"
  assumes get_put: "inv m \<Longrightarrow> get (put k v m) = (get m)(k \<mapsto> v)"
    and get_del: "inv m \<Longrightarrow> get (del k m) = (get m)(k := None)"
    and inv_put: "inv m \<Longrightarrow> inv (put k v m)"
    and inv_del: "inv m \<Longrightarrow> inv (del k m)"
    and count_dom: "inv m \<Longrightarrow> count m = card (dom (get m))"
    and finite_dom: "inv m \<Longrightarrow> finite (dom (get m))"
begin

lemma count_put_fresh: "inv m \<Longrightarrow> get m k = None \<Longrightarrow> count (put k v m) = Suc (count m)"
  by (simp add: count_dom inv_put get_put finite_dom domIff)

lemma count_put_old: "inv m \<Longrightarrow> get m k \<noteq> None \<Longrightarrow> count (put k v m) = count m"
  by (simp add: count_dom inv_put get_put domIff insert_absorb)

lemma count_put_le: "inv m \<Longrightarrow> count (put k v m) \<le> Suc (count m)"
  by (cases "get m k = None") (simp_all add: count_put_fresh count_put_old)

lemma count_put_ge: "inv m \<Longrightarrow> count m \<le> count (put k v m)"
  by (cases "get m k = None") (simp_all add: count_put_fresh count_put_old)

lemma count_del_le: "inv m \<Longrightarrow> count (del k m) \<le> count m"
  by (simp add: count_dom inv_del get_del finite_dom card_Diff1_le)

end

text \<open>
  An invariant of a transition system: it holds initially, every step keeps
  it, hence it holds in every reachable state.
\<close>

locale invariant_system =
  fixes init :: "'s \<Rightarrow> bool" and step :: "'s \<Rightarrow> 's \<Rightarrow> bool" and inv :: "'s \<Rightarrow> bool"
  assumes init_inv: "init s \<Longrightarrow> inv s"
    and step_inv: "inv s \<Longrightarrow> step s t \<Longrightarrow> inv t"
begin

lemma steps_inv: "step\<^sup>*\<^sup>* s t \<Longrightarrow> inv s \<Longrightarrow> inv t"
  by (induction rule: rtranclp_induct) (auto intro: step_inv)

lemma reachable_inv: "init s \<Longrightarrow> step\<^sup>*\<^sup>* s t \<Longrightarrow> inv t"
  using init_inv steps_inv by blast

end

text \<open>
  A bounded log: appending evicts the oldest entry once the capacity is
  reached.
\<close>

locale bounded_log =
  fixes push :: "nat \<Rightarrow> 'a \<Rightarrow> 'a list \<Rightarrow> 'a list"
  assumes push_law: "0 < cap \<Longrightarrow> length xs \<le> cap \<Longrightarrow> push cap x xs = (if length xs \<ge> cap then drop 1 xs else xs) @ [x]"
begin

lemma length_push: "0 < cap \<Longrightarrow> length xs \<le> cap \<Longrightarrow> length (push cap x xs) \<le> cap"
  by (auto simp: push_law)

lemma fold_push_suffix:
  "0 < cap \<Longrightarrow> length xs \<le> cap \<Longrightarrow>
     fold (push cap) ys xs = drop (length xs + length ys - cap) (xs @ ys)"
proof (induction ys arbitrary: xs)
  case (Cons y ys)
  have "length (push cap y xs) \<le> cap"
    using Cons.prems by (rule length_push)
  then have "fold (push cap) (y # ys) xs =
      drop (length (push cap y xs) + length ys - cap) (push cap y xs @ ys)"
    using Cons by simp
  also have "\<dots> = drop (length xs + length (y # ys) - cap) (xs @ y # ys)"
  proof (cases "length xs \<ge> cap")
    case True
    with Cons.prems obtain z zs where "xs = z # zs" "length xs = cap"
      by (cases xs) auto
    then show ?thesis by (simp add: push_law)
  next
    case False
    then show ?thesis using Cons.prems by (simp add: push_law)
  qed
  finally show ?case .
qed simp

end

section \<open>Removing entries of a map\<close>

text \<open>From \<open>ps\<close> to \<open>ps'\<close>, entries are removed, and only those whose keys are in \<open>E\<close>.\<close>

definition removes :: "'k set \<Rightarrow> ('k \<Rightarrow> 'v option) \<Rightarrow> ('k \<Rightarrow> 'v option) \<Rightarrow> bool" where
  "removes E ps ps' \<longleftrightarrow> (\<forall>k. ps' k = ps k \<or> k \<in> E \<and> ps' k = None)"

lemma removes_cases: "removes E ps ps' \<Longrightarrow> ps' k = ps k \<or> k \<in> E \<and> ps' k = None"
  unfolding removes_def by blast

lemma removes_refl [intro]: "removes E ps ps"
  by (simp add: removes_def)

lemma removes_upd: "removes {k} ps (ps(k := None))"
  by (simp add: removes_def)

lemma removes_trans: "removes E ps ps1 \<Longrightarrow> removes F ps1 ps2 \<Longrightarrow> removes (E \<union> F) ps ps2"
  unfolding removes_def by (metis UnCI)

lemma removes_mono: "removes E ps ps' \<Longrightarrow> E \<subseteq> F \<Longrightarrow> removes F ps ps'"
  unfolding removes_def by blast

lemma removes_None: "removes E ps ps' \<Longrightarrow> ps k = None \<Longrightarrow> ps' k = None"
  unfolding removes_def by metis

end
