(* ===== verification/Go_Time.thy ===== *)
theory Go_Time
  imports Simian_Prelude
begin

text \<open>
  Go's \<^verbatim>\<open>time\<close> package as the program uses it.  A time is the number of
  nanoseconds since 0001-01-01T00:00:00Z, so that Go's zero time is \<open>0\<close>; a
  duration is a number of nanoseconds.  The textual forms that reach the
  audit trail and the cluster objects are modelled too: a duration as
  \<^verbatim>\<open>Duration.String\<close> prints it and \<^verbatim>\<open>ParseDuration\<close> reads it, an instant in
  RFC 3339 with whole seconds as \<^verbatim>\<open>Format(time.RFC3339)\<close> prints it and
  \<^verbatim>\<open>time.Parse\<close> reads it.  The round trips are in \<^verbatim>\<open>Go_Time_Facts\<close>.
\<close>

type_synonym gotime = int
type_synonym duration = int

abbreviation (input) is_zero_time :: "gotime \<Rightarrow> bool" where
  "is_zero_time t \<equiv> t = 0"

definition sec :: duration where
  "sec = 1000000000"

definition minute :: duration where
  "minute = 60 * sec"

text \<open>\<^verbatim>\<open>Time.Sub\<close> saturates at the bounds of an int64 duration.\<close>

definition max_duration :: duration where
  "max_duration = 2 ^ 63 - 1"

definition min_duration :: duration where
  "min_duration = - (2 ^ 63)"

definition time_sub :: "gotime \<Rightarrow> gotime \<Rightarrow> duration" where
  "time_sub t u = max min_duration (min max_duration (t - u))"

text \<open>\<^verbatim>\<open>Duration.Round(unit)\<close>: to the nearest multiple, halves away from zero.\<close>

definition round_duration :: "duration \<Rightarrow> duration \<Rightarrow> duration" where
  "round_duration d u =
     (if u \<le> 0 then d
      else if d < 0 then - (((- d) + u div 2) div u * u)
      else (d + u div 2) div u * u)"


section \<open>Durations as text\<close>

text \<open>The fraction of \<open>n / 10 ^ prec\<close> with its point, trailing zeros dropped.\<close>

fun frac_digits :: "int \<Rightarrow> nat \<Rightarrow> string" where
  "frac_digits n 0 = ''''"
| "frac_digits n (Suc p) = frac_digits (n div 10) p @ [digit_char (n mod 10)]"

definition strip_zeros :: "string \<Rightarrow> string" where
  "strip_zeros s = rev (dropWhile (\<lambda>c. c = CHR ''0'') (rev s))"

definition fmt_frac :: "int \<Rightarrow> nat \<Rightarrow> string" where
  "fmt_frac n prec =
     (let f = strip_zeros (frac_digits (n mod 10 ^ prec) prec)
      in if f = '''' then '''' else CHR ''.'' # f)"

definition micro_sign :: string where
  "micro_sign = [CHR 0xC2, CHR 0xB5]"

definition duration_abs_string :: "int \<Rightarrow> string" where
  "duration_abs_string u =
     (if u = 0 then ''0s''
      else if u < 1000 then dec_digits u @ ''ns''
      else if u < 1000000 then dec_digits (u div 10 ^ 3) @ fmt_frac u 3 @ micro_sign @ ''s''
      else if u < 1000000000 then dec_digits (u div 10 ^ 6) @ fmt_frac u 6 @ ''ms''
      else let s = u div 10 ^ 9; ss = dec_digits (s mod 60) @ fmt_frac u 9 @ ''s'';
               m = s div 60
           in if m = 0 then ss
              else if m div 60 = 0 then dec_digits (m mod 60) @ ''m'' @ ss
              else dec_digits (m div 60) @ ''h'' @ dec_digits (m mod 60) @ ''m'' @ ss)"

definition duration_string :: "duration \<Rightarrow> string" where
  "duration_string d =
     (if d < 0 then ''-'' @ duration_abs_string (- d) else duration_abs_string d)"

text \<open>\<^verbatim>\<open>time.ParseDuration\<close>.\<close>

definition is_digit :: "char \<Rightarrow> bool" where
  "is_digit c \<longleftrightarrow> 48 \<le> (of_char c :: int) \<and> (of_char c :: int) \<le> 57"

definition digit_val :: "char \<Rightarrow> int" where
  "digit_val c = of_char c - 48"

definition digits_val :: "string \<Rightarrow> int" where
  "digits_val s = foldl (\<lambda>n c. 10 * n + digit_val c) 0 s"

definition is_unit_char :: "char \<Rightarrow> bool" where
  "is_unit_char c \<longleftrightarrow> c \<noteq> CHR ''.'' \<and> \<not> is_digit c"

definition unit_map :: "(string \<times> int) list" where
  "unit_map = [(''ns'', 1), (''us'', 1000), (micro_sign @ ''s'', 1000),
     ([CHR 0xCE, CHR 0xBC] @ ''s'', 1000), (''ms'', 1000000), (''s'', 1000000000),
     (''m'', 60 * 1000000000), (''h'', 3600 * 1000000000)]"

text \<open>
  One number and its unit, and what is left of the text.  The fraction is
  scaled exactly here; Go scales it in float64, which is exact for every text
  \<^const>\<open>duration_string\<close> produces.
\<close>

definition parse_term :: "string \<Rightarrow> (int \<times> string) option" where
  "parse_term s =
     (let ip = takeWhile is_digit s; r = dropWhile is_digit s;
          has_pt = (r \<noteq> '''' \<and> hd r = CHR ''.'');
          fp = (if has_pt then takeWhile is_digit (tl r) else '''');
          r' = (if has_pt then dropWhile is_digit (tl r) else r);
          u = takeWhile is_unit_char r'; rest = dropWhile is_unit_char r'
      in if ip = '''' \<and> fp = '''' then None
         else case map_of unit_map u of
             None \<Rightarrow> None
           | Some k \<Rightarrow>
               let v = digits_val ip * k + digits_val fp * k div 10 ^ length fp
               in if digits_val ip > 2 ^ 63 div k \<or> v > 2 ^ 63 then None else Some (v, rest))"

text \<open>Each term consumes at least one byte, so the length of the text is fuel enough.\<close>

fun parse_terms :: "nat \<Rightarrow> int \<Rightarrow> string \<Rightarrow> int option" where
  "parse_terms fuel acc [] = Some acc"
| "parse_terms 0 acc (c # cs) = None"
| "parse_terms (Suc fuel) acc (c # cs) =
     (case parse_term (c # cs) of
        None \<Rightarrow> None
      | Some (v, rest) \<Rightarrow> if acc + v > 2 ^ 63 then None else parse_terms fuel (acc + v) rest)"

definition parse_duration :: "string \<Rightarrow> duration option" where
  "parse_duration s0 =
     (let neg = (s0 \<noteq> '''' \<and> hd s0 = CHR ''-'');
          s = (if s0 \<noteq> '''' \<and> (hd s0 = CHR ''-'' \<or> hd s0 = CHR ''+'') then tl s0 else s0)
      in if s = ''0'' then Some 0
         else if s = '''' then None
         else case parse_terms (length s) 0 s of
             None \<Rightarrow> None
           | Some d \<Rightarrow>
               if neg then Some (- d)
               else if d > 2 ^ 63 - 1 then None else Some d)"


section \<open>Instants as text\<close>

definition leap_year :: "int \<Rightarrow> bool" where
  "leap_year y \<longleftrightarrow> y mod 4 = 0 \<and> (y mod 100 \<noteq> 0 \<or> y mod 400 = 0)"

text \<open>Days before January 1st of year \<open>y\<close>, counted from 0001-01-01.\<close>

definition days_before_year :: "int \<Rightarrow> int" where
  "days_before_year y = 365 * (y - 1) + (y - 1) div 4 - (y - 1) div 100 + (y - 1) div 400"

definition month_lengths :: "bool \<Rightarrow> int list" where
  "month_lengths leap = [31, if leap then 29 else 28, 31, 30, 31, 30, 31, 31, 30, 31, 30, 31]"

definition days_before_month :: "bool \<Rightarrow> int \<Rightarrow> int" where
  "days_before_month leap m = sum_list (take (nat (m - 1)) (month_lengths leap))"

text \<open>Month and day of month of a day of the year, both counted from 1.\<close>

fun month_day :: "int list \<Rightarrow> int \<Rightarrow> int \<Rightarrow> int \<times> int" where
  "month_day [] m d = (m, d + 1)"
| "month_day (n # ns) m d = (if d < n then (m, d + 1) else month_day ns (m + 1) (d - n))"

definition year_of_day :: "int \<Rightarrow> int" where
  "year_of_day d =
     (let y = d * 400 div 146097 + 1
      in if d < days_before_year y then y - 1
         else if days_before_year (y + 1) \<le> d then y + 1 else y)"

definition civil_of_day :: "int \<Rightarrow> int \<times> int \<times> int" where
  "civil_of_day d =
     (let y = year_of_day d; md = month_day (month_lengths (leap_year y)) 1 (d - days_before_year y)
      in (y, fst md, snd md))"

definition day_of_civil :: "int \<Rightarrow> int \<Rightarrow> int \<Rightarrow> int" where
  "day_of_civil y m d = days_before_year y + days_before_month (leap_year y) m + d - 1"

definition pad_dec :: "nat \<Rightarrow> int \<Rightarrow> string" where
  "pad_dec w n = frac_digits n w"

text \<open>\<^verbatim>\<open>t.UTC().Format(time.RFC3339)\<close> for the years 1 to 9999.\<close>

definition format_rfc3339 :: "gotime \<Rightarrow> string" where
  "format_rfc3339 t =
     (let s = t div sec; c = civil_of_day (s div 86400); r = s mod 86400
      in pad_dec 4 (fst c) @ ''-'' @ pad_dec 2 (fst (snd c)) @ ''-'' @ pad_dec 2 (snd (snd c)) @ ''T'' @
         pad_dec 2 (r div 3600) @ '':'' @ pad_dec 2 (r div 60 mod 60) @ '':'' @ pad_dec 2 (r mod 60) @ ''Z'')"

definition field :: "nat \<Rightarrow> nat \<Rightarrow> int \<Rightarrow> int \<Rightarrow> string \<Rightarrow> int option" where
  "field i w lo hi s =
     (let f = take w (drop i s)
      in if length f = w \<and> list_all is_digit f \<and> lo \<le> digits_val f \<and> digits_val f \<le> hi
         then Some (digits_val f) else None)"

definition lit_at :: "nat \<Rightarrow> char \<Rightarrow> string \<Rightarrow> bool" where
  "lit_at i c s \<longleftrightarrow> i < length s \<and> s ! i = c"

text \<open>The zone designator: \<open>Z\<close>, or a signed offset of hours and minutes.\<close>

definition parse_zone :: "string \<Rightarrow> int option" where
  "parse_zone z =
     (if z = ''Z'' then Some 0
      else if length z = 6 \<and> (lit_at 0 (CHR ''+'') z \<or> lit_at 0 (CHR ''-'') z) \<and> lit_at 3 (CHR '':'') z
      then (case (field 1 2 0 24 z, field 4 2 0 60 z) of
              (Some h, Some m) \<Rightarrow>
                Some ((if lit_at 0 (CHR ''-'') z then - 1 else 1) * (h * 3600 + m * 60))
            | _ \<Rightarrow> None)
      else None)"

text \<open>\<^verbatim>\<open>time.Parse(time.RFC3339, s)\<close> on the grammar of RFC 3339.\<close>

definition parse_rfc3339 :: "string \<Rightarrow> gotime option" where
  "parse_rfc3339 s =
     (if \<not> (lit_at 4 (CHR ''-'') s \<and> lit_at 7 (CHR ''-'') s \<and> lit_at 10 (CHR ''T'') s \<and>
            lit_at 13 (CHR '':'') s \<and> lit_at 16 (CHR '':'') s) then None
      else case (field 0 4 0 9999 s, field 5 2 1 12 s, field 8 2 1 31 s) of
          (Some y, Some mo, Some d) \<Rightarrow>
            (case (field 11 2 0 23 s, field 14 2 0 59 s, field 17 2 0 59 s) of
               (Some h, Some mi, Some se) \<Rightarrow>
                 (let tail = drop 19 s;
                      frac = (if tail \<noteq> '''' \<and> hd tail = CHR ''.'' then takeWhile is_digit (tl tail) else '''');
                      zone = (if tail \<noteq> '''' \<and> hd tail = CHR ''.'' then dropWhile is_digit (tl tail) else tail);
                      badfrac = (tail \<noteq> '''' \<and> hd tail = CHR ''.'' \<and> frac = '''')
                  in if d > month_lengths (leap_year y) ! nat (mo - 1) \<or> badfrac then None
                     else case parse_zone zone of
                         None \<Rightarrow> None
                       | Some off \<Rightarrow>
                           Some ((day_of_civil y mo d * 86400 + (h * 3600 + mi * 60 + se) - off) * sec
                                 + digits_val (take 9 frac) * 10 ^ (9 - length (take 9 frac))))
             | _ \<Rightarrow> None)
        | _ \<Rightarrow> None)"

text \<open>Truncation to whole seconds: what an RFC 3339 stamp keeps of an instant.\<close>

definition trunc_sec :: "gotime \<Rightarrow> gotime" where
  "trunc_sec t = t div sec * sec"

lemma trunc_sec_le: "trunc_sec t \<le> t"
  unfolding trunc_sec_def sec_def by linarith

lemma trunc_sec_gt: "t - sec < trunc_sec t"
  unfolding trunc_sec_def sec_def by linarith

end
