(* ===== verification/Go_Time_Facts.thy ===== *)
theory Go_Time_Facts
  imports Go_Time
begin

text \<open>
  The round trips of the textual forms: a duration printed and parsed is the
  same duration, an instant printed in RFC 3339 and parsed is the instant
  truncated to whole seconds.  A restarted controller relies on both when it
  reads its predecessor's audit records and object annotations.
\<close>

section \<open>Digits\<close>

lemma of_char_digit: "0 \<le> n \<Longrightarrow> n < 10 \<Longrightarrow> (of_char (digit_char n) :: int) = 48 + n"
  by (simp add: digit_char_def)

lemma digit_char_is_digit: "0 \<le> n \<Longrightarrow> n < 10 \<Longrightarrow> is_digit (digit_char n)"
  by (simp add: is_digit_def of_char_digit)

lemma digit_val_char: "0 \<le> n \<Longrightarrow> n < 10 \<Longrightarrow> digit_val (digit_char n) = n"
  by (simp add: digit_val_def of_char_digit)

lemma digits_val_Nil [simp]: "digits_val [] = 0"
  by (simp add: digits_val_def)

lemma digits_val_snoc [simp]: "digits_val (s @ [c]) = 10 * digits_val s + digit_val c"
  by (simp add: digits_val_def)

lemma digits_val_zeros: "digits_val (s @ replicate k (CHR ''0'')) = digits_val s * 10 ^ k"
proof (induction k)
  case (Suc k)
  have "digits_val (s @ replicate (Suc k) (CHR ''0'')) = digits_val ((s @ replicate k (CHR ''0'')) @ [CHR ''0''])"
    by (simp add: replicate_append_same)
  with Suc show ?case by (simp only: digits_val_snoc) (simp add: digit_val_def)
qed simp

lemma dec_digits_spec:
  "0 \<le> n \<Longrightarrow> dec_digits n \<noteq> [] \<and> list_all is_digit (dec_digits n) \<and> digits_val (dec_digits n) = n"
proof (induction n rule: dec_digits.induct)
  case (1 n)
  show ?case
  proof (cases "n < 10")
    case True
    then show ?thesis
      using "1.prems" digits_val_snoc [of "[]" "digit_char n"]
      by (subst (1 2 3) dec_digits.simps) (simp add: digit_char_is_digit digit_val_char)
  next
    case False
    then have "dec_digits n = dec_digits (n div 10) @ [digit_char (n mod 10)]"
      by (subst dec_digits.simps) simp
    with 1 False show ?thesis by (simp add: digit_char_is_digit digit_val_char)
  qed
qed

lemma frac_digits_spec:
  "0 \<le> n \<Longrightarrow> length (frac_digits n p) = p \<and> list_all is_digit (frac_digits n p)
     \<and> digits_val (frac_digits n p) = n mod 10 ^ p"
proof (induction p arbitrary: n)
  case (Suc p)
  have "10 * (n div 10 mod 10 ^ p) + n mod 10 = n mod (10 * 10 ^ p)"
    using zmod_zmult2_eq [of "10 ^ p" n 10] by simp
  with Suc.IH [of "n div 10"] Suc.prems show ?case
    by (simp add: digit_char_is_digit digit_val_char)
qed simp

text \<open>Dropping the trailing zeros of a fraction.\<close>

lemma strip_zeros_spec: "\<exists>k. s = strip_zeros s @ replicate k (CHR ''0'')"
proof -
  let ?z = "\<lambda>c. c = CHR ''0''"
  have "rev s = takeWhile ?z (rev s) @ dropWhile ?z (rev s)" by simp
  then have "s = rev (dropWhile ?z (rev s)) @ rev (takeWhile ?z (rev s))"
    by (metis rev_append rev_rev_ident)
  moreover have "takeWhile ?z xs = replicate (length (takeWhile ?z xs)) (CHR ''0'')" for xs
    by (induction xs) auto
  ultimately show ?thesis unfolding strip_zeros_def by (metis rev_replicate)
qed

lemma strip_zeros_val:
  assumes "length s = p"
  shows "digits_val (strip_zeros s) * 10 ^ p div 10 ^ length (strip_zeros s) = digits_val s"
proof -
  obtain k where s: "s = strip_zeros s @ replicate k (CHR ''0'')" using strip_zeros_spec by blast
  then have "digits_val s = digits_val (strip_zeros s) * 10 ^ k" by (metis digits_val_zeros)
  moreover from s assms have "p = length (strip_zeros s) + k" by (metis length_append length_replicate)
  ultimately show ?thesis by (simp add: power_add)
qed

lemma list_all_strip: "list_all P s \<Longrightarrow> list_all P (strip_zeros s)"
  using strip_zeros_spec [of s] by (metis list_all_append)


section \<open>Durations\<close>

lemma takeWhile_digits:
  assumes "list_all is_digit s" "r = [] \<or> \<not> is_digit (hd r)"
  shows "takeWhile is_digit (s @ r) = s" "dropWhile is_digit (s @ r) = r"
  using assms by (induction s) (cases r; auto)+

lemma takeWhile_units:
  assumes "list_all is_unit_char u" "r = [] \<or> is_digit (hd r)"
  shows "takeWhile is_unit_char (u @ r) = u" "dropWhile is_unit_char (u @ r) = r"
  using assms by (induction u) (cases r; auto simp: is_unit_char_def)+

lemma unit_not_digit: "is_unit_char c \<Longrightarrow> \<not> is_digit c \<and> c \<noteq> CHR ''.''"
  by (simp add: is_unit_char_def)

lemma point_not_digit [simp]: "\<not> is_digit (CHR ''.'')"
  by (simp add: is_digit_def)

text \<open>A number with a fraction, a unit, and more terms after it.\<close>

lemma parse_term_print:
  assumes a: "0 \<le> a" "a \<le> 2 ^ 63 div 10 ^ p" and n: "0 \<le> n"
    and u: "list_all is_unit_char u" "u \<noteq> []" "map_of unit_map u = Some (10 ^ p)"
    and r: "r = [] \<or> is_digit (hd r)"
    and v: "a * 10 ^ p + n mod 10 ^ p \<le> 2 ^ 63"
  shows "parse_term (dec_digits a @ fmt_frac n p @ u @ r) = Some (a * 10 ^ p + n mod 10 ^ p, r)"
proof -
  define f where "f = strip_zeros (frac_digits (n mod 10 ^ p) p)"
  note d = dec_digits_spec [OF a(1)]
  have fd: "list_all is_digit f" and fv: "digits_val f * 10 ^ p div 10 ^ length f = n mod 10 ^ p"
    using frac_digits_spec [of "n mod 10 ^ p" p] n strip_zeros_val [of "frac_digits (n mod 10 ^ p) p" p]
    by (simp_all add: f_def list_all_strip)
  have hu: "\<not> is_digit (hd u)" "hd u \<noteq> CHR ''.''"
    using u by (cases u; simp add: unit_not_digit)+
  have ur: "hd (u @ r) = hd u" using u by simp
  show ?thesis
  proof (cases "f = []")
    case True
    then have pr: "fmt_frac n p = []" by (simp add: fmt_frac_def f_def)
    have "takeWhile is_digit (dec_digits a @ u @ r) = dec_digits a"
      "dropWhile is_digit (dec_digits a @ u @ r) = u @ r"
      using takeWhile_digits [of "dec_digits a" "u @ r"] d hu ur by auto
    with True pr d u hu ur takeWhile_units [OF u(1) r] fv a v show ?thesis
      by (simp add: parse_term_def Let_def)
  next
    case False
    then have pr: "fmt_frac n p = CHR ''.'' # f" by (simp add: fmt_frac_def f_def Let_def)
    have "takeWhile is_digit (dec_digits a @ CHR ''.'' # f @ u @ r) = dec_digits a"
      "dropWhile is_digit (dec_digits a @ CHR ''.'' # f @ u @ r) = CHR ''.'' # f @ u @ r"
      using takeWhile_digits [of "dec_digits a" "CHR ''.'' # f @ u @ r"] d by auto
    moreover have "takeWhile is_digit (f @ u @ r) = f" "dropWhile is_digit (f @ u @ r) = u @ r"
      using takeWhile_digits [OF fd, of "u @ r"] hu ur by auto
    ultimately show ?thesis
      using False pr d u takeWhile_units [OF u(1) r] fv a v
      by (simp add: parse_term_def Let_def)
  qed
qed

text \<open>A whole number of a unit that is not a power of ten.\<close>

lemma parse_term_whole:
  assumes a: "0 \<le> a" "a \<le> 2 ^ 63 div k" "a * k \<le> 2 ^ 63"
    and u: "list_all is_unit_char u" "u \<noteq> []" "map_of unit_map u = Some k"
    and r: "r = [] \<or> is_digit (hd r)"
  shows "parse_term (dec_digits a @ u @ r) = Some (a * k, r)"
proof -
  note d = dec_digits_spec [OF a(1)]
  have hu: "\<not> is_digit (hd u)" "hd u \<noteq> CHR ''.''"
    using u by (cases u; simp add: unit_not_digit)+
  have ur: "hd (u @ r) = hd u" using u by simp
  have "takeWhile is_digit (dec_digits a @ u @ r) = dec_digits a" "dropWhile is_digit (dec_digits a @ u @ r) = u @ r"
    using takeWhile_digits [of "dec_digits a" "u @ r"] d hu ur by auto
  with d u hu ur takeWhile_units [OF u(1) r] a show ?thesis
    by (simp add: parse_term_def Let_def)
qed

lemma parse_terms_step:
  "s \<noteq> [] \<Longrightarrow> parse_term s = Some (v, r) \<Longrightarrow> acc + v \<le> 2 ^ 63 \<Longrightarrow>
     parse_terms (Suc f) acc s = parse_terms f (acc + v) r"
  by (cases s) auto

lemma parse_terms_done: "parse_terms f acc [] = Some acc"
  by (cases f) simp_all

lemma unit_facts:
  "list_all is_unit_char ''ns''" "list_all is_unit_char (micro_sign @ ''s'')" "list_all is_unit_char ''ms''"
  "list_all is_unit_char ''s''" "list_all is_unit_char ''m''" "list_all is_unit_char ''h''"
  "map_of unit_map ''ns'' = Some (10 ^ 0)" "map_of unit_map (micro_sign @ ''s'') = Some (10 ^ 3)"
  "map_of unit_map ''ms'' = Some (10 ^ 6)" "map_of unit_map ''s'' = Some (10 ^ 9)"
  "map_of unit_map ''m'' = Some 60000000000" "map_of unit_map ''h'' = Some 3600000000000"
  by (simp_all add: is_unit_char_def is_digit_def unit_map_def micro_sign_def)

lemma hd_dec_digits: "0 \<le> n \<Longrightarrow> is_digit (hd (dec_digits n @ r))"
  using dec_digits_spec [of n] by (cases "dec_digits n") auto

lemma dec_digits_nonempty [simp]: "0 \<le> n \<Longrightarrow> dec_digits n \<noteq> []"
  using dec_digits_spec by blast

lemma length_dec_digits: "0 \<le> n \<Longrightarrow> length (dec_digits n) = Suc (length (dec_digits n) - 1)"
  by simp

text \<open>The three shapes of a printed duration, as sequences of terms.\<close>

lemma parse_terms_one:
  assumes "s \<noteq> []" "parse_term s = Some (v, [])" "v \<le> 2 ^ 63"
  shows "parse_terms (length s) 0 s = Some v"
proof -
  from assms(1) obtain f where "length s = Suc f" by (cases s) auto
  with parse_terms_step [OF assms(1,2), of 0 f] assms(3) show ?thesis by (simp add: parse_terms_done)
qed

lemma small_duration:
  assumes "0 < u" "u < 1000000000"
  shows "parse_terms (length (duration_abs_string u)) 0 (duration_abs_string u) = Some u"
proof (rule parse_terms_one)
  have p: "parse_term (dec_digits (u div 10 ^ p) @ fmt_frac u p @ un @ []) = Some (u div 10 ^ p * 10 ^ p + u mod 10 ^ p, [])"
    if "list_all is_unit_char un" "un \<noteq> []" "map_of unit_map un = Some (10 ^ p)" "p \<le> 9" for p un
  proof (rule parse_term_print)
    have "(10 :: int) ^ p \<le> 10 ^ 9" using that(4) by (intro power_increasing) simp_all
    have "u div 10 ^ p \<le> u div 1" using assms by (intro zdiv_mono2) simp_all
    then have "u div 10 ^ p \<le> u" by simp
    have "(2 ^ 63 :: int) div 10 ^ 9 \<le> 2 ^ 63 div 10 ^ p"
      using \<open>10 ^ p \<le> 10 ^ 9\<close> by (intro zdiv_mono2) simp_all
    with \<open>u div 10 ^ p \<le> u\<close> assms show "u div 10 ^ p \<le> 2 ^ 63 div 10 ^ p" by simp
    show "u div 10 ^ p * 10 ^ p + u mod 10 ^ p \<le> 2 ^ 63" using assms by (simp only: div_mult_mod_eq) simp
  qed (use assms that in \<open>simp_all add: pos_imp_zdiv_nonneg_iff\<close>)
  have "parse_term (dec_digits u @ ''ns'' @ []) = Some (u * 1, [])"
    by (rule parse_term_whole) (use assms unit_facts in auto)
  with p [OF unit_facts(2) _ unit_facts(8)] p [OF unit_facts(3) _ unit_facts(9)] assms
  show "parse_term (duration_abs_string u) = Some (u, [])"
    by (simp add: duration_abs_string_def micro_sign_def)
  show "duration_abs_string u \<noteq> []" using assms by (simp add: duration_abs_string_def)
  show "u \<le> 2 ^ 63" using assms by simp
qed

lemma duration_parts:
  fixes s :: int
  assumes "s = m * 60 + z" "m = x * 60 + y"
  shows "s * 10 ^ 9 + fr = x * 3600000000000 + y * 60000000000 + (z * 10 ^ 9 + fr)"
  using assms by simp

lemma large_duration:
  assumes "1000000000 \<le> u" "u \<le> 2 ^ 63"
  shows "parse_terms (length (duration_abs_string u)) 0 (duration_abs_string u) = Some u"
proof -
  define s where "s = u div 10 ^ 9"
  define m where "m = s div 60"
  define fr where "fr = u mod 10 ^ 9"
  define ss where "ss = dec_digits (s mod 60) @ fmt_frac u 9 @ ''s''"
  have u1: "u = s * 10 ^ 9 + fr" and s1: "s = m * 60 + s mod 60" and m1: "m = m div 60 * 60 + m mod 60"
    by (simp_all only: s_def fr_def m_def div_mult_mod_eq)
  have fr0: "0 \<le> fr" "fr < 10 ^ 9" by (simp_all add: fr_def)
  have b: "0 \<le> s mod 60" "s mod 60 < 60" "0 \<le> m mod 60" "m mod 60 < 60" by simp_all
  have s0: "0 < s" "s \<le> 9223372036" using assms by (simp_all add: s_def)
  have m0: "0 \<le> m" "m \<le> 153722867" using s0 s1 b by linarith+
  have h0: "0 \<le> m div 60" "m div 60 \<le> 2562047" using m0 m1 b by linarith+
  define a where "a = s mod 60 * 10 ^ 9 + fr"
  define c where "c = m mod 60 * 60000000000"
  define h where "h = m div 60 * 3600000000000"
  have u: "u = h + c + a" unfolding a_def c_def h_def using duration_parts [OF s1 m1] u1 by simp
  have pos: "0 \<le> a" "0 \<le> c" "0 \<le> h" using fr0 b h0 by (simp_all add: a_def c_def h_def)
  have le: "h \<le> 2 ^ 63" "h + c \<le> 2 ^ 63" "h + c + a \<le> 2 ^ 63" "a \<le> 2 ^ 63" "c \<le> 2 ^ 63" "c + a \<le> 2 ^ 63"
    using pos u assms(2) by linarith+
  have ps: "parse_term ss = Some (a, [])"
    using parse_term_print [of "s mod 60" 9 u "''s''" "[]"] unit_facts(4,10) b assms(1) le(4)
    by (simp add: ss_def a_def fr_def)
  have hs: "ss = [] \<or> is_digit (hd ss)" unfolding ss_def using hd_dec_digits [OF b(1)] by simp
  define ms where "ms = dec_digits (m mod 60) @ ''m'' @ ss"
  have pm: "parse_term ms = Some (c, ss)"
    unfolding ms_def c_def by (rule parse_term_whole) (use b unit_facts(5,11) hs le(5) in \<open>simp_all add: c_def\<close>)
  have hm: "ms = [] \<or> is_digit (hd ms)" unfolding ms_def using hd_dec_digits [OF b(3)] by simp
  define hh where "hh = dec_digits (m div 60) @ ''h'' @ ms"
  have ph: "parse_term hh = Some (h, ms)"
    unfolding hh_def h_def by (rule parse_term_whole) (use h0 unit_facts(6,12) hm le(1) in \<open>simp_all add: h_def\<close>)
  have ne: "ss \<noteq> []" "ms \<noteq> []" "hh \<noteq> []" by (simp_all add: ss_def ms_def hh_def)
  have l1: "parse_terms (Suc f) acc ss = Some (acc + a)" if "acc + a \<le> 2 ^ 63" for f acc
    using parse_terms_step [OF ne(1) ps that] by (simp add: parse_terms_done)
  have l2: "parse_terms (Suc (Suc f)) acc ms = Some (acc + c + a)" if "acc + c + a \<le> 2 ^ 63" for f acc
    using parse_terms_step [OF ne(2) pm, of acc "Suc f"] l1 [of "acc + c" f] that pos by simp
  have l3: "parse_terms (Suc (Suc (Suc f))) 0 hh = Some (h + c + a)" for f
    using parse_terms_step [OF ne(3) ph, of 0 "Suc (Suc f)"] l2 [of h f] le by simp
  have len: "\<exists>f. length ss = Suc f" "\<exists>f. length ms = Suc (Suc f)" "\<exists>f. length hh = Suc (Suc (Suc f))"
  proof -
    show "\<exists>f. length ss = Suc f" using ne(1) by (cases ss) auto
    then show l: "\<exists>f. length ms = Suc (Suc f)" by (auto simp: ms_def)
    then show "\<exists>f. length hh = Suc (Suc (Suc f))" by (auto simp: hh_def)
  qed
  have n: "u \<noteq> 0" "\<not> u < 1000" "\<not> u < 1000000" "\<not> u < 1000000000" using assms(1) by linarith+
  have "duration_abs_string u = (if m = 0 then ss else if m div 60 = 0 then ms else hh)"
    by (simp only: duration_abs_string_def Let_def n if_False s_def [symmetric] m_def [symmetric] ss_def ms_def hh_def)
  moreover have "parse_terms (length ss) 0 ss = Some u" if "m = 0"
  proof -
    have "h = 0" "c = 0" using that by (simp_all add: h_def c_def)
    then have "u = 0 + a" using u by simp
    moreover obtain f where "length ss = Suc f" using len(1) by blast
    ultimately show ?thesis using l1 [of 0 f] le(4) by (simp only: add_0)
  qed
  moreover have "parse_terms (length ms) 0 ms = Some u" if "m div 60 = 0"
  proof -
    have "h = 0" using that by (simp add: h_def)
    then have "u = 0 + c + a" using u by simp
    moreover obtain f where "length ms = Suc (Suc f)" using len(2) by blast
    ultimately show ?thesis using l2 [of 0 f] le(6) by (simp only: add_0)
  qed
  moreover have "parse_terms (length hh) 0 hh = Some u"
  proof -
    obtain f where "length hh = Suc (Suc (Suc f))" using len(3) by blast
    then show ?thesis using l3 [of f] u by (simp only:)
  qed
  ultimately show ?thesis by (simp only: split: if_split) blast
qed

lemma duration_abs_shape:
  assumes "0 \<le> u"
  shows "\<exists>n rest. 0 \<le> n \<and> rest \<noteq> [] \<and> duration_abs_string u = dec_digits n @ rest"
proof -
  have nn: "0 \<le> u div k" if "0 < k" for k using assms that by (simp add: pos_imp_zdiv_nonneg_iff)
  have zero: "dec_digits 0 = ''0''" by code_simp
  let ?P = "\<lambda>x. \<exists>n rest. 0 \<le> n \<and> rest \<noteq> [] \<and> x = dec_digits n @ rest"
  have one: "?P (dec_digits a @ b)" if "0 \<le> a" "b \<noteq> []" for a b
    using that by blast
  have z: "?P ''0s''" using one [of 0 "''s''"] by (simp add: zero)
  have split: "?P (if b then x else y)" if "b \<Longrightarrow> ?P x" "\<not> b \<Longrightarrow> ?P y" for b x y
    using that by simp
  have m: "0 \<le> u div 10 ^ 9 div 60 div 60" using nn [of "10 ^ 9"] by (simp add: pos_imp_zdiv_nonneg_iff)
  show "?P (duration_abs_string u)"
    unfolding duration_abs_string_def Let_def
    by (intro split z one assms nn m) (simp_all add: micro_sign_def)
qed

lemma parse_duration_string:
  assumes "min_duration \<le> d" "d \<le> max_duration"
  shows "parse_duration (duration_string d) = Some d"
proof -
  have abs: "parse_terms (length (duration_abs_string u)) 0 (duration_abs_string u) = Some u"
    if "0 < u" "u \<le> 2 ^ 63" for u
    using small_duration [of u] large_duration [of u] that by linarith
  have sh: "is_digit (hd (duration_abs_string u))" "duration_abs_string u \<noteq> []" "duration_abs_string u \<noteq> ''0''"
    if "0 \<le> u" for u
  proof -
    from duration_abs_shape [OF that] obtain n rest where n: "0 \<le> n" "rest \<noteq> []" "duration_abs_string u = dec_digits n @ rest" by blast
    from hd_dec_digits [OF n(1), of rest] n(3) show "is_digit (hd (duration_abs_string u))" by simp
    from dec_digits_nonempty [OF n(1)] n(2,3) show "duration_abs_string u \<noteq> []" "duration_abs_string u \<noteq> ''0''"
      by (auto simp: append_eq_Cons_conv)
  qed
  have nd: "\<not> is_digit (CHR ''-'')" "\<not> is_digit (CHR ''+'')" by (simp_all add: is_digit_def)
  consider "d = 0" | "d < 0" | "0 < d" by linarith
  then show ?thesis
  proof cases
    case 1
    have "parse_duration (duration_string 0) = Some 0" by code_simp
    with 1 show ?thesis by simp
  next
    case 2
    with assms abs [of "- d"] sh [of "- d"] show ?thesis
      by (simp add: parse_duration_def duration_string_def Let_def min_duration_def)
  next
    case 3
    with assms abs [of d] sh [of d] nd show ?thesis
      by (auto simp: parse_duration_def duration_string_def Let_def max_duration_def)
  qed
qed

section \<open>Instants\<close>

lemma div_next:
  assumes "0 < (k :: int)"
  shows "y div k = (y - 1) div k + (if y mod k = 0 then 1 else 0)"
proof (cases "y mod k = 0")
  case True
  have "y = k * (y div k) + y mod k" by simp
  with True have "y - 1 = k * (y div k - 1) + (k - 1)" by (simp add: algebra_simps)
  from int_div_pos_eq [OF this] assms True show ?thesis by simp
next
  case False
  have "y - 1 = k * (y div k) + (y mod k - 1)" by simp
  moreover have "0 < y mod k" "y mod k < k" using False pos_mod_bound [OF assms, of y] pos_mod_sign [OF assms, of y] by linarith+
  ultimately show ?thesis using False int_div_pos_eq [of "y - 1" k "y div k" "y mod k - 1"] by simp
qed

lemma leap_count:
  fixes a b c a' b' c' y :: int
  assumes "r \<longrightarrow> q" "q \<longrightarrow> p" "a = a' + (if p then 1 else 0)" "b = b' + (if q then 1 else 0)" "c = c' + (if r then 1 else 0)"
  shows "365 * y + a - b + c = 365 * (y - 1) + a' - b' + c' + (if p \<and> (\<not> q \<or> r) then 366 else 365)"
  using assms by (cases p; cases q; cases r) auto

lemma days_before_year_next:
  "days_before_year (y + 1) = days_before_year y + (if leap_year y then 366 else 365)"
proof -
  have "y mod 400 = 0 \<longrightarrow> y mod 100 = 0" "y mod 100 = 0 \<longrightarrow> y mod 4 = 0"
    using mod_mod_cancel [of 100 400 y] mod_mod_cancel [of 4 100 y] by auto
  moreover have "y div 4 = (y - 1) div 4 + (if y mod 4 = 0 then 1 else 0)"
    "y div 100 = (y - 1) div 100 + (if y mod 100 = 0 then 1 else 0)"
    "y div 400 = (y - 1) div 400 + (if y mod 400 = 0 then 1 else 0)" by (rule div_next, simp)+
  ultimately show ?thesis
    unfolding days_before_year_def leap_year_def add_diff_cancel_right' by (rule leap_count)
qed

lemma days_before_year_mono: "a \<le> b \<Longrightarrow> days_before_year a \<le> days_before_year b"
proof (induction rule: int_ge_induct)
  case (step b)
  then show ?case using days_before_year_next [of b] by (simp split: if_splits)
qed simp

lemma year_of_day_bounds:
  assumes "0 \<le> d"
  shows "days_before_year (year_of_day d) \<le> d \<and> d < days_before_year (year_of_day d + 1)"
proof -
  define q where "q = d * 400 div 146097"
  have q: "q * 146097 \<le> d * 400" "d * 400 < q * 146097 + 146097" by (simp_all add: q_def)
  have e: "days_before_year (q + 1) = 365 * q + q div 4 - q div 100 + q div 400" by (simp add: days_before_year_def)
  have lo: "days_before_year (q + 1) \<le> d" unfolding e using q by linarith
  have hi: "d - 1 \<le> days_before_year (q + 1 + 1)" unfolding days_before_year_def using q by simp
  have up: "days_before_year (q + 1 + 1) + 365 \<le> days_before_year (q + 1 + 1 + 1)"
    using days_before_year_next [of "q + 1 + 1"] by simp
  from lo hi up show ?thesis by (auto simp: year_of_day_def Let_def q_def [symmetric])
qed

lemma month_day_spec:
  assumes "0 \<le> d" "d < sum_list ns"
  shows "\<exists>i < length ns. month_day ns m d = (m + int i, d - sum_list (take i ns) + 1)
    \<and> 0 \<le> d - sum_list (take i ns) \<and> d - sum_list (take i ns) < ns ! i"
  using assms
proof (induction ns arbitrary: m d)
  case (Cons n ns)
  show ?case
  proof (cases "d < n")
    case True
    with Cons.prems show ?thesis by (intro exI [of _ 0]) simp
  next
    case False
    with Cons.prems have "0 \<le> d - n" "d - n < sum_list ns" by simp_all
    from Cons.IH [OF this, of "m + 1"] obtain i where "i < length ns"
      "month_day ns (m + 1) (d - n) = (m + 1 + int i, d - n - sum_list (take i ns) + 1)"
      "0 \<le> d - n - sum_list (take i ns)" "d - n - sum_list (take i ns) < ns ! i" by blast
    with False show ?thesis by (intro exI [of _ "Suc i"]) simp
  qed
qed simp

lemma month_lengths_sum: "sum_list (month_lengths leap) = (if leap then 366 else 365)" "length (month_lengths leap) = 12"
  by (simp_all add: month_lengths_def)

lemma month_lengths_le: "i < 12 \<Longrightarrow> month_lengths leap ! i \<le> 31"
proof -
  assume i: "i < 12"
  have "list_all (\<lambda>n. n \<le> 31) (month_lengths leap)" by (simp add: month_lengths_def)
  with i show ?thesis by (simp add: list_all_length month_lengths_sum)
qed

lemma civil_of_day_spec:
  assumes "0 \<le> d" "d < days_before_year 10000"
  obtains y mo da where "civil_of_day d = (y, mo, da)" "day_of_civil y mo da = d" "0 \<le> y" "y \<le> 9999"
    "1 \<le> mo" "mo \<le> 12" "1 \<le> da" "da \<le> month_lengths (leap_year y) ! nat (mo - 1)" "da \<le> 31"
proof -
  define y where "y = year_of_day d"
  have b: "days_before_year y \<le> d" "d < days_before_year (y + 1)" using year_of_day_bounds [OF assms(1)] by (simp_all add: y_def)
  note mono = days_before_year_mono
  have y: "0 \<le> y" "y \<le> 9999"
  proof -
    show "y \<le> 9999" using mono [of 10000 y] b assms(2) by linarith
    have "days_before_year 0 < 0" "days_before_year 1 = 0" by (simp_all add: days_before_year_def)
    then show "0 \<le> y" using mono [of "y + 1" 1] b(2) assms(1) by linarith
  qed
  have "0 \<le> d - days_before_year y" "d - days_before_year y < sum_list (month_lengths (leap_year y))"
    using b days_before_year_next [of y] by (simp_all add: month_lengths_sum)
  from month_day_spec [OF this, of 1] obtain i where i: "i < 12"
    "month_day (month_lengths (leap_year y)) 1 (d - days_before_year y) =
       (1 + int i, d - days_before_year y - sum_list (take i (month_lengths (leap_year y))) + 1)"
    "0 \<le> d - days_before_year y - sum_list (take i (month_lengths (leap_year y)))"
    "d - days_before_year y - sum_list (take i (month_lengths (leap_year y))) < month_lengths (leap_year y) ! i"
    by (auto simp: month_lengths_sum)
  show ?thesis
  proof (rule that)
    show "civil_of_day d = (y, 1 + int i, d - days_before_year y - sum_list (take i (month_lengths (leap_year y))) + 1)"
      using i(2) by (simp add: civil_of_day_def y_def Let_def)
  qed (use i y month_lengths_le [of i "leap_year y"] in \<open>simp_all add: day_of_civil_def days_before_month_def\<close>)
qed

text \<open>Fields of fixed width.\<close>

lemma pad_dec_spec:
  assumes "0 \<le> n" "n < 10 ^ w"
  shows "length (pad_dec w n) = w" "list_all is_digit (pad_dec w n)" "digits_val (pad_dec w n) = n"
  using frac_digits_spec [OF assms(1), of w] assms by (simp_all add: pad_dec_def)

lemma field_at:
  assumes "length p = i" "0 \<le> n" "n < 10 ^ w" "lo \<le> n" "n \<le> hi"
  shows "field i w lo hi (p @ pad_dec w n @ r) = Some n"
  using assms pad_dec_spec [of n w] by (simp add: field_def Let_def)

lemma lit_at_append: "length p = i \<Longrightarrow> lit_at i c (p @ c # r)"
  by (simp add: lit_at_def nth_append)

lemma clock_parts:
  fixes x :: int
  assumes "x = q'" "q' * 60 + z = q" "q * 60 + w = r"
  shows "x * 3600 + z * 60 + w = r"
  using assms by simp

lemma parse_format_rfc3339:
  assumes "0 \<le> t" "t div sec < days_before_year 10000 * 86400"
  shows "parse_rfc3339 (format_rfc3339 t) = Some (trunc_sec t)"
proof -
  define s where "s = t div sec"
  define r where "r = s mod 86400"
  have s0: "0 \<le> s" using assms(1) by (simp add: s_def sec_def pos_imp_zdiv_nonneg_iff)
  have day: "0 \<le> s div 86400" "s div 86400 < days_before_year 10000"
    using s0 assms(2) by (simp_all add: s_def [symmetric] pos_imp_zdiv_nonneg_iff)
  obtain y mo da where c: "civil_of_day (s div 86400) = (y, mo, da)" "day_of_civil y mo da = s div 86400"
    and b: "0 \<le> y" "y \<le> 9999" "1 \<le> mo" "mo \<le> 12" "1 \<le> da" "da \<le> month_lengths (leap_year y) ! nat (mo - 1)" "da \<le> 31"
    using civil_of_day_spec [OF day] by metis
  have r: "0 \<le> r div 3600" "r div 3600 \<le> 23" "0 \<le> r div 60 mod 60" "r div 60 mod 60 \<le> 59" "0 \<le> r mod 60" "r mod 60 \<le> 59"
    by (simp_all add: r_def pos_imp_zdiv_nonneg_iff)
  have "r div 3600 = r div 60 div 60" using zdiv_zmult2_eq [of 60 r 60] by simp
  moreover have "r div 60 div 60 * 60 + r div 60 mod 60 = r div 60" "r div 60 * 60 + r mod 60 = r" by (simp_all only: div_mult_mod_eq)
  ultimately have rsum: "r div 3600 * 3600 + r div 60 mod 60 * 60 + r mod 60 = r" by (rule clock_parts)
  define h where "h = r div 3600"
  define mi where "mi = r div 60 mod 60"
  define se where "se = r mod 60"
  have hb: "0 \<le> h" "h \<le> 23" "0 \<le> mi" "mi \<le> 59" "0 \<le> se" "se \<le> 59" unfolding h_def mi_def se_def by (rule r)+
  have rsum': "h * 3600 + mi * 60 + se = r" unfolding h_def mi_def se_def by (rule rsum)
  define Y where "Y = pad_dec 4 y"
  define M where "M = pad_dec 2 mo"
  define D where "D = pad_dec 2 da"
  define H where "H = pad_dec 2 (h)"
  define I where "I = pad_dec 2 (mi)"
  define S where "S = pad_dec 2 (se)"
  have l: "length Y = 4" "length M = 2" "length D = 2" "length H = 2" "length I = 2" "length S = 2"
    using b hb by (simp_all add: Y_def M_def D_def H_def I_def S_def pad_dec_spec)
  let ?s = "Y @ ''-'' @ M @ ''-'' @ D @ ''T'' @ H @ '':'' @ I @ '':'' @ S @ ''Z''"
  have fs: "format_rfc3339 t = ?s"
    by (simp add: format_rfc3339_def Let_def s_def [symmetric] r_def [symmetric] h_def [symmetric] mi_def [symmetric] se_def [symmetric] c Y_def M_def D_def H_def I_def S_def)
  have lits: "lit_at 4 (CHR ''-'') ?s" "lit_at 7 (CHR ''-'') ?s" "lit_at 10 (CHR ''T'') ?s" "lit_at 13 (CHR '':'') ?s"
    "lit_at 16 (CHR '':'') ?s"
    by (simp_all add: lit_at_def nth_append l)
  have f1: "field 0 4 0 9999 ?s = Some y"
    using field_at [of "[]" 0 y 4 0 9999] b by (simp add: Y_def)
  have f2: "field 5 2 1 12 ?s = Some mo"
    using field_at [of "Y @ ''-''" 5 mo 2 1 12] b l by (simp add: M_def)
  have f3: "field 8 2 1 31 ?s = Some da"
    using field_at [of "Y @ ''-'' @ M @ ''-''" 8 da 2 1 31] b l by (simp add: D_def)
  have f4: "field 11 2 0 23 ?s = Some (h)"
    using field_at [of "Y @ ''-'' @ M @ ''-'' @ D @ ''T''" 11 "h" 2 0 23] hb l by (simp add: H_def)
  have f5: "field 14 2 0 59 ?s = Some (mi)"
    using field_at [of "Y @ ''-'' @ M @ ''-'' @ D @ ''T'' @ H @ '':''" 14 "mi" 2 0 59] hb l by (simp add: I_def)
  have f6: "field 17 2 0 59 ?s = Some (se)"
    using field_at [of "Y @ ''-'' @ M @ ''-'' @ D @ ''T'' @ H @ '':'' @ I @ '':''" 17 "se" 2 0 59] hb l by (simp add: S_def)
  have tl: "drop 19 ?s = ''Z''" by (simp add: l)
  have "(s div 86400 * 86400 + (h * 3600 + mi * 60 + se)) * sec = trunc_sec t"
    unfolding rsum' by (simp add: r_def s_def trunc_sec_def)
  moreover define z where "z = ?s"
  moreover note lits f1 f2 f3 f4 f5 f6 tl
  ultimately show ?thesis
    unfolding fs parse_rfc3339_def z_def [symmetric]
    using b(6) by (simp add: parse_zone_def c(2) Let_def)
qed

end
