(* ===== verification/Simian_Types.thy ===== *)
theory Simian_Types
  imports Go_Time_Facts
begin

text \<open>
  The contract layer \<^verbatim>\<open>src/pkg/simian\<close>: fault manifests, plans, leases, audit
  events, the executor's typed errors, and the driver interface with its
  optional capabilities.  A string-typed Go enumeration (engine, tier, stage,
  rejection reason) stays a string, because the program meets values outside
  the listed constants; the constants are collected in \<open>const_defs\<close>.
\<close>

section \<open>Constants\<close>

definition TierNamespace :: string where [const_defs]: "TierNamespace = ''namespace''"
definition TierNode :: string where [const_defs]: "TierNode = ''node''"
definition TierExternal :: string where [const_defs]: "TierExternal = ''external''"

definition AllTiers :: "string list" where
  "AllTiers = [TierNamespace, TierNode, TierExternal]"

definition SourceDirected :: string where [const_defs]: "SourceDirected = ''directed''"
definition SourceAutonomous :: string where [const_defs]: "SourceAutonomous = ''autonomous''"

definition EngineChaosMesh :: string where [const_defs]: "EngineChaosMesh = ''chaos-mesh''"
definition EngineLitmus :: string where [const_defs]: "EngineLitmus = ''litmus''"
definition EngineNetworkPolicy :: string where [const_defs]: "EngineNetworkPolicy = ''network-policy''"
definition EngineEnvoyFault :: string where [const_defs]: "EngineEnvoyFault = ''envoy-fault''"
definition EngineKubeState :: string where [const_defs]: "EngineKubeState = ''kube-state''"

definition ProbeModeSettle :: string where [const_defs]: "ProbeModeSettle = ''Settle''"
definition ProbeModeSOT :: string where [const_defs]: "ProbeModeSOT = ''SOT''"

definition StageSchema :: string where [const_defs]: "StageSchema = ''schema''"
definition StageSafety :: string where [const_defs]: "StageSafety = ''safety''"
definition StageDriver :: string where [const_defs]: "StageDriver = ''driver''"
definition StageProbe :: string where [const_defs]: "StageProbe = ''probe''"
definition StagePrecheck :: string where [const_defs]: "StagePrecheck = ''precheck''"

definition ReasonSchemaInvalid :: string where [const_defs]: "ReasonSchemaInvalid = ''schema-invalid''"
definition ReasonNamespaceNotEligible :: string where [const_defs]: "ReasonNamespaceNotEligible = ''namespace-not-eligible''"
definition ReasonWorkloadExcluded :: string where [const_defs]: "ReasonWorkloadExcluded = ''workload-excluded''"
definition ReasonTierNotPermitted :: string where [const_defs]: "ReasonTierNotPermitted = ''tier-not-permitted''"
definition ReasonDurationOverCeiling :: string where [const_defs]: "ReasonDurationOverCeiling = ''duration-over-ceiling''"
definition ReasonBudgetExceeded :: string where [const_defs]: "ReasonBudgetExceeded = ''budget-exceeded''"
definition ReasonDriverFailed :: string where [const_defs]: "ReasonDriverFailed = ''driver-failed''"
definition ReasonProbeFailed :: string where [const_defs]: "ReasonProbeFailed = ''probe-failed''"
definition ReasonInjectionFailed :: string where [const_defs]: "ReasonInjectionFailed = ''injection-failed''"
definition ReasonInterrupted :: string where [const_defs]: "ReasonInterrupted = ''interrupted''"
definition ReasonPrecheckFailed :: string where [const_defs]: "ReasonPrecheckFailed = ''precheck-failed''"
definition ReasonTargetIncompatible :: string where [const_defs]: "ReasonTargetIncompatible = ''target-incompatible''"
definition ReasonCannotGate :: string where [const_defs]: "ReasonCannotGate = ''cannot-gate''"
definition ReasonProbeNotConfigured :: string where [const_defs]: "ReasonProbeNotConfigured = ''probe-not-configured''"

definition TargetNamespaceLabel :: string where [const_defs]: "TargetNamespaceLabel = ''simian.chaos/target-namespace''"
definition TargetNamespacesAnnotation :: string where [const_defs]: "TargetNamespacesAnnotation = ''simian.chaos/target-namespaces''"


section \<open>Data\<close>

record target_ref =
  t_Namespace :: string
  t_Kind :: string
  t_Name :: string
  t_Labels :: "string gomap"

record probe_spec =
  p_Name :: string
  p_Type :: string
  p_Mode :: string
  p_Spec :: jobj

text \<open>A nil \<^verbatim>\<open>Spec\<close> is \<^const>\<open>None\<close>: the schema stage tells it from an empty one.\<close>

record fault_manifest =
  m_UID :: string
  m_Source :: string
  m_Engine :: string
  m_APIVersion :: string
  m_ResourceKind :: string
  m_Spec :: "jobj option"
  m_Targets :: "target_ref list"
  m_Duration :: duration
  m_BlastRadiusTier :: string
  m_Probes :: "probe_spec list"
  m_Rationale :: string
  m_PlanID :: string
  m_Annotations :: "string gomap"

record plan_step =
  ps_Order :: int
  ps_Manifest :: fault_manifest
  ps_Rationale :: string
  ps_DurationRationale :: string
  ps_DependsOn :: "int list"

record plan_budget =
  pb_MaxConcurrentFaults :: int
  pb_MinCooldown :: duration
  pb_MaxSeverityTier :: string

record attack_plan =
  ap_PlanID :: string
  ap_Hypothesis :: string
  ap_Steps :: "plan_step list"
  ap_Budget :: plan_budget

record active_fault =
  af_FaultUID :: string
  af_EngineUID :: string
  af_Manifest :: fault_manifest
  af_AppliedAt :: gotime
  af_Deadline :: gotime
  af_Holder :: string
  af_LastBeat :: gotime

record audit_event =
  ae_Event :: string
  ae_FaultUID :: string
  ae_PlanID :: string
  ae_ScenarioID :: string
  ae_Mode :: string
  ae_Reason :: string
  ae_Payload :: jobj

text \<open>The spec as the program reads it: indexing a nil map finds nothing.\<close>

definition spec_map :: "fault_manifest \<Rightarrow> jobj" where
  "spec_map m = (case m_Spec m of None \<Rightarrow> [] | Some s \<Rightarrow> s)"


section \<open>Errors\<close>

text \<open>
  A Go error: a text, the sentinel \<^verbatim>\<open>ErrTargetIncompatible\<close>, or a text that
  wraps another error.
\<close>

datatype goerror = GoErr string | ErrTargetIncompatible | WrapErr string goerror

fun err_text :: "goerror \<Rightarrow> string" where
  "err_text (GoErr s) = s"
| "err_text ErrTargetIncompatible = ''target incompatible''"
| "err_text (WrapErr s e) = s"

text \<open>\<^verbatim>\<open>errors.Join\<close> of the errors collected, by their texts.\<close>

definition join_errors :: "string list \<Rightarrow> goerror option" where
  "join_errors errs = (if errs = [] then None else Some (GoErr (join_with [CHR 0x0A] errs)))"

text \<open>\<^verbatim>\<open>errors.Is(err, ErrTargetIncompatible)\<close>.\<close>

fun is_target_incompatible :: "goerror \<Rightarrow> bool" where
  "is_target_incompatible (GoErr s) = False"
| "is_target_incompatible ErrTargetIncompatible = True"
| "is_target_incompatible (WrapErr s e) = is_target_incompatible e"

record exec_error =
  ee_Stage :: string
  ee_Reason :: string
  ee_Message :: string
  ee_Wrapped :: "goerror option"

definition NewExecutorError :: "string \<Rightarrow> string \<Rightarrow> string \<Rightarrow> goerror option \<Rightarrow> exec_error" where
  "NewExecutorError stage reason msg cause =
     \<lparr>ee_Stage = stage, ee_Reason = reason, ee_Message = msg, ee_Wrapped = cause\<rparr>"

definition ExecutorError_Error :: "exec_error \<Rightarrow> string" where
  "ExecutorError_Error e =
     (case ee_Wrapped e of
        Some w \<Rightarrow> sprintf ''executor[%:%]: %: %''
                   [AS (ee_Stage e), AS (ee_Reason e), AS (ee_Message e), AS (err_text w)]
      | None \<Rightarrow> sprintf ''executor[%:%]: %'' [AS (ee_Stage e), AS (ee_Reason e), AS (ee_Message e)])"

lemma NewExecutorError_sel [simp]:
  "ee_Stage (NewExecutorError st r msg w) = st"
  "ee_Reason (NewExecutorError st r msg w) = r"
  "ee_Message (NewExecutorError st r msg w) = msg"
  "ee_Wrapped (NewExecutorError st r msg w) = w"
  by (simp_all add: NewExecutorError_def)


section \<open>Requests\<close>

text \<open>The values a context carries: who the request is made for, and each target
  namespace's excluded workloads.\<close>

record req_ctx =
  ctx_Actor :: string
  ctx_Excluded :: "string list gomap"

definition WithActor :: "req_ctx \<Rightarrow> string \<Rightarrow> req_ctx" where
  "WithActor ctx actor = (if actor = '''' then ctx else ctx\<lparr>ctx_Actor := actor\<rparr>)"

definition WithExcludedWorkloads :: "req_ctx \<Rightarrow> string list gomap \<Rightarrow> req_ctx" where
  "WithExcludedWorkloads ctx byNamespace = ctx\<lparr>ctx_Excluded := byNamespace\<rparr>"

definition ExcludedWorkloadsFrom :: "req_ctx \<Rightarrow> string \<Rightarrow> string list" where
  "ExcludedWorkloadsFrom ctx ns = (case map_of (ctx_Excluded ctx) ns of None \<Rightarrow> [] | Some xs \<Rightarrow> xs)"


section \<open>Operations on manifests\<close>

definition ParseBlastRadiusTier :: "string \<Rightarrow> string + string" where
  "ParseBlastRadiusTier name =
     (let t = trim_space name
      in if t \<in> set AllTiers then Inr t
         else Inl (sprintf ''unknown blast-radius tier %: must be one of %''
                     [AQ name, AS (join_with '', '' AllTiers)]))"

definition probesInMode :: "fault_manifest \<Rightarrow> string \<Rightarrow> probe_spec list" where
  "probesInMode m mode = filter (\<lambda>p. p_Mode p = mode) (m_Probes m)"

definition SettleProbes :: "fault_manifest \<Rightarrow> probe_spec list" where
  "SettleProbes m = probesInMode m ProbeModeSettle"

definition SOTProbes :: "fault_manifest \<Rightarrow> probe_spec list" where
  "SOTProbes m = probesInMode m ProbeModeSOT"

definition TargetNamespaces :: "fault_manifest \<Rightarrow> string list" where
  "TargetNamespaces m = dedup_sorted (map t_Namespace (m_Targets m))"

definition TargetsNamespace :: "fault_manifest \<Rightarrow> string \<Rightarrow> bool" where
  "TargetsNamespace m ns \<longleftrightarrow> ns = '''' \<or> (\<exists>t \<in> set (m_Targets m). t_Namespace t = ns)"

definition TargetNamespaceMarks :: "fault_manifest \<Rightarrow> string gomap \<times> string gomap" where
  "TargetNamespaceMarks m =
     (let ns = TargetNamespaces m
      in if ns = [] then ([], [])
         else ((if length ns = 1 then [(TargetNamespaceLabel, hd ns)] else []),
               [(TargetNamespacesAnnotation, join_with '','' ns)]))"

definition target_in :: "string \<Rightarrow> target_ref" where
  "target_in ns = \<lparr>t_Namespace = ns, t_Kind = '''', t_Name = '''', t_Labels = []\<rparr>"

definition ObjectTargets :: "string gomap \<Rightarrow> string gomap \<Rightarrow> string \<Rightarrow> target_ref list" where
  "ObjectTargets labels annotations listedIn =
     map target_in
       (case map_of annotations TargetNamespacesAnnotation of
          Some l \<Rightarrow> if l \<noteq> '''' then split_on (CHR '','') l
                    else (case map_of labels TargetNamespaceLabel of
                            Some n \<Rightarrow> if n \<noteq> '''' then [n] else [listedIn]
                          | None \<Rightarrow> [listedIn])
        | None \<Rightarrow> (case map_of labels TargetNamespaceLabel of
                     Some n \<Rightarrow> if n \<noteq> '''' then [n] else [listedIn]
                   | None \<Rightarrow> [listedIn]))"

definition ObjectActsOnNamespace :: "string gomap \<Rightarrow> string gomap \<Rightarrow> string \<Rightarrow> bool" where
  "ObjectActsOnNamespace labels annotations ns =
     (case map_of annotations TargetNamespacesAnnotation of
        None \<Rightarrow> (case map_of labels TargetNamespaceLabel of
                    Some v \<Rightarrow> v = ns
                  | None \<Rightarrow> True)
      | Some l \<Rightarrow> ns \<in> set (split_on (CHR '','') l))"

text \<open>Deep copy of a decoded JSON value, and the audit record of a manifest.\<close>

fun copyJSONValue :: "json \<Rightarrow> json" where
  "copyJSONValue (JObj m) = JObj (map (\<lambda>p. (fst p, copyJSONValue (snd p))) m)"
| "copyJSONValue (JArr xs) = JArr (map copyJSONValue xs)"
| "copyJSONValue v = v"

definition target_record :: "target_ref \<Rightarrow> json" where
  "target_record t = JObj (
     [(''namespace'', JStr (t_Namespace t))]
     @ (if t_Kind t \<noteq> '''' then [(''kind'', JStr (t_Kind t))] else [])
     @ (if t_Name t \<noteq> '''' then [(''name'', JStr (t_Name t))] else [])
     @ (if t_Labels t \<noteq> [] then [(''labels'', JObj (map (\<lambda>p. (fst p, JStr (snd p))) (t_Labels t)))] else []))"

definition AuditRecord :: "fault_manifest \<Rightarrow> jobj" where
  "AuditRecord m =
     [(''engine'', JStr (m_Engine m)),
      (''kind'', JStr (m_ResourceKind m)),
      (''targets'', JArr (map target_record (m_Targets m))),
      (''spec'', copyJSONValue (JObj (spec_map m))),
      (''duration'', JStr (duration_string (m_Duration m)))]
     @ (if m_BlastRadiusTier m \<noteq> '''' then [(''blast_radius_tier'', JStr (m_BlastRadiusTier m))] else [])"

text \<open>
  The duration field of a manifest on the wire: written as a Go duration
  string, read as one or as a nanosecond count.
\<close>

definition rat_trunc :: "rat \<Rightarrow> int" where
  "rat_trunc r = (if r < 0 then - \<lfloor>- r\<rfloor> else \<lfloor>r\<rfloor>)"

text \<open>The conversion of a float64 to a signed integer of a width: the fraction is dropped, and a
  number out of range gives the least integer, as on amd64.\<close>

definition to_signed :: "nat \<Rightarrow> rat \<Rightarrow> int" where
  "to_signed n r =
     (let i = rat_trunc r in if - (2 ^ (n - 1)) \<le> i \<and> i < 2 ^ (n - 1) then i else - (2 ^ (n - 1)))"

text \<open>The conversion of a float64 to an int that gives the same number back; outside the
  int64 range there is none, as on amd64.  \<open>wrap64\<close> is int64 arithmetic.\<close>

definition float_int :: "rat \<Rightarrow> int option" where
  "float_int r = (if r = of_int (rat_trunc r) \<and> - (2 ^ 63) \<le> rat_trunc r \<and> rat_trunc r < 2 ^ 63 then Some (rat_trunc r) else None)"

definition wrap64 :: "int \<Rightarrow> int" where
  "wrap64 i = signed_take_bit 63 i"

lemma wrap64_id: "- (2 ^ 63) \<le> i \<Longrightarrow> i < 2 ^ 63 \<Longrightarrow> wrap64 i = i"
  unfolding wrap64_def by (rule signed_take_bit_int_eq_self) simp_all

definition marshal_duration :: "fault_manifest \<Rightarrow> json" where
  "marshal_duration m = JStr (duration_string (m_Duration m))"

fun unmarshal_duration :: "json option \<Rightarrow> string + duration" where
  "unmarshal_duration None = Inr 0"
| "unmarshal_duration (Some JNull) = Inr 0"
| "unmarshal_duration (Some (JStr s)) =
     (case parse_duration s of
        None \<Rightarrow> Inl ''FaultManifest.duration: time: invalid duration''
      | Some d \<Rightarrow> Inr d)"
| "unmarshal_duration (Some (JNum r)) = Inr (to_signed 64 r)"
| "unmarshal_duration (Some (JInt i)) = Inr i"
| "unmarshal_duration (Some _) = Inl ''FaultManifest.duration: unsupported type''"

text \<open>\<^verbatim>\<open>PlanBudget.UnmarshalJSON\<close> on its \<^verbatim>\<open>min_cooldown\<close> field: absent or null keeps the
  zero, a string is parsed, any other value must be a whole number of
  nanoseconds in the range of an int64.\<close>

fun unmarshal_min_cooldown :: "json option \<Rightarrow> string + duration" where
  "unmarshal_min_cooldown None = Inr 0"
| "unmarshal_min_cooldown (Some JNull) = Inr 0"
| "unmarshal_min_cooldown (Some (JStr s)) =
     (case parse_duration s of
        None \<Rightarrow> Inl ''PlanBudget.min_cooldown: time: invalid duration''
      | Some d \<Rightarrow> Inr d)"
| "unmarshal_min_cooldown (Some (JNum r)) =
     (if of_int \<lfloor>r\<rfloor> = r \<and> min_duration \<le> \<lfloor>r\<rfloor> \<and> \<lfloor>r\<rfloor> \<le> max_duration then Inr \<lfloor>r\<rfloor>
      else Inl ''PlanBudget.min_cooldown: must be duration string or int64 nanoseconds'')"
| "unmarshal_min_cooldown (Some _) =
     Inl ''PlanBudget.min_cooldown: must be duration string or int64 nanoseconds''"


section \<open>The driver interface\<close>

text \<open>
  An engine adapter over a cluster state \<open>'w\<close>.  The drivers themselves are
  parameters of the executor; the optional capabilities are \<^verbatim>\<open>option\<close> fields,
  \<^const>\<open>None\<close> for a driver that does not implement the interface.
  \<^item> \<open>d_Engine\<close>: the engine the driver says it serves;
  \<^item> \<open>d_Apply\<close>: the engine UID or an error, and what the driver says it acted on;
  \<^item> \<open>d_Confirm\<close>: \<^verbatim>\<open>InjectionConfirmer\<close>, the observed state and an error;
  \<^item> \<open>d_CheckTargets\<close>: \<^verbatim>\<open>TargetChecker\<close>;
  \<^item> \<open>d_ReapExpired\<close>: \<^verbatim>\<open>OrphanReaper\<close>, the engine UIDs cleared and an error;
  \<^item> \<open>d_ListLive\<close>: \<^verbatim>\<open>LiveFaultLister\<close>, the live faults and an error.
\<close>

record 'w chaos_driver =
  d_Engine :: string
  d_Apply :: "req_ctx \<Rightarrow> fault_manifest \<Rightarrow> 'w \<Rightarrow> (goerror + string) \<times> jobj \<times> 'w"
  d_Clear :: "string \<Rightarrow> 'w \<Rightarrow> goerror option \<times> 'w"
  d_Confirm :: "(string \<Rightarrow> 'w \<Rightarrow> (string \<times> goerror option) \<times> 'w) option"
  d_CheckTargets :: "(req_ctx \<Rightarrow> fault_manifest \<Rightarrow> 'w \<Rightarrow> goerror option \<times> 'w) option"
  d_ReapExpired :: "(string list \<Rightarrow> gotime \<Rightarrow> 'w \<Rightarrow> (string list \<times> goerror option) \<times> 'w) option"
  d_ListLive :: "(string list \<Rightarrow> gotime \<Rightarrow> 'w \<Rightarrow> (active_fault list \<times> goerror option) \<times> 'w) option"

type_synonym 'w drivers = "'w chaos_driver gomap"


section \<open>Facts about manifests\<close>

lemma set_TargetNamespaces [simp]:
  "set (TargetNamespaces m) = t_Namespace ` set (m_Targets m) - {''''}"
  by (simp add: TargetNamespaces_def)

lemma distinct_TargetNamespaces [simp]: "distinct (TargetNamespaces m)"
  by (simp add: TargetNamespaces_def)

lemma TargetNamespaces_empty_iff:
  "TargetNamespaces m = [] \<longleftrightarrow> (\<forall>t \<in> set (m_Targets m). t_Namespace t = '''')"
proof -
  have "TargetNamespaces m = [] \<longleftrightarrow> set (TargetNamespaces m) = {}"
    by (simp del: set_TargetNamespaces)
  also have "\<dots> \<longleftrightarrow> (\<forall>t \<in> set (m_Targets m). t_Namespace t = '''')"
    unfolding set_TargetNamespaces by auto
  finally show ?thesis .
qed

lemma TargetsNamespace_iff:
  "ns \<noteq> '''' \<Longrightarrow> TargetsNamespace m ns \<longleftrightarrow> ns \<in> set (TargetNamespaces m)"
  by (auto simp: TargetsNamespace_def)

lemma copyJSONValue_id [simp]: "copyJSONValue v = v"
proof (induction v rule: copyJSONValue.induct)
  case (1 m)
  have "map (\<lambda>p. (fst p, copyJSONValue (snd p))) m = m"
    by (rule map_idI) (use 1 in \<open>auto simp: prod_eq_iff\<close>)
  then show ?case by simp
qed (auto simp: map_idI)

section \<open>Properties of the data layer\<close>

text \<open>
  A manifest's duration survives the wire: what \<^verbatim>\<open>MarshalJSON\<close> writes,
  \<^verbatim>\<open>UnmarshalJSON\<close> reads back, for every int64 number of nanoseconds, negative
  ones and the extremes included.
\<close>

theorem duration_wire_roundtrip:
  assumes "- (2 ^ 63) \<le> m_Duration m" "m_Duration m < 2 ^ 63"
  shows "unmarshal_duration (Some (marshal_duration m)) = Inr (m_Duration m)"
  using parse_duration_string [of "m_Duration m"] assms
  by (simp add: marshal_duration_def min_duration_def max_duration_def)

definition empty_manifest :: fault_manifest where
  "empty_manifest = \<lparr>m_UID = '''', m_Source = '''', m_Engine = '''', m_APIVersion = '''', m_ResourceKind = '''',
     m_Spec = None, m_Targets = [], m_Duration = 0, m_BlastRadiusTier = '''', m_Probes = [],
     m_Rationale = '''', m_PlanID = '''', m_Annotations = []\<rparr>"

theorem duration_wire_roundtrip_witness:
  "unmarshal_duration (Some (marshal_duration (empty_manifest\<lparr>m_Duration := 5400000000001\<rparr>))) = Inr 5400000000001"
  using duration_wire_roundtrip [of "empty_manifest\<lparr>m_Duration := 5400000000001\<rparr>"] by simp

text \<open>
  The marks a driver puts on an object tell its targets back: read from
  those labels and annotations, the object's targets are the manifest's target
  namespaces, and it acts on a namespace exactly when the manifest targets it.
  Namespace names contain no comma.
\<close>

theorem namespace_marks_roundtrip:
  assumes "TargetNamespaces m \<noteq> []" "\<forall>ns \<in> set (TargetNamespaces m). CHR '','' \<notin> set ns"
    and marks: "TargetNamespaceMarks m = (labels, annotations)"
  shows "map t_Namespace (ObjectTargets labels annotations listedIn) = TargetNamespaces m
    \<and> (\<forall>ns. ObjectActsOnNamespace labels annotations ns \<longleftrightarrow> ns \<in> set (TargetNamespaces m))"
proof -
  let ?l = "join_with '','' (TargetNamespaces m)"
  have sp: "split_on (CHR '','') ?l = TargetNamespaces m"
    using split_join [OF assms(1), of "CHR '',''"] assms(2) by blast
  obtain ns0 rest where tn: "TargetNamespaces m = ns0 # rest" using assms(1) by (cases "TargetNamespaces m") auto
  have "ns0 \<in> set (TargetNamespaces m)" by (simp only: tn list.set_intros)
  then have "ns0 \<noteq> ''''" by simp
  then have ne: "?l \<noteq> ''''" using tn by (cases rest) auto
  from marks assms(1) have an: "annotations = [(TargetNamespacesAnnotation, ?l)]"
    by (simp add: TargetNamespaceMarks_def Let_def)
  have "map (t_Namespace \<circ> target_in) xs = xs" for xs by (simp add: target_in_def comp_def)
  with an sp ne show ?thesis
    by (simp add: ObjectTargets_def ObjectActsOnNamespace_def del: set_TargetNamespaces)
qed

theorem namespace_marks_roundtrip_witness:
  "map t_Namespace (ObjectTargets (fst (TargetNamespaceMarks (empty_manifest\<lparr>m_Targets := [target_in ''b'', target_in ''a'', target_in ''b'']\<rparr>)))
     (snd (TargetNamespaceMarks (empty_manifest\<lparr>m_Targets := [target_in ''b'', target_in ''a'', target_in ''b'']\<rparr>))) ''x'') = [''a'', ''b'']"
proof -
  let ?m = "empty_manifest\<lparr>m_Targets := [target_in ''b'', target_in ''a'', target_in ''b'']\<rparr>"
  have tn: "TargetNamespaces ?m = [''a'', ''b'']" by code_simp
  obtain l a where la: "TargetNamespaceMarks ?m = (l, a)" by force
  have "map t_Namespace (ObjectTargets l a ''x'') = TargetNamespaces ?m"
    by (rule namespace_marks_roundtrip [OF _ _ la, THEN conjunct1]) (simp_all add: tn del: set_TargetNamespaces)
  then show ?thesis by (simp add: la tn)
qed

end
