(* ===== verification/Catalog_Tiers.thy ===== *)
theory Catalog_Tiers
  imports Simian_Types
begin

text \<open>
  The fault catalog's policy half, \<^verbatim>\<open>src/pkg/catalog/tiers.go\<close> and
  \<^verbatim>\<open>outage.go\<close>: the static blast-radius tier of every fault kind, the per-spec
  re-classification the safety stage applies, and the shape check of the
  composite outage kinds.  The address syntax of package \<^verbatim>\<open>net\<close> is a parameter:
  \<^verbatim>\<open>net.ParseIP\<close> and \<^verbatim>\<open>net.ParseCIDR\<close> are fields of the record \<open>net_pkg\<close>, and an
  \<^verbatim>\<open>*net.IPNet\<close> is its \<^verbatim>\<open>Contains\<close> predicate.
\<close>

definition ChaosMeshZoneOutage :: string where [const_defs]: "ChaosMeshZoneOutage = ''ZoneOutage''"
definition ChaosMeshNodeOutage :: string where [const_defs]: "ChaosMeshNodeOutage = ''NodeOutage''"
definition OutageActionPodFailure :: string where [const_defs]: "OutageActionPodFailure = ''pod-failure''"

section \<open>Baseline tiers\<close>

definition chaosMeshBaseTiers :: "string gomap" where
  "chaosMeshBaseTiers =
     [(''NetworkChaos'', TierNamespace), (''PodChaos'', TierNamespace), (''IOChaos'', TierNamespace),
      (''StressChaos'', TierNamespace), (''TimeChaos'', TierNamespace), (''HTTPChaos'', TierNamespace),
      (''JVMChaos'', TierNamespace), (''DNSChaos'', TierNamespace), (''BlockChaos'', TierNamespace),
      (''KernelChaos'', TierNode), (''PhysicalMachineChaos'', TierNode),
      (''AWSChaos'', TierExternal), (''GCPChaos'', TierExternal), (''AzureChaos'', TierExternal),
      (ChaosMeshZoneOutage, TierNamespace), (ChaosMeshNodeOutage, TierNamespace)]"

definition chaosMeshNonFaultKinds :: "string list" where
  "chaosMeshNonFaultKinds =
     [''Workflow'', ''WorkflowNode'', ''Schedule'', ''StatusCheck'', ''RemoteCluster'',
      ''PhysicalMachine'', ''PodNetworkChaos'', ''PodIOChaos'', ''PodHttpChaos'']"

definition kubeStateNamespaceKinds :: "string list" where
  "kubeStateNamespaceKinds =
     [''ImageUnresolvable'', ''ContainerExitLoop'', ''MemoryLimitSqueeze'', ''Unschedulable'',
      ''JobFailure'', ''SelectorDrift'', ''BackendCrashLoop'', ''UnboundClaim'', ''DependencyStall'',
      ''RolloutStuck'', ''CertExpiry'', ''PDBGridlock'', ''NoOp'']"

definition IsUserFault :: "string \<Rightarrow> string \<Rightarrow> bool" where
  "IsUserFault engine kind =
     (if engine = EngineChaosMesh then kind \<notin> set chaosMeshNonFaultKinds else True)"

definition Classify :: "string \<Rightarrow> string \<Rightarrow> string" where
  "Classify engine kind =
     (if engine = EngineChaosMesh then
        (case map_of chaosMeshBaseTiers kind of Some t \<Rightarrow> t | None \<Rightarrow> TierExternal)
      else if engine = EngineLitmus then TierNamespace
      else if engine = EngineNetworkPolicy then TierNamespace
      else if engine = EngineEnvoyFault then TierNamespace
      else if engine = EngineKubeState then
        (if kind \<in> set kubeStateNamespaceKinds then TierNamespace else TierExternal)
      else TierExternal)"


section \<open>Re-classification by spec\<close>

type_synonym ip = "int list"
type_synonym ipnet = "ip \<Rightarrow> bool"

record net_pkg =
  net_ParseIP :: "string \<Rightarrow> ip option"
  net_ParseCIDR :: "string \<Rightarrow> ip option"

definition parseIP :: "net_pkg \<Rightarrow> string \<Rightarrow> ip option" where
  "parseIP net s = (case net_ParseIP net s of Some a \<Rightarrow> Some a | None \<Rightarrow> net_ParseCIDR net s)"

definition inAnyCIDR :: "ip \<Rightarrow> ipnet list \<Rightarrow> bool" where
  "inAnyCIDR a cidrs \<longleftrightarrow> (\<exists>c \<in> set cidrs. c a)"

definition hasExternalIPTarget :: "net_pkg \<Rightarrow> jobj \<Rightarrow> ipnet list \<Rightarrow> bool" where
  "hasExternalIPTarget net spec clusterCIDRs =
     ((case as_arr (map_of spec ''externalTargets'') of Some arr \<Rightarrow> arr \<noteq> [] | None \<Rightarrow> False) \<or>
      (case as_obj (map_of spec ''target'') of
         None \<Rightarrow> False
       | Some t \<Rightarrow> (case as_str (map_of t ''value'') of
                      None \<Rightarrow> False
                    | Some v \<Rightarrow> v \<noteq> '''' \<and>
                        (case parseIP net v of None \<Rightarrow> False | Some a \<Rightarrow> \<not> inAnyCIDR a clusterCIDRs))))"

definition matchesAnyDomain :: "string \<Rightarrow> string list \<Rightarrow> bool" where
  "matchesAnyDomain pattern clusterDomains =
     (let p = trim_suffix pattern ''.''
      in \<exists>d0 \<in> set clusterDomains. let d = trim_suffix d0 ''.'' in has_suffix p (''.'' @ d) \<or> p = d)"

definition hasExternalDNSPattern :: "jobj \<Rightarrow> string list \<Rightarrow> bool" where
  "hasExternalDNSPattern spec clusterDomains =
     (case as_arr (map_of spec ''patterns'') of
        None \<Rightarrow> False
      | Some ps \<Rightarrow> (\<exists>p \<in> set ps. case as_str (Some p) of
                                  None \<Rightarrow> False
                                | Some s \<Rightarrow> \<not> matchesAnyDomain s clusterDomains))"

definition ReclassifyForSpec ::
  "net_pkg \<Rightarrow> fault_manifest \<Rightarrow> ipnet list \<Rightarrow> string list \<Rightarrow> string" where
  "ReclassifyForSpec net m clusterCIDRs clusterDomains =
     (let current = (if m_BlastRadiusTier m = '''' then Classify (m_Engine m) (m_ResourceKind m)
                     else m_BlastRadiusTier m)
      in if m_Engine m \<noteq> EngineChaosMesh then current
         else if m_ResourceKind m = ''NetworkChaos'' \<and> hasExternalIPTarget net (spec_map m) clusterCIDRs
         then TierExternal
         else if m_ResourceKind m = ''DNSChaos'' \<and> hasExternalDNSPattern (spec_map m) clusterDomains
         then TierExternal
         else current)"

definition DefaultClusterDomains :: "string list" where
  "DefaultClusterDomains = [''svc.cluster.local'', ''cluster.local'']"


section \<open>Outage kinds\<close>

definition IsOutageKind :: "string \<Rightarrow> string \<Rightarrow> bool" where
  "IsOutageKind engine kind \<longleftrightarrow>
     engine = EngineChaosMesh \<and> (kind = ChaosMeshZoneOutage \<or> kind = ChaosMeshNodeOutage)"

definition outagePlaceField :: "string \<Rightarrow> string" where
  "outagePlaceField kind = (if kind = ChaosMeshNodeOutage then ''node'' else ''zone'')"

definition OutagePlace :: "fault_manifest \<Rightarrow> string \<times> string" where
  "OutagePlace m =
     (let f = outagePlaceField (m_ResourceKind m)
      in (f, trim_space (str_or_empty (map_of (spec_map m) f))))"

definition OutageAction :: "jobj \<Rightarrow> string" where
  "OutageAction spec =
     (let a = str_or_empty (map_of spec ''action'')
      in if a \<noteq> '''' then a else OutageActionPodFailure)"

definition CheckOutageManifest :: "fault_manifest \<Rightarrow> string option" where
  "CheckOutageManifest m =
     (if \<not> IsOutageKind (m_Engine m) (m_ResourceKind m) then None
      else
        let kind = m_ResourceKind m; f = fst (OutagePlace m); place = snd (OutagePlace m);
            unknown = sort (filter (\<lambda>k. k \<notin> {f, ''action''}) (map fst (spec_map m)));
            a = OutageAction (spec_map m); ns = TargetNamespaces m
        in if unknown \<noteq> [] then
             Some (sprintf ''% spec has unknown field(s) %; it takes only % and % % it picks the pods itself''
                     [AS kind, AS (join_with '', '' unknown), AQ f, AQ ''action'', AS em_dash])
           else if place = '''' then
             Some (sprintf ''% spec needs %: the % whose arena pods go down'' [AS kind, AQ f, AS f])
           else if a \<noteq> OutageActionPodFailure then
             Some (sprintf ''% action % is not supported; the only action is %''
                     [AS kind, AQ a, AQ OutageActionPodFailure])
           else if length ns \<noteq> 1 then
             Some (sprintf ''% acts on one arena; targets name % namespaces (%)''
                     [AS kind, AD (int (length ns)), AS (join_with '', '' ns)])
           else None)"


section \<open>Facts\<close>

lemma chaosMeshBaseTiers_tier:
  "map_of chaosMeshBaseTiers kind = Some t \<Longrightarrow> t \<in> set AllTiers"
proof -
  assume "map_of chaosMeshBaseTiers kind = Some t"
  then have "t \<in> set (map snd chaosMeshBaseTiers)"
    by (force dest: map_of_SomeD)
  moreover have "list_all (\<lambda>x. x \<in> set AllTiers) (map snd chaosMeshBaseTiers)"
    by code_simp
  ultimately show ?thesis by (simp only: list_all_iff)
qed

lemma Classify_tier: "Classify engine kind \<in> set AllTiers"
proof -
  have "TierExternal \<in> set AllTiers" "TierNamespace \<in> set AllTiers"
    by (simp_all add: AllTiers_def)
  then show ?thesis
    by (simp add: Classify_def chaosMeshBaseTiers_tier split: option.split)
qed

text \<open>
  What a spec may change about the tier: nothing, or an escalation to
  external.  The tier the rule starts from is the manifest's own declaration
  when it makes one.
\<close>

lemma ReclassifyForSpec_cases:
  "ReclassifyForSpec net m cidrs doms = TierExternal \<or>
   ReclassifyForSpec net m cidrs doms =
     (if m_BlastRadiusTier m = '''' then Classify (m_Engine m) (m_ResourceKind m) else m_BlastRadiusTier m)"
  by (simp add: ReclassifyForSpec_def Let_def)

section \<open>Properties of the catalog\<close>

text \<open>The tiers by reach.\<close>

definition tier_rank :: "string \<Rightarrow> nat" where
  "tier_rank t = (if t = TierExternal then 2 else if t = TierNode then 1 else 0)"

lemma tier_rank_le: "tier_rank t \<le> tier_rank TierExternal"
  by (simp add: tier_rank_def)



text \<open>
  A declared tier is taken on trust: a manifest for a node-tier kind that
  declares the namespace tier is classified as namespace tier, below the
  catalog's tier for its kind.
\<close>

theorem declared_tier_lowers:
  "Classify EngineChaosMesh ''KernelChaos'' = TierNode
   \<and> ReclassifyForSpec net (empty_manifest\<lparr>m_Engine := EngineChaosMesh, m_ResourceKind := ''KernelChaos'',
        m_BlastRadiusTier := TierNamespace\<rparr>) cidrs doms = TierNamespace"
proof
  show "Classify EngineChaosMesh ''KernelChaos'' = TierNode" by code_simp
  show "ReclassifyForSpec net (empty_manifest\<lparr>m_Engine := EngineChaosMesh, m_ResourceKind := ''KernelChaos'',
        m_BlastRadiusTier := TierNamespace\<rparr>) cidrs doms = TierNamespace"
    by (simp add: ReclassifyForSpec_def Let_def TierNamespace_def)
qed

text \<open>
  An outage manifest is accepted exactly when its spec has no field but
  the place and the action, the place is not blank, the action is absent or
  the supported one, and the targets name exactly one namespace.
\<close>

theorem CheckOutageManifest_accepts:
  assumes "IsOutageKind (m_Engine m) (m_ResourceKind m)"
  shows "CheckOutageManifest m = None \<longleftrightarrow>
     (let f = outagePlaceField (m_ResourceKind m)
      in set (map fst (spec_map m)) \<subseteq> {f, ''action''}
         \<and> trim_space (str_or_empty (map_of (spec_map m) f)) \<noteq> ''''
         \<and> str_or_empty (map_of (spec_map m) ''action'') \<in> {'''', OutageActionPodFailure}
         \<and> length (TargetNamespaces m) = 1)"
proof -
  let ?f = "outagePlaceField (m_ResourceKind m)"
  have u: "sort (filter (\<lambda>k. k \<notin> {?f, ''action''}) (map fst (spec_map m))) = [] \<longleftrightarrow>
      set (map fst (spec_map m)) \<subseteq> {?f, ''action''}"
  proof -
    have "sort xs = [] \<longleftrightarrow> xs = []" for xs :: "string list"
      by (metis sort_key_simps(1) set_empty set_sort)
    then show ?thesis by (auto simp: filter_empty_conv)
  qed
  have a: "OutageAction (spec_map m) = OutageActionPodFailure \<longleftrightarrow>
      str_or_empty (map_of (spec_map m) ''action'') \<in> {'''', OutageActionPodFailure}"
    by (auto simp: OutageAction_def Let_def)
  show ?thesis
    using assms unfolding CheckOutageManifest_def Let_def OutagePlace_def fst_conv snd_conv u [symmetric] a [symmetric]
    by (simp del: sort_key_simps)
qed

theorem CheckOutageManifest_accepts_witness:
  "CheckOutageManifest (empty_manifest\<lparr>m_Engine := EngineChaosMesh, m_ResourceKind := ChaosMeshZoneOutage,
     m_Spec := Some [(''zone'', JStr ''us-a'')], m_Targets := [target_in ''shop'']\<rparr>) = None"
proof -
  let ?m = "empty_manifest\<lparr>m_Engine := EngineChaosMesh, m_ResourceKind := ChaosMeshZoneOutage,
     m_Spec := Some [(''zone'', JStr ''us-a'')], m_Targets := [target_in ''shop'']\<rparr>"
  have k: "IsOutageKind (m_Engine ?m) (m_ResourceKind ?m)" by code_simp
  have c: "outagePlaceField (m_ResourceKind ?m) = ''zone''" "map fst (spec_map ?m) = [''zone'']"
    "trim_space (str_or_empty (map_of (spec_map ?m) ''zone'')) = ''us-a''" "str_or_empty (map_of (spec_map ?m) ''action'') = ''''"
    "TargetNamespaces ?m = [''shop'']"
    by code_simp+
  show ?thesis unfolding CheckOutageManifest_accepts [OF k] Let_def c by simp
qed

end
