(* ===== verification/Selector_Scope.thy ===== *)
theory Selector_Scope
  imports Catalog_Tiers
begin

text \<open>
  Where a fault acts, as opposed to where it says it acts: namespace
  eligibility (\<^verbatim>\<open>eligibility.go\<close>), the walk that finds every pod selector in a
  spec and narrows or rejects it (\<^verbatim>\<open>nsscope.go\<close>), the resolution of workload
  labels (\<^verbatim>\<open>workloads.go\<close>) and the narrowing of the pod selector
  (\<^verbatim>\<open>podscope.go\<close>), all of \<^verbatim>\<open>src/pkg/executor\<close>.

  The Go walk keeps pointers to the live selector nodes and mutates them.  A
  site here carries the access path of its node, and the mutation is an
  update of the spec at that path; a node the mutation of an enclosing one
  has detached from the spec is left alone, as the Go code then mutates only
  the detached map.

  The checks run on the manifest and the cluster state: a query may change
  the latter, and may fail.
\<close>

section \<open>Checks on a manifest and a cluster\<close>

type_synonym ('w, 'a) mcheck = "(fault_manifest \<times> 'w, exec_error, 'a) em"

definition queryE :: "('w \<Rightarrow> 'r \<times> 'w) \<Rightarrow> ('w, 'r) mcheck" where
  "queryE q = (\<lambda>(m, w). case q w of (r, w') \<Rightarrow> (Inr r, (m, w')))"

definition modManifestE :: "(fault_manifest \<Rightarrow> fault_manifest) \<Rightarrow> ('w, unit) mcheck" where
  "modManifestE f = modifyE (\<lambda>(m, w). (f m, w))"

abbreviation manifestE :: "('w, fault_manifest) mcheck" where
  "manifestE \<equiv> getE fst"

lemma validE_query [hoare]:
  "validE (\<lambda>(m, w). \<forall>r w'. q w = (r, w') \<longrightarrow> Q r (m, w')) (queryE q) Q E"
  by (auto simp: validE_def queryE_def split: prod.split)


section \<open>Eligibility\<close>

record 'w eligibility =
  el_IsEligible :: "string \<Rightarrow> 'w \<Rightarrow> (goerror + bool) \<times> 'w"
  el_ExcludedWorkloads :: "string \<Rightarrow> 'w \<Rightarrow> (goerror + string list) \<times> 'w"

record static_eligibility =
  se_Eligible :: "bool gomap"
  se_Exclusions :: "string list gomap"

definition StaticEligibility :: "static_eligibility \<Rightarrow> 'w eligibility" where
  "StaticEligibility s =
     \<lparr>el_IsEligible = (\<lambda>ns w. (Inr (map_of (se_Eligible s) ns = Some True), w)),
      el_ExcludedWorkloads = (\<lambda>ns w. (Inr (case map_of (se_Exclusions s) ns of None \<Rightarrow> [] | Some l \<Rightarrow> l), w))\<rparr>"

definition ParseExcludeAnnotation :: "string \<Rightarrow> string list" where
  "ParseExcludeAnnotation v =
     (if v = '''' then [] else filter (\<lambda>p. p \<noteq> '''') (map trim_space (split_on (CHR '','') v)))"


section \<open>Selector-shaped nodes\<close>

definition k_selector :: string where [const_defs]: "k_selector = ''selector''"
definition k_namespaces :: string where [const_defs]: "k_namespaces = ''namespaces''"
definition k_pods :: string where [const_defs]: "k_pods = ''pods''"
definition k_labelSelectors :: string where [const_defs]: "k_labelSelectors = ''labelSelectors''"

definition selectorFieldNames :: "string list" where
  "selectorFieldNames = [k_selector, ''podSelector'', ''containerSelector'']"

definition selectorMarkerKeys :: "string list" where
  "selectorMarkerKeys =
     [k_namespaces, k_labelSelectors, ''expressionSelectors'', ''annotationSelectors'',
      ''fieldSelectors'', ''podPhaseSelectors'', ''nodeSelectors'', ''nodes'', k_pods]"

definition opaqueMapFields :: "string list" where
  "opaqueMapFields =
     [k_labelSelectors, ''annotationSelectors'', ''fieldSelectors'', ''nodeSelectors'', k_pods]"

definition specScopeExempt :: "string list" where
  "specScopeExempt = [EngineNetworkPolicy, EngineEnvoyFault]"

datatype jstep = Key string | Idx nat

record selector_site =
  s_path :: string
  s_at :: "jstep list"
  s_node :: jobj
  s_namespaces :: "string list"

fun is_composite :: "json \<Rightarrow> bool" where
  "is_composite (JArr _) = True"
| "is_composite (JObj _) = True"
| "is_composite _ = False"

definition hasSelectorMarker :: "jobj \<Rightarrow> bool" where
  "hasSelectorMarker n \<longleftrightarrow>
     (\<exists>k \<in> set selectorMarkerKeys. case map_of n k of None \<Rightarrow> False | Some v \<Rightarrow> is_composite v)"

definition str_elems :: "json list \<Rightarrow> string list" where
  "str_elems xs = concat (map (\<lambda>v. case v of JStr s \<Rightarrow> [s] | _ \<Rightarrow> []) xs)"

definition namespacesIn :: "jobj \<Rightarrow> string list" where
  "namespacesIn n = dedup_sorted
     ((case as_arr (map_of n k_namespaces) of None \<Rightarrow> [] | Some arr \<Rightarrow> str_elems arr)
      @ (case as_obj (map_of n k_pods) of None \<Rightarrow> [] | Some pods \<Rightarrow> map fst pods))"

definition is_selector :: "string \<Rightarrow> jobj \<Rightarrow> bool" where
  "is_selector key n \<longleftrightarrow> key \<in> set selectorFieldNames \<or> hasSelectorMarker n"

lemma size_map_of: "map_of n k = Some v \<Longrightarrow> size v < Suc (size_list (size_prod (\<lambda>_. 0) size) n)"
  by (induction n) (auto split: if_splits)

function walkForSelectors :: "json \<Rightarrow> string \<Rightarrow> string \<Rightarrow> jstep list \<Rightarrow> selector_site list" where
  "walkForSelectors (JObj n) path key ap =
     (if is_selector key n
      then [\<lparr>s_path = path, s_at = ap, s_node = n, s_namespaces = namespacesIn n\<rparr>] else [])
     @ concat (map (\<lambda>k. if k \<in> set opaqueMapFields then []
                        else (case map_of n k of
                                None \<Rightarrow> []
                              | Some v \<Rightarrow> walkForSelectors v (path @ ''.'' @ k) k (ap @ [Key k])))
                (sorted_keys n))"
| "walkForSelectors (JArr xs) path key ap =
     concat (map (\<lambda>i. walkForSelectors (xs ! i) (path @ ''['' @ int_dec (int i) @ '']'') '''' (ap @ [Idx i]))
               [0..<length xs])"
| "walkForSelectors JNull path key ap = []"
| "walkForSelectors (JBool b) path key ap = []"
| "walkForSelectors (JNum q) path key ap = []"
| "walkForSelectors (JInt i) path key ap = []"
| "walkForSelectors (JStr s) path key ap = []"
  by pat_completeness auto
termination
proof (relation "measure (\<lambda>(j, _, _, _). size j)", goal_cases)
  case (2 n path key ap k v)
  then show ?case using size_map_of [of n k v] by simp
next
  case (3 xs path key ap i)
  then have "xs ! i \<in> set xs" by simp
  then show ?case by (simp add: less_Suc_eq_le size_list_estimation')
qed simp

definition findSelectorSites :: "jobj \<Rightarrow> selector_site list" where
  "findSelectorSites spec = walkForSelectors (JObj spec) ''spec'' '''' []"

text \<open>The update of a node at an access path; no change where the path does not lead to
  a map.\<close>

fun update_at :: "jstep list \<Rightarrow> (jobj \<Rightarrow> jobj) \<Rightarrow> json \<Rightarrow> json" where
  "update_at [] f (JObj m) = JObj (f m)"
| "update_at (Key k # p) f (JObj m) =
     (case map_of m k of
        None \<Rightarrow> JObj m
      | Some c \<Rightarrow> JObj (AList.update k (update_at p f c) m))"
| "update_at (Idx i # p) f (JArr xs) =
     (if i < length xs then JArr (xs[i := update_at p f (xs ! i)]) else JArr xs)"
| "update_at p f v = v"

definition update_spec_at :: "jstep list \<Rightarrow> (jobj \<Rightarrow> jobj) \<Rightarrow> fault_manifest \<Rightarrow> fault_manifest" where
  "update_spec_at p f m =
     (case m_Spec m of
        None \<Rightarrow> m
      | Some sp \<Rightarrow> m\<lparr>m_Spec := as_obj (Some (update_at p f (JObj sp)))\<rparr>)"

definition toAnySlice :: "string list \<Rightarrow> json" where
  "toAnySlice ss = JArr (map JStr ss)"

definition put_namespaces :: "string list \<Rightarrow> jobj \<Rightarrow> jobj" where
  "put_namespaces tns n = AList.update k_namespaces (toAnySlice tns) n"


section \<open>Namespace scope of a spec\<close>

definition scope_lookup_error :: "string \<Rightarrow> string \<Rightarrow> goerror \<Rightarrow> exec_error" where
  "scope_lookup_error ns path err = NewExecutorError StageSafety ReasonNamespaceNotEligible
     (sprintf ''eligibility lookup failed for % named at %'' [AS ns, AS path]) (Some err)"

definition scope_ineligible_error :: "string \<Rightarrow> string \<Rightarrow> exec_error" where
  "scope_ineligible_error path ns = NewExecutorError StageSafety ReasonNamespaceNotEligible
     (sprintf ''% names namespace %, which is not eligible for chaos'' [AS path, AQ ns]) None"

text \<open>The inner loop: each namespace a site names is looked up once, the answers are
  kept in \<open>cache\<close>.\<close>

definition lookup_eligible ::
  "'w eligibility \<Rightarrow> string \<Rightarrow> string \<Rightarrow> bool gomap \<Rightarrow> ('w, bool gomap) mcheck" where
  "lookup_eligible elig path ns cache =
     (case map_of cache ns of
        Some _ \<Rightarrow> retE cache
      | None \<Rightarrow> bindE (queryE (el_IsEligible elig ns)) (\<lambda>r.
          case r of
            Inl err \<Rightarrow> throwE (scope_lookup_error ns path err)
          | Inr ok \<Rightarrow> retE (AList.update ns ok cache)))"

fun check_site_namespaces ::
  "'w eligibility \<Rightarrow> string \<Rightarrow> string list \<Rightarrow> bool gomap \<Rightarrow> ('w, bool gomap) mcheck" where
  "check_site_namespaces elig path [] cache = retE cache"
| "check_site_namespaces elig path (ns # nss) cache =
     bindE (lookup_eligible elig path ns cache) (\<lambda>cache'.
       if map_of cache' ns = Some True then check_site_namespaces elig path nss cache'
       else throwE (scope_ineligible_error path ns))"

fun scope_sites ::
  "'w eligibility \<Rightarrow> string list \<Rightarrow> selector_site list \<Rightarrow> string list \<Rightarrow> bool gomap \<Rightarrow> ('w, string list) mcheck" where
  "scope_sites elig tns [] narrowed cache = retE narrowed"
| "scope_sites elig tns (s # ss) narrowed cache =
     (if s_namespaces s = []
      then bindE (modManifestE (update_spec_at (s_at s) (put_namespaces tns)))
             (\<lambda>_. scope_sites elig tns ss (narrowed @ [s_path s]) cache)
      else bindE (check_site_namespaces elig (s_path s) (s_namespaces s) cache)
             (\<lambda>cache'. scope_sites elig tns ss narrowed cache'))"

definition validateSpecNamespaceScope :: "'w eligibility \<Rightarrow> ('w, string list) mcheck" where
  "validateSpecNamespaceScope elig = bindE manifestE (\<lambda>m.
     if m_Engine m \<in> set specScopeExempt \<or> spec_map m = [] then retE []
     else if TargetNamespaces m = [] then
       throwE (NewExecutorError StageSafety ReasonNamespaceNotEligible
         ''manifest has no target namespace to scope the spec selector to'' None)
     else scope_sites elig (TargetNamespaces m) (findSelectorSites (spec_map m)) [] [])"


section \<open>Workload labels\<close>

type_synonym 'w workload_selectors = "string \<Rightarrow> string \<Rightarrow> string \<Rightarrow> 'w \<Rightarrow> (goerror + string gomap) \<times> 'w"

text \<open>\<^verbatim>\<open>resolveTargetLabels\<close>, over the targets in order; \<open>(resolved, failed)\<close>.\<close>

fun resolve_targets ::
  "'w workload_selectors \<Rightarrow> target_ref list \<Rightarrow> 'w \<Rightarrow>
   (target_ref list \<times> string list \<times> string list) \<times> 'w" where
  "resolve_targets ws [] w = (([], [], []), w)"
| "resolve_targets ws (t # ts) w =
     (if t_Name t = '''' \<or> t_Labels t \<noteq> []
      then (case resolve_targets ws ts w of ((ts', res, fail), w') \<Rightarrow> ((t # ts', res, fail), w'))
      else let ref = t_Namespace t @ ''/'' @ t_Name t
           in case ws (t_Namespace t) (t_Kind t) (t_Name t) w of
                (Inl err, w1) \<Rightarrow>
                  (case resolve_targets ws ts w1 of
                     ((ts', res, fail), w') \<Rightarrow> ((t # ts', res, (ref @ '': '' @ err_text err) # fail), w'))
              | (Inr labels, w1) \<Rightarrow>
                  (case resolve_targets ws ts w1 of
                     ((ts', res, fail), w') \<Rightarrow> ((t\<lparr>t_Labels := labels\<rparr> # ts', ref # res, fail), w')))"

definition resolveTargetLabels ::
  "'w workload_selectors option \<Rightarrow> ('w, string list \<times> string list) mcheck" where
  "resolveTargetLabels wl =
     (case wl of
        None \<Rightarrow> retE ([], [])
      | Some ws \<Rightarrow> (\<lambda>(m, w).
          case resolve_targets ws (m_Targets m) w of
            ((ts, res, fail), w') \<Rightarrow> (Inr (res, fail), (m\<lparr>m_Targets := ts\<rparr>, w'))))"

text \<open>
  \<^verbatim>\<open>KubernetesWorkloadSelectors.PodLabels\<close>.  The API server is a parameter: a
  get returns \<^const>\<open>None\<close> for not found, an error, or the selector, which may be
  nil, as its match labels and the number of its match expressions.
\<close>

type_synonym 'w selector_get =
  "string \<Rightarrow> string \<Rightarrow> string \<Rightarrow> 'w \<Rightarrow> (goerror + (string gomap \<times> int) option) option \<times> 'w"

fun try_getters ::
  "'w selector_get \<Rightarrow> string \<Rightarrow> string \<Rightarrow> string \<Rightarrow> string list \<Rightarrow> bool \<Rightarrow> 'w \<Rightarrow> (goerror + string gomap) \<times> 'w" where
  "try_getters get ns kind name [] tried w =
     ((if \<not> tried then Inl (GoErr (sprintf ''kind % has no pod selector Simian knows how to read'' [AQ kind]))
       else Inl (GoErr (sprintf ''no Deployment, StatefulSet or DaemonSet named %'' [AQ name]))), w)"
| "try_getters get ns kind name (g # gs) tried w =
     (if kind \<noteq> '''' \<and> kind \<noteq> g then try_getters get ns kind name gs tried w
      else case get g ns name w of
             (None, w1) \<Rightarrow> try_getters get ns kind name gs True w1
           | (Some (Inl err), w1) \<Rightarrow> (Inl (WrapErr (sprintf ''get %: %'' [AS g, AS (err_text err)]) err), w1)
           | (Some (Inr sel), w1) \<Rightarrow>
               ((case sel of
                   Some (labels, n) \<Rightarrow>
                     if labels = [] \<or> n > 0
                     then Inl (GoErr (sprintf ''% % selects pods by expression, not labels alone'' [AS g, AS name]))
                     else Inr labels
                 | None \<Rightarrow> Inl (GoErr (sprintf ''% % selects pods by expression, not labels alone'' [AS g, AS name]))),
                w1))"

definition PodLabels :: "'w selector_get \<Rightarrow> 'w workload_selectors" where
  "PodLabels get = (\<lambda>ns kind name w.
     try_getters get ns kind name [''Deployment'', ''StatefulSet'', ''DaemonSet''] False w)"


section \<open>Pod selectors\<close>

definition podNarrowingKeys :: "string list" where
  "podNarrowingKeys =
     [k_labelSelectors, ''expressionSelectors'', ''annotationSelectors'',
      ''fieldSelectors'', k_pods, ''nodes'', ''nodeSelectors'']"

fun emptyValue :: "json \<Rightarrow> bool" where
  "emptyValue JNull = True"
| "emptyValue (JObj m) = (m = [])"
| "emptyValue (JArr xs) = (xs = [])"
| "emptyValue (JStr s) = (s = '''')"
| "emptyValue _ = False"

definition selectsPods :: "jobj \<Rightarrow> bool" where
  "selectsPods sel \<longleftrightarrow>
     (\<exists>k \<in> set podNarrowingKeys. case map_of sel k of None \<Rightarrow> False | Some v \<Rightarrow> \<not> emptyValue v)"

text \<open>No namespace of the list has excluded workloads; \<open>msg\<close> is the refusal's text.\<close>

fun check_no_exclusions ::
  "'w eligibility \<Rightarrow> (string \<Rightarrow> string list \<Rightarrow> string) \<Rightarrow> string list \<Rightarrow> ('w, unit) mcheck" where
  "check_no_exclusions elig msg [] = retE ()"
| "check_no_exclusions elig msg (ns # nss) =
     bindE (queryE (el_ExcludedWorkloads elig ns)) (\<lambda>r.
       case r of
         Inl err \<Rightarrow> throwE (NewExecutorError StageSafety ReasonWorkloadExcluded ''exclusion lookup failed'' (Some err))
       | Inr excluded \<Rightarrow>
           if excluded \<noteq> [] then throwE (NewExecutorError StageSafety ReasonWorkloadExcluded (msg ns excluded) None)
           else check_no_exclusions elig msg nss)"

definition secondary_msg :: "string \<Rightarrow> string \<Rightarrow> string list \<Rightarrow> string" where
  "secondary_msg path ns excluded =
     sprintf ''% matches every pod in namespace %, including excluded workloads %; add labelSelectors to it''
       [AS path, AQ ns, AS (join_with '', '' excluded)]"

definition site_scope :: "fault_manifest \<Rightarrow> selector_site \<Rightarrow> string list" where
  "site_scope m s = (if s_namespaces s = [] then TargetNamespaces m else s_namespaces s)"

definition is_secondary :: "selector_site \<Rightarrow> bool" where
  "is_secondary s \<longleftrightarrow> s_path s \<noteq> ''spec.selector'' \<and> \<not> selectsPods (s_node s)"

fun check_sites :: "'w eligibility \<Rightarrow> fault_manifest \<Rightarrow> selector_site list \<Rightarrow> ('w, unit) mcheck" where
  "check_sites elig m [] = retE ()"
| "check_sites elig m (s # ss) =
     (if \<not> is_secondary s then check_sites elig m ss
      else bindE (check_no_exclusions elig (secondary_msg (s_path s)) (site_scope m s))
             (\<lambda>_. check_sites elig m ss))"

definition checkSecondarySelectors :: "'w eligibility \<Rightarrow> ('w, unit) mcheck" where
  "checkSecondarySelectors elig = bindE manifestE (\<lambda>m. check_sites elig m (findSelectorSites (spec_map m)))"

text \<open>The loop over the targets: whether one is named, whether the known labels agree,
  and the labels.\<close>

definition target_labels :: "target_ref list \<Rightarrow> bool \<times> bool \<times> string gomap option" where
  "target_labels ts = foldl (\<lambda>(named, agree, labels) t.
     let named' = (named \<or> t_Name t \<noteq> '''')
     in if t_Labels t = [] then (named', False, labels)
        else case labels of
               None \<Rightarrow> (named', agree, Some (t_Labels t))
             | Some l \<Rightarrow> if \<not> map_equal l (t_Labels t) then (named', False, labels) else (named', agree, labels))
     (False, True, None) ts"

definition primary_msg :: "string \<Rightarrow> string list \<Rightarrow> string" where
  "primary_msg ns excluded =
     sprintf ''spec.selector matches every pod in namespace %, including excluded workloads %; name a target workload or add spec.selector.labelSelectors''
       [AQ ns, AS (join_with '', '' excluded)]"

definition labels_json :: "string gomap \<Rightarrow> json" where
  "labels_json labels = JObj (map (\<lambda>p. (fst p, JStr (snd p))) labels)"

definition primary_selector :: "jobj \<Rightarrow> jobj" where
  "primary_selector spec = (case as_obj (map_of spec k_selector) of None \<Rightarrow> [] | Some s \<Rightarrow> s)"

definition put_labels :: "string gomap \<Rightarrow> fault_manifest \<Rightarrow> fault_manifest" where
  "put_labels labels m = m\<lparr>m_Spec := Some (AList.update k_selector
     (JObj (AList.update k_labelSelectors (labels_json labels) (primary_selector (spec_map m)))) (spec_map m))\<rparr>"

definition unknown_pods_error :: exec_error where
  "unknown_pods_error = NewExecutorError StageSafety ReasonSchemaInvalid
     ''spec.selector selects no particular pods and the targets' pod labels could not be determined, so the fault would reach every pod in the namespace; add spec.selector.labelSelectors'' None"

text \<open>The part of \<^verbatim>\<open>narrowPodSelector\<close> for a selector that picks no particular pods.\<close>

definition narrow_to_targets ::
  "'w eligibility \<Rightarrow> 'w workload_selectors option \<Rightarrow> fault_manifest \<Rightarrow> ('w, string gomap option) mcheck" where
  "narrow_to_targets elig wl m =
     (case target_labels (m_Targets m) of
        (named, agree, labels) \<Rightarrow>
          if agree \<and> labels \<noteq> None
          then bindE (modManifestE (put_labels (the labels))) (\<lambda>_. retE labels)
          else if named then (if Option.is_none wl then retE None else throwE unknown_pods_error)
          else bindE (check_no_exclusions elig primary_msg (TargetNamespaces m)) (\<lambda>_. retE None))"

definition narrowPodSelector ::
  "'w eligibility \<Rightarrow> 'w workload_selectors option \<Rightarrow> ('w, string gomap option) mcheck" where
  "narrowPodSelector elig wl = bindE manifestE (\<lambda>m.
     if m_Engine m \<noteq> EngineChaosMesh \<or> m_Spec m = None then retE None
     else if IsOutageKind (m_Engine m) (m_ResourceKind m) then retE None
     else bindE (checkSecondarySelectors elig) (\<lambda>_.
       if selectsPods (primary_selector (spec_map m)) then retE None
       else narrow_to_targets elig wl m))"


section \<open>Reachable nodes\<close>

text \<open>
  The specification of the walk: the node at an access path that crosses no
  opaque field, with the key it is filed under.
\<close>

fun reach :: "string \<Rightarrow> json \<Rightarrow> jstep list \<Rightarrow> (string \<times> json) option" where
  "reach key j [] = Some (key, j)"
| "reach key (JObj m) (Key k # p) =
     (if k \<in> set opaqueMapFields then None
      else case map_of m k of None \<Rightarrow> None | Some c \<Rightarrow> reach k c p)"
| "reach key (JArr xs) (Idx i # p) = (if i < length xs then reach '''' (xs ! i) p else None)"
| "reach key j (st # p) = None"

lemma walk_sound:
  "s \<in> set (walkForSelectors j path key ap) \<Longrightarrow>
     \<exists>p k. s_at s = ap @ p \<and> reach key j p = Some (k, JObj (s_node s))
         \<and> is_selector k (s_node s) \<and> s_namespaces s = namespacesIn (s_node s)"
proof (induction j path key ap rule: walkForSelectors.induct)
  case (1 n path key ap)
  from "1.prems" consider
      (here) "is_selector key n" "s = \<lparr>s_path = path, s_at = ap, s_node = n, s_namespaces = namespacesIn n\<rparr>"
    | (below) k v where "k \<in> set (sorted_keys n)" "k \<notin> set opaqueMapFields" "map_of n k = Some v"
        "s \<in> set (walkForSelectors v (path @ ''.'' @ k) k (ap @ [Key k]))"
    by (auto split: if_splits option.splits dest!: sym [of "Some _"])
  then show ?case
  proof cases
    case here
    then show ?thesis by (intro exI [of _ "[]"] exI [of _ key]) simp
  next
    case below
    from "1.IH" [OF below] obtain p k' where
      "s_at s = (ap @ [Key k]) @ p" "reach k v p = Some (k', JObj (s_node s))"
      "is_selector k' (s_node s)" "s_namespaces s = namespacesIn (s_node s)" by blast
    with below show ?thesis by (intro exI [of _ "Key k # p"] exI [of _ k']) simp
  qed
next
  case (2 xs path key ap)
  from "2.prems" obtain i where i: "i \<in> set [0..<length xs]"
    and "s \<in> set (walkForSelectors (xs ! i) (path @ ''['' @ int_dec (int i) @ '']'') '''' (ap @ [Idx i]))"
    by auto
  from "2.IH" [OF this] obtain p k' where
    "s_at s = (ap @ [Idx i]) @ p" "reach '''' (xs ! i) p = Some (k', JObj (s_node s))"
    "is_selector k' (s_node s)" "s_namespaces s = namespacesIn (s_node s)" by blast
  with i show ?case by (intro exI [of _ "Idx i # p"] exI [of _ k']) simp
qed simp_all

lemma map_of_sorted_keys: "map_of n k = Some v \<Longrightarrow> k \<in> set (sorted_keys n)"
  by (force simp: sorted_keys_def dest: map_of_SomeD)

lemma walk_complete:
  "reach key j p = Some (k, JObj n) \<Longrightarrow> is_selector k n \<Longrightarrow>
     \<exists>s \<in> set (walkForSelectors j path key ap).
        s_at s = ap @ p \<and> s_node s = n \<and> s_namespaces s = namespacesIn n"
proof (induction key j p arbitrary: path ap rule: reach.induct)
  case (1 key j)
  then show ?case by auto
next
  case (2 key m x p)
  from "2.prems" obtain c where c: "x \<notin> set opaqueMapFields" "map_of m x = Some c"
    and r: "reach x c p = Some (k, JObj n)"
    by (auto split: if_splits option.splits)
  from "2.IH" [OF c r "2.prems"(2), of "path @ ''.'' @ x" "ap @ [Key x]"] obtain s where
    "s \<in> set (walkForSelectors c (path @ ''.'' @ x) x (ap @ [Key x]))"
    "s_at s = (ap @ [Key x]) @ p \<and> s_node s = n \<and> s_namespaces s = namespacesIn n" by blast
  with c map_of_sorted_keys [OF c(2)] show ?case
    by (intro bexI [of _ s]) (auto intro!: bexI [of _ x])
next
  case (3 key xs i p)
  from "3.prems" have i: "i < length xs" and r: "reach '''' (xs ! i) p = Some (k, JObj n)"
    by (auto split: if_splits)
  from "3.IH" [OF i r "3.prems"(2), of "path @ ''['' @ int_dec (int i) @ '']''" "ap @ [Idx i]"] obtain s where
    "s \<in> set (walkForSelectors (xs ! i) (path @ ''['' @ int_dec (int i) @ '']'') '''' (ap @ [Idx i]))"
    "s_at s = (ap @ [Idx i]) @ p \<and> s_node s = n \<and> s_namespaces s = namespacesIn n" by blast
  with i show ?case by (intro bexI [of _ s]) (auto intro!: bexI [of _ i])
qed auto

lemma findSelectorSites_sound:
  "s \<in> set (findSelectorSites sp) \<Longrightarrow>
     \<exists>k. reach '''' (JObj sp) (s_at s) = Some (k, JObj (s_node s)) \<and> is_selector k (s_node s)
       \<and> s_namespaces s = namespacesIn (s_node s)"
  unfolding findSelectorSites_def by (drule walk_sound) simp

lemma findSelectorSites_complete:
  "reach '''' (JObj sp) p = Some (k, JObj n) \<Longrightarrow> is_selector k n \<Longrightarrow>
     \<exists>s \<in> set (findSelectorSites sp). s_at s = p \<and> s_node s = n \<and> s_namespaces s = namespacesIn n"
  unfolding findSelectorSites_def
  by (drule walk_complete [where path = "''spec''" and ap = "[]"]) auto


section \<open>Updates and reachable nodes\<close>

text \<open>An update keeps the shape of the value it is applied to, and the strings of an array.\<close>

fun same_shape :: "json \<Rightarrow> json \<Rightarrow> bool" where
  "same_shape (JArr xs) (JArr ys) = (str_elems xs = str_elems ys)"
| "same_shape (JObj _) (JObj _) = True"
| "same_shape u v = (u = v)"

lemma str_elems_update:
  assumes "i < length xs" "same_shape (xs ! i) v"
  shows "str_elems (xs[i := v]) = str_elems xs"
proof -
  define f :: "json \<Rightarrow> string list" where "f = (\<lambda>v. case v of JStr s \<Rightarrow> [s] | _ \<Rightarrow> [])"
  have "f v = f (xs ! i)"
    using assms(2) by (cases "xs ! i"; cases v) (auto simp: f_def)
  then have "map f (xs[i := v]) = (map f xs)[i := map f xs ! i]"
    using assms(1) by (simp add: map_update)
  then have "map f (xs[i := v]) = map f xs" by simp
  then show ?thesis by (simp add: str_elems_def f_def)
qed

lemma same_shape_refl [simp]: "same_shape v v"
  by (cases v) auto

lemma update_at_shape: "same_shape v (update_at p f v)"
proof (induction p f v rule: update_at.induct)
  case (3 i p f xs)
  then show ?case by (auto simp: str_elems_update)
qed (auto split: option.split)

lemma same_shape_composite: "same_shape u v \<Longrightarrow> is_composite u = is_composite v"
  by (cases u; cases v) auto

lemma marker_update:
  assumes "map_of n k = Some u" "same_shape u v"
  shows "hasSelectorMarker (AList.update k v n) = hasSelectorMarker n"
  using assms same_shape_composite [OF assms(2)]
  unfolding hasSelectorMarker_def by (intro bex_cong) (auto split: option.splits)

lemma opaque_pods: "k_pods \<in> set opaqueMapFields" and k_namespaces_not_opaque: "k_namespaces \<notin> set opaqueMapFields"
  and pods_ne_namespaces: "k_pods \<noteq> k_namespaces"
  by (simp_all add: opaqueMapFields_def const_defs)

lemma namespacesIn_update:
  assumes "map_of n k = Some u" "same_shape u v" "k \<notin> set opaqueMapFields"
  shows "namespacesIn (AList.update k v n) = namespacesIn n"
proof -
  have "k \<noteq> k_pods" using assms(3) opaque_pods by blast
  moreover have "(case as_arr (map_of (AList.update k v n) k_namespaces) of None \<Rightarrow> [] | Some arr \<Rightarrow> str_elems arr)
      = (case as_arr (map_of n k_namespaces) of None \<Rightarrow> [] | Some arr \<Rightarrow> str_elems arr)"
    using assms(1,2) by (cases "k = k_namespaces"; cases u; cases v) auto
  ultimately show ?thesis by (simp add: namespacesIn_def)
qed

lemma set_str_elems: "str_elems (map JStr ss) = ss"
  by (induction ss) (auto simp: str_elems_def)

lemma set_namespacesIn:
  "set (namespacesIn n) =
     (case as_arr (map_of n k_namespaces) of None \<Rightarrow> {} | Some arr \<Rightarrow> set (str_elems arr) - {''''})
     \<union> (case as_obj (map_of n k_pods) of None \<Rightarrow> {} | Some pods \<Rightarrow> fst ` set pods - {''''})"
  by (auto simp: namespacesIn_def split: option.splits)

lemma namespacesIn_put:
  "set (namespacesIn (put_namespaces tns n)) = (set tns - {''''}) \<union>
     (case as_obj (map_of n k_pods) of None \<Rightarrow> {} | Some pods \<Rightarrow> fst ` set pods - {''''})"
  using pods_ne_namespaces
  by (simp add: set_namespacesIn put_namespaces_def toAnySlice_def set_str_elems)

lemma namespacesIn_put_narrowed:
  assumes "namespacesIn n = []"
  shows "set (namespacesIn (put_namespaces tns n)) = set tns - {''''}"
proof -
  from assms have "set (namespacesIn n) = {}" by simp
  then show ?thesis unfolding set_namespacesIn [of n] namespacesIn_put by (simp split: option.splits)
qed

lemma update_same: "map_of m k = Some c \<Longrightarrow> AList.update k c m = m"
  by (induction m) (auto split: if_splits)

text \<open>A path that crosses no opaque field either leads to a map or updates nothing.\<close>

definition transparent :: "jstep list \<Rightarrow> bool" where
  "transparent p \<longleftrightarrow> (\<forall>k \<in> set opaqueMapFields. Key k \<notin> set p)"

lemma transparent_Cons [simp]:
  "transparent (Key k # p) \<longleftrightarrow> k \<notin> set opaqueMapFields \<and> transparent p"
  "transparent (Idx i # p) \<longleftrightarrow> transparent p"
  "transparent []"
  by (auto simp: transparent_def)

lemma reach_transparent: "reach key j p \<noteq> None \<Longrightarrow> transparent p"
  by (induction key j p rule: reach.induct) (auto split: if_splits option.splits)

lemma reach_narrowed_here:
  assumes "reach key (JObj (put_namespaces tns m)) q = Some (k, JObj n')" "q \<noteq> []"
  shows "reach key (JObj m) q = Some (k, JObj n')"
proof -
  obtain x q' c where q: "q = Key x # q'" and x: "x \<notin> set opaqueMapFields"
    and c: "map_of (put_namespaces tns m) x = Some c" and r: "reach x c q' = Some (k, JObj n')"
    using assms by (cases q; cases "hd q") (auto split: if_splits option.splits)
  have "x \<noteq> k_namespaces"
  proof
    assume "x = k_namespaces"
    with c have "c = JArr (map JStr tns)" by (simp add: put_namespaces_def toAnySlice_def)
    with r show False by (cases q' rule: list.exhaust; cases "hd q'"; cases "tl q'") (auto split: if_splits)
  qed
  with c have "map_of m x = Some c" by (simp add: put_namespaces_def)
  with r q x show ?thesis by simp
qed

text \<open>
  Where a map \<open>n'\<close> reachable by \<open>q\<close> after narrowing at \<open>p\<close> comes from: it is the
  narrowed one, or it was there before with the same namespaces and markers.
\<close>

definition narrowed_from :: "string list \<Rightarrow> string \<Rightarrow> json \<Rightarrow> jstep list \<Rightarrow> jstep list \<Rightarrow> string \<Rightarrow> jobj \<Rightarrow> bool" where
  "narrowed_from tns key j p q k n' \<longleftrightarrow>
     (\<exists>n. reach key j q = Some (k, JObj n) \<and>
        (q = p \<and> n' = put_namespaces tns n
         \<or> q \<noteq> p \<and> namespacesIn n' = namespacesIn n \<and> hasSelectorMarker n' = hasSelectorMarker n))"

lemma narrowed_from_other:
  "reach key j q = Some (k, JObj n) \<Longrightarrow> q \<noteq> p \<Longrightarrow> namespacesIn n' = namespacesIn n \<Longrightarrow>
     hasSelectorMarker n' = hasSelectorMarker n \<Longrightarrow> narrowed_from tns key j p q k n'"
  by (auto simp: narrowed_from_def)

lemma narrowed_from_Key:
  "narrowed_from tns x c p q k n' \<Longrightarrow> map_of m x = Some c \<Longrightarrow> x \<notin> set opaqueMapFields \<Longrightarrow>
     narrowed_from tns key (JObj m) (Key x # p) (Key x # q) k n'"
  by (auto simp: narrowed_from_def)

lemma narrowed_from_Idx:
  "narrowed_from tns '''' (xs ! i) p q k n' \<Longrightarrow> i < length xs \<Longrightarrow>
     narrowed_from tns key (JArr xs) (Idx i # p) (Idx i # q) k n'"
  by (auto simp: narrowed_from_def)

lemma reach_narrowed_Key:
  assumes IH: "\<And>key j q. reach key (update_at p (put_namespaces tns) j) q = Some (k, JObj n') \<Longrightarrow>
        narrowed_from tns key j p q k n'"
    and r: "reach key (JObj (AList.update x (update_at p (put_namespaces tns) c) m)) q = Some (k, JObj n')"
    and c: "map_of m x = Some c" and x: "x \<notin> set opaqueMapFields"
  shows "narrowed_from tns key (JObj m) (Key x # p) q k n'"
proof (cases "q = []")
  case True
  have sh: "same_shape c (update_at p (put_namespaces tns) c)" by (rule update_at_shape)
  from True r namespacesIn_update [OF c sh x] marker_update [OF c sh] show ?thesis
    by (auto simp: narrowed_from_def)
next
  case False
  then obtain y q' d where q: "q = Key y # q'" and y: "y \<notin> set opaqueMapFields"
    and d: "map_of (AList.update x (update_at p (put_namespaces tns) c) m) y = Some d"
    and rd: "reach y d q' = Some (k, JObj n')"
    using r by (cases q; cases "hd q") (auto split: if_splits option.splits)
  show ?thesis
  proof (cases "y = x")
    case True
    with rd d have "narrowed_from tns x c p q' k n'" by (intro IH) simp
    from narrowed_from_Key [OF this c x] show ?thesis by (simp add: q True)
  next
    case False
    with d rd y q show ?thesis by (auto intro!: narrowed_from_other [OF _ _ refl refl])
  qed
qed

lemma reach_narrowed_Idx:
  assumes IH: "\<And>key j q. reach key (update_at p (put_namespaces tns) j) q = Some (k, JObj n') \<Longrightarrow>
        narrowed_from tns key j p q k n'"
    and r: "reach key (JArr (xs[i := update_at p (put_namespaces tns) (xs ! i)])) q = Some (k, JObj n')"
    and i: "i < length xs"
  shows "narrowed_from tns key (JArr xs) (Idx i # p) q k n'"
proof -
  from r obtain i' q' where q: "q = Idx i' # q'" and i': "i' < length xs"
    and rd: "reach '''' (xs[i := update_at p (put_namespaces tns) (xs ! i)] ! i') q' = Some (k, JObj n')"
    by (cases q; cases "hd q") (auto split: if_splits)
  show ?thesis
  proof (cases "i' = i")
    case True
    with rd i have "narrowed_from tns '''' (xs ! i) p q' k n'" by (intro IH) simp
    from narrowed_from_Idx [OF this i] show ?thesis by (simp add: q True)
  next
    case False
    with rd q i' show ?thesis by (auto intro!: narrowed_from_other [OF _ _ refl refl])
  qed
qed

lemma update_at_dead:
  "reach key j p = None \<or> (\<exists>k v. reach key j p = Some (k, v) \<and> (\<forall>m. v \<noteq> JObj m)) \<Longrightarrow>
     transparent p \<Longrightarrow> update_at p f j = j"
proof (induction key j p rule: reach.induct)
  case (1 key j)
  then show ?case by (cases j) auto
next
  case (2 key m x p)
  then show ?case by (auto simp: update_same split: option.split)
next
  case (3 key xs i p)
  then show ?case by (auto split: if_splits)
qed auto

lemma reach_narrowed:
  "reach key (update_at p (put_namespaces tns) j) q = Some (k, JObj n') \<Longrightarrow> transparent p \<Longrightarrow>
     narrowed_from tns key j p q k n'"
proof (induction p arbitrary: key j q)
  case Nil
  show ?case
  proof (cases "\<exists>m. j = JObj m")
    case True
    then obtain m where j: "j = JObj m" by blast
    with Nil reach_narrowed_here [of key tns m q k n'] show ?thesis
      by (cases "q = []") (auto simp: narrowed_from_def)
  next
    case False
    with Nil update_at_dead [of key j "[]" "put_namespaces tns"] show ?thesis
      by (auto intro!: narrowed_from_other [OF _ _ refl refl])
  qed
next
  case (Cons st p)
  have tr: "transparent p" using Cons.prems(2) by (cases st) auto
  show ?case
  proof (cases "\<exists>k' m. reach key j (st # p) = Some (k', JObj m)")
    case False
    then have "update_at (st # p) (put_namespaces tns) j = j"
      using update_at_dead [OF _ Cons.prems(2), of key j] by (cases "reach key j (st # p)") auto
    with Cons.prems False show ?thesis
      by (auto intro!: narrowed_from_other [OF _ _ refl refl])
  next
    case True
    show ?thesis
    proof (cases st)
      case (Key x)
      with True obtain m c where j: "j = JObj m" "map_of m x = Some c" "x \<notin> set opaqueMapFields"
        by (cases j) (auto split: if_splits option.splits)
      with reach_narrowed_Key [OF Cons.IH [OF _ tr], of key x c m q] Cons.prems Key show ?thesis by simp
    next
      case (Idx i)
      with True obtain xs where j: "j = JArr xs" "i < length xs"
        by (cases j) (auto split: if_splits)
      with reach_narrowed_Idx [OF Cons.IH [OF _ tr], of key xs i q] Cons.prems Idx show ?thesis by simp
    qed
  qed
qed


section \<open>What the namespace scope check guarantees\<close>

text \<open>
  The state of the spec while the loop runs: every map reachable in it was
  reachable in the submitted spec \<open>sp0\<close>; it still names the namespaces it named
  there, or it was a selector that named none and now names the targets'.
  \<open>D\<close> holds the paths narrowed so far.
\<close>

definition narrow_inv :: "string list \<Rightarrow> jobj \<Rightarrow> jstep list set \<Rightarrow> jobj \<Rightarrow> bool" where
  "narrow_inv tns sp0 D sp \<longleftrightarrow>
     (\<forall>q k n'. reach '''' (JObj sp) q = Some (k, JObj n') \<longrightarrow>
        (\<exists>n. reach '''' (JObj sp0) q = Some (k, JObj n) \<and>
           (namespacesIn n' = namespacesIn n \<and> hasSelectorMarker n' = hasSelectorMarker n \<and> q \<notin> D
            \<or> namespacesIn n = [] \<and> is_selector k n \<and> set (namespacesIn n') = set tns)))"

lemma narrow_inv_refl: "narrow_inv tns sp {} sp"
  by (simp add: narrow_inv_def)

lemma narrow_inv_step:
  assumes inv: "narrow_inv tns sp0 D sp" and s: "s \<in> set (findSelectorSites sp0)" "s_namespaces s = []"
    and up: "update_at (s_at s) (put_namespaces tns) (JObj sp) = JObj sp'" and tns: "'''' \<notin> set tns"
  shows "narrow_inv tns sp0 (insert (s_at s) D) sp'"
  unfolding narrow_inv_def
proof (intro allI impI)
  fix q k n'
  assume r: "reach '''' (JObj sp') q = Some (k, JObj n')"
  from findSelectorSites_sound [OF s(1)] s(2) obtain ks where
    site: "reach '''' (JObj sp0) (s_at s) = Some (ks, JObj (s_node s))" "is_selector ks (s_node s)"
      "namespacesIn (s_node s) = []" by auto
  then have "transparent (s_at s)" using reach_transparent by fastforce
  from reach_narrowed [of "''''" "s_at s" tns "JObj sp" q k n', unfolded up, OF r this]
  obtain n1 where n1: "reach '''' (JObj sp) q = Some (k, JObj n1)"
    and c: "q = s_at s \<and> n' = put_namespaces tns n1
       \<or> q \<noteq> s_at s \<and> namespacesIn n' = namespacesIn n1 \<and> hasSelectorMarker n' = hasSelectorMarker n1"
    by (auto simp: narrowed_from_def)
  from inv n1 obtain n where n: "reach '''' (JObj sp0) q = Some (k, JObj n)"
    and old: "namespacesIn n1 = namespacesIn n \<and> hasSelectorMarker n1 = hasSelectorMarker n \<and> q \<notin> D
       \<or> namespacesIn n = [] \<and> is_selector k n \<and> set (namespacesIn n1) = set tns"
    unfolding narrow_inv_def by blast
  show "\<exists>n. reach '''' (JObj sp0) q = Some (k, JObj n) \<and>
      (namespacesIn n' = namespacesIn n \<and> hasSelectorMarker n' = hasSelectorMarker n \<and> q \<notin> insert (s_at s) D
       \<or> namespacesIn n = [] \<and> is_selector k n \<and> set (namespacesIn n') = set tns)"
  proof (cases "q = s_at s")
    case True
    with n site have sel: "namespacesIn n = []" "is_selector k n" by auto
    with old have "set (namespacesIn n1) \<subseteq> set tns" by auto
    then have "set (namespacesIn n') = set tns"
      using c True tns namespacesIn_put [of tns n1] set_namespacesIn [of n1] by auto
    with n sel show ?thesis by blast
  next
    case False
    with c old n show ?thesis by auto
  qed
qed

lemma narrow_inv_done:
  assumes inv: "narrow_inv tns sp0 D sp" and tns: "tns \<noteq> []"
    and D: "\<forall>s \<in> set (findSelectorSites sp0). s_namespaces s = [] \<longrightarrow> s_at s \<in> D"
    and E: "\<forall>s \<in> set (findSelectorSites sp0). set (s_namespaces s) \<subseteq> E"
    and s: "s \<in> set (findSelectorSites sp)"
  shows "s_namespaces s \<noteq> [] \<and> set (s_namespaces s) \<subseteq> E \<union> set tns"
proof -
  from findSelectorSites_sound [OF s] obtain k where
    r: "reach '''' (JObj sp) (s_at s) = Some (k, JObj (s_node s))" and sel: "is_selector k (s_node s)"
    and ns: "s_namespaces s = namespacesIn (s_node s)" by auto
  from inv r obtain n where n: "reach '''' (JObj sp0) (s_at s) = Some (k, JObj n)"
    and c: "namespacesIn (s_node s) = namespacesIn n \<and> hasSelectorMarker (s_node s) = hasSelectorMarker n \<and> s_at s \<notin> D
       \<or> namespacesIn n = [] \<and> is_selector k n \<and> set (namespacesIn (s_node s)) = set tns"
    unfolding narrow_inv_def by blast
  show ?thesis
  proof (cases "set (namespacesIn (s_node s)) = set tns")
    case True
    with ns tns show ?thesis by (metis set_empty sup_ge2)
  next
    case False
    with c sel have "is_selector k n" "s_at s \<notin> D" "namespacesIn (s_node s) = namespacesIn n"
      by (auto simp: is_selector_def)
    with findSelectorSites_complete [OF n] D E ns show ?thesis by fastforce
  qed
qed

text \<open>\<open>E\<close> contains every namespace the checker ever answers to be eligible.\<close>

definition elig_sound :: "'w eligibility \<Rightarrow> string set \<Rightarrow> bool" where
  "elig_sound elig E \<longleftrightarrow> (\<forall>ns w w'. el_IsEligible elig ns w = (Inr True, w') \<longrightarrow> ns \<in> E)"

definition cache_ok :: "string set \<Rightarrow> bool gomap \<Rightarrow> bool" where
  "cache_ok E cache \<longleftrightarrow> (\<forall>ns. map_of cache ns = Some True \<longrightarrow> ns \<in> E)"

abbreviation safety_error :: "exec_error \<Rightarrow> bool" where
  "safety_error e \<equiv> ee_Stage e = StageSafety"

lemma scope_errors [simp]:
  "ee_Stage (scope_lookup_error ns path err) = StageSafety"
  "ee_Stage (scope_ineligible_error path ns) = StageSafety"
  by (simp_all add: scope_lookup_error_def scope_ineligible_error_def)

lemma validE_throw_if: "(\<And>s. P s \<Longrightarrow> E e s) \<Longrightarrow> validE P (throwE e) Q E"
  by (simp add: validE_def throwE_def)

lemma validE_ret_if: "(\<And>s. P s \<Longrightarrow> Q a s) \<Longrightarrow> validE P (retE a) Q E"
  by (simp add: validE_def retE_def)

lemma validE_false: "validE (\<lambda>_. False) m Q E"
  by (simp add: validE_def)

text \<open>A condition on the result of the first part that does not depend on the state.\<close>

lemma validE_bind_pure:
  assumes "validE P m (\<lambda>a s. R a \<and> P' a s) E" and "\<And>a. R a \<Longrightarrow> validE (P' a) (f a) Q E"
  shows "validE P (bindE m f) Q E"
  using assms(1)
proof (rule validE_bind)
  fix a
  show "validE (\<lambda>s. R a \<and> P' a s) (f a) Q E"
    using assms(2) [of a] by (cases "R a") (simp_all add: validE_false)
qed

text \<open>A query leaves the manifest alone; what follows may use that the answer was given.\<close>

lemma validE_bind_query:
  assumes "\<And>r. \<exists>w w'. q w = (r, w') \<Longrightarrow> validE (\<lambda>s. P (fst s)) (f r) Q E"
  shows "validE (\<lambda>s. P (fst s)) (bindE (queryE q) f) Q E"
proof (rule validE_bind_pure [where R = "\<lambda>r. \<exists>w w'. q w = (r, w')" and P' = "\<lambda>_ s. P (fst s)"])
  show "validE (\<lambda>s. P (fst s)) (queryE q) (\<lambda>r s. (\<exists>w w'. q w = (r, w')) \<and> P (fst s)) E"
    by (auto simp: validE_def queryE_def split: prod.split)
qed (rule assms)

lemma validE_bind_manifest:
  assumes "\<And>m. P m \<Longrightarrow> validE (\<lambda>s. fst s = m) (f m) Q E"
  shows "validE (\<lambda>s. P (fst s)) (bindE manifestE f) Q E"
  using assms by (auto simp: validE_def bindE_def getE_def)

lemma lookup_eligible_ok:
  assumes "elig_sound elig E" "cache_ok E cache"
  shows "validE (\<lambda>s. P (fst s)) (lookup_eligible elig path ns cache)
           (\<lambda>cache' s. cache_ok E cache' \<and> P (fst s)) (\<lambda>e s. P (fst s) \<and> safety_error e)"
proof (cases "map_of cache ns")
  case None
  have "cache_ok E (AList.update ns b cache)" if "\<exists>w w'. el_IsEligible elig ns w = (Inr b, w')" for b
    using that assms unfolding cache_ok_def elig_sound_def map_of_update by (metis fun_upd_apply option.inject)
  then show ?thesis
    unfolding lookup_eligible_def None option.case
  proof (intro validE_bind_query, goal_cases)
    case (1 r)
    then show ?case by (cases r) (simp_all add: validE_ret_if validE_throw_if)
  qed
next
  case (Some b)
  with assms show ?thesis by (auto simp: lookup_eligible_def intro!: validE_ret_if)
qed

lemma check_site_namespaces_ok:
  assumes "elig_sound elig E"
  shows "cache_ok E cache \<Longrightarrow>
    validE (\<lambda>s. P (fst s)) (check_site_namespaces elig path nss cache)
      (\<lambda>cache' s. (set nss \<subseteq> E \<and> cache_ok E cache') \<and> P (fst s)) (\<lambda>e s. P (fst s) \<and> safety_error e)"
proof (induction nss arbitrary: cache)
  case Nil
  then show ?case by (simp add: validE_ret_if)
next
  case (Cons ns nss)
  have "validE (\<lambda>s. P (fst s))
      (if map_of cache' ns = Some True then check_site_namespaces elig path nss cache'
       else throwE (scope_ineligible_error path ns))
      (\<lambda>cache' s. (set (ns # nss) \<subseteq> E \<and> cache_ok E cache') \<and> P (fst s)) (\<lambda>e s. P (fst s) \<and> safety_error e)"
    if "cache_ok E cache'" for cache'
  proof (cases "map_of cache' ns = Some True")
    case True
    with that have "ns \<in> E" by (simp add: cache_ok_def)
    with True show ?thesis by simp (rule validE_weaken [OF Cons.IH [OF that]], auto)
  next
    case False
    then show ?thesis by (simp add: validE_throw_if)
  qed
  with lookup_eligible_ok [OF assms Cons.prems] show ?case
    unfolding check_site_namespaces.simps by (rule validE_bind_pure)
qed

lemma update_spec_at_Some:
  assumes "m_Spec m = Some sp"
  obtains sp' where "update_at p f (JObj sp) = JObj sp'" "update_spec_at p f m = m\<lparr>m_Spec := Some sp'\<rparr>"
proof -
  from update_at_shape [of "JObj sp" p f] obtain sp' where "update_at p f (JObj sp) = JObj sp'"
    by (cases "update_at p f (JObj sp)") auto
  with assms that show thesis by (simp add: update_spec_at_def)
qed

text \<open>The spec has a primary selector: \<^verbatim>\<open>spec.selector\<close> is a map.\<close>

definition has_selector :: "jobj \<Rightarrow> bool" where
  "has_selector sp \<longleftrightarrow> (\<exists>sel. map_of sp k_selector = Some (JObj sel))"

text \<open>The manifest while the loop runs.\<close>

definition scope_inv :: "string list \<Rightarrow> jobj \<Rightarrow> fault_manifest \<Rightarrow> jstep list set \<Rightarrow> fault_manifest \<Rightarrow> bool" where
  "scope_inv tns sp0 m0 D m \<longleftrightarrow>
     (\<exists>sp. m = m0\<lparr>m_Spec := Some sp\<rparr> \<and> narrow_inv tns sp0 D sp \<and> (has_selector sp0 \<longrightarrow> has_selector sp))"

lemma has_selector_narrow:
  assumes "has_selector sp" "update_at p (put_namespaces tns) (JObj sp) = JObj sp'"
  shows "has_selector sp'"
proof (cases p)
  case Nil
  with assms show ?thesis by (auto simp: has_selector_def put_namespaces_def const_defs)
next
  case (Cons st p')
  show ?thesis
  proof (cases st)
    case (Key k)
    show ?thesis
    proof (cases "map_of sp k")
      case (Some c)
      with assms Key Cons have "sp' = AList.update k (update_at p' (put_namespaces tns) c) sp" by simp
      with assms(1) Some update_at_shape [of c p' "put_namespaces tns"] show ?thesis
        by (cases c; cases "update_at p' (put_namespaces tns) c") (auto simp: has_selector_def)
    qed (use assms Cons Key in auto)
  qed (use assms Cons in auto)
qed

lemma scope_inv_narrow:
  assumes "scope_inv tns sp0 m0 D m" and s: "s \<in> set (findSelectorSites sp0)" "s_namespaces s = []"
    and tns: "'''' \<notin> set tns"
  shows "scope_inv tns sp0 m0 (insert (s_at s) D) (update_spec_at (s_at s) (put_namespaces tns) m)"
proof -
  from assms(1) obtain sp where m: "m = m0\<lparr>m_Spec := Some sp\<rparr>" and inv: "narrow_inv tns sp0 D sp"
    and sel: "has_selector sp0 \<longrightarrow> has_selector sp"
    by (auto simp: scope_inv_def)
  from m have "m_Spec m = Some sp" by simp
  then obtain sp' where up: "update_at (s_at s) (put_namespaces tns) (JObj sp) = JObj sp'"
    and m': "update_spec_at (s_at s) (put_namespaces tns) m = m\<lparr>m_Spec := Some sp'\<rparr>"
    by (rule update_spec_at_Some)
  have "m\<lparr>m_Spec := Some sp'\<rparr> = m0\<lparr>m_Spec := Some sp'\<rparr>" by (simp add: m)
  with narrow_inv_step [OF inv s up tns] sel has_selector_narrow [OF _ up] show ?thesis
    unfolding scope_inv_def m' by blast
qed

text \<open>The paths the loop narrows.\<close>

definition empty_paths :: "selector_site list \<Rightarrow> jstep list set" where
  "empty_paths ss = s_at ` {s \<in> set ss. s_namespaces s = []}"

lemma empty_paths_Cons [simp]:
  "empty_paths [] = {}"
  "empty_paths (s # ss) = (if s_namespaces s = [] then insert (s_at s) (empty_paths ss) else empty_paths ss)"
  by (auto simp: empty_paths_def)

lemma scope_sites_ok:
  assumes "elig_sound elig E" and tns: "'''' \<notin> set tns"
  shows "cache_ok E cache \<Longrightarrow> set ss \<subseteq> set (findSelectorSites sp0) \<Longrightarrow>
    validE (\<lambda>s. scope_inv tns sp0 m0 D (fst s)) (scope_sites elig tns ss narrowed cache)
      (\<lambda>_ s. scope_inv tns sp0 m0 (D \<union> empty_paths ss) (fst s)
           \<and> (\<forall>s \<in> set ss. set (s_namespaces s) \<subseteq> E))
      (\<lambda>e s. (\<exists>D. scope_inv tns sp0 m0 D (fst s)) \<and> safety_error e)"
proof (induction ss arbitrary: D narrowed cache)
  case Nil
  then show ?case by (auto intro!: validE_ret_if)
next
  case (Cons s ss)
  then have ss: "set ss \<subseteq> set (findSelectorSites sp0)" "s \<in> set (findSelectorSites sp0)" by auto
  show ?case
  proof (cases "s_namespaces s = []")
    case True
    have "validE (\<lambda>s. scope_inv tns sp0 m0 D (fst s)) (modManifestE (update_spec_at (s_at s) (put_namespaces tns)))
        (\<lambda>_ t. scope_inv tns sp0 m0 (insert (s_at s) D) (fst t))
        (\<lambda>e s. (\<exists>D. scope_inv tns sp0 m0 D (fst s)) \<and> safety_error e)"
      using scope_inv_narrow [OF _ ss(2) True tns]
      by (auto simp: validE_def modManifestE_def modifyE_def)
    from validE_bind [OF this Cons.IH [OF Cons.prems(1) ss(1)]]
    have "validE (\<lambda>s. scope_inv tns sp0 m0 D (fst s)) (scope_sites elig tns (s # ss) narrowed cache)
      (\<lambda>_ t. scope_inv tns sp0 m0 (insert (s_at s) D \<union> empty_paths ss) (fst t)
           \<and> (\<forall>s \<in> set ss. set (s_namespaces s) \<subseteq> E))
      (\<lambda>e s. (\<exists>D. scope_inv tns sp0 m0 D (fst s)) \<and> safety_error e)"
      unfolding scope_sites.simps if_P [OF True] .
    then show ?thesis by (rule validE_weaken) (auto simp: True)
  next
    case False
    have rest: "validE (\<lambda>t. scope_inv tns sp0 m0 D (fst t)) (scope_sites elig tns ss narrowed cache')
       (\<lambda>_ t. scope_inv tns sp0 m0 (D \<union> empty_paths (s # ss)) (fst t)
           \<and> (\<forall>s \<in> set (s # ss). set (s_namespaces s) \<subseteq> E))
       (\<lambda>e s. (\<exists>D. scope_inv tns sp0 m0 D (fst s)) \<and> safety_error e)"
      if "set (s_namespaces s) \<subseteq> E \<and> cache_ok E cache'" for cache'
      using that by (intro validE_weaken [OF Cons.IH [OF _ ss(1), of cache']]) (auto simp: False)
    have "validE (\<lambda>t. scope_inv tns sp0 m0 D (fst t))
        (check_site_namespaces elig (s_path s) (s_namespaces s) cache)
        (\<lambda>cache' t. (set (s_namespaces s) \<subseteq> E \<and> cache_ok E cache') \<and> scope_inv tns sp0 m0 D (fst t))
        (\<lambda>e s. (\<exists>D. scope_inv tns sp0 m0 D (fst s)) \<and> safety_error e)"
      by (rule validE_weaken [OF check_site_namespaces_ok
            [OF assms(1) Cons.prems(1), where P = "scope_inv tns sp0 m0 D"]]) auto
    from validE_bind_pure [OF this rest] show ?thesis
      unfolding scope_sites.simps if_not_P [OF False] .
  qed
qed

text \<open>
  After a successful check every selector of the spec, as the driver will see
  it, names at least one namespace, and only namespaces the checker answered
  to be eligible or the manifest targets.
\<close>

definition spec_scoped :: "string set \<Rightarrow> fault_manifest \<Rightarrow> bool" where
  "spec_scoped E m \<longleftrightarrow>
     (\<forall>s \<in> set (findSelectorSites (spec_map m)). s_namespaces s \<noteq> [] \<and> set (s_namespaces s) \<subseteq> E)"

definition same_but_spec :: "fault_manifest \<Rightarrow> fault_manifest \<Rightarrow> bool" where
  "same_but_spec m0 m \<longleftrightarrow> (\<exists>sp. m = m0\<lparr>m_Spec := sp\<rparr>)"

lemma same_but_spec_refl [simp]: "same_but_spec m m"
  unfolding same_but_spec_def by (metis fault_manifest.surjective fault_manifest.update_convs(6))

lemma same_but_spec_trans: "same_but_spec a b \<Longrightarrow> same_but_spec b c \<Longrightarrow> same_but_spec a c"
  by (auto simp: same_but_spec_def)

lemma same_but_spec_sel:
  "same_but_spec m0 m \<Longrightarrow> m_Targets m = m_Targets m0"
  "same_but_spec m0 m \<Longrightarrow> m_Engine m = m_Engine m0"
  "same_but_spec m0 m \<Longrightarrow> m_ResourceKind m = m_ResourceKind m0"
  "same_but_spec m0 m \<Longrightarrow> m_Duration m = m_Duration m0"
  "same_but_spec m0 m \<Longrightarrow> m_BlastRadiusTier m = m_BlastRadiusTier m0"
  "same_but_spec m0 m \<Longrightarrow> TargetNamespaces m = TargetNamespaces m0"
  "same_but_spec m0 m \<Longrightarrow> m_Probes m = m_Probes m0"
  "same_but_spec m0 m \<Longrightarrow> m_UID m = m_UID m0"
  by (auto simp: same_but_spec_def TargetNamespaces_def)

lemma scope_inv_same: "scope_inv tns sp0 m0 D m \<Longrightarrow> same_but_spec m0 m"
  by (auto simp: scope_inv_def same_but_spec_def)

lemma scope_inv_selector: "scope_inv tns sp0 m0 D m \<Longrightarrow> has_selector sp0 \<Longrightarrow> has_selector (spec_map m)"
  by (auto simp: scope_inv_def spec_map_def)

lemma empty_spec_scoped: "spec_map m = [] \<Longrightarrow> spec_scoped E m"
  by (simp add: spec_scoped_def findSelectorSites_def sorted_keys_def is_selector_def
      selectorFieldNames_def hasSelectorMarker_def const_defs)

lemma scope_inv_scoped:
  assumes "scope_inv tns sp0 m0 (empty_paths (findSelectorSites sp0)) m" "tns \<noteq> []"
    and "\<forall>s \<in> set (findSelectorSites sp0). set (s_namespaces s) \<subseteq> E"
  shows "spec_scoped (E \<union> set tns) m"
proof -
  from assms(1) obtain sp where m: "m = m0\<lparr>m_Spec := Some sp\<rparr>"
    and inv: "narrow_inv tns sp0 (empty_paths (findSelectorSites sp0)) sp"
    by (auto simp: scope_inv_def)
  have "\<forall>s \<in> set (findSelectorSites sp0). s_namespaces s = [] \<longrightarrow> s_at s \<in> empty_paths (findSelectorSites sp0)"
    by (auto simp: empty_paths_def)
  from narrow_inv_done [OF inv assms(2) this assms(3)] show ?thesis
    by (simp add: spec_scoped_def m spec_map_def)
qed

lemma validateSpecNamespaceScope_ok:
  assumes "elig_sound elig E"
  shows "validE (\<lambda>s. fst s = m0) (validateSpecNamespaceScope elig)
    (\<lambda>_ s. same_but_spec m0 (fst s) \<and> (has_selector (spec_map m0) \<longrightarrow> has_selector (spec_map (fst s)))
       \<and> (m_Engine m0 \<notin> set specScopeExempt \<longrightarrow> spec_scoped (E \<union> set (TargetNamespaces m0)) (fst s)))
    (\<lambda>e s. same_but_spec m0 (fst s) \<and> safety_error e)"
  unfolding validateSpecNamespaceScope_def
proof (rule validE_bind_manifest [where P = "\<lambda>m. m = m0"], goal_cases)
  case (1 m)
  let ?tns = "TargetNamespaces m0" and ?sites = "findSelectorSites (spec_map m0)"
  have loop: "validE (\<lambda>s. fst s = m0) (scope_sites elig ?tns ?sites [] [])
      (\<lambda>_ s. (same_but_spec m0 (fst s) \<and> (has_selector (spec_map m0) \<longrightarrow> has_selector (spec_map (fst s))))
           \<and> spec_scoped (E \<union> set ?tns) (fst s))
      (\<lambda>e s. same_but_spec m0 (fst s) \<and> safety_error e)"
    if ne: "spec_map m0 \<noteq> []" "?tns \<noteq> []"
  proof (rule validE_weaken [OF scope_sites_ok [OF assms, of ?tns "[]" ?sites "spec_map m0" m0 "{}" "[]"]])
    fix s :: "fault_manifest \<times> 'a"
    assume "fst s = m0"
    moreover have "m0 = m0\<lparr>m_Spec := Some (spec_map m0)\<rparr>"
      using ne(1) by (cases "m_Spec m0") (auto simp: spec_map_def)
    ultimately show "scope_inv ?tns (spec_map m0) m0 {} (fst s)"
      using narrow_inv_refl unfolding scope_inv_def by metis
  qed (use ne scope_inv_scoped [of ?tns "spec_map m0" m0 _ E] scope_inv_same scope_inv_selector
        in \<open>auto simp: cache_ok_def\<close>)
  show ?case
    using 1 loop
    by (auto simp: empty_spec_scoped intro!: validE_ret_if validE_throw_if elim!: validE_weaken)
qed

section \<open>What the pod selector check guarantees\<close>

text \<open>\<open>F\<close> contains every namespace the checker ever answers to have no exclusions.\<close>

definition excl_free :: "'w eligibility \<Rightarrow> string set \<Rightarrow> bool" where
  "excl_free elig F \<longleftrightarrow> (\<forall>ns w w'. el_ExcludedWorkloads elig ns w = (Inr [], w') \<longrightarrow> ns \<in> F)"

lemma check_no_exclusions_ok:
  assumes "excl_free elig F"
  shows "validE (\<lambda>s. P (fst s)) (check_no_exclusions elig msg nss)
    (\<lambda>_ s. set nss \<subseteq> F \<and> P (fst s)) (\<lambda>e s. P (fst s) \<and> safety_error e)"
proof (induction nss)
  case Nil
  then show ?case by (simp add: validE_ret_if)
next
  case (Cons ns nss)
  show ?case
    unfolding check_no_exclusions.simps
  proof (intro validE_bind_query, goal_cases)
    case (1 r)
    then have "ns \<in> F" if "r = Inr []" using that assms by (auto simp: excl_free_def)
    then show ?case
      by (cases r) (auto simp: validE_throw_if intro: validE_weaken [OF Cons.IH])
  qed
qed

lemma check_sites_ok:
  assumes "excl_free elig F"
  shows "validE (\<lambda>s. P (fst s)) (check_sites elig m ss)
    (\<lambda>_ s. (\<forall>s \<in> set ss. is_secondary s \<longrightarrow> set (site_scope m s) \<subseteq> F) \<and> P (fst s))
    (\<lambda>e s. P (fst s) \<and> safety_error e)"
proof (induction ss)
  case Nil
  then show ?case by (simp add: validE_ret_if)
next
  case (Cons s ss)
  show ?case
  proof (cases "is_secondary s")
    case True
    have "validE (\<lambda>t. P (fst t)) (bindE (check_no_exclusions elig (secondary_msg (s_path s)) (site_scope m s))
             (\<lambda>_. check_sites elig m ss))
       (\<lambda>_ t. (\<forall>s' \<in> set (s # ss). is_secondary s' \<longrightarrow> set (site_scope m s') \<subseteq> F) \<and> P (fst t))
       (\<lambda>e s. P (fst s) \<and> safety_error e)"
      by (rule validE_bind_pure [OF check_no_exclusions_ok [OF assms]], rule validE_weaken [OF Cons.IH]) auto
    with True show ?thesis by simp
  next
    case False
    with Cons.IH show ?thesis by simp
  qed
qed

text \<open>What the loop over the targets finds.\<close>

lemma target_labels_spec:
  assumes "target_labels ts = (named, agree, labels)"
  shows "named \<longleftrightarrow> (\<exists>t \<in> set ts. t_Name t \<noteq> '''')"
    and "labels = Some l \<Longrightarrow> l \<noteq> []"
    and "labels = Some l \<Longrightarrow> agree \<Longrightarrow> \<forall>t \<in> set ts. t_Labels t = l \<or> map_equal l (t_Labels t)"
proof -
  have "\<forall>named agree labels. target_labels ts = (named, agree, labels) \<longrightarrow>
      (named \<longleftrightarrow> (\<exists>t \<in> set ts. t_Name t \<noteq> '''')) \<and>
      (\<forall>l. labels = Some l \<longrightarrow> l \<noteq> [] \<and> (agree \<longrightarrow> (\<forall>t \<in> set ts. t_Labels t = l \<or> map_equal l (t_Labels t)))) \<and>
      (labels = None \<longrightarrow> agree \<longrightarrow> ts = [])"
  proof (induction ts rule: rev_induct)
    case Nil
    then show ?case by (simp add: target_labels_def)
  next
    case (snoc t ts)
    obtain n a ls where p: "target_labels ts = (n, a, ls)" by (cases "target_labels ts")
    note ih = snoc [rule_format, OF p]
    have "target_labels (ts @ [t]) =
       (let named' = (n \<or> t_Name t \<noteq> '''')
        in if t_Labels t = [] then (named', False, ls)
           else case ls of
                  None \<Rightarrow> (named', a, Some (t_Labels t))
                | Some l \<Rightarrow> if \<not> map_equal l (t_Labels t) then (named', False, ls) else (named', a, ls))"
      using p by (simp add: target_labels_def)
    then show ?case
      using ih by (cases ls) (auto simp: Let_def split: if_splits)
  qed
  then show "named \<longleftrightarrow> (\<exists>t \<in> set ts. t_Name t \<noteq> '''')"
    and "labels = Some l \<Longrightarrow> l \<noteq> []"
    and "labels = Some l \<Longrightarrow> agree \<Longrightarrow> \<forall>t \<in> set ts. t_Labels t = l \<or> map_equal l (t_Labels t)"
    using assms by blast+
qed

lemma primary_selector_put: "primary_selector (spec_map (put_labels l m)) =
    AList.update k_labelSelectors (labels_json l) (primary_selector (spec_map m))"
  by (simp add: put_labels_def primary_selector_def spec_map_def)

lemma selectsPods_put: "l \<noteq> [] \<Longrightarrow> selectsPods (primary_selector (spec_map (put_labels l m)))"
  by (simp add: primary_selector_put selectsPods_def podNarrowingKeys_def labels_json_def)

lemma same_but_spec_put [simp]: "same_but_spec m (put_labels l m)"
  by (auto simp: same_but_spec_def put_labels_def)

text \<open>
  The reach of an accepted pod fault: the primary selector picks particular
  pods, or the fault names no workload and no targeted namespace has
  exclusions (or no resolver is configured).  Every other selector picks
  particular pods or is confined to namespaces without exclusions.
\<close>

definition pod_scope_ok ::
  "string set \<Rightarrow> bool \<Rightarrow> fault_manifest \<Rightarrow> fault_manifest \<Rightarrow> bool" where
  "pod_scope_ok F resolver m0 m \<longleftrightarrow>
     (\<forall>s \<in> set (findSelectorSites (spec_map m0)). is_secondary s \<longrightarrow> set (site_scope m0 s) \<subseteq> F)
     \<and> (selectsPods (primary_selector (spec_map m))
        \<or> (\<forall>t \<in> set (m_Targets m0). t_Name t = '''') \<and> set (TargetNamespaces m0) \<subseteq> F
        \<or> \<not> resolver)"

text \<open>What the check reports and does to the manifest: nothing, or the labels that all the
  targets carry, written into the primary selector.\<close>

definition narrowed_as :: "fault_manifest \<Rightarrow> string gomap option \<Rightarrow> fault_manifest \<Rightarrow> bool" where
  "narrowed_as m0 r m \<longleftrightarrow>
     (case r of
        None \<Rightarrow> m = m0
      | Some l \<Rightarrow> l \<noteq> [] \<and> m = put_labels l m0 \<and>
          (\<forall>t \<in> set (m_Targets m0). t_Labels t = l \<or> map_equal l (t_Labels t)))"

lemma narrow_to_targets_ok:
  assumes "excl_free elig F"
    and sec: "\<forall>s \<in> set (findSelectorSites (spec_map m0)). is_secondary s \<longrightarrow> set (site_scope m0 s) \<subseteq> F"
  shows "validE (\<lambda>s. fst s = m0) (narrow_to_targets elig wl m0)
    (\<lambda>r s. narrowed_as m0 r (fst s) \<and> pod_scope_ok F (wl \<noteq> None) m0 (fst s))
    (\<lambda>e s. fst s = m0 \<and> safety_error e)" (is "validE ?P _ ?Q ?E")
proof -
  obtain named agree labels where tl: "target_labels (m_Targets m0) = (named, agree, labels)"
    by (cases "target_labels (m_Targets m0)")
  note spec = target_labels_spec [OF tl]
  consider (labels) l where "agree" "labels = Some l"
    | (named) "\<not> (agree \<and> labels \<noteq> None)" "named"
    | (unnamed) "\<not> (agree \<and> labels \<noteq> None)" "\<not> named" by blast
  then show ?thesis
  proof cases
    case labels
    have "?Q labels (put_labels l m0, w)" for w
      using spec(2) [OF labels(2)] spec(3) [OF labels(2,1)] sec labels(2)
      by (auto simp: pod_scope_ok_def selectsPods_put narrowed_as_def)
    with labels show ?thesis
      by (simp add: narrow_to_targets_def tl validE_def modManifestE_def modifyE_def bindE_def retE_def)
  next
    case named
    with sec show ?thesis
      by (auto simp: narrow_to_targets_def tl pod_scope_ok_def narrowed_as_def Option.is_none_def unknown_pods_error_def
          intro!: validE_ret_if validE_throw_if)
  next
    case unnamed
    have "validE ?P (bindE (check_no_exclusions elig primary_msg (TargetNamespaces m0)) (\<lambda>_. retE None)) ?Q ?E"
      by (rule validE_bind_pure [OF check_no_exclusions_ok [OF assms(1), of "\<lambda>m. m = m0"]])
        (use unnamed(2) spec(1) sec in \<open>auto simp: pod_scope_ok_def narrowed_as_def intro!: validE_ret_if\<close>)
    with unnamed show ?thesis by (simp only: narrow_to_targets_def tl prod.case if_False)
  qed
qed

lemma narrowPodSelector_ok:
  assumes "excl_free elig F" and "m_Engine m0 = EngineChaosMesh" "m_Spec m0 \<noteq> None"
    and "\<not> IsOutageKind (m_Engine m0) (m_ResourceKind m0)"
  shows "validE (\<lambda>s. fst s = m0) (narrowPodSelector elig wl)
    (\<lambda>r s. narrowed_as m0 r (fst s) \<and> pod_scope_ok F (wl \<noteq> None) m0 (fst s))
    (\<lambda>e s. fst s = m0 \<and> safety_error e)" (is "validE ?P _ ?Q ?E")
  unfolding narrowPodSelector_def checkSecondarySelectors_def
proof (rule validE_bind_manifest [where P = "\<lambda>m. m = m0"], goal_cases)
  case (1 m)
  let ?sec = "\<forall>s \<in> set (findSelectorSites (spec_map m0)). is_secondary s \<longrightarrow> set (site_scope m0 s) \<subseteq> F"
  have second: "validE ?P (bindE manifestE (\<lambda>m. check_sites elig m (findSelectorSites (spec_map m))))
      (\<lambda>_ s. ?sec \<and> fst s = m0) ?E"
    using check_sites_ok [OF assms(1), of "\<lambda>m. m = m0"]
    by (intro validE_bind_manifest [where P = "\<lambda>m. m = m0"]) simp
  have "validE ?P (bindE (bindE manifestE (\<lambda>m. check_sites elig m (findSelectorSites (spec_map m)))) (\<lambda>_.
       if selectsPods (primary_selector (spec_map m0)) then retE None
       else narrow_to_targets elig wl m0)) ?Q ?E"
    by (rule validE_bind_pure [OF second])
      (use narrow_to_targets_ok [OF assms(1)] in \<open>auto simp: pod_scope_ok_def narrowed_as_def intro!: validE_ret_if\<close>)
  moreover have "\<not> (m_Engine m0 \<noteq> EngineChaosMesh \<or> m_Spec m0 = None)" using assms(2,3) by simp
  ultimately show ?case unfolding 1 using assms(4) by (simp only: if_False)
qed

text \<open>
  Writing the labels into an existing primary selector keeps the namespace
  scope: \<^verbatim>\<open>labelSelectors\<close> is opaque to the walk and no namespaces are read from
  it.
\<close>

lemma selector_key_facts:
  "k_selector \<in> set selectorFieldNames" "k_selector \<notin> set selectorMarkerKeys" "k_selector \<notin> set opaqueMapFields"
  "k_labelSelectors \<in> set opaqueMapFields" "k_labelSelectors \<noteq> k_namespaces" "k_labelSelectors \<noteq> k_pods"
  by (simp_all add: selectorFieldNames_def selectorMarkerKeys_def opaqueMapFields_def const_defs)

lemma namespacesIn_labels: "namespacesIn (AList.update k_labelSelectors v n) = namespacesIn n"
  using selector_key_facts(5,6) by (simp add: namespacesIn_def)

lemma reach_labels:
  "q \<noteq> [] \<Longrightarrow> reach key (JObj (AList.update k_labelSelectors v n)) q = reach key (JObj n) q"
  using selector_key_facts(4) by (cases q; cases "hd q") auto

lemma put_labels_scoped:
  assumes "spec_scoped E m" "has_selector (spec_map m)"
  shows "spec_scoped E (put_labels l m)"
  unfolding spec_scoped_def
proof
  fix s
  assume s: "s \<in> set (findSelectorSites (spec_map (put_labels l m)))"
  let ?sp = "spec_map m"
  from assms(2) obtain sel where sel: "map_of ?sp k_selector = Some (JObj sel)" by (auto simp: has_selector_def)
  let ?sel = "JObj (AList.update k_labelSelectors (labels_json l) sel)"
  have sp: "spec_map (put_labels l m) = AList.update k_selector ?sel ?sp"
    using sel by (simp add: put_labels_def spec_map_def primary_selector_def)
  from findSelectorSites_sound [OF s] obtain k where
    r: "reach '''' (JObj (AList.update k_selector ?sel ?sp)) (s_at s) = Some (k, JObj (s_node s))"
    and iss: "is_selector k (s_node s)" and ns: "s_namespaces s = namespacesIn (s_node s)"
    unfolding sp by auto
  have "\<exists>n. reach '''' (JObj ?sp) (s_at s) = Some (k, JObj n) \<and> is_selector k n
      \<and> namespacesIn n = namespacesIn (s_node s)"
  proof (cases "s_at s")
    case Nil
    have sh: "same_shape (JObj sel) ?sel" by simp
    from Nil r have n: "s_node s = AList.update k_selector ?sel ?sp" "k = ''''" by auto
    with iss show ?thesis
      using Nil namespacesIn_update [OF sel sh selector_key_facts(3)] marker_update [OF sel sh]
      by (auto simp: is_selector_def)
  next
    case (Cons st q)
    with r obtain x where st: "st = Key x" by (cases st) auto
    show ?thesis
    proof (cases "x = k_selector")
      case False
      with r iss st Cons show ?thesis by (auto split: if_splits)
    next
      case True
      with r st Cons have r': "reach k_selector ?sel q = Some (k, JObj (s_node s))"
        using selector_key_facts(3) by simp
      show ?thesis
      proof (cases "q = []")
        case q: True
        with r' have "k = k_selector" "s_node s = AList.update k_labelSelectors (labels_json l) sel" by auto
        with Cons st True q sel selector_key_facts show ?thesis
          by (simp add: is_selector_def namespacesIn_labels)
      next
        case False
        with r' reach_labels have "reach k_selector (JObj sel) q = Some (k, JObj (s_node s))" by metis
        with Cons st True sel selector_key_facts iss show ?thesis by simp
      qed
    qed
  qed
  then obtain n where "reach '''' (JObj ?sp) (s_at s) = Some (k, JObj n)" "is_selector k n"
    "namespacesIn n = namespacesIn (s_node s)" by blast
  with findSelectorSites_complete assms(1) ns show "s_namespaces s \<noteq> [] \<and> set (s_namespaces s) \<subseteq> E"
    unfolding spec_scoped_def by metis
qed

lemma validE_run: "validE P c Q E \<Longrightarrow> P s \<Longrightarrow> c s = (Inr a, t) \<Longrightarrow> Q a t"
  by (auto simp: validE_def dest!: spec [of _ s])

text \<open>The namespace check does not give a spec a primary selector it had not.\<close>

lemma no_selector_narrow:
  assumes "\<not> has_selector sp" "update_at p (put_namespaces tns) (JObj sp) = JObj sp'"
  shows "\<not> has_selector sp'"
proof (cases p)
  case Nil
  with assms show ?thesis by (auto simp: has_selector_def put_namespaces_def const_defs)
next
  case (Cons st p')
  show ?thesis
  proof (cases st)
    case (Key k)
    show ?thesis
    proof (cases "map_of sp k")
      case (Some c)
      with assms Key Cons have "sp' = AList.update k (update_at p' (put_namespaces tns) c) sp" by simp
      with assms(1) Some update_at_shape [of c p' "put_namespaces tns"] show ?thesis
        by (cases c; cases "update_at p' (put_namespaces tns) c") (auto simp: has_selector_def)
    qed (use assms Cons Key in auto)
  qed (use assms Cons in auto)
qed

lemma no_selector_update:
  assumes "\<not> has_selector (spec_map m)"
  shows "\<not> has_selector (spec_map (update_spec_at p (put_namespaces tns) m))"
proof (cases "m_Spec m")
  case (Some sp)
  then obtain sp' where "update_at p (put_namespaces tns) (JObj sp) = JObj sp'"
    "update_spec_at p (put_namespaces tns) m = m\<lparr>m_Spec := Some sp'\<rparr>"
    by (rule update_spec_at_Some)
  with assms Some no_selector_narrow show ?thesis by (simp add: spec_map_def)
qed (use assms in \<open>simp add: update_spec_at_def\<close>)

lemma check_site_namespaces_frame:
  "validE (\<lambda>s. P (fst s)) (check_site_namespaces elig path nss cache) (\<lambda>_ s. P (fst s)) (\<lambda>_ _. True)"
  by (rule validE_weaken [OF check_site_namespaces_ok [of elig UNIV cache P path nss]])
    (auto simp: elig_sound_def cache_ok_def)

lemma scope_sites_no_selector:
  "validE (\<lambda>s. \<not> has_selector (spec_map (fst s))) (scope_sites elig tns ss narrowed cache)
     (\<lambda>_ s. \<not> has_selector (spec_map (fst s))) (\<lambda>_ _. True)"
proof (induction ss arbitrary: narrowed cache)
  case Nil
  then show ?case by (simp add: validE_ret_if)
next
  case (Cons s ss)
  have "validE (\<lambda>s. \<not> has_selector (spec_map (fst s))) (modManifestE (update_spec_at (s_at s) (put_namespaces tns)))
      (\<lambda>_ s. \<not> has_selector (spec_map (fst s))) (\<lambda>_ _. True)"
    using no_selector_update by (auto simp: validE_def modManifestE_def modifyE_def)
  note narrow = validE_bind [OF this Cons.IH]
  note look = validE_bind [OF check_site_namespaces_frame [where P = "\<lambda>m. \<not> has_selector (spec_map m)"] Cons.IH]
  show ?case
    unfolding scope_sites.simps by (cases "s_namespaces s = []") (simp_all add: narrow look)
qed

lemma validateSpecNamespaceScope_no_selector:
  "validE (\<lambda>s. \<not> has_selector (spec_map (fst s))) (validateSpecNamespaceScope elig)
     (\<lambda>_ s. \<not> has_selector (spec_map (fst s))) (\<lambda>_ _. True)"
  unfolding validateSpecNamespaceScope_def
  by (rule validE_bind_manifest [where P = "\<lambda>m. \<not> has_selector (spec_map m)"])
    (auto intro!: validE_ret_if validE_throw_if intro: validE_weaken [OF scope_sites_no_selector])

lemma primary_selector_Nil: "\<not> has_selector sp \<Longrightarrow> primary_selector sp = []"
  by (auto simp: has_selector_def primary_selector_def split: option.splits)

text \<open>Labels are reported only when they are written into the manifest checked.\<close>

lemma check_sites_frame:
  "check_sites elig m0 ss (m, w) = (Inr u, (m', w')) \<Longrightarrow> m' = m"
  using validE_run [OF check_sites_ok [of elig UNIV "\<lambda>m'. m' = m" m0 ss], of "(m, w)" u "(m', w')"]
  by (simp add: excl_free_def)

lemma check_no_exclusions_frame:
  "check_no_exclusions elig msg nss (m, w) = (Inr u, (m', w')) \<Longrightarrow> m' = m"
  using validE_run [OF check_no_exclusions_ok [of elig UNIV "\<lambda>m'. m' = m" msg nss], of "(m, w)" u "(m', w')"]
  by (simp add: excl_free_def)

lemma narrowPodSelector_Some:
  "narrowPodSelector elig wl (m, w) = (Inr (Some l), (m', w')) \<Longrightarrow> m' = put_labels l m"
  by (auto simp: narrowPodSelector_def narrow_to_targets_def checkSecondarySelectors_def bindE_def getE_def retE_def
      throwE_def modManifestE_def modifyE_def split: if_splits prod.splits sum.splits dest!: check_sites_frame)

section \<open>Properties of the scope checks\<close>

definition sample_elig :: "unit eligibility" where
  "sample_elig = StaticEligibility \<lparr>se_Eligible = [(''shop'', True)], se_Exclusions = []\<rparr>"

definition sample_manifest :: "jobj \<Rightarrow> fault_manifest" where
  "sample_manifest sp =
     \<lparr>m_UID = '''', m_Source = '''', m_Engine = EngineChaosMesh, m_APIVersion = '''', m_ResourceKind = ''NetworkChaos'',
      m_Spec = Some sp,
      m_Targets = [\<lparr>t_Namespace = ''shop'', t_Kind = '''', t_Name = ''web'', t_Labels = [(''app'', ''web'')]\<rparr>],
      m_Duration = 1, m_BlastRadiusTier = '''', m_Probes = [], m_Rationale = '''', m_PlanID = '''', m_Annotations = []\<rparr>"

definition sample_spec :: jobj where
  "sample_spec = [(k_selector, JObj []), (''target'', JObj [(k_selector, JObj [(k_namespaces, JArr [JStr ''shop''])])])]"

lemma sample_sound: "elig_sound sample_elig {''shop''}" and sample_free: "excl_free sample_elig UNIV"
  by (auto simp: elig_sound_def excl_free_def sample_elig_def StaticEligibility_def split: if_splits)

text \<open>
  C32.  The walk finds exactly the selectors of a spec: a site is reported at a
  path if and only if the node there can be reached without crossing an opaque
  field and is a selector by its key or its shape.
\<close>

theorem findSelectorSites_exact:
  "(\<exists>s \<in> set (findSelectorSites sp). s_at s = p \<and> s_node s = n \<and> s_namespaces s = namespacesIn n) \<longleftrightarrow>
     (\<exists>k. reach '''' (JObj sp) p = Some (k, JObj n) \<and> (k \<in> set selectorFieldNames \<or> hasSelectorMarker n))"
  using findSelectorSites_sound findSelectorSites_complete unfolding is_selector_def [symmetric] by metis

text \<open>
  C30.  When the namespace check accepts a spec of an engine that is not exempt,
  every selector in the spec it leaves names at least one namespace, and only
  eligible or targeted ones; nothing but the spec of the manifest is changed.
\<close>

theorem validateSpecNamespaceScope_scopes:
  assumes "elig_sound elig E" "m_Engine m \<notin> set specScopeExempt"
    and run: "validateSpecNamespaceScope elig (m, w) = (Inr paths, (m', w'))"
  shows "(\<forall>s \<in> set (findSelectorSites (spec_map m')).
       s_namespaces s \<noteq> [] \<and> set (s_namespaces s) \<subseteq> E \<union> set (TargetNamespaces m))
    \<and> m' = m\<lparr>m_Spec := m_Spec m'\<rparr>"
proof -
  have "same_but_spec m m' \<and> spec_scoped (E \<union> set (TargetNamespaces m)) m'"
    using validE_run [OF validateSpecNamespaceScope_ok [OF assms(1)] _ run] assms(2) by simp
  moreover from this have "m' = m\<lparr>m_Spec := m_Spec m'\<rparr>" by (auto simp: same_but_spec_def)
  ultimately show ?thesis unfolding spec_scoped_def by blast
qed

theorem validateSpecNamespaceScope_scopes_witness:
  "\<exists>m'. validateSpecNamespaceScope sample_elig (sample_manifest sample_spec, ()) = (Inr [''spec.selector''], (m', ()))
     \<and> list_all (\<lambda>s. s_namespaces s \<noteq> []) (findSelectorSites (spec_map m'))"
proof -
  define m' where "m' = fst (snd (validateSpecNamespaceScope sample_elig (sample_manifest sample_spec, ())))"
  have "fst (validateSpecNamespaceScope sample_elig (sample_manifest sample_spec, ())) = Inr [''spec.selector'']" by code_simp
  then have run: "validateSpecNamespaceScope sample_elig (sample_manifest sample_spec, ()) = (Inr [''spec.selector''], (m', ()))"
    by (simp add: m'_def prod_eq_iff)
  have "m_Engine (sample_manifest sample_spec) \<notin> set specScopeExempt" by code_simp
  from validateSpecNamespaceScope_scopes [OF sample_sound this run] run show ?thesis
    by (auto simp: list_all_iff)
qed

text \<open>
  C31.  With a workload resolver configured, when the pod check accepts a Chaos
  Mesh fault that is not an outage, the selector the driver gets picks particular
  pods, or the fault names no workload and no targeted namespace has exclusions;
  and every other selector that picks no particular pods is confined to namespaces
  without exclusions.  The check changes nothing but the labels of the primary
  selector, and the labels it writes there are non-empty and those of every target.
\<close>

theorem narrowPodSelector_reach:
  assumes "excl_free elig F" "m_Engine m = EngineChaosMesh" "m_Spec m \<noteq> None"
    and "\<not> IsOutageKind (m_Engine m) (m_ResourceKind m)"
    and run: "narrowPodSelector elig (Some resolver) (m, w) = (Inr labels, (m', w'))"
  shows "(selectsPods (primary_selector (spec_map m'))
      \<or> (\<forall>t \<in> set (m_Targets m). t_Name t = '''') \<and> set (TargetNamespaces m) \<subseteq> F)
    \<and> (\<forall>s \<in> set (findSelectorSites (spec_map m)).
         s_path s \<noteq> ''spec.selector'' \<and> \<not> selectsPods (s_node s) \<longrightarrow> set (site_scope m s) \<subseteq> F)
    \<and> (case labels of
         None \<Rightarrow> m' = m
       | Some l \<Rightarrow> l \<noteq> [] \<and> m' = put_labels l m \<and>
           (\<forall>t \<in> set (m_Targets m). t_Labels t = l \<or> map_equal l (t_Labels t)))"
  using validE_run [OF narrowPodSelector_ok [OF assms(1-4)] _ run]
  by (auto simp: pod_scope_ok_def is_secondary_def narrowed_as_def)

theorem narrowPodSelector_reach_witness:
  "\<exists>m'. narrowPodSelector sample_elig (Some (\<lambda>_ _ _ w. (Inr [], w))) (sample_manifest sample_spec, ()) = (Inr (Some [(''app'', ''web'')]), (m', ()))
     \<and> selectsPods (primary_selector (spec_map m'))"
proof -
  let ?run = "narrowPodSelector sample_elig (Some (\<lambda>_ _ _ w. (Inr [], w))) (sample_manifest sample_spec, ())"
  define m' where "m' = fst (snd ?run)"
  have "fst ?run = Inr (Some [(''app'', ''web'')])" by code_simp
  then have run: "?run = (Inr (Some [(''app'', ''web'')]), (m', ()))" by (simp add: m'_def prod_eq_iff)
  have e: "m_Engine (sample_manifest sample_spec) = EngineChaosMesh" "m_Spec (sample_manifest sample_spec) \<noteq> None"
    "\<not> IsOutageKind (m_Engine (sample_manifest sample_spec)) (m_ResourceKind (sample_manifest sample_spec))"
    "list_ex (\<lambda>t. t_Name t \<noteq> '''') (m_Targets (sample_manifest sample_spec))"
    by code_simp+
  from narrowPodSelector_reach [OF sample_free e(1-3) run] e(4) run show ?thesis
    by (auto simp: list_ex_iff)
qed

text \<open>
  C33.  The two checks in the order the pipeline runs them leave a selector without
  a namespace.  Whatever the spec of a Chaos Mesh fault, when it has no primary
  selector (no \<^verbatim>\<open>selector\<close>, or one that is not a map), the namespace check has passed
  and the pod check has then narrowed the fault to the labels of its targets, the
  driver gets a spec whose \<^verbatim>\<open>selector\<close> is a selector made of those labels alone: it
  names no namespace.
\<close>

theorem scope_gap:
  assumes "\<not> has_selector (spec_map m)"
    and scope: "validateSpecNamespaceScope elig (m, w) = (Inr paths, (m1, w1))"
    and pods: "narrowPodSelector elig wl (m1\<lparr>m_Targets := ts\<rparr>, w2) = (Inr (Some l), (m2, w3))"
  shows "\<exists>s \<in> set (findSelectorSites (spec_map m2)).
     s_at s = [Key k_selector] \<and> s_node s = [(k_labelSelectors, labels_json l)] \<and> s_namespaces s = []"
proof -
  from validE_run [OF validateSpecNamespaceScope_no_selector _ scope] assms(1)
  have "\<not> has_selector (spec_map m1)" by simp
  then have none: "primary_selector (spec_map (m1\<lparr>m_Targets := ts\<rparr>)) = []"
    by (simp add: primary_selector_Nil spec_map_def)
  have "m2 = put_labels l (m1\<lparr>m_Targets := ts\<rparr>)"
    using narrowPodSelector_Some [OF pods] .
  then have "map_of (spec_map m2) k_selector = Some (JObj [(k_labelSelectors, labels_json l)])"
    using none by (simp add: put_labels_def spec_map_def)
  then have "reach '''' (JObj (spec_map m2)) [Key k_selector] = Some (k_selector, JObj [(k_labelSelectors, labels_json l)])"
    using selector_key_facts(3) by simp
  moreover have "is_selector k_selector [(k_labelSelectors, labels_json l)]"
    using selector_key_facts(1) by (simp add: is_selector_def)
  moreover have "namespacesIn [(k_labelSelectors, labels_json l)] = []"
    using selector_key_facts(5,6) by (simp add: namespacesIn_def)
  ultimately show ?thesis using findSelectorSites_complete by metis
qed

theorem scope_gap_witness:
  "\<exists>m2. narrowPodSelector sample_elig None (sample_manifest [(''action'', JStr ''delay'')], ())
       = (Inr (Some [(''app'', ''web'')]), (m2, ()))
     \<and> (\<exists>s \<in> set (findSelectorSites (spec_map m2)). s_at s = [Key k_selector] \<and> s_namespaces s = [])"
proof -
  let ?m = "sample_manifest [(''action'', JStr ''delay'')]"
  have n: "\<not> has_selector (spec_map ?m)"
    by (simp add: has_selector_def spec_map_def sample_manifest_def k_selector_def)
  have a: "validateSpecNamespaceScope sample_elig (?m, ()) = (Inr [], (?m, ()))" by code_simp
  have b: "narrowPodSelector sample_elig None (?m\<lparr>m_Targets := m_Targets ?m\<rparr>, ()) =
      (Inr (Some [(''app'', ''web'')]), (put_labels [(''app'', ''web'')] ?m, ()))" by code_simp
  from scope_gap [OF n a b] b show ?thesis by auto
qed

end
