(* ===== verification/Lease_Registry.thy ===== *)
theory Lease_Registry
  imports Simian_Types
begin

text \<open>
  The lease registry and the reaper, \<^verbatim>\<open>src/pkg/lease\<close>.  A registry is the
  holder identity and a map from fault UID to lease; the mutex makes each
  method one atomic step, so each method is one function of the registry.
  The clock reading a method takes is its argument \<open>now\<close>.  A sweep acts on the
  registry, on the audit log, on the cluster through the drivers and, through
  the \<^verbatim>\<open>OnExpire\<close> callback, on a history of type \<open>'h\<close>.

  Shown here: the registry is a keyed store, a sweep removes exactly the
  expired leases its driver cleared and audits every expired lease once, and
  adoption keeps every lease already held.
\<close>

section \<open>Registry\<close>

record registry =
  r_holder :: string
  r_items :: "active_fault gomap"

definition NewRegistry :: "string \<Rightarrow> registry" where
  "NewRegistry holderID = \<lparr>r_holder = holderID, r_items = []\<rparr>"

definition lease_of :: "registry \<Rightarrow> gotime \<Rightarrow> string \<Rightarrow> string \<Rightarrow> fault_manifest \<Rightarrow> gotime \<Rightarrow> active_fault" where
  "lease_of r now faultUID engineUID m deadline =
     \<lparr>af_FaultUID = faultUID, af_EngineUID = engineUID, af_Manifest = m, af_AppliedAt = now,
      af_Deadline = deadline, af_Holder = r_holder r, af_LastBeat = now\<rparr>"

definition put_lease :: "string \<Rightarrow> active_fault \<Rightarrow> registry \<Rightarrow> registry" where
  "put_lease uid af r = r\<lparr>r_items := AList.update uid af (r_items r)\<rparr>"

definition Register ::
  "gotime \<Rightarrow> string \<Rightarrow> string \<Rightarrow> fault_manifest \<Rightarrow> gotime \<Rightarrow> registry \<Rightarrow> active_fault \<times> registry" where
  "Register now faultUID engineUID m deadline r =
     (let af = lease_of r now faultUID engineUID m deadline in (af, put_lease faultUID af r))"

definition Adopt :: "gotime \<Rightarrow> active_fault \<Rightarrow> registry \<Rightarrow> registry" where
  "Adopt now af r =
     (let af' = af\<lparr>af_Holder := r_holder r, af_LastBeat := now\<rparr> in put_lease (af_FaultUID af) af' r)"

definition Get :: "registry \<Rightarrow> string \<Rightarrow> active_fault option" where
  "Get r faultUID = map_of (r_items r) faultUID"

definition drop_lease :: "string \<Rightarrow> registry \<Rightarrow> registry" where
  "drop_lease uid r = r\<lparr>r_items := AList.delete uid (r_items r)\<rparr>"

text \<open>\<^const>\<open>None\<close> is success, \<^verbatim>\<open>ErrNotFound\<close> otherwise.\<close>

definition ErrNotFound :: goerror where
  "ErrNotFound = GoErr ''lease: fault not found''"

definition Forget :: "string \<Rightarrow> registry \<Rightarrow> goerror option \<times> registry" where
  "Forget faultUID r =
     (case Get r faultUID of
        None \<Rightarrow> (Some ErrNotFound, r)
      | Some _ \<Rightarrow> (None, drop_lease faultUID r))"

definition List_leases :: "registry \<Rightarrow> string \<Rightarrow> active_fault list" where
  "List_leases r ns =
     sort_key af_AppliedAt (filter (\<lambda>af. TargetsNamespace (af_Manifest af) ns) (map snd (r_items r)))"

definition Heartbeat :: "gotime \<Rightarrow> string \<Rightarrow> registry \<Rightarrow> registry" where
  "Heartbeat now faultUID r =
     (case Get r faultUID of
        None \<Rightarrow> r
      | Some af \<Rightarrow> put_lease faultUID (af\<lparr>af_LastBeat := now\<rparr>) r)"

definition lease_expired :: "gotime \<Rightarrow> active_fault \<Rightarrow> bool" where
  "lease_expired now af \<longleftrightarrow> af_Deadline af \<noteq> 0 \<and> af_Deadline af < now"

definition Expired :: "registry \<Rightarrow> gotime \<Rightarrow> active_fault list" where
  "Expired r now = filter (lease_expired now) (map snd (r_items r))"

definition lease_count :: "registry \<Rightarrow> nat" where
  "lease_count r = length (r_items r)"


section \<open>Reaper\<close>

text \<open>The audit sink, seen by the components: the events in the order they are emitted.\<close>

definition mk_event :: "string \<Rightarrow> string \<Rightarrow> string \<Rightarrow> jobj \<Rightarrow> audit_event" where
  "mk_event ev uid reason payload =
     \<lparr>ae_Event = ev, ae_FaultUID = uid, ae_PlanID = '''', ae_ScenarioID = '''', ae_Mode = '''',
      ae_Reason = reason, ae_Payload = payload\<rparr>"

definition ev_lease_cleared :: string where [const_defs]: "ev_lease_cleared = ''lease.cleared''"
definition ev_lease_expired :: string where [const_defs]: "ev_lease_expired = ''lease.expired''"
definition ev_lease_adopted :: string where [const_defs]: "ev_lease_adopted = ''lease.adopted''"
definition rs_deadline_reached :: string where [const_defs]: "rs_deadline_reached = ''deadline-reached''"
definition rs_clear_failed :: string where [const_defs]: "rs_clear_failed = ''driver-clear-failed''"
definition rs_orphan_reaped :: string where [const_defs]: "rs_orphan_reaped = ''orphan-reaped''"
definition rs_orphan_ns_failed :: string where [const_defs]: "rs_orphan_ns_failed = ''orphan-namespaces-failed''"
definition rs_orphan_reap_failed :: string where [const_defs]: "rs_orphan_reap_failed = ''orphan-reap-failed''"
definition rs_adopt_live_failed :: string where [const_defs]: "rs_adopt_live_failed = ''adopt-live-failed''"
definition reasonUntrackedAfterRestart :: string where [const_defs]: "reasonUntrackedAfterRestart = ''untracked-after-restart''"

record ('w, 'h) reaper =
  rp_Drivers :: "'w drivers option"
  rp_Driver :: "'w chaos_driver option"
  rp_Namespaces :: "('w \<Rightarrow> (goerror + string list) \<times> 'w) option"
  rp_OnExpire :: "(active_fault \<Rightarrow> string \<Rightarrow> 'h \<Rightarrow> 'h) option"
  rp_Cancelled :: "'w \<Rightarrow> bool"

record ('w, 'h) sweep_state =
  sw_registry :: registry
  sw_audit :: "audit_event list"
  sw_history :: 'h
  sw_world :: 'w

definition sw_emit :: "audit_event \<Rightarrow> ('w, 'h) sweep_state \<Rightarrow> ('w, 'h) sweep_state" where
  "sw_emit ev st = st\<lparr>sw_audit := sw_audit st @ [ev]\<rparr>"

definition driverFor :: "('w, 'h) reaper \<Rightarrow> active_fault \<Rightarrow> goerror + 'w chaos_driver" where
  "driverFor rp af =
     (case rp_Drivers rp of
        Some ds \<Rightarrow> (case map_of ds (m_Engine (af_Manifest af)) of
                      Some d \<Rightarrow> Inr d
                    | None \<Rightarrow> Inl (GoErr (sprintf ''no driver registered for engine %''
                                            [AQ (m_Engine (af_Manifest af))])))
      | None \<Rightarrow> (case rp_Driver rp of
                   Some d \<Rightarrow> Inr d
                 | None \<Rightarrow> Inl (GoErr ''reaper has neither Drivers map nor single Driver configured'')))"

definition clear_failed_event :: "active_fault \<Rightarrow> goerror \<Rightarrow> audit_event" where
  "clear_failed_event af err =
     mk_event ev_lease_cleared (af_FaultUID af) rs_clear_failed
       [(''error'', JStr (err_text err)), (''engine'', JStr (m_Engine (af_Manifest af)))]"

text \<open>One iteration of the registry half of \<^verbatim>\<open>Sweep\<close>.\<close>

definition sweep_fault ::
  "('w, 'h) reaper \<Rightarrow> active_fault \<Rightarrow> ('w, 'h) sweep_state \<Rightarrow> ('w, 'h) sweep_state" where
  "sweep_fault rp af st =
     (case driverFor rp af of
        Inl err \<Rightarrow> sw_emit (clear_failed_event af err) st
      | Inr d \<Rightarrow>
          (case d_Clear d (af_EngineUID af) (sw_world st) of
             (Some err, w) \<Rightarrow> sw_emit (clear_failed_event af err) (st\<lparr>sw_world := w\<rparr>)
           | (None, w) \<Rightarrow>
               sw_emit (mk_event ev_lease_expired (af_FaultUID af) rs_deadline_reached [])
                 (st\<lparr>sw_world := w,
                     sw_registry := snd (Forget (af_FaultUID af) (sw_registry st)),
                     sw_history := (case rp_OnExpire rp of
                                      None \<Rightarrow> sw_history st
                                    | Some f \<Rightarrow> f af rs_deadline_reached (sw_history st))\<rparr>)))"

definition orphanReapers ::
  "('w, 'h) reaper \<Rightarrow> (string \<times> (string list \<Rightarrow> gotime \<Rightarrow> 'w \<Rightarrow> (string list \<times> goerror option) \<times> 'w)) list" where
  "orphanReapers rp =
     (let add = (\<lambda>d. case d_ReapExpired d of None \<Rightarrow> [] | Some f \<Rightarrow> [(d_Engine d, f)])
      in case rp_Drivers rp of
           Some ds \<Rightarrow> concat (map (\<lambda>e. case map_of ds e of None \<Rightarrow> [] | Some d \<Rightarrow> add d) (sorted_keys ds))
         | None \<Rightarrow> (case rp_Driver rp of None \<Rightarrow> [] | Some d \<Rightarrow> add d))"

definition orphan_reaped_event :: "string \<Rightarrow> string \<Rightarrow> audit_event" where
  "orphan_reaped_event engine engineUID =
     mk_event ev_lease_expired '''' rs_orphan_reaped
       [(''engine_uid'', JStr engineUID), (''engine'', JStr engine)]"

text \<open>The loop over the drivers that can find their own leaks; a cancelled context
  ends it without an audit event.\<close>

fun reap_orphans ::
  "('w, 'h) reaper \<Rightarrow> string list \<Rightarrow> gotime \<Rightarrow>
   (string \<times> (string list \<Rightarrow> gotime \<Rightarrow> 'w \<Rightarrow> (string list \<times> goerror option) \<times> 'w)) list \<Rightarrow>
   ('w, 'h) sweep_state \<Rightarrow> ('w, 'h) sweep_state" where
  "reap_orphans rp nss now [] st = st"
| "reap_orphans rp nss now ((engine, reap) # ds) st =
     (case reap nss now (sw_world st) of
        ((cleared, err), w) \<Rightarrow>
          let st1 = st\<lparr>sw_world := w,
                       sw_audit := sw_audit st @ map (orphan_reaped_event engine) cleared\<rparr>
          in (case err of
                None \<Rightarrow> reap_orphans rp nss now ds st1
              | Some e \<Rightarrow>
                  if rp_Cancelled rp w then st1
                  else reap_orphans rp nss now ds
                         (sw_emit (mk_event ev_lease_cleared '''' rs_orphan_reap_failed
                            [(''error'', JStr (err_text e)), (''engine'', JStr engine)]) st1)))"

definition sweepOrphans ::
  "('w, 'h) reaper \<Rightarrow> gotime \<Rightarrow> ('w, 'h) sweep_state \<Rightarrow> ('w, 'h) sweep_state" where
  "sweepOrphans rp now st =
     (case rp_Namespaces rp of
        None \<Rightarrow> st
      | Some resolve \<Rightarrow>
          (case resolve (sw_world st) of
             (Inl err, w) \<Rightarrow>
               if rp_Cancelled rp w then st\<lparr>sw_world := w\<rparr>
               else sw_emit (mk_event ev_lease_cleared '''' rs_orphan_ns_failed
                      [(''error'', JStr (err_text err))]) (st\<lparr>sw_world := w\<rparr>)
           | (Inr nss, w) \<Rightarrow>
               if nss = [] then st\<lparr>sw_world := w\<rparr>
               else reap_orphans rp nss now (orphanReapers rp) (st\<lparr>sw_world := w\<rparr>)))"

definition sweep_registry ::
  "('w, 'h) reaper \<Rightarrow> gotime \<Rightarrow> ('w, 'h) sweep_state \<Rightarrow> ('w, 'h) sweep_state" where
  "sweep_registry rp now st = fold (sweep_fault rp) (Expired (sw_registry st) now) st"

definition Sweep ::
  "('w, 'h) reaper \<Rightarrow> gotime \<Rightarrow> ('w, 'h) sweep_state \<Rightarrow> ('w, 'h) sweep_state" where
  "Sweep rp now st = sweepOrphans rp now (sweep_registry rp now st)"


section \<open>Adoption at start-up\<close>

definition adopt_event :: "string \<Rightarrow> active_fault \<Rightarrow> audit_event" where
  "adopt_event engine af =
     mk_event ev_lease_adopted (af_FaultUID af) reasonUntrackedAfterRestart
       [(''engine_uid'', JStr (af_EngineUID af)), (''engine'', JStr engine),
        (''deadline'', JStr (format_rfc3339 (af_Deadline af))), (''found_in'', JStr ''cluster'')]"

definition adopt_normalise :: "active_fault \<Rightarrow> active_fault" where
  "adopt_normalise af =
     (if m_Duration (af_Manifest af) \<le> 0 \<and> af_AppliedAt af \<noteq> 0 \<and> af_AppliedAt af < af_Deadline af
      then af\<lparr>af_Manifest := (af_Manifest af)\<lparr>m_Duration := time_sub (af_Deadline af) (af_AppliedAt af)\<rparr>\<rparr>
      else af)"

text \<open>The inner loop: state is the registry, the audit log and the count of adoptions.
  \<open>aud\<close> says whether an auditor is configured.\<close>

definition adopt_one ::
  "gotime \<Rightarrow> bool \<Rightarrow> string \<Rightarrow> active_fault \<Rightarrow> registry \<times> audit_event list \<times> int \<Rightarrow>
   registry \<times> audit_event list \<times> int" where
  "adopt_one clock aud engine af = (\<lambda>(r, lg, n).
     if Get r (af_FaultUID af) \<noteq> None \<or> af_FaultUID af = '''' then (r, lg, n)
     else (Adopt clock (adopt_normalise af) r,
           (if aud then lg @ [adopt_event engine (adopt_normalise af)] else lg), n + 1))"

definition adopt_engine ::
  "gotime \<Rightarrow> bool \<Rightarrow> 'w drivers \<Rightarrow> string list \<Rightarrow> gotime \<Rightarrow> string \<Rightarrow>
   (registry \<times> audit_event list \<times> int) \<times> 'w \<Rightarrow> (registry \<times> audit_event list \<times> int) \<times> 'w" where
  "adopt_engine clock aud ds nss now engine = (\<lambda>((r, lg, n), w).
     case Option.bind (map_of ds engine) d_ListLive of
       None \<Rightarrow> ((r, lg, n), w)
     | Some f \<Rightarrow>
         (case f nss now w of
            ((live, err), w') \<Rightarrow>
              let lg' = (case err of
                           Some e \<Rightarrow> if aud then lg @ [mk_event ev_lease_cleared [] rs_adopt_live_failed
                                       [(''error'', JStr (err_text e)), (''engine'', JStr engine)]]
                                     else lg
                         | None \<Rightarrow> lg)
              in (fold (adopt_one clock aud engine) live (r, lg', n), w')))"

definition AdoptLive ::
  "gotime \<Rightarrow> bool \<Rightarrow> 'w drivers \<Rightarrow> string list \<Rightarrow> gotime \<Rightarrow>
   (registry \<times> audit_event list) \<times> 'w \<Rightarrow> int \<times> (registry \<times> audit_event list) \<times> 'w" where
  "AdoptLive clock aud ds nss now = (\<lambda>((r, lg), w).
     if nss = [] then (0, (r, lg), w)
     else (case fold (adopt_engine clock aud ds nss now) (sorted_keys ds) ((r, lg, 0), w) of
             ((r', lg', n), w') \<Rightarrow> (n, (r', lg'), w')))"

section \<open>The registry as a keyed store\<close>

text \<open>Every entry is filed under its own fault UID, once.\<close>

definition registry_inv :: "registry \<Rightarrow> bool" where
  "registry_inv r \<longleftrightarrow> distinct (map fst (r_items r)) \<and> (\<forall>p \<in> set (r_items r). af_FaultUID (snd p) = fst p)"

interpretation reg: keyed_store "\<lambda>r. distinct (map fst (r_items r))" Get put_lease drop_lease lease_count
proof unfold_locales
  fix r :: registry and k v
  assume d: "distinct (map fst (r_items r))"
  show "Get (put_lease k v r) = (Get r)(k \<mapsto> v)"
    by (simp add: Get_def put_lease_def fun_eq_iff)
  show "Get (drop_lease k r) = (Get r)(k := None)"
    by (simp add: Get_def drop_lease_def fun_eq_iff)
  show "distinct (map fst (r_items (put_lease k v r)))"
    using d by (simp add: put_lease_def distinct_update)
  show "distinct (map fst (r_items (drop_lease k r)))"
    using d by (simp add: drop_lease_def distinct_delete)
  have "Get r = map_of (r_items r)" by (simp add: Get_def fun_eq_iff)
  moreover have "card (fst ` set (r_items r)) = length (r_items r)"
    using d distinct_card by fastforce
  ultimately show "lease_count r = card (dom (Get r))"
    by (simp add: lease_count_def dom_map_of_conv_image_fst)
  from \<open>Get r = map_of (r_items r)\<close> show "finite (dom (Get r))"
    by (simp add: finite_dom_map_of)
qed

lemma Get_put_lease [simp]: "Get (put_lease k v r) uid = (if uid = k then Some v else Get r uid)"
  by (simp add: Get_def put_lease_def)

lemma Get_drop_lease [simp]: "Get (drop_lease k r) uid = (if uid = k then None else Get r uid)"
  by (simp add: Get_def drop_lease_def)

lemma snd_Forget: "snd (Forget uid r) = (if Get r uid = None then r else drop_lease uid r)"
  by (simp add: Forget_def split: option.split)

lemma Get_Forget [simp]: "Get (snd (Forget k r)) uid = (if uid = k then None else Get r uid)"
  by (auto simp: snd_Forget)

lemma registry_inv_New: "registry_inv (NewRegistry h)"
  by (simp add: registry_inv_def NewRegistry_def)

lemma registry_inv_iff:
  "registry_inv r \<longleftrightarrow> distinct (map fst (r_items r)) \<and> (\<forall>uid af. Get r uid = Some af \<longrightarrow> af_FaultUID af = uid)"
  by (fastforce simp: registry_inv_def Get_def dest: map_of_SomeD)

lemma registry_inv_put: "registry_inv r \<Longrightarrow> af_FaultUID af = uid \<Longrightarrow> registry_inv (put_lease uid af r)"
  by (simp add: registry_inv_iff reg.inv_put)

lemma registry_inv_drop: "registry_inv r \<Longrightarrow> registry_inv (drop_lease uid r)"
  by (simp add: registry_inv_iff reg.inv_del)

lemma registry_inv_Register: "registry_inv r \<Longrightarrow> registry_inv (snd (Register now uid euid m dl r))"
  by (simp add: Register_def Let_def registry_inv_put lease_of_def)

lemma registry_inv_Adopt: "registry_inv r \<Longrightarrow> registry_inv (Adopt now af r)"
  by (simp add: Adopt_def Let_def registry_inv_put)

lemma registry_inv_Forget: "registry_inv r \<Longrightarrow> registry_inv (snd (Forget uid r))"
  by (simp add: snd_Forget registry_inv_drop)

lemma Get_UID: "registry_inv r \<Longrightarrow> Get r uid = Some af \<Longrightarrow> af_FaultUID af = uid"
  by (auto simp: registry_inv_def Get_def dest!: map_of_SomeD)

lemma registry_inv_Heartbeat: "registry_inv r \<Longrightarrow> registry_inv (Heartbeat now uid r)"
  by (auto simp: Heartbeat_def registry_inv_put Get_UID split: option.split)

lemmas registry_inv_ops =
  registry_inv_New registry_inv_Register registry_inv_Adopt registry_inv_Forget registry_inv_Heartbeat

lemma set_leases: "registry_inv r \<Longrightarrow> af \<in> snd ` set (r_items r) \<longleftrightarrow> Get r (af_FaultUID af) = Some af"
  by (force simp: registry_inv_def Get_def image_iff dest: map_of_SomeD)

lemma set_Expired:
  "registry_inv r \<Longrightarrow> af \<in> set (Expired r now) \<longleftrightarrow> Get r (af_FaultUID af) = Some af \<and> lease_expired now af"
  using set_leases by (fastforce simp: Expired_def)

lemma distinct_lease_uids: "registry_inv r \<Longrightarrow> distinct (map af_FaultUID (map snd (r_items r)))"
proof -
  assume inv: "registry_inv r"
  then have "map af_FaultUID (map snd (r_items r)) = map fst (r_items r)"
    by (simp add: registry_inv_def)
  with inv show ?thesis by (simp only: registry_inv_def)
qed

lemma distinct_Expired: "registry_inv r \<Longrightarrow> distinct (map af_FaultUID (Expired r now))"
  unfolding Expired_def by (rule distinct_map_filter [OF distinct_lease_uids])

text \<open>\<^verbatim>\<open>List\<close>: the leases that target the namespace, oldest first.\<close>

lemma set_List_leases:
  "registry_inv r \<Longrightarrow>
     set (List_leases r ns) = {af. Get r (af_FaultUID af) = Some af \<and> TargetsNamespace (af_Manifest af) ns}"
  using set_leases by (auto simp: List_leases_def)

lemma sorted_List_leases: "sorted (map af_AppliedAt (List_leases r ns))"
  by (simp add: List_leases_def)

lemma distinct_List_leases:
  assumes "registry_inv r"
  shows "distinct (map af_FaultUID (List_leases r ns))"
proof -
  have "distinct (map af_FaultUID (filter (\<lambda>af. TargetsNamespace (af_Manifest af) ns) (map snd (r_items r))))"
    by (rule distinct_map_filter [OF distinct_lease_uids [OF assms]])
  then show ?thesis by (simp add: List_leases_def distinct_map)
qed


section \<open>What a sweep does\<close>

text \<open>
  The specification of the registry half of a sweep: the drivers' answers to
  the clears, one per expired lease, in order.
\<close>

definition clear_lease :: "('w, 'h) reaper \<Rightarrow> active_fault \<Rightarrow> 'w \<Rightarrow> goerror option \<times> 'w" where
  "clear_lease rp af w =
     (case driverFor rp af of Inl err \<Rightarrow> (Some err, w) | Inr d \<Rightarrow> d_Clear d (af_EngineUID af) w)"

fun clear_all ::
  "('w, 'h) reaper \<Rightarrow> active_fault list \<Rightarrow> 'w \<Rightarrow> (active_fault \<times> goerror option) list \<times> 'w" where
  "clear_all rp [] w = ([], w)"
| "clear_all rp (af # afs) w =
     (case clear_lease rp af w of
        (e, w1) \<Rightarrow> (case clear_all rp afs w1 of (outs, w2) \<Rightarrow> ((af, e) # outs, w2)))"

fun outcome_event :: "active_fault \<times> goerror option \<Rightarrow> audit_event" where
  "outcome_event (af, Some err) = clear_failed_event af err"
| "outcome_event (af, None) = mk_event ev_lease_expired (af_FaultUID af) rs_deadline_reached []"

fun outcome_registry :: "active_fault \<times> goerror option \<Rightarrow> registry \<Rightarrow> registry" where
  "outcome_registry (af, Some err) r = r"
| "outcome_registry (af, None) r = snd (Forget (af_FaultUID af) r)"

lemma sweep_fault_registry:
  "sw_registry (sweep_fault rp af st) = outcome_registry (af, fst (clear_lease rp af (sw_world st))) (sw_registry st)"
  by (simp add: sweep_fault_def clear_lease_def sw_emit_def split: sum.split prod.split option.split)

lemma sweep_fault_audit:
  "sw_audit (sweep_fault rp af st) = sw_audit st @ [outcome_event (af, fst (clear_lease rp af (sw_world st)))]"
  by (simp add: sweep_fault_def clear_lease_def sw_emit_def split: sum.split prod.split option.split)

lemma sweep_fault_world:
  "sw_world (sweep_fault rp af st) = snd (clear_lease rp af (sw_world st))"
  by (simp add: sweep_fault_def clear_lease_def sw_emit_def split: sum.split prod.split option.split)

lemma map_fst_clear_all: "map fst (fst (clear_all rp afs w)) = afs"
proof (induction afs arbitrary: w)
  case (Cons af afs)
  then show ?case by (simp split: prod.split) (metis fst_conv)
qed simp

lemma sweep_faults:
  "sw_registry (fold (sweep_fault rp) afs st) = fold outcome_registry (fst (clear_all rp afs (sw_world st))) (sw_registry st)
   \<and> sw_audit (fold (sweep_fault rp) afs st) = sw_audit st @ map outcome_event (fst (clear_all rp afs (sw_world st)))
   \<and> sw_world (fold (sweep_fault rp) afs st) = snd (clear_all rp afs (sw_world st))"
  by (induction afs arbitrary: st)
    (simp_all add: sweep_fault_registry sweep_fault_audit sweep_fault_world split: prod.split)

lemma Get_outcomes:
  "Get (fold outcome_registry outs r) uid =
     (if \<exists>af. (af, None) \<in> set outs \<and> af_FaultUID af = uid then None else Get r uid)"
proof (induction outs arbitrary: r)
  case (Cons x outs)
  obtain af e where x: "x = (af, e)" by (cases x)
  show ?case by (cases e) (auto simp: x Cons)
qed simp

lemma registry_inv_outcomes: "registry_inv r \<Longrightarrow> registry_inv (fold outcome_registry outs r)"
proof (induction outs arbitrary: r)
  case (Cons x outs)
  obtain af e where x: "x = (af, e)" by (cases x)
  show ?case using Cons by (cases e) (auto simp: x registry_inv_ops)
qed simp

lemma reap_orphans_registry [simp]: "sw_registry (reap_orphans rp nss now ds st) = sw_registry st"
  by (induction ds arbitrary: st)
    (auto simp: sw_emit_def Let_def split: prod.split option.split)

lemma sweepOrphans_registry [simp]: "sw_registry (sweepOrphans rp now st) = sw_registry st"
  by (simp add: sweepOrphans_def sw_emit_def split: option.split prod.split sum.split)

lemma Sweep_registry_inv:
  "registry_inv (sw_registry st) \<Longrightarrow> registry_inv (sw_registry (Sweep rp now st))"
  by (simp add: Sweep_def sweep_registry_def sweep_faults registry_inv_outcomes)

lemma Sweep_Get:
  assumes "registry_inv (sw_registry st)"
  shows "Get (sw_registry (Sweep rp now st)) uid =
     (case Get (sw_registry st) uid of
        None \<Rightarrow> None
      | Some af \<Rightarrow> if (af, None) \<in> set (fst (clear_all rp (Expired (sw_registry st) now) (sw_world st)))
                   then None else Some af)"
proof -
  let ?r = "sw_registry st" and ?outs = "fst (clear_all rp (Expired (sw_registry st) now) (sw_world st))"
  have src: "Get ?r (af_FaultUID af) = Some af" if "(af, e) \<in> set ?outs" for af e
  proof -
    have "af \<in> set (map fst ?outs)" using that by force
    then show ?thesis using set_Expired [OF assms] by (simp only: map_fst_clear_all)
  qed
  have "Get (sw_registry (Sweep rp now st)) uid =
      (if \<exists>af. (af, None) \<in> set ?outs \<and> af_FaultUID af = uid then None else Get ?r uid)"
    by (simp add: Sweep_def sweep_registry_def sweep_faults Get_outcomes)
  with src Get_UID [OF assms] show ?thesis
    by (auto split: option.split)
qed

lemma clear_all_ok:
  "\<forall>af \<in> set afs. \<forall>w. fst (clear_lease rp af w) = None \<Longrightarrow>
     set (fst (clear_all rp afs w)) = (\<lambda>af. (af, None)) ` set afs"
proof (induction afs arbitrary: w)
  case (Cons af afs)
  obtain e w1 where c: "clear_lease rp af w = (e, w1)" by (cases "clear_lease rp af w")
  obtain outs w2 where o: "clear_all rp afs w1 = (outs, w2)" by (cases "clear_all rp afs w1")
  have "e = None" using Cons.prems c by (metis fst_conv list.set_intros(1))
  moreover have "set outs = (\<lambda>af. (af, None)) ` set afs"
    using Cons.IH [of w1] Cons.prems o by simp
  ultimately show ?case using c o by simp
qed simp


section \<open>What adoption does\<close>

lemma Get_Adopt:
  "Get (Adopt now af r) uid =
     (if uid = af_FaultUID af then Some (af\<lparr>af_Holder := r_holder r, af_LastBeat := now\<rparr>) else Get r uid)"
  by (simp add: Adopt_def Let_def)

lemma holder_Adopt [simp]: "r_holder (Adopt now af r) = r_holder r"
  by (simp add: Adopt_def Let_def put_lease_def)

lemma adopt_normalise_UID [simp]: "af_FaultUID (adopt_normalise af) = af_FaultUID af"
  by (simp add: adopt_normalise_def)

text \<open>What one adoption, and so the whole loop, keeps: leases already held, the
  registry's invariant and holder, no lease without a fault UID, and a count
  equal to the number of leases added.\<close>

definition adopt_ext :: "registry \<Rightarrow> registry \<Rightarrow> bool" where
  "adopt_ext r r' \<longleftrightarrow>
     registry_inv r' \<and> r_holder r' = r_holder r
     \<and> (\<forall>uid. Get r' uid = Get r uid
            \<or> Get r uid = None \<and> uid \<noteq> '''' \<and> (\<exists>af. Get r' uid = Some af \<and> af_Holder af = r_holder r))"

definition adopt_rel :: "registry \<times> audit_event list \<times> int \<Rightarrow> registry \<times> audit_event list \<times> int \<Rightarrow> bool" where
  "adopt_rel s t \<longleftrightarrow>
     (registry_inv (fst s) \<longrightarrow>
        adopt_ext (fst s) (fst t)
        \<and> snd (snd t) - snd (snd s) = int (lease_count (fst t)) - int (lease_count (fst s)))"

lemma adopt_ext_refl: "registry_inv r \<Longrightarrow> adopt_ext r r"
  by (simp add: adopt_ext_def)

lemma adopt_ext_trans: "adopt_ext r s \<Longrightarrow> adopt_ext s t \<Longrightarrow> adopt_ext r t"
  unfolding adopt_ext_def by metis

lemma adopt_rel_refl: "adopt_rel (r, l, n) (r, l', n)"
  by (simp add: adopt_rel_def adopt_ext_refl)

lemma adopt_rel_trans: "adopt_rel s t \<Longrightarrow> adopt_rel t u \<Longrightarrow> adopt_rel s u"
  using adopt_ext_trans [of "fst s" "fst t" "fst u"] by (auto simp: adopt_rel_def adopt_ext_def)

lemma adopt_rel_one: "adopt_rel s (adopt_one clock aud engine af s)"
proof -
  obtain r lg n where s: "s = (r, lg, n)" by (cases s)
  show ?thesis
  proof (cases "Get r (af_FaultUID af) \<noteq> None \<or> af_FaultUID af = ''''")
    case True
    then show ?thesis by (simp add: s adopt_one_def adopt_rel_refl)
  next
    case False
    let ?af = "adopt_normalise af"
    have "lease_count (Adopt clock ?af r) = Suc (lease_count r)" if "registry_inv r"
      using that False reg.count_put_fresh [of r "af_FaultUID ?af"]
      by (simp add: Adopt_def Let_def registry_inv_def)
    moreover have "adopt_ext r (Adopt clock ?af r)" if "registry_inv r"
      using that False by (simp add: adopt_ext_def Get_Adopt registry_inv_Adopt)
    ultimately show ?thesis
      using False by (simp add: s adopt_one_def adopt_rel_def)
  qed
qed

lemma adopt_rel_fold: "adopt_rel s (fold (adopt_one clock aud engine) live s)"
proof (induction live arbitrary: s)
  case Nil
  then show ?case by (cases s) (simp add: adopt_rel_refl)
next
  case (Cons af live)
  then show ?case using adopt_rel_one adopt_rel_trans by (metis fold_simps(2))
qed

lemma adopt_rel_engine: "adopt_rel (fst sw) (fst (adopt_engine clock aud ds nss now engine sw))"
proof -
  obtain r lg n w where sw: "sw = ((r, lg, n), w)" by (metis surj_pair)
  have "adopt_rel (r, lg, n) (fold (adopt_one clock aud engine) live (r, lg', n))" for live lg'
    by (rule adopt_rel_trans [OF adopt_rel_refl adopt_rel_fold])
  then show ?thesis
    unfolding sw adopt_engine_def
    by (cases "Option.bind (map_of ds engine) d_ListLive")
      (simp_all add: Let_def adopt_rel_refl split: prod.split)
qed

lemma adopt_rel_engines: "adopt_rel (fst sw) (fst (fold (adopt_engine clock aud ds nss now) es sw))"
proof (induction es arbitrary: sw)
  case Nil
  then show ?case by (cases "fst sw") (simp add: adopt_rel_refl)
next
  case (Cons e es)
  show ?case
    using adopt_rel_trans [OF adopt_rel_engine Cons.IH] by simp
qed

lemma AdoptLive_ext:
  assumes "registry_inv r" "AdoptLive clock aud ds nss now ((r, lg), w) = (n, (r', lg'), w')"
  shows "adopt_ext r r'" "int (lease_count r') = int (lease_count r) + n"
  using assms adopt_rel_engines [of "((r, lg, 0), w)" clock aud ds nss now "sorted_keys ds"]
  by (auto simp: AdoptLive_def adopt_rel_def adopt_ext_refl split: prod.splits if_splits)

section \<open>Properties of the registry and the reaper\<close>

lemma prefix_reap_orphans: "prefix (sw_audit st) (sw_audit (reap_orphans rp nss now ds st))"
proof (induction ds arbitrary: st)
  case (Cons d ds)
  obtain engine reap where d: "d = (engine, reap)" by (cases d)
  obtain cleared err w where r: "reap nss now (sw_world st) = ((cleared, err), w)" by (metis surj_pair)
  let ?st = "st\<lparr>sw_world := w, sw_audit := sw_audit st @ map (orphan_reaped_event engine) cleared\<rparr>"
  have "prefix (sw_audit st) (sw_audit (reap_orphans rp nss now ds ?st))"
    by (rule prefix_order.trans [OF _ Cons.IH]) simp
  moreover have "prefix (sw_audit st) (sw_audit (reap_orphans rp nss now ds (sw_emit ev ?st)))" for ev
    by (rule prefix_order.trans [OF _ Cons.IH]) (simp add: sw_emit_def)
  ultimately show ?case by (simp add: d r Let_def split: option.split)
qed simp

lemma prefix_sweepOrphans: "prefix (sw_audit st) (sw_audit (sweepOrphans rp now st))"
proof -
  have "prefix (sw_audit st) (sw_audit (reap_orphans rp nss now ds (st\<lparr>sw_world := w\<rparr>)))" for nss ds w
    using prefix_reap_orphans [of "st\<lparr>sw_world := w\<rparr>"] by simp
  then show ?thesis
    by (simp add: sweepOrphans_def sw_emit_def split: option.split prod.split sum.split)
qed

text \<open>
  C10.  A sweep asks a driver to clear every expired lease, once.  A lease is forgotten exactly when it had expired and its
  clear succeeded; every other lease is untouched, so a failed clear is retried
  by the next sweep.  The log records one outcome per expired lease, before
  anything the orphan half of the sweep records.
\<close>

theorem Sweep_outcomes:
  fixes rp :: "('w, 'h) reaper" and now :: gotime
  assumes "registry_inv (sw_registry st)"
  defines "outs \<equiv> fst (clear_all rp (Expired (sw_registry st) now) (sw_world st))"
  shows "map fst outs = Expired (sw_registry st) now
    \<and> (\<forall>uid. Get (sw_registry (Sweep rp now st)) uid =
         (case Get (sw_registry st) uid of
            None \<Rightarrow> None
          | Some af \<Rightarrow> if lease_expired now af \<and> (af, None) \<in> set outs then None else Some af))
    \<and> prefix (sw_audit st @ map outcome_event outs) (sw_audit (Sweep rp now st))"
proof (intro conjI allI)
  show o: "map fst outs = Expired (sw_registry st) now" by (simp add: outs_def map_fst_clear_all)
  have ex: "lease_expired now af" if "(af, e) \<in> set outs" for af e
  proof -
    have "af \<in> set (map fst outs)" using that by force
    then show ?thesis by (simp add: o Expired_def)
  qed
  show "Get (sw_registry (Sweep rp now st)) uid =
         (case Get (sw_registry st) uid of
            None \<Rightarrow> None
          | Some af \<Rightarrow> if lease_expired now af \<and> (af, None) \<in> set outs then None else Some af)" for uid
    using Sweep_Get [OF assms(1), of rp now uid] ex by (auto simp: outs_def split: option.split)
  show "prefix (sw_audit st @ map outcome_event outs) (sw_audit (Sweep rp now st))"
    using prefix_sweepOrphans [of "sweep_registry rp now st" rp now]
    by (simp add: Sweep_def sweep_registry_def sweep_faults outs_def)
qed

definition idle_driver :: "unit chaos_driver" where
  "idle_driver =
     \<lparr>d_Engine = EngineKubeState, d_Apply = (\<lambda>_ _ w. (Inr ''e'', [], w)), d_Clear = (\<lambda>u w. (if u = ''bad'' then Some (GoErr ''no'') else None, w)),
      d_Confirm = None, d_CheckTargets = None, d_ReapExpired = None,
      d_ListLive = Some (\<lambda>_ _ w. (([], None), w))\<rparr>"

definition idle_reaper :: "(unit, unit) reaper" where
  "idle_reaper = \<lparr>rp_Drivers = None, rp_Driver = Some idle_driver, rp_Namespaces = None, rp_OnExpire = None,
     rp_Cancelled = (\<lambda>_. False)\<rparr>"

definition bare_manifest :: fault_manifest where
  "bare_manifest = \<lparr>m_UID = '''', m_Source = '''', m_Engine = EngineKubeState, m_APIVersion = '''', m_ResourceKind = ''NoOp'',
     m_Spec = None, m_Targets = [target_in ''shop''], m_Duration = 10, m_BlastRadiusTier = '''', m_Probes = [],
     m_Rationale = '''', m_PlanID = '''', m_Annotations = []\<rparr>"

definition three_leases :: registry where
  "three_leases = fold (\<lambda>(u, e, dl) r. snd (Register 1 u e bare_manifest dl r))
     [(''a'', ''ok'', 5), (''b'', ''bad'', 5), (''c'', ''ok'', 50)] (NewRegistry ''h'')"

lemma three_leases_inv: "registry_inv three_leases"
  by (simp add: three_leases_def registry_inv_ops)

theorem Sweep_outcomes_witness:
  "map (\<lambda>u. Get (sw_registry (Sweep idle_reaper 9 \<lparr>sw_registry = three_leases, sw_audit = [], sw_history = (), sw_world = ()\<rparr>)) u = None)
     [''a'', ''b'', ''c''] = [True, False, False]"
proof -
  have inv: "registry_inv (sw_registry \<lparr>sw_registry = three_leases, sw_audit = [], sw_history = (), sw_world = ()\<rparr>)"
    by (simp add: three_leases_inv)
  have q: "map (\<lambda>u. map_option (\<lambda>af. lease_expired 9 af \<and> (af, None) \<in> set (fst (clear_all idle_reaper (Expired three_leases 9) ())))
      (Get three_leases u)) [''a'', ''b'', ''c''] = [Some True, Some False, Some False]" by code_simp
  have g: "Get (sw_registry (Sweep idle_reaper 9 \<lparr>sw_registry = three_leases, sw_audit = [], sw_history = (), sw_world = ()\<rparr>)) u =
         (case Get three_leases u of
            None \<Rightarrow> None
          | Some af \<Rightarrow> if lease_expired 9 af \<and> (af, None) \<in> set (fst (clear_all idle_reaper (Expired three_leases 9) ())) then None else Some af)" for u
    using Sweep_outcomes [OF inv, of idle_reaper 9] by (simp only: sweep_state.simps)
  from q show ?thesis by (auto simp: g split: option.splits)
qed

text \<open>
  If every expired lease's clear succeeds, no expired lease survives the
  sweep and every other lease does: faults do not outlive their deadline by
  more than a sweep interval.
\<close>

theorem Sweep_clears_expired:
  assumes inv: "registry_inv (sw_registry st)"
    and ok: "\<forall>af \<in> set (Expired (sw_registry st) now). \<forall>w. fst (clear_lease rp af w) = None"
  shows "Expired (sw_registry (Sweep rp now st)) now = []
    \<and> (\<forall>uid af. Get (sw_registry st) uid = Some af \<longrightarrow> \<not> lease_expired now af \<longrightarrow>
         Get (sw_registry (Sweep rp now st)) uid = Some af)"
proof -
  have outs: "(af, None) \<in> set (fst (clear_all rp (Expired (sw_registry st) now) (sw_world st))) \<longleftrightarrow>
      af \<in> set (Expired (sw_registry st) now)" for af
    using clear_all_ok [OF ok, of "sw_world st"] by auto
  have g: "Get (sw_registry (Sweep rp now st)) uid =
     (case Get (sw_registry st) uid of None \<Rightarrow> None | Some af \<Rightarrow> if lease_expired now af then None else Some af)" for uid
    using Sweep_Get [OF inv, of rp now uid] set_Expired [OF inv] Get_UID [OF inv, of uid]
    by (auto simp: outs split: option.split)
  have "af \<notin> set (Expired (sw_registry (Sweep rp now st)) now)" for af
    using set_Expired [OF Sweep_registry_inv [OF inv], of af rp now now] g
    by (auto split: option.splits if_splits)
  then have "Expired (sw_registry (Sweep rp now st)) now = []" by (metis last_in_set)
  with g show ?thesis by simp
qed

theorem Sweep_clears_expired_witness:
  "Expired (sw_registry (Sweep (idle_reaper\<lparr>rp_Driver := Some (idle_driver\<lparr>d_Clear := \<lambda>_ w. (None, w)\<rparr>)\<rparr>) 9
     \<lparr>sw_registry = three_leases, sw_audit = [], sw_history = (), sw_world = ()\<rparr>)) 9 = []"
  by (rule Sweep_clears_expired [THEN conjunct1])
    (simp_all add: three_leases_inv clear_lease_def driverFor_def idle_reaper_def)

text \<open>
  Listing a namespace returns the leases that target it, each once,
  oldest first; listing the empty namespace returns all.
\<close>

theorem List_leases_spec:
  assumes "registry_inv r"
  shows "set (List_leases r ns) = {af. Get r (af_FaultUID af) = Some af
      \<and> (ns = '''' \<or> ns \<in> t_Namespace ` set (m_Targets (af_Manifest af)))}
    \<and> sorted (map af_AppliedAt (List_leases r ns)) \<and> distinct (map af_FaultUID (List_leases r ns))"
  using set_List_leases [OF assms] sorted_List_leases distinct_List_leases [OF assms]
  by (auto simp: TargetsNamespace_def)

theorem List_leases_spec_witness:
  "length (List_leases three_leases ''shop'') = 3 \<and> sorted (map af_AppliedAt (List_leases three_leases ''shop''))"
proof
  show "length (List_leases three_leases ''shop'') = 3" by code_simp
  show "sorted (map af_AppliedAt (List_leases three_leases ''shop''))"
    using List_leases_spec [OF three_leases_inv] by blast
qed

text \<open>
  Adoption after a restart never replaces a lease already held, files what
  it adds under the fault's own non-empty UID and this process as holder, keeps
  the registry well-formed and reports how many leases it added.
\<close>

theorem AdoptLive_adds_only:
  assumes "registry_inv r" "AdoptLive clock aud ds nss now ((r, lg), w) = (n, (r', lg'), w')"
  shows "registry_inv r' \<and> int (lease_count r') = int (lease_count r) + n
    \<and> (\<forall>uid. Get r' uid = Get r uid
         \<or> Get r uid = None \<and> uid \<noteq> '''' \<and> (\<exists>af. Get r' uid = Some af \<and> af_FaultUID af = uid \<and> af_Holder af = r_holder r))"
  using AdoptLive_ext [OF assms] Get_UID unfolding adopt_ext_def by metis

definition adopt_driver :: "unit chaos_driver" where
  "adopt_driver = idle_driver\<lparr>d_ListLive := Some (\<lambda>_ _ w.
     (([lease_of (NewRegistry ''other'') 2 ''z'' ''e-z'' bare_manifest 9,
        lease_of (NewRegistry ''other'') 2 ''a'' ''e-a'' bare_manifest 9], None), w))\<rparr>"

theorem AdoptLive_adds_only_witness:
  "lease_count (fst (fst (snd (AdoptLive 3 True [(EngineKubeState, adopt_driver)] [''shop''] 3 ((three_leases, []), ()))))) = 4"
proof -
  obtain n r' lg' w' where a: "AdoptLive 3 True [(EngineKubeState, adopt_driver)] [''shop''] 3 ((three_leases, []), ()) = (n, (r', lg'), w')"
    by (metis surj_pair)
  have "fst (AdoptLive 3 True [(EngineKubeState, adopt_driver)] [''shop''] 3 ((three_leases, []), ())) = 1" by code_simp
  with a have "n = 1" by simp
  moreover have "lease_count three_leases = 3" by code_simp
  ultimately show ?thesis using AdoptLive_adds_only [OF three_leases_inv a] a by simp
qed

end
