(* ===== verification/Audit_Events.thy ===== *)
theory Audit_Events
  imports Lease_Registry
begin

text \<open>
  The event names of \<^verbatim>\<open>src/pkg/audit/audit.go\<close>.  The audit log is the list of
  events in the order they are emitted; the sink (slog, a file) is not
  modelled.
\<close>

definition EventPlanGenerated :: string where [const_defs]: "EventPlanGenerated = ''plan.generated''"
definition EventExecutorReceived :: string where [const_defs]: "EventExecutorReceived = ''executor.received''"
definition EventExecutorValidated :: string where [const_defs]: "EventExecutorValidated = ''executor.validated''"
definition EventExecutorRejected :: string where [const_defs]: "EventExecutorRejected = ''executor.rejected''"
definition EventFaultPrecheck :: string where [const_defs]: "EventFaultPrecheck = ''fault.precheck''"
definition EventDriverApplied :: string where [const_defs]: "EventDriverApplied = ''driver.applied''"
definition EventDriverFailed :: string where [const_defs]: "EventDriverFailed = ''driver.failed''"
definition EventLeaseRegistered :: string where [const_defs]: "EventLeaseRegistered = ''lease.registered''"
definition EventFaultEfficacy :: string where [const_defs]: "EventFaultEfficacy = ''fault.efficacy''"
definition EventFaultInjected :: string where [const_defs]: "EventFaultInjected = ''fault.injected''"
definition EventFaultRecovered :: string where [const_defs]: "EventFaultRecovered = ''fault.recovered''"
definition EventCycleStarted :: string where [const_defs]: "EventCycleStarted = ''cycle.started''"
definition EventCycleSkipped :: string where [const_defs]: "EventCycleSkipped = ''cycle.skipped''"
definition EventCycleCompleted :: string where [const_defs]: "EventCycleCompleted = ''cycle.completed''"
definition EventHealthGateFailed :: string where [const_defs]: "EventHealthGateFailed = ''cycle.health_gate_failed''"
definition EventLLMUnavailable :: string where [const_defs]: "EventLLMUnavailable = ''cycle.llm_unavailable''"
definition EventStepSkipped :: string where [const_defs]: "EventStepSkipped = ''cycle.step_skipped''"
definition EventAutonomousConfigured :: string where [const_defs]: "EventAutonomousConfigured = ''autonomous.configured''"

abbreviation EventLeaseExpired :: string where "EventLeaseExpired \<equiv> ev_lease_expired"
abbreviation EventLeaseCleared :: string where "EventLeaseCleared \<equiv> ev_lease_cleared"
abbreviation EventLeaseAdopted :: string where "EventLeaseAdopted \<equiv> ev_lease_adopted"

text \<open>An event about a manifest: its UID, plan and source travel with it.\<close>

definition fault_event :: "string \<Rightarrow> fault_manifest \<Rightarrow> string \<Rightarrow> jobj \<Rightarrow> audit_event" where
  "fault_event ev m reason payload =
     \<lparr>ae_Event = ev, ae_FaultUID = m_UID m, ae_PlanID = m_PlanID m, ae_ScenarioID = '''',
      ae_Mode = m_Source m, ae_Reason = reason, ae_Payload = payload\<rparr>"

lemma fault_event_sel [simp]:
  "ae_Event (fault_event ev m r p) = ev" "ae_FaultUID (fault_event ev m r p) = m_UID m"
  "ae_Reason (fault_event ev m r p) = r" "ae_Payload (fault_event ev m r p) = p"
  by (simp_all add: fault_event_def)

end
