(* ===== verification/Target_Compat.thy ===== *)
theory Target_Compat
  imports Selector_Scope Audit_Events
begin

text \<open>
  What the executor reads from the target pods: whether the engine can inject
  the fault into them and take it back out (\<^verbatim>\<open>compat.go\<close>), and whether they came
  back once the fault was cleared (\<^verbatim>\<open>recovery.go\<close>), of \<^verbatim>\<open>src/pkg/executor\<close>.  The
  Kubernetes types keep the fields the code reads; a nil pointer is \<^const>\<open>None\<close>.
  The recovery wait is a loop that may never end, so it is a partial function;
  it is shown to end when the clock moves.
\<close>

section \<open>Pods\<close>

datatype int_or_string = PortInt int | PortStr string

record k8s_probe =
  pr_HTTPGet :: "(int_or_string \<times> string) option"
  pr_GRPC :: "int option"

record k8s_container =
  c_Name :: string
  c_ReadOnlyRootFS :: "bool option"
  c_MountPaths :: "string list"
  c_Ports :: "(string \<times> int) list"
  c_LivenessProbe :: "k8s_probe option"
  c_ReadinessProbe :: "k8s_probe option"
  c_StartupProbe :: "k8s_probe option"

record container_status =
  cs_Name :: string
  cs_WaitingReason :: "string option"
  cs_Ready :: bool
  cs_RestartCount :: int

record k8s_pod =
  pod_Namespace :: string
  pod_Name :: string
  pod_Containers :: "k8s_container list"
  pod_Deleting :: bool
  pod_Phase :: string
  pod_Conditions :: "(string \<times> string) list"
  pod_Statuses :: "container_status list"

type_synonym 'w target_pods = "string \<Rightarrow> string gomap \<Rightarrow> 'w \<Rightarrow> (goerror + k8s_pod list) \<times> 'w"


section \<open>Library functions the checks use\<close>

fun first_some :: "('a \<Rightarrow> 'b option) \<Rightarrow> 'a list \<Rightarrow> 'b option" where
  "first_some f [] = None"
| "first_some f (x # xs) = (case f x of Some y \<Rightarrow> Some y | None \<Rightarrow> first_some f xs)"

lemma first_some_None [simp]: "first_some f xs = None \<longleftrightarrow> (\<forall>x \<in> set xs. f x = None)"
  by (induction xs) (auto split: option.split)

lemma first_some_Some: "first_some f xs = Some y \<Longrightarrow> \<exists>x \<in> set xs. f x = Some y"
  by (induction xs) (auto split: option.splits)

text \<open>\<^verbatim>\<open>path.Clean\<close>: the components kept, innermost first.\<close>

fun clean_parts :: "bool \<Rightarrow> string list \<Rightarrow> string list \<Rightarrow> string list" where
  "clean_parts rooted stack [] = stack"
| "clean_parts rooted stack (c # cs) =
     (if c = '''' \<or> c = ''.'' then clean_parts rooted stack cs
      else if c = ''..'' then
        (case stack of
           [] \<Rightarrow> if rooted then clean_parts rooted [] cs else clean_parts rooted [c] cs
         | t # ts \<Rightarrow> if t = ''..'' then clean_parts rooted (c # stack) cs else clean_parts rooted ts cs)
      else clean_parts rooted (c # stack) cs)"

definition path_Clean :: "string \<Rightarrow> string" where
  "path_Clean p =
     (let rooted = has_prefix p ''/'';
          parts = rev (clean_parts rooted [] (split_on (CHR ''/'') p));
          out = (if rooted then ''/'' else '''') @ join_with ''/'' parts
      in if out = '''' then ''.'' else out)"

text \<open>A match of \<^verbatim>\<open>.*\<close> followed by a match of \<open>f\<close>: the dot does not match a newline.\<close>

fun star_then :: "(string \<Rightarrow> bool) \<Rightarrow> string \<Rightarrow> bool" where
  "star_then f [] = f []"
| "star_then f (c # cs) = (f (c # cs) \<or> c \<noteq> CHR 0x0A \<and> star_then f cs)"

text \<open>The literal parts of a glob, with \<^verbatim>\<open>.*\<close> between them, against the whole string.\<close>

fun match_parts :: "string list \<Rightarrow> string \<Rightarrow> bool" where
  "match_parts [] s = (s = '''')"
| "match_parts [p] s = (s = p)"
| "match_parts (p # q # ps) s = (prefix p s \<and> star_then (match_parts (q # ps)) (drop (length p) s))"


section \<open>Compatibility of fault and target\<close>

definition rootFSWriters :: "string list" where
  "rootFSWriters = [''IOChaos'', ''DNSChaos'']"

definition WritesRootFS :: "string \<Rightarrow> string \<Rightarrow> bool" where
  "WritesRootFS engine kind \<longleftrightarrow> engine = EngineChaosMesh \<and> kind \<in> set rootFSWriters"

definition mountPaths :: "k8s_container \<Rightarrow> string list" where
  "mountPaths c = map path_Clean (c_MountPaths c)"

definition mountsAt :: "k8s_container \<Rightarrow> string \<Rightarrow> bool" where
  "mountsAt c p \<longleftrightarrow> path_Clean p \<in> set (mountPaths c)"

definition specStrings :: "jobj \<Rightarrow> string \<Rightarrow> string list" where
  "specStrings spec key = (case as_arr (map_of spec key) of None \<Rightarrow> [] | Some raw \<Rightarrow> str_elems raw)"

text \<open>JSON numbers are truncated by Go's conversion to int.\<close>

definition specInt :: "jobj \<Rightarrow> string \<Rightarrow> int option" where
  "specInt spec key =
     (case map_of spec key of
        Some (JNum r) \<Rightarrow> Some (to_signed 64 r)
      | Some (JInt i) \<Rightarrow> Some i
      | _ \<Rightarrow> None)"

definition probePort :: "k8s_container \<Rightarrow> int_or_string \<Rightarrow> int" where
  "probePort c port =
     (case port of
        PortInt i \<Rightarrow> i
      | PortStr s \<Rightarrow> (case map_of (c_Ports c) s of Some n \<Rightarrow> n | None \<Rightarrow> 0))"

definition ChaosPathMatches :: "string \<Rightarrow> string \<Rightarrow> bool" where
  "ChaosPathMatches glob p \<longleftrightarrow> glob = '''' \<or> match_parts (split_on (CHR ''*'') glob) p"

definition GRPCPort :: "k8s_container \<Rightarrow> int \<Rightarrow> bool" where
  "GRPCPort c port \<longleftrightarrow>
     (\<exists>pr \<in> set [c_LivenessProbe c, c_ReadinessProbe c, c_StartupProbe c].
        case pr of Some p \<Rightarrow> pr_GRPC p = Some port | None \<Rightarrow> False)
     \<or> (\<exists>cp \<in> set (c_Ports c). snd cp = port \<and> has_prefix (to_lower (fst cp)) ''grpc'')"

text \<open>The restart probe (liveness or startup) the fault would fail.\<close>

definition probe_hit :: "k8s_container \<Rightarrow> int \<Rightarrow> bool \<Rightarrow> string \<Rightarrow> k8s_probe option \<Rightarrow> string option" where
  "probe_hit c port getsProbes pathGlob pr =
     (case pr of
        Some p \<Rightarrow> (case pr_HTTPGet p of
                     Some (pp, path) \<Rightarrow>
                       if getsProbes \<and> probePort c pp = port \<and> ChaosPathMatches pathGlob path then Some path else None
                   | None \<Rightarrow> None)
      | None \<Rightarrow> None)"

definition grpc_error :: "k8s_pod \<Rightarrow> k8s_container \<Rightarrow> int \<Rightarrow> exec_error" where
  "grpc_error p c port = NewExecutorError StagePrecheck ReasonTargetIncompatible
     (sprintf ''%/% container % serves gRPC on port %; Chaos Mesh's HTTPChaos proxy handles HTTP/1 only, so it fails the gRPC traffic and probes there, and a restart that follows leaves the port unreachable after the fault ends % use a NetworkChaos for this port''
        [AS (pod_Namespace p), AS (pod_Name p), AQ (c_Name c), AD port, AS em_dash]) None"

definition probe_error :: "k8s_pod \<Rightarrow> k8s_container \<Rightarrow> string \<Rightarrow> int \<Rightarrow> string \<Rightarrow> exec_error" where
  "probe_error p c kind port path = NewExecutorError StagePrecheck ReasonTargetIncompatible
     (sprintf ''%/% container % has a % probe on GET :%%, which this HTTPChaos would fail; the restart that follows kills Chaos Mesh's proxy and leaves the port unreachable after the fault ends % target a path the probe does not use''
        [AS (pod_Namespace p), AS (pod_Name p), AQ (c_Name c), AS kind, AD port, AS path, AS em_dash]) None"

definition http_container_error ::
  "int \<Rightarrow> bool \<Rightarrow> string \<Rightarrow> k8s_pod \<Rightarrow> k8s_container \<Rightarrow> exec_error option" where
  "http_container_error port getsProbes pathGlob p c =
     (if GRPCPort c port then Some (grpc_error p c port)
      else case probe_hit c port getsProbes pathGlob (c_LivenessProbe c) of
             Some path \<Rightarrow> Some (probe_error p c ''liveness'' port path)
           | None \<Rightarrow> (case probe_hit c port getsProbes pathGlob (c_StartupProbe c) of
                        Some path \<Rightarrow> Some (probe_error p c ''startup'' port path)
                      | None \<Rightarrow> None))"

definition readonly_error :: "k8s_pod \<Rightarrow> k8s_container \<Rightarrow> string \<Rightarrow> exec_error" where
  "readonly_error p c kind = NewExecutorError StagePrecheck ReasonTargetIncompatible
     (sprintf ''%/% container % has a read-only root filesystem, which Chaos Mesh % needs to write to''
        [AS (pod_Namespace p), AS (pod_Name p), AQ (c_Name c), AS kind]) None"

definition mount_error :: "k8s_pod \<Rightarrow> k8s_container \<Rightarrow> string \<Rightarrow> exec_error" where
  "mount_error p c volumePath = NewExecutorError StagePrecheck ReasonTargetIncompatible
     (sprintf ''%/% container % has no volume mounted at volumePath %; IOChaos needs a mount point (mounts: [%])''
        [AS (pod_Namespace p), AS (pod_Name p), AQ (c_Name c), AQ volumePath, AS (join_with '' '' (mountPaths c))]) None"

definition rootfs_container_error ::
  "string \<Rightarrow> string list \<Rightarrow> string \<Rightarrow> k8s_pod \<Rightarrow> k8s_container \<Rightarrow> exec_error option" where
  "rootfs_container_error kind containers volumePath p c =
     (if containers \<noteq> [] \<and> c_Name c \<notin> set containers then None
      else if c_ReadOnlyRootFS c = Some True then Some (readonly_error p c kind)
      else if kind = ''IOChaos'' \<and> volumePath \<noteq> '''' \<and> \<not> mountsAt c volumePath
      then Some (mount_error p c volumePath)
      else None)"

text \<open>The loop both checks share: over the targets with a namespace and labels, the pods
  that can be listed, and their containers.\<close>

fun check_target_pods ::
  "'w target_pods \<Rightarrow> (k8s_pod \<Rightarrow> k8s_container \<Rightarrow> exec_error option) \<Rightarrow> target_ref list \<Rightarrow> 'w \<Rightarrow>
   exec_error option \<times> 'w" where
  "check_target_pods tp chk [] w = (None, w)"
| "check_target_pods tp chk (t # ts) w =
     (if t_Namespace t = '''' \<or> t_Labels t = [] then check_target_pods tp chk ts w
      else case tp (t_Namespace t) (t_Labels t) w of
             (Inl err, w') \<Rightarrow> check_target_pods tp chk ts w'
           | (Inr pods, w') \<Rightarrow>
               (case first_some (\<lambda>p. first_some (chk p) (pod_Containers p)) pods of
                  Some e \<Rightarrow> (Some e, w')
                | None \<Rightarrow> check_target_pods tp chk ts w'))"

definition checkHTTPChaosProbes :: "'w target_pods \<Rightarrow> fault_manifest \<Rightarrow> 'w \<Rightarrow> exec_error option \<times> 'w" where
  "checkHTTPChaosProbes tp m w =
     (case specInt (spec_map m) ''port'' of
        None \<Rightarrow> (None, w)
      | Some port \<Rightarrow>
          let method = str_or_empty (map_of (spec_map m) ''method'');
              getsProbes = (method = '''' \<or> equal_fold method ''GET'');
              pathGlob = str_or_empty (map_of (spec_map m) ''path'')
          in check_target_pods tp (http_container_error port getsProbes pathGlob) (m_Targets m) w)"

definition checkTargetCompat :: "'w target_pods option \<Rightarrow> fault_manifest \<Rightarrow> 'w \<Rightarrow> exec_error option \<times> 'w" where
  "checkTargetCompat pods m w =
     (case pods of
        None \<Rightarrow> (None, w)
      | Some tp \<Rightarrow>
          if m_Engine m \<noteq> EngineChaosMesh then (None, w)
          else if m_ResourceKind m = ''HTTPChaos'' then checkHTTPChaosProbes tp m w
          else if \<not> WritesRootFS (m_Engine m) (m_ResourceKind m) then (None, w)
          else check_target_pods tp
                 (rootfs_container_error (m_ResourceKind m) (specStrings (spec_map m) ''containerNames'')
                    (str_or_empty (map_of (spec_map m) ''volumePath''))) (m_Targets m) w)"


section \<open>Recovery\<close>

definition DefaultRecoveryTimeout :: duration where "DefaultRecoveryTimeout = 5 * minute"
definition recoveryPoll :: duration where "recoveryPoll = 15 * sec"

definition status_reason :: "container_status \<Rightarrow> string option" where
  "status_reason cs =
     (case cs_WaitingReason cs of
        Some r \<Rightarrow> if r \<noteq> '''' then Some (sprintf ''container % %, % restarts'' [AS (cs_Name cs), AS r, AD (cs_RestartCount cs)])
                  else if \<not> cs_Ready cs then Some (sprintf ''container % not ready, % restarts'' [AS (cs_Name cs), AD (cs_RestartCount cs)])
                  else None
      | None \<Rightarrow> if \<not> cs_Ready cs then Some (sprintf ''container % not ready, % restarts'' [AS (cs_Name cs), AD (cs_RestartCount cs)])
                else None)"

definition pod_ready :: "k8s_pod \<Rightarrow> bool" where
  "pod_ready p \<longleftrightarrow> (''Ready'', ''True'') \<in> set (pod_Conditions p)"

definition notReadyReason :: "k8s_pod \<Rightarrow> string" where
  "notReadyReason p =
     (if pod_ready p then ''''
      else case first_some status_reason (pod_Statuses p) of
             Some why \<Rightarrow> why
           | None \<Rightarrow> if pod_Phase p \<noteq> '''' then ''phase '' @ pod_Phase p else ''not ready'')"

definition show_labels :: "string gomap \<Rightarrow> string" where
  "show_labels l = ''map['' @ join_with '' '' (map (\<lambda>p. fst p @ '':'' @ snd p) (sort_key fst l)) @ '']''"

definition pod_counts :: "target_ref \<Rightarrow> k8s_pod \<Rightarrow> bool" where
  "pod_counts t p \<longleftrightarrow> \<not> (pod_Deleting p \<or> t_Labels t = [] \<and> pod_Phase p = ''Succeeded'')"

definition unready_lines :: "target_ref \<Rightarrow> k8s_pod list \<Rightarrow> string list" where
  "unready_lines t pods =
     (let live = filter (pod_counts t) pods
      in map (\<lambda>p. sprintf ''%/%: %'' [AS (pod_Namespace p), AS (pod_Name p), AS (notReadyReason p)])
           (filter (\<lambda>p. notReadyReason p \<noteq> '''') live)
         @ (if live = [] then [sprintf ''%/%: no pods'' [AS (t_Namespace t), AS (show_labels (t_Labels t))]] else []))"

fun collect_unready :: "'w target_pods \<Rightarrow> bool \<Rightarrow> target_ref list \<Rightarrow> 'w \<Rightarrow> (string list \<times> bool) \<times> 'w" where
  "collect_unready tp wholeArena [] w = (([], False), w)"
| "collect_unready tp wholeArena (t # ts) w =
     (if t_Namespace t = '''' \<or> (t_Labels t = [] \<and> (\<not> wholeArena \<or> t_Name t \<noteq> ''''))
      then collect_unready tp wholeArena ts w
      else case tp (t_Namespace t) (t_Labels t) w of
             (Inl err, w') \<Rightarrow> collect_unready tp wholeArena ts w'
           | (Inr pods, w') \<Rightarrow>
               (case collect_unready tp wholeArena ts w' of
                  ((u, _), w'') \<Rightarrow> ((unready_lines t pods @ u, True), w'')))"

definition unreadyTargets :: "'w target_pods \<Rightarrow> fault_manifest \<Rightarrow> 'w \<Rightarrow> (string list \<times> bool) \<times> 'w" where
  "unreadyTargets tp m w =
     (case collect_unready tp (IsOutageKind (m_Engine m) (m_ResourceKind m)) (m_Targets m) w of
        ((u, checked), w') \<Rightarrow> ((sort u, checked), w'))"

text \<open>The environment of the wait: the clock, and a wait of one poll interval that reports
  whether the context was cancelled instead.\<close>

record 'w wait_env =
  we_now :: "'w \<Rightarrow> gotime \<times> 'w"
  we_wait :: "'w \<Rightarrow> bool \<times> 'w"

definition recovery_event :: "active_fault \<Rightarrow> string list \<Rightarrow> duration \<Rightarrow> audit_event" where
  "recovery_event af unready waited =
     \<lparr>ae_Event = EventFaultRecovered, ae_FaultUID = af_FaultUID af, ae_PlanID = m_PlanID (af_Manifest af),
      ae_ScenarioID = '''', ae_Mode = m_Source (af_Manifest af), ae_Reason = '''',
      ae_Payload = [(''passed'', JBool (unready = [])),
                    (''waited'', JStr (duration_string (round_duration waited sec)))]
                   @ (if unready \<noteq> [] then [(''unready'', JArr (map JStr unready))] else [])\<rparr>"

text \<open>\<^verbatim>\<open>time.Since(start)\<close> is read when the verdict is recorded.\<close>

definition record_recovery ::
  "'w wait_env \<Rightarrow> active_fault \<Rightarrow> gotime \<Rightarrow> string list \<Rightarrow> 'w \<Rightarrow> audit_event option \<times> 'w" where
  "record_recovery we af start unready w =
     (case we_now we w of (now, w') \<Rightarrow> (Some (recovery_event af unready (time_sub now start)), w'))"

partial_function (option) recovery_loop ::
  "'w wait_env \<Rightarrow> 'w target_pods \<Rightarrow> active_fault \<Rightarrow> gotime \<Rightarrow> gotime \<Rightarrow> 'w \<Rightarrow> (audit_event option \<times> 'w) option" where
  "recovery_loop we tp af start deadline w =
     (case unreadyTargets tp (af_Manifest af) w of
        ((unready, checked), w1) \<Rightarrow>
          if \<not> checked then Some (None, w1)
          else if unready = [] then Some (record_recovery we af start unready w1)
          else case we_now we w1 of
                 (now, w2) \<Rightarrow>
                   if \<not> now < deadline then Some (record_recovery we af start unready w2)
                   else (case we_wait we w2 of
                           (cancelled, w3) \<Rightarrow>
                             if cancelled then Some (None, w3)
                             else recovery_loop we tp af start deadline w3))"

definition recovery_timeout :: "duration \<Rightarrow> duration" where
  "recovery_timeout cfg = (if cfg \<le> 0 then DefaultRecoveryTimeout else cfg)"

definition CheckRecovery ::
  "'w wait_env \<Rightarrow> 'w target_pods option \<Rightarrow> duration \<Rightarrow> active_fault \<Rightarrow> 'w \<Rightarrow> (audit_event option \<times> 'w) option" where
  "CheckRecovery we pods cfg_timeout af w =
     (case pods of
        None \<Rightarrow> Some (None, w)
      | Some tp \<Rightarrow>
          if m_Engine (af_Manifest af) \<noteq> EngineChaosMesh then Some (None, w)
          else case we_now we w of
                 (start, w1) \<Rightarrow> recovery_loop we tp af start (start + recovery_timeout cfg_timeout) w1)"

section \<open>The path selector matches as a glob\<close>

text \<open>The reference semantics: a star stands for any text without a newline, every other
  character for itself.\<close>

inductive glob_rel :: "string \<Rightarrow> string \<Rightarrow> bool" where
  glob_end: "glob_rel [] []"
| glob_char: "c \<noteq> CHR ''*'' \<Longrightarrow> glob_rel g s \<Longrightarrow> glob_rel (c # g) (c # s)"
| glob_star: "CHR 0x0A \<notin> set u \<Longrightarrow> glob_rel g s \<Longrightarrow> glob_rel (CHR ''*'' # g) (u @ s)"

inductive_simps glob_rel_Nil [simp]: "glob_rel [] s"
inductive_cases glob_rel_ConsE: "glob_rel (c # g) s"

lemma star_then_iff: "star_then f s \<longleftrightarrow> (\<exists>u v. s = u @ v \<and> CHR 0x0A \<notin> set u \<and> f v)"
proof (induction s)
  case (Cons c s)
  have "(\<exists>u v. c # s = u @ v \<and> P u \<and> f v) \<longleftrightarrow> P [] \<and> f (c # s) \<or> (\<exists>u v. s = u @ v \<and> P (c # u) \<and> f v)" for P
    unfolding Cons_eq_append_conv by metis
  from this [of "\<lambda>u. CHR 0x0A \<notin> set u"] Cons show ?case by auto
qed simp

lemma match_parts_char:
  "match_parts ((c # q) # ps) s \<longleftrightarrow> (\<exists>s'. s = c # s' \<and> match_parts (q # ps) s')"
  by (cases ps; cases s) auto

lemma match_parts_star:
  "match_parts ([] # q # ps) s \<longleftrightarrow> (\<exists>u v. s = u @ v \<and> CHR 0x0A \<notin> set u \<and> match_parts (q # ps) v)"
  by (simp add: star_then_iff)

lemma match_parts_glob: "match_parts (split_on (CHR ''*'') g) s \<longleftrightarrow> glob_rel g s"
proof (induction g arbitrary: s)
  case Nil
  then show ?case by simp
next
  case (Cons c g)
  obtain q ps where sp: "split_on (CHR ''*'') g = q # ps"
    using split_on_nonempty by (meson neq_Nil_conv)
  show ?case
  proof (cases "c = CHR ''*''")
    case True
    have "match_parts (split_on (CHR ''*'') (c # g)) s \<longleftrightarrow>
        (\<exists>u v. s = u @ v \<and> CHR 0x0A \<notin> set u \<and> glob_rel g v)"
      using True sp Cons.IH by (simp add: match_parts_star del: match_parts.simps)
    also have "\<dots> \<longleftrightarrow> glob_rel (c # g) s"
      unfolding True by (blast intro: glob_rel.intros elim: glob_rel_ConsE)
    finally show ?thesis .
  next
    case False
    have "match_parts (split_on (CHR ''*'') (c # g)) s \<longleftrightarrow> (\<exists>s'. s = c # s' \<and> glob_rel g s')"
      using False sp Cons.IH by (simp add: match_parts_char del: match_parts.simps)
    also have "\<dots> \<longleftrightarrow> glob_rel (c # g) s"
      using False by (auto intro: glob_rel.intros elim: glob_rel_ConsE)
    finally show ?thesis .
  qed
qed


section \<open>What the compatibility check decides\<close>

text \<open>A listing that only reads, with the answers \<open>f\<close>.\<close>

definition reads_as :: "'w target_pods \<Rightarrow> (string \<Rightarrow> string gomap \<Rightarrow> goerror + k8s_pod list) \<Rightarrow> bool" where
  "reads_as tp f \<longleftrightarrow> (\<forall>ns l w. tp ns l w = (f ns l, w))"

text \<open>The containers behind the targets that can be judged.\<close>

definition judged_containers ::
  "(string \<Rightarrow> string gomap \<Rightarrow> goerror + k8s_pod list) \<Rightarrow> target_ref list \<Rightarrow> (k8s_pod \<times> k8s_container) set" where
  "judged_containers f ts =
     {(p, c). \<exists>t \<in> set ts. \<exists>pods. t_Namespace t \<noteq> '''' \<and> t_Labels t \<noteq> []
        \<and> f (t_Namespace t) (t_Labels t) = Inr pods \<and> p \<in> set pods \<and> c \<in> set (pod_Containers p)}"

lemma judged_Cons:
  "judged_containers f (t # ts) = judged_containers f ts \<union>
     (if t_Namespace t = '''' \<or> t_Labels t = [] then {}
      else case f (t_Namespace t) (t_Labels t) of
             Inl _ \<Rightarrow> {} | Inr pods \<Rightarrow> {(p, c). p \<in> set pods \<and> c \<in> set (pod_Containers p)})"
  by (auto simp: judged_containers_def split: sum.splits)

lemma check_target_pods_None:
  assumes "reads_as tp f"
  shows "fst (check_target_pods tp chk ts w) = None \<longleftrightarrow> (\<forall>(p, c) \<in> judged_containers f ts. chk p c = None)"
proof (induction ts)
  case Nil
  then show ?case by (simp add: judged_containers_def)
next
  case (Cons t ts)
  have tp: "tp ns l w = (f ns l, w)" for ns l using assms by (simp add: reads_as_def)
  show ?case
  proof (cases "t_Namespace t = '''' \<or> t_Labels t = []")
    case True
    with Cons show ?thesis by (simp add: judged_Cons)
  next
    case False
    show ?thesis
    proof (cases "f (t_Namespace t) (t_Labels t)")
      case (Inl err)
      with Cons tp False show ?thesis by (simp add: judged_Cons)
    next
      case (Inr pods)
      have "(\<forall>(p, c) \<in> judged_containers f (t # ts). chk p c = None) \<longleftrightarrow>
          (\<forall>(p, c) \<in> judged_containers f ts. chk p c = None)
          \<and> first_some (\<lambda>p. first_some (chk p) (pod_Containers p)) pods = None"
        using False Inr by (simp add: judged_Cons ball_Un) blast
      with Cons tp False Inr show ?thesis
        by (cases "first_some (\<lambda>p. first_some (chk p) (pod_Containers p)) pods")
          (simp_all del: first_some_None)
    qed
  qed
qed

lemma check_target_pods_Some:
  "fst (check_target_pods tp chk ts w) = Some e \<Longrightarrow> \<exists>p c. chk p c = Some e"
proof (induction tp chk ts w rule: check_target_pods.induct)
  case (2 tp chk t ts w)
  then show ?case
    by (auto split: if_splits prod.splits sum.splits option.splits dest!: first_some_Some)
qed simp

lemma compat_error_sel [simp]:
  "ee_Reason (grpc_error p c port) = ReasonTargetIncompatible"
  "ee_Reason (probe_error p c kind port path) = ReasonTargetIncompatible"
  "ee_Reason (readonly_error p c kind) = ReasonTargetIncompatible"
  "ee_Reason (mount_error p c vp) = ReasonTargetIncompatible"
  "ee_Stage (grpc_error p c port) = StagePrecheck"
  "ee_Stage (probe_error p c kind port path) = StagePrecheck"
  "ee_Stage (readonly_error p c kind) = StagePrecheck"
  "ee_Stage (mount_error p c vp) = StagePrecheck"
  by (simp_all add: grpc_error_def probe_error_def readonly_error_def mount_error_def)

lemma rootfs_container_ok:
  "rootfs_container_error kind cs vp p c = None \<longleftrightarrow>
     (cs = [] \<or> c_Name c \<in> set cs \<longrightarrow>
        c_ReadOnlyRootFS c \<noteq> Some True \<and> (kind = ''IOChaos'' \<and> vp \<noteq> '''' \<longrightarrow> mountsAt c vp))"
  by (auto simp: rootfs_container_error_def)

lemma http_container_ok:
  "http_container_error port gets glob p c = None \<longleftrightarrow>
     \<not> GRPCPort c port \<and> (\<forall>pr \<in> {c_LivenessProbe c, c_StartupProbe c}. probe_hit c port gets glob pr = None)"
  by (auto simp: http_container_error_def split: option.split)


section \<open>The recovery wait ends\<close>

text \<open>A clock that never goes back and that a wait, unless cancelled, moves by at least the poll
  interval.\<close>

definition clock_moves :: "'w wait_env \<Rightarrow> 'w target_pods \<Rightarrow> ('w \<Rightarrow> gotime) \<Rightarrow> bool" where
  "clock_moves we tp clk \<longleftrightarrow>
     (\<forall>w. fst (we_now we w) = clk w \<and> clk w \<le> clk (snd (we_now we w)))
     \<and> (\<forall>w. \<not> fst (we_wait we w) \<longrightarrow> clk w + recoveryPoll \<le> clk (snd (we_wait we w)))
     \<and> (\<forall>ns l w. clk w \<le> clk (snd (tp ns l w)))"

lemma collect_unready_clock:
  assumes "clock_moves we tp clk"
  shows "clk w \<le> clk (snd (collect_unready tp b ts w))"
proof (induction ts arbitrary: w)
  case (Cons t ts)
  obtain r w1 where r: "tp (t_Namespace t) (t_Labels t) w = (r, w1)" by (cases "tp (t_Namespace t) (t_Labels t) w")
  have "clk w \<le> clk (snd (tp (t_Namespace t) (t_Labels t) w))"
    using assms by (simp only: clock_moves_def)
  with r have "clk w \<le> clk w1" by simp
  then show ?case
    using Cons [of w] Cons [of w1] r by (simp split: sum.split prod.split) (metis order_trans snd_conv)
qed simp

text \<open>The polls that do not settle it: some target is not ready, the deadline is ahead, and the
  wait for the next poll is not cancelled.\<close>

inductive recovery_polls :: "'w wait_env \<Rightarrow> 'w target_pods \<Rightarrow> fault_manifest \<Rightarrow> gotime \<Rightarrow> 'w \<Rightarrow> 'w \<Rightarrow> bool"
  for we tp m deadline where
  polls_none: "recovery_polls we tp m deadline w w"
| polls_more: "unreadyTargets tp m w = ((u, True), w1) \<Longrightarrow> u \<noteq> [] \<Longrightarrow> we_now we w1 = (now, w2) \<Longrightarrow> now < deadline \<Longrightarrow>
    we_wait we w2 = (False, w3) \<Longrightarrow> recovery_polls we tp m deadline w3 w' \<Longrightarrow> recovery_polls we tp m deadline w w'"

text \<open>How the poll that settles it ends.\<close>

definition last_poll ::
  "'w wait_env \<Rightarrow> active_fault \<Rightarrow> gotime \<Rightarrow> gotime \<Rightarrow> string list \<Rightarrow> bool \<Rightarrow> 'w \<Rightarrow> audit_event option \<Rightarrow> 'w \<Rightarrow> bool" where
  "last_poll we af start deadline u checked w2 r w' \<longleftrightarrow>
     (case r of
        Some ev \<Rightarrow> checked \<and> (\<exists>w3 now.
          (u = [] \<and> w3 = w2 \<or> u \<noteq> [] \<and> (\<exists>t. we_now we w2 = (t, w3) \<and> deadline \<le> t)) \<and>
          we_now we w3 = (now, w') \<and> ev = recovery_event af u (time_sub now start))
      | None \<Rightarrow> \<not> checked \<and> w' = w2 \<or>
          checked \<and> u \<noteq> [] \<and> (\<exists>t w3. we_now we w2 = (t, w3) \<and> t < deadline \<and> we_wait we w3 = (True, w')))"

lemma recovery_loop_ends:
  assumes "clock_moves we tp clk"
  shows "\<exists>r w' w1 u checked w2. recovery_loop we tp af start deadline w = Some (r, w') \<and>
     recovery_polls we tp (af_Manifest af) deadline w w1 \<and>
     unreadyTargets tp (af_Manifest af) w1 = ((u, checked), w2) \<and>
     last_poll we af start deadline u checked w2 r w'"
proof (induction "nat (deadline - clk w)" arbitrary: w rule: less_induct)
  case less
  obtain unready checked w1 where u: "unreadyTargets tp (af_Manifest af) w = ((unready, checked), w1)"
    by (metis surj_pair)
  have c1: "clk w \<le> clk w1"
    using collect_unready_clock [OF assms, of w] u by (auto simp: unreadyTargets_def split: prod.splits) (metis snd_conv)
  obtain now w2 where n: "we_now we w1 = (now, w2)" by (cases "we_now we w1")
  obtain cancelled w3 where c: "we_wait we w2 = (cancelled, w3)" by (cases "we_wait we w2")
  from assms n have c2: "now = clk w1" "clk w1 \<le> clk w2" by (metis clock_moves_def fst_conv snd_conv)+
  have pos: "recoveryPoll > 0" by (simp add: recoveryPoll_def sec_def)
  show ?case
  proof (cases "checked \<and> unready \<noteq> [] \<and> now < deadline \<and> \<not> cancelled")
    case True
    with assms c have "clk w2 + recoveryPoll \<le> clk w3" by (metis clock_moves_def fst_conv snd_conv)
    with True have "nat (deadline - clk w3) < nat (deadline - clk w)"
      using c1 c2 pos by linarith
    note ih = less [OF this]
    have "recovery_loop we tp af start deadline w = recovery_loop we tp af start deadline w3"
      using True by (subst recovery_loop.simps) (simp add: u n c)
    moreover have "recovery_polls we tp (af_Manifest af) deadline w w'"
      if "recovery_polls we tp (af_Manifest af) deadline w3 w'" for w'
      using that True u n c by (auto intro: polls_more)
    ultimately show ?thesis using ih by (simp only:) blast
  next
    case False
    then have "\<exists>r w'. recovery_loop we tp af start deadline w = Some (r, w') \<and>
        last_poll we af start deadline unready checked w1 r w'"
      by (subst recovery_loop.simps)
        (auto simp: u n c last_poll_def record_recovery_def not_less split: prod.split)
    then obtain r w' where "recovery_loop we tp af start deadline w = Some (r, w')"
      "last_poll we af start deadline unready checked w1 r w'" by blast
    with u polls_none [of we tp "af_Manifest af" deadline w] show ?thesis by (intro exI conjI)
  qed
qed

section \<open>Properties of the pod checks\<close>

text \<open>
  The path selector, compiled to a regular expression by the code, matches
  exactly as a glob in which a star stands for any text without a newline and
  every other character for itself; an empty selector matches every path.
\<close>

theorem ChaosPathMatches_glob:
  "ChaosPathMatches glob p \<longleftrightarrow> glob = '''' \<or> glob_rel glob p"
  by (simp add: ChaosPathMatches_def match_parts_glob)

text \<open>
  C34.  What the compatibility check decides, on pods it can read: a fault that
  writes the root filesystem is accepted exactly when no container it selects is
  read-only and, for an I/O fault on a volume, each mounts it; an HTTP fault on
  a port exactly when no container serves gRPC there or has a liveness or startup
  probe the fault would fail.  Every refusal is a precheck error that names the
  target as incompatible.
\<close>

theorem checkTargetCompat_decides:
  assumes "reads_as tp f" "m_Engine m = EngineChaosMesh"
  shows "(m_ResourceKind m \<in> set rootFSWriters \<longrightarrow>
      (fst (checkTargetCompat (Some tp) m w) = None \<longleftrightarrow>
        (\<forall>(p, c) \<in> judged_containers f (m_Targets m).
           specStrings (spec_map m) ''containerNames'' = [] \<or> c_Name c \<in> set (specStrings (spec_map m) ''containerNames'') \<longrightarrow>
             c_ReadOnlyRootFS c \<noteq> Some True
             \<and> (m_ResourceKind m = ''IOChaos'' \<and> str_or_empty (map_of (spec_map m) ''volumePath'') \<noteq> '''' \<longrightarrow>
                  mountsAt c (str_or_empty (map_of (spec_map m) ''volumePath''))))))
    \<and> (m_ResourceKind m = ''HTTPChaos'' \<longrightarrow>
      (fst (checkTargetCompat (Some tp) m w) = None \<longleftrightarrow>
        (\<forall>port. specInt (spec_map m) ''port'' = Some port \<longrightarrow>
          (\<forall>(p, c) \<in> judged_containers f (m_Targets m). \<not> GRPCPort c port
             \<and> (\<forall>pr \<in> {c_LivenessProbe c, c_StartupProbe c}.
                  probe_hit c port (str_or_empty (map_of (spec_map m) ''method'') = ''''
                      \<or> equal_fold (str_or_empty (map_of (spec_map m) ''method'')) ''GET'')
                    (str_or_empty (map_of (spec_map m) ''path'')) pr = None)))))
    \<and> (\<forall>e. fst (checkTargetCompat (Some tp) m w) = Some e \<longrightarrow>
         ee_Stage e = StagePrecheck \<and> ee_Reason e = ReasonTargetIncompatible)"
proof (intro conjI impI allI)
  assume k: "m_ResourceKind m \<in> set rootFSWriters"
  then have "m_ResourceKind m \<noteq> ''HTTPChaos''" by (auto simp: rootFSWriters_def)
  with k assms(2) have e: "checkTargetCompat (Some tp) m w = check_target_pods tp
      (rootfs_container_error (m_ResourceKind m) (specStrings (spec_map m) ''containerNames'')
         (str_or_empty (map_of (spec_map m) ''volumePath''))) (m_Targets m) w"
    by (simp add: checkTargetCompat_def WritesRootFS_def)
  show "fst (checkTargetCompat (Some tp) m w) = None \<longleftrightarrow>
        (\<forall>(p, c) \<in> judged_containers f (m_Targets m).
           specStrings (spec_map m) ''containerNames'' = [] \<or> c_Name c \<in> set (specStrings (spec_map m) ''containerNames'') \<longrightarrow>
             c_ReadOnlyRootFS c \<noteq> Some True
             \<and> (m_ResourceKind m = ''IOChaos'' \<and> str_or_empty (map_of (spec_map m) ''volumePath'') \<noteq> '''' \<longrightarrow>
                  mountsAt c (str_or_empty (map_of (spec_map m) ''volumePath''))))"
    unfolding e check_target_pods_None [OF assms(1)] rootfs_container_ok by simp
next
  assume k: "m_ResourceKind m = ''HTTPChaos''"
  with assms(2) have e: "checkTargetCompat (Some tp) m w = checkHTTPChaosProbes tp m w"
    by (simp add: checkTargetCompat_def)
  show "fst (checkTargetCompat (Some tp) m w) = None \<longleftrightarrow>
        (\<forall>port. specInt (spec_map m) ''port'' = Some port \<longrightarrow>
          (\<forall>(p, c) \<in> judged_containers f (m_Targets m). \<not> GRPCPort c port
             \<and> (\<forall>pr \<in> {c_LivenessProbe c, c_StartupProbe c}.
                  probe_hit c port (str_or_empty (map_of (spec_map m) ''method'') = ''''
                      \<or> equal_fold (str_or_empty (map_of (spec_map m) ''method'')) ''GET'')
                    (str_or_empty (map_of (spec_map m) ''path'')) pr = None)))"
    unfolding e checkHTTPChaosProbes_def Let_def
    by (cases "specInt (spec_map m) ''port''")
      (simp_all only: option.case check_target_pods_None [OF assms(1)] http_container_ok option.inject, simp_all)
next
  fix e
  assume "fst (checkTargetCompat (Some tp) m w) = Some e"
  then have "(\<exists>p c port gets glob. http_container_error port gets glob p c = Some e)
      \<or> (\<exists>p c kind cs vp. rootfs_container_error kind cs vp p c = Some e)"
    by (auto simp: checkTargetCompat_def checkHTTPChaosProbes_def Let_def split: if_splits option.splits
        dest!: check_target_pods_Some)
  then show "ee_Stage e = StagePrecheck" "ee_Reason e = ReasonTargetIncompatible"
    by (auto simp: http_container_error_def rootfs_container_error_def split: if_splits option.splits)
qed

definition sample_pod :: k8s_pod where
  "sample_pod = \<lparr>pod_Namespace = ''shop'', pod_Name = ''web-0'',
     pod_Containers = [\<lparr>c_Name = ''web'', c_ReadOnlyRootFS = Some True, c_MountPaths = [''/data/''], c_Ports = [(''grpc-api'', 9000)],
        c_LivenessProbe = None, c_ReadinessProbe = None, c_StartupProbe = None\<rparr>],
     pod_Deleting = False, pod_Phase = ''Running'', pod_Conditions = [(''Ready'', ''False'')], pod_Statuses = []\<rparr>"

definition sample_pods :: "int target_pods" where
  "sample_pods ns l w = (Inr [sample_pod], w)"

theorem checkTargetCompat_decides_witness:
  "fst (checkTargetCompat (Some sample_pods) ((sample_manifest [])\<lparr>m_ResourceKind := ''DNSChaos''\<rparr>) 0) \<noteq> None"
proof -
  let ?m = "(sample_manifest [])\<lparr>m_ResourceKind := ''DNSChaos''\<rparr>"
  have r: "reads_as sample_pods (\<lambda>_ _. Inr [sample_pod])" by (simp add: reads_as_def sample_pods_def)
  have e: "m_Engine ?m = EngineChaosMesh" "m_ResourceKind ?m \<in> set rootFSWriters"
    "specStrings (spec_map ?m) ''containerNames'' = []"
    by code_simp+
  have j: "(sample_pod, hd (pod_Containers sample_pod)) \<in> judged_containers (\<lambda>_ _. Inr [sample_pod]) (m_Targets ?m)"
    by (simp add: judged_containers_def sample_manifest_def sample_pod_def)
  have "c_ReadOnlyRootFS (hd (pod_Containers sample_pod)) = Some True" by (simp add: sample_pod_def)
  with checkTargetCompat_decides [OF r e(1), of 0] e(2,3) j show ?thesis by blast
qed

text \<open>
  C35.  The wait for recovery ends whenever the clock moves, and its verdict is
  that of the last reading.  For a Chaos Mesh fault it polls while some target is
  not ready and the deadline is ahead; the poll after those settles it.  If no
  target could be judged, or the wait is cancelled, nothing is recorded; otherwise
  one event is recorded, that the fault recovered exactly when this last reading
  found every target ready, naming the targets it found unready, and it is
  recorded with unready targets only once the deadline has passed.  A fault of
  another engine is not waited for.
\<close>

theorem CheckRecovery_returns:
  assumes "clock_moves we tp clk"
  shows "\<exists>r w'. CheckRecovery we (Some tp) timeout af w = Some (r, w') \<and>
     (if m_Engine (af_Manifest af) \<noteq> EngineChaosMesh then r = None \<and> w' = w
      else \<exists>start w0 w1 u checked w2.
        we_now we w = (start, w0) \<and>
        recovery_polls we tp (af_Manifest af) (start + recovery_timeout timeout) w0 w1 \<and>
        unreadyTargets tp (af_Manifest af) w1 = ((u, checked), w2) \<and>
        last_poll we af start (start + recovery_timeout timeout) u checked w2 r w' \<and>
        (\<forall>ev. r = Some ev \<longrightarrow> ae_FaultUID ev = af_FaultUID af \<and> ae_Event ev = EventFaultRecovered
           \<and> map_of (ae_Payload ev) ''passed'' = Some (JBool (u = []))
           \<and> map_of (ae_Payload ev) ''unready'' = (if u = [] then None else Some (JArr (map JStr u)))))"
proof (cases "m_Engine (af_Manifest af) = EngineChaosMesh")
  case True
  obtain start w0 where s: "we_now we w = (start, w0)" by force
  obtain r w' w1 u checked w2 where r: "recovery_loop we tp af start (start + recovery_timeout timeout) w0 = Some (r, w')"
      "recovery_polls we tp (af_Manifest af) (start + recovery_timeout timeout) w0 w1"
      "unreadyTargets tp (af_Manifest af) w1 = ((u, checked), w2)"
      "last_poll we af start (start + recovery_timeout timeout) u checked w2 r w'"
    using recovery_loop_ends [OF assms] by blast
  have "CheckRecovery we (Some tp) timeout af w = Some (r, w')"
    using True s r(1) by (simp add: CheckRecovery_def)
  moreover have "\<forall>ev. r = Some ev \<longrightarrow> ae_FaultUID ev = af_FaultUID af \<and> ae_Event ev = EventFaultRecovered
      \<and> map_of (ae_Payload ev) ''passed'' = Some (JBool (u = []))
      \<and> map_of (ae_Payload ev) ''unready'' = (if u = [] then None else Some (JArr (map JStr u)))"
    using r(4) by (auto simp: last_poll_def recovery_event_def)
  ultimately show ?thesis using True s r(2-4) by auto
qed (simp add: CheckRecovery_def)

definition sample_wait :: "int wait_env" where
  "sample_wait = \<lparr>we_now = (\<lambda>w. (w, w)), we_wait = (\<lambda>w. (False, w + recoveryPoll))\<rparr>"

theorem CheckRecovery_returns_witness:
  "\<exists>r w'. CheckRecovery sample_wait (Some sample_pods) (60 * sec)
     (lease_of (NewRegistry ''h'') 0 ''f'' ''e'' (sample_manifest []) 9) 0 = Some (r, w')"
proof -
  have "clock_moves sample_wait sample_pods (\<lambda>w. w)"
    by (simp add: clock_moves_def sample_wait_def sample_pods_def)
  from CheckRecovery_returns [OF this] show ?thesis by blast
qed

end
