(* ===== verification/Probe_Core.thy ===== *)
theory Probe_Core
  imports Simian_Types
begin

text \<open>
  The probe interface of \<^verbatim>\<open>src/pkg/probe/probe.go\<close>: results and their one-line
  rendering, the target a probe inherits, the dispatch on the probe type and
  the decoding of spec fields.  A prober is a function of the cluster state.
\<close>

section \<open>Results\<close>

record probe_result =
  res_Name :: string
  res_Type :: string
  res_Passed :: bool
  res_Observed :: string
  res_Expected :: string
  res_Attempts :: int
  res_Elapsed :: duration
  res_Err :: "goerror option"

text \<open>The ellipsis is the three bytes of its UTF-8 encoding.\<close>

definition truncate_text :: "string \<Rightarrow> nat \<Rightarrow> string" where
  "truncate_text s n = (let t = trim_space s in if length t \<le> n then t else take n t @ ellipsis)"

definition Result_Describe :: "probe_result \<Rightarrow> string" where
  "Result_Describe r =
     (case res_Err r of
        Some e \<Rightarrow> sprintf ''probe % (%) errored: %'' [AQ (res_Name r), AS (res_Type r), AS (err_text e)]
      | None \<Rightarrow>
          if res_Passed r then
            sprintf ''probe % (%) passed after %: observed %''
              [AQ (res_Name r), AS (res_Type r), AS (duration_string (round_duration (res_Elapsed r) 1000000)),
               AQ (truncate_text (res_Observed r) 200)]
          else
            sprintf ''probe % (%) never passed in % (% polls): wanted %, last saw %''
              [AQ (res_Name r), AS (res_Type r), AS (duration_string (round_duration (res_Elapsed r) 1000000)),
               AD (res_Attempts r), AS (res_Expected r), AQ (truncate_text (res_Observed r) 200)])"


section \<open>Targets and probers\<close>

record probe_target =
  pt_Namespace :: string
  pt_Labels :: "string gomap"

definition Target_Selector :: "probe_target \<Rightarrow> string" where
  "Target_Selector t = join_with '','' (sort (map (\<lambda>p. fst p @ ''='' @ snd p) (pt_Labels t)))"

type_synonym 'w prober = "probe_spec \<Rightarrow> probe_target \<Rightarrow> 'w \<Rightarrow> probe_result \<times> 'w"

definition Mux_Run :: "'w prober gomap \<Rightarrow> 'w prober" where
  "Mux_Run byType p target w =
     (case map_of byType (p_Type p) of
        Some sub \<Rightarrow> sub p target w
      | None \<Rightarrow>
          (\<lparr>res_Name = p_Name p, res_Type = p_Type p, res_Passed = False, res_Observed = '''',
            res_Expected = '''', res_Attempts = 0, res_Elapsed = 0,
            res_Err = Some (GoErr (sprintf ''probe %: no prober for type % (have: %)''
               [AQ (p_Name p), AQ (p_Type p), AS (join_with '', '' (sorted_keys byType))]))\<rparr>, w))"


section \<open>Spec fields\<close>

datatype opt_error =
    NotAString string | NotABool string | NotADuration string | BadDuration string string
  | NotWhole string rat | NotANumber string

definition optString :: "jobj \<Rightarrow> string \<Rightarrow> opt_error + string" where
  "optString raw key =
     (case map_of raw key of
        None \<Rightarrow> Inr ''''
      | Some JNull \<Rightarrow> Inr ''''
      | Some (JStr s) \<Rightarrow> Inr s
      | Some _ \<Rightarrow> Inl (NotAString key))"

definition optBool :: "jobj \<Rightarrow> string \<Rightarrow> opt_error + bool" where
  "optBool raw key =
     (case map_of raw key of
        None \<Rightarrow> Inr False
      | Some JNull \<Rightarrow> Inr False
      | Some (JBool b) \<Rightarrow> Inr b
      | Some _ \<Rightarrow> Inl (NotABool key))"

definition optDuration :: "jobj \<Rightarrow> string \<Rightarrow> duration \<Rightarrow> opt_error + duration" where
  "optDuration raw key dflt =
     (case map_of raw key of
        None \<Rightarrow> Inr dflt
      | Some JNull \<Rightarrow> Inr dflt
      | Some (JStr s) \<Rightarrow> (case parse_duration s of Some d \<Rightarrow> Inr d | None \<Rightarrow> Inl (BadDuration key s))
      | Some _ \<Rightarrow> Inl (NotADuration key))"

definition optInt :: "jobj \<Rightarrow> string \<Rightarrow> opt_error + int" where
  "optInt raw key =
     (case map_of raw key of
        None \<Rightarrow> Inr 0
      | Some JNull \<Rightarrow> Inr 0
      | Some (JInt i) \<Rightarrow> Inr i
      | Some (JNum r) \<Rightarrow> (case float_int r of None \<Rightarrow> Inl (NotWhole key r) | Some i \<Rightarrow> Inr i)
      | Some _ \<Rightarrow> Inl (NotANumber key))"


section \<open>Facts\<close>

text \<open>The type check is fail closed: only a registered prober can pass a probe.\<close>

lemma Mux_Run_unknown:
  "map_of byType (p_Type p) = None \<Longrightarrow>
     \<not> res_Passed (fst (Mux_Run byType p t w)) \<and> res_Err (fst (Mux_Run byType p t w)) \<noteq> None
     \<and> snd (Mux_Run byType p t w) = w"
  by (simp add: Mux_Run_def)

lemma optInt_whole:
  "optInt raw key = Inr i \<Longrightarrow> map_of raw key = Some (JNum r) \<Longrightarrow> r = of_int i"
  by (auto simp: optInt_def float_int_def split: if_splits)

end
