(* ===== verification/Apply_Budget.thy ===== *)
theory Apply_Budget
  imports Lease_Registry Catalog_Tiers
begin

text \<open>
  The budget of \<^verbatim>\<open>src/pkg/executor\<close>: the policy configuration (\<^verbatim>\<open>config.go\<close>) and the
  reservation an apply holds against the concurrency cap and the namespace
  cooldown (\<^verbatim>\<open>reserve\<close>, its \<^verbatim>\<open>release\<close>, and \<^verbatim>\<open>recordApply\<close> of \<^verbatim>\<open>executor.go\<close>).  Each of
  the three runs under the executor's mutex and is one atomic step.

  The last part is the protocol: any number of applies, clears and lease
  expiries interleaved at that granularity.  The cap and the cooldown are
  invariants of it.
\<close>

section \<open>Configuration\<close>

record config =
  cfg_DurationCeiling :: duration
  cfg_PermittedTiers :: "bool gomap"
  cfg_MaxConcurrentFaults :: int
  cfg_MinCooldown :: duration
  cfg_ClusterPodCIDRs :: "ipnet list"
  cfg_ClusterServiceCIDRs :: "ipnet list"
  cfg_ClusterDomains :: "string list"
  cfg_RecoveryTimeout :: duration

definition DefaultConfig :: config where
  "DefaultConfig =
     \<lparr>cfg_DurationCeiling = 15 * minute,
      cfg_PermittedTiers = [(TierNamespace, True), (TierNode, True)],
      cfg_MaxConcurrentFaults = 0, cfg_MinCooldown = 0,
      cfg_ClusterPodCIDRs = [], cfg_ClusterServiceCIDRs = [],
      cfg_ClusterDomains = DefaultClusterDomains, cfg_RecoveryTimeout = 0\<rparr>"

text \<open>\<^const>\<open>None\<close> is the nil map: leave the default policy alone.\<close>

fun parse_tiers :: "string list \<Rightarrow> bool gomap \<Rightarrow> string + bool gomap" where
  "parse_tiers [] out = Inr out"
| "parse_tiers (raw # rest) out =
     (case ParseBlastRadiusTier raw of
        Inl err \<Rightarrow> Inl err
      | Inr tier \<Rightarrow> parse_tiers rest (AList.update tier True out))"

definition ParsePermittedTiers :: "string list \<Rightarrow> string + bool gomap option" where
  "ParsePermittedTiers names =
     (if names = [] then Inr None
      else case parse_tiers names [] of Inl err \<Rightarrow> Inl err | Inr out \<Rightarrow> Inr (Some out))"

definition AllCIDRs :: "config \<Rightarrow> ipnet list" where
  "AllCIDRs c = cfg_ClusterPodCIDRs c @ cfg_ClusterServiceCIDRs c"

definition tier_permitted :: "config \<Rightarrow> string \<Rightarrow> bool" where
  "tier_permitted cfg tier \<longleftrightarrow> map_of (cfg_PermittedTiers cfg) tier = Some True"


section \<open>Reservations\<close>

record budget =
  b_registry :: registry
  b_lastApplyByNS :: "gotime gomap"
  b_inFlight :: int
  b_inFlightNS :: "int gomap"

text \<open>Indexing a Go map of integers: zero where there is no entry.\<close>

definition inFlightIn :: "budget \<Rightarrow> string \<Rightarrow> int" where
  "inFlightIn b ns = (case map_of (b_inFlightNS b) ns of Some n \<Rightarrow> n | None \<Rightarrow> 0)"

definition budget_error :: "string \<Rightarrow> exec_error" where
  "budget_error msg = NewExecutorError StageSafety ReasonBudgetExceeded msg None"

definition over_cap :: "config \<Rightarrow> budget \<Rightarrow> bool" where
  "over_cap cfg b \<longleftrightarrow>
     cfg_MaxConcurrentFaults cfg > 0 \<and>
     int (length (List_leases (b_registry b) '''')) + b_inFlight b \<ge> cfg_MaxConcurrentFaults cfg"

text \<open>The loop over the namespaces; the clock is read at each one that was applied to
  before.\<close>

fun check_cooldown ::
  "config \<Rightarrow> ('w \<Rightarrow> gotime \<times> 'w) \<Rightarrow> budget \<Rightarrow> string list \<Rightarrow> 'w \<Rightarrow> exec_error option \<times> 'w" where
  "check_cooldown cfg clock b [] w = (None, w)"
| "check_cooldown cfg clock b (ns # nss) w =
     (if inFlightIn b ns > 0
      then (Some (budget_error (sprintf ''namespace % already has a fault being applied'' [AQ ns])), w)
      else case map_of (b_lastApplyByNS b) ns of
             None \<Rightarrow> check_cooldown cfg clock b nss w
           | Some prev \<Rightarrow>
               (case clock w of
                  (now, w') \<Rightarrow>
                    if time_sub now prev < cfg_MinCooldown cfg
                    then (Some (budget_error (sprintf ''namespace % is in cooldown'' [AQ ns])), w')
                    else check_cooldown cfg clock b nss w'))"

definition book :: "string list \<Rightarrow> budget \<Rightarrow> budget" where
  "book nss b =
     b\<lparr>b_inFlight := b_inFlight b + 1,
       b_inFlightNS := fold (\<lambda>ns m. AList.update ns ((case map_of m ns of Some n \<Rightarrow> n | None \<Rightarrow> 0) + 1) m)
                         nss (b_inFlightNS b)\<rparr>"

definition reserve ::
  "config \<Rightarrow> ('w \<Rightarrow> gotime \<times> 'w) \<Rightarrow> string list \<Rightarrow> budget \<Rightarrow> 'w \<Rightarrow> (exec_error + budget) \<times> 'w" where
  "reserve cfg clock nss b w =
     (if over_cap cfg b
      then (Inl (budget_error (sprintf ''max concurrent faults reached (%)'' [AD (cfg_MaxConcurrentFaults cfg)])), w)
      else if cfg_MinCooldown cfg > 0
      then (case check_cooldown cfg clock b nss w of
              (Some e, w') \<Rightarrow> (Inl e, w')
            | (None, w') \<Rightarrow> (Inr (book nss b), w'))
      else (Inr (book nss b), w))"

text \<open>The body of the returned \<^verbatim>\<open>release\<close>, on its first call.\<close>

definition release :: "string list \<Rightarrow> budget \<Rightarrow> budget" where
  "release nss b =
     b\<lparr>b_inFlight := b_inFlight b - 1,
       b_inFlightNS := fold (\<lambda>ns m.
          let n = (case map_of m ns of Some n \<Rightarrow> n | None \<Rightarrow> 0) - 1
          in if n \<le> 0 then AList.delete ns m else AList.update ns n m) nss (b_inFlightNS b)\<rparr>"

definition recordApply :: "gotime \<Rightarrow> fault_manifest \<Rightarrow> budget \<Rightarrow> budget" where
  "recordApply now m b =
     b\<lparr>b_lastApplyByNS := fold (\<lambda>ns l. AList.update ns now l) (TargetNamespaces m) (b_lastApplyByNS b)\<rparr>"

section \<open>Facts about reservations\<close>

lemma length_List_leases_all [simp]: "length (List_leases r '''') = lease_count r"
  by (simp add: List_leases_def TargetsNamespace_def lease_count_def)

lemma reserve_ok:
  "reserve cfg clock nss b w = (Inr b', w') \<Longrightarrow>
     b' = book nss b \<and> \<not> over_cap cfg b
     \<and> (cfg_MinCooldown cfg > 0 \<longrightarrow> check_cooldown cfg clock b nss w = (None, w'))"
  by (auto simp: reserve_def split: if_splits prod.splits option.splits)

lemma check_cooldown_error: "check_cooldown cfg clock b nss w = (Some e, w') \<Longrightarrow> \<exists>msg. e = budget_error msg"
  by (induction nss arbitrary: w) (auto split: if_splits option.splits prod.splits)

lemma reserve_error: "reserve cfg clock nss b w = (Inl e, w') \<Longrightarrow> \<exists>msg. e = budget_error msg"
  by (auto simp: reserve_def split: if_splits prod.splits option.splits dest: check_cooldown_error)

lemma budget_error_sel [simp]:
  "ee_Reason (budget_error msg) = ReasonBudgetExceeded" "ee_Stage (budget_error msg) = StageSafety"
  by (simp_all add: budget_error_def)

lemma book_other [simp]:
  "b_registry (book nss b) = b_registry b" "b_lastApplyByNS (book nss b) = b_lastApplyByNS b"
  "b_inFlight (book nss b) = b_inFlight b + 1"
  by (simp_all add: book_def)

lemma release_other [simp]:
  "b_registry (release nss b) = b_registry b" "b_lastApplyByNS (release nss b) = b_lastApplyByNS b"
  "b_inFlight (release nss b) = b_inFlight b - 1"
  by (simp_all add: release_def)

lemma recordApply_other [simp]:
  "b_registry (recordApply now m b) = b_registry b" "b_inFlight (recordApply now m b) = b_inFlight b"
  "b_inFlightNS (recordApply now m b) = b_inFlightNS b" "inFlightIn (recordApply now m b) = inFlightIn b"
  by (simp_all add: recordApply_def inFlightIn_def fun_eq_iff)

lemma lastApply_record [simp]:
  "map_of (b_lastApplyByNS (recordApply now m b)) ns =
     (if ns \<in> set (TargetNamespaces m) then Some now else map_of (b_lastApplyByNS b) ns)"
proof -
  have "map_of (fold (\<lambda>ns l. AList.update ns now l) nss l) ns = (if ns \<in> set nss then Some now else map_of l ns)" for nss l
    by (induction nss arbitrary: l) auto
  then show ?thesis by (simp add: recordApply_def del: set_TargetNamespaces)
qed

lemma inFlightIn_book: "inFlightIn (book nss b) ns = inFlightIn b ns + int (count_list nss ns)"
proof -
  have "(case map_of (fold (\<lambda>ns m. AList.update ns ((case map_of m ns of Some n \<Rightarrow> n | None \<Rightarrow> 0) + 1) m) nss m) ns of
            Some n \<Rightarrow> n | None \<Rightarrow> 0)
      = (case map_of m ns of Some n \<Rightarrow> n | None \<Rightarrow> 0) + int (count_list nss ns)" for m
    by (induction nss arbitrary: m) auto
  then show ?thesis by (simp add: inFlightIn_def book_def)
qed

lemma count_list_distinct: "distinct xs \<Longrightarrow> count_list xs x = (if x \<in> set xs then 1 else 0)"
  by (induction xs) auto

lemma inFlightIn_release:
  assumes "distinct nss"
  shows "inFlightIn (release nss b) ns =
    (if ns \<in> set nss then max 0 (inFlightIn b ns - 1) else inFlightIn b ns)"
proof -
  define step where "step = (\<lambda>ns (m :: int gomap).
          let n = (case map_of m ns of Some n \<Rightarrow> n | None \<Rightarrow> 0) - 1
          in if n \<le> 0 then AList.delete ns m else AList.update ns n m)"
  have one: "(case map_of (step x m) ns of Some n \<Rightarrow> n | None \<Rightarrow> 0) =
      (if ns = x then max 0 ((case map_of m ns of Some n \<Rightarrow> n | None \<Rightarrow> 0) - 1)
       else (case map_of m ns of Some n \<Rightarrow> n | None \<Rightarrow> 0))" for x m
    by (simp add: step_def Let_def)
  have "(case map_of (fold step nss m) ns of Some n \<Rightarrow> n | None \<Rightarrow> 0) =
      (if ns \<in> set nss then max 0 ((case map_of m ns of Some n \<Rightarrow> n | None \<Rightarrow> 0) - 1)
       else (case map_of m ns of Some n \<Rightarrow> n | None \<Rightarrow> 0))" for m
    using assms by (induction nss arbitrary: m) (auto simp: one)
  then show ?thesis by (simp add: inFlightIn_def release_def step_def)
qed

text \<open>A release undoes a reservation.\<close>

lemma release_book:
  assumes "distinct nss" "\<And>ns. 0 \<le> inFlightIn b ns"
  shows "b_inFlight (release nss (book nss b)) = b_inFlight b"
    and "inFlightIn (release nss (book nss b)) = inFlightIn b"
  using assms by (auto simp: inFlightIn_release inFlightIn_book count_list_distinct fun_eq_iff)

text \<open>What passing the cooldown check means, for a clock that stands still inside the
  critical section.\<close>

lemma time_sub_ge: "min_duration < d \<Longrightarrow> d \<le> time_sub a b \<Longrightarrow> d \<le> a - b"
  by (auto simp: time_sub_def split: if_splits)

lemma check_cooldown_ok:
  assumes "0 < cfg_MinCooldown cfg"
  shows "check_cooldown cfg (\<lambda>t. (t, t)) b nss now = (None, w') \<Longrightarrow> ns \<in> set nss \<Longrightarrow>
    inFlightIn b ns \<le> 0
    \<and> (\<forall>t. map_of (b_lastApplyByNS b) ns = Some t \<longrightarrow> t + cfg_MinCooldown cfg \<le> now)"
proof (induction nss)
  case (Cons x nss)
  have "min_duration < cfg_MinCooldown cfg" using assms by (simp add: min_duration_def)
  then have gap: "prev + cfg_MinCooldown cfg \<le> now" if "\<not> time_sub now prev < cfg_MinCooldown cfg" for prev
    using time_sub_ge [of "cfg_MinCooldown cfg" now prev] that by linarith
  from Cons.prems(1) have head: "inFlightIn b x \<le> 0
      \<and> (\<forall>t. map_of (b_lastApplyByNS b) x = Some t \<longrightarrow> t + cfg_MinCooldown cfg \<le> now)"
    and rest: "check_cooldown cfg (\<lambda>t. (t, t)) b nss now = (None, w')"
    using gap by (auto split: if_splits option.splits)
  show ?case using head Cons.IH [OF rest] Cons.prems(2) by auto
qed simp


section \<open>The protocol of concurrent applies\<close>

datatype phase = Reserved | Registered | Recorded

text \<open>
  The applies under way, each with the namespaces it booked and how far it has
  come; and, for the statement of the cooldown, the times of the faults
  recorded per namespace, newest first.
\<close>

record proto =
  pr_now :: gotime
  pr_budget :: budget
  pr_pending :: "(string list \<times> phase) list"
  pr_log :: "string \<Rightarrow> gotime list"

inductive proto_step :: "config \<Rightarrow> proto \<Rightarrow> proto \<Rightarrow> bool" for cfg where
  tick: "pr_now s \<le> t \<Longrightarrow> proto_step cfg s (s\<lparr>pr_now := t\<rparr>)"
| start: "reserve cfg (\<lambda>t. (t, t)) nss (pr_budget s) (pr_now s) = (Inr b, t) \<Longrightarrow> distinct nss \<Longrightarrow>
     proto_step cfg s (s\<lparr>pr_budget := b, pr_pending := (nss, Reserved) # pr_pending s\<rparr>)"
| abort: "pr_pending s = xs @ (nss, Reserved) # ys \<Longrightarrow>
     proto_step cfg s (s\<lparr>pr_budget := release nss (pr_budget s), pr_pending := xs @ ys\<rparr>)"
| register: "pr_pending s = xs @ (nss, Reserved) # ys \<Longrightarrow> TargetNamespaces m = nss \<Longrightarrow>
     proto_step cfg s (s\<lparr>pr_budget := (pr_budget s)\<lparr>b_registry :=
          snd (Register (pr_now s) uid euid m deadline (b_registry (pr_budget s)))\<rparr>,
        pr_pending := xs @ (nss, Registered) # ys\<rparr>)"
| record_apply: "pr_pending s = xs @ (nss, Registered) # ys \<Longrightarrow> TargetNamespaces m = nss \<Longrightarrow>
     proto_step cfg s (s\<lparr>pr_budget := recordApply (pr_now s) m (pr_budget s),
        pr_pending := xs @ (nss, Recorded) # ys,
        pr_log := (\<lambda>ns. if ns \<in> set nss then pr_now s # pr_log s ns else pr_log s ns)\<rparr>)"
| finish: "pr_pending s = xs @ (nss, Recorded) # ys \<Longrightarrow>
     proto_step cfg s (s\<lparr>pr_budget := release nss (pr_budget s), pr_pending := xs @ ys\<rparr>)"
| forget: "proto_step cfg s (s\<lparr>pr_budget := (pr_budget s)\<lparr>b_registry :=
        snd (Forget uid (b_registry (pr_budget s)))\<rparr>\<rparr>)"

inductive_cases proto_stepE: "proto_step cfg s t"

definition proto_init :: "config \<Rightarrow> proto \<Rightarrow> bool" where
  "proto_init cfg s \<longleftrightarrow>
     distinct (map fst (r_items (b_registry (pr_budget s))))
     \<and> (cfg_MaxConcurrentFaults cfg > 0 \<longrightarrow>
          int (lease_count (b_registry (pr_budget s))) \<le> cfg_MaxConcurrentFaults cfg)
     \<and> b_lastApplyByNS (pr_budget s) = [] \<and> b_inFlight (pr_budget s) = 0 \<and> b_inFlightNS (pr_budget s) = []
     \<and> pr_pending s = [] \<and> pr_log s = (\<lambda>_. [])"

text \<open>The counters count the applies under way.\<close>

definition pending_in :: "string \<Rightarrow> (string list \<times> phase) list \<Rightarrow> nat" where
  "pending_in ns ps = length (filter (\<lambda>p. ns \<in> set (fst p)) ps)"

definition in_phase :: "phase \<Rightarrow> (string list \<times> phase) list \<Rightarrow> nat" where
  "in_phase ph ps = length (filter (\<lambda>p. snd p = ph) ps)"

lemma pending_in_simps [simp]:
  "pending_in ns [] = 0" "pending_in ns (p # ps) = (if ns \<in> set (fst p) then 1 else 0) + pending_in ns ps"
  "pending_in ns (ps @ qs) = pending_in ns ps + pending_in ns qs"
  by (simp_all add: pending_in_def)

lemma in_phase_simps [simp]:
  "in_phase ph [] = 0" "in_phase ph (p # ps) = (if snd p = ph then 1 else 0) + in_phase ph ps"
  "in_phase ph (ps @ qs) = in_phase ph ps + in_phase ph qs"
  by (simp_all add: in_phase_def)

lemma in_phase_le: "in_phase ph ps \<le> length ps"
  by (simp add: in_phase_def)

definition counts_inv :: "proto \<Rightarrow> bool" where
  "counts_inv s \<longleftrightarrow>
     b_inFlight (pr_budget s) = int (length (pr_pending s))
     \<and> (\<forall>ns. inFlightIn (pr_budget s) ns = int (pending_in ns (pr_pending s)))
     \<and> (\<forall>p \<in> set (pr_pending s). distinct (fst p))"

lemma inFlightIn_registry [simp]: "inFlightIn (b\<lparr>b_registry := r\<rparr>) = inFlightIn b"
  by (simp add: inFlightIn_def fun_eq_iff)

lemma counts_inv_release:
  assumes "counts_inv s" "pr_pending s = xs @ (nss, ph) # ys"
  shows "counts_inv (s\<lparr>pr_budget := release nss (pr_budget s), pr_pending := xs @ ys\<rparr>)"
  using assms by (auto simp: counts_inv_def inFlightIn_release)

lemma counts_inv_step: "proto_step cfg s t \<Longrightarrow> counts_inv s \<Longrightarrow> counts_inv t"
proof (induction rule: proto_step.cases)
  case (start nss s b t)
  then show ?case
    by (auto simp: counts_inv_def inFlightIn_book count_list_distinct dest!: reserve_ok)
next
  case (abort s xs nss ys)
  then show ?case by (simp add: counts_inv_release)
next
  case (finish s xs nss ys)
  then show ?case by (simp add: counts_inv_release)
qed (auto simp: counts_inv_def)

text \<open>The cap: leases and reserved slots together stay within it.\<close>

definition cap_inv :: "config \<Rightarrow> proto \<Rightarrow> bool" where
  "cap_inv cfg s \<longleftrightarrow>
     distinct (map fst (r_items (b_registry (pr_budget s))))
     \<and> (cfg_MaxConcurrentFaults cfg > 0 \<longrightarrow>
          int (lease_count (b_registry (pr_budget s))) + int (in_phase Reserved (pr_pending s))
            \<le> cfg_MaxConcurrentFaults cfg)"

lemma lease_count_Register:
  "distinct (map fst (r_items r)) \<Longrightarrow>
     lease_count (snd (Register now uid euid m dl r)) \<le> Suc (lease_count r)
     \<and> distinct (map fst (r_items (snd (Register now uid euid m dl r))))"
  using reg.count_put_le reg.inv_put by (simp add: Register_def Let_def)

lemma lease_count_Forget:
  "distinct (map fst (r_items r)) \<Longrightarrow>
     lease_count (snd (Forget uid r)) \<le> lease_count r \<and> distinct (map fst (r_items (snd (Forget uid r))))"
  using reg.count_del_le reg.inv_del by (simp add: snd_Forget)

lemma cap_inv_step: "proto_step cfg s t \<Longrightarrow> counts_inv s \<Longrightarrow> cap_inv cfg s \<Longrightarrow> cap_inv cfg t"
proof (induction rule: proto_step.cases)
  case (start nss s b t)
  then show ?case
    using in_phase_le [of Reserved "pr_pending s"]
    by (auto simp: cap_inv_def over_cap_def counts_inv_def dest!: reserve_ok)
next
  case (register s xs nss ys m uid euid deadline)
  then show ?case
    using lease_count_Register [of "b_registry (pr_budget s)" "pr_now s" uid euid m deadline]
    by (auto simp: cap_inv_def)
next
  case (forget s uid)
  then show ?case
    using lease_count_Forget [of "b_registry (pr_budget s)" uid] by (auto simp: cap_inv_def)
qed (auto simp: cap_inv_def)

text \<open>The cooldown: one apply under way per namespace, and recorded faults spaced.\<close>

definition spaced :: "duration \<Rightarrow> gotime list \<Rightarrow> bool" where
  "spaced d ts \<longleftrightarrow> successively (\<lambda>later earlier. earlier + d \<le> later) ts"

definition cool_inv :: "config \<Rightarrow> proto \<Rightarrow> bool" where
  "cool_inv cfg s \<longleftrightarrow>
     (\<forall>ns. map_of (b_lastApplyByNS (pr_budget s)) ns =
        (case pr_log s ns of [] \<Rightarrow> None | t # _ \<Rightarrow> Some t))
     \<and> (cfg_MinCooldown cfg > 0 \<longrightarrow>
          (\<forall>ns. pending_in ns (pr_pending s) \<le> 1 \<and> spaced (cfg_MinCooldown cfg) (pr_log s ns))
          \<and> (\<forall>p \<in> set (pr_pending s). snd p \<noteq> Recorded \<longrightarrow>
               (\<forall>ns \<in> set (fst p). \<forall>t. map_of (b_lastApplyByNS (pr_budget s)) ns = Some t \<longrightarrow>
                  t + cfg_MinCooldown cfg \<le> pr_now s)))"

lemma cool_inv_start:
  assumes cnt: "counts_inv s" and cool: "cool_inv cfg s" and d: "distinct nss"
    and res: "reserve cfg (\<lambda>t. (t, t)) nss (pr_budget s) (pr_now s) = (Inr b, t)"
  shows "cool_inv cfg (s\<lparr>pr_budget := b, pr_pending := (nss, Reserved) # pr_pending s\<rparr>)"
proof -
  from reserve_ok [OF res] have b: "b = book nss (pr_budget s)" by simp
  have ok: "inFlightIn (pr_budget s) ns \<le> 0 \<and> (\<forall>t. map_of (b_lastApplyByNS (pr_budget s)) ns = Some t \<longrightarrow>
      t + cfg_MinCooldown cfg \<le> pr_now s)" if "cfg_MinCooldown cfg > 0" "ns \<in> set nss" for ns
    using reserve_ok [OF res] check_cooldown_ok [OF that(1)] that by blast
  then have "pending_in ns (pr_pending s) = 0" if "cfg_MinCooldown cfg > 0" "ns \<in> set nss" for ns
    using cnt that by (fastforce simp: counts_inv_def)
  with ok cool show ?thesis by (auto simp: cool_inv_def b)
qed

lemma pending_in_split:
  assumes "pending_in ns (xs @ (nss, ph) # ys) \<le> 1" "ns \<in> set nss" "p \<in> set xs \<union> set ys"
  shows "ns \<notin> set (fst p)"
proof
  assume "ns \<in> set (fst p)"
  with assms(3) have "0 < pending_in ns xs + pending_in ns ys"
    by (auto simp: pending_in_def filter_empty_conv)
  with assms show False by simp
qed

lemma cool_inv_record:
  assumes cool: "cool_inv cfg s" and p: "pr_pending s = xs @ (nss, Registered) # ys" and m: "TargetNamespaces m = nss"
  shows "cool_inv cfg (s\<lparr>pr_budget := recordApply (pr_now s) m (pr_budget s),
        pr_pending := xs @ (nss, Recorded) # ys,
        pr_log := (\<lambda>ns. if ns \<in> set nss then pr_now s # pr_log s ns else pr_log s ns)\<rparr>)"
    (is "cool_inv cfg ?t")
proof -
  let ?d = "cfg_MinCooldown cfg" and ?last = "\<lambda>ns. map_of (b_lastApplyByNS (pr_budget s)) ns"
  have last: "?last ns = (case pr_log s ns of [] \<Rightarrow> None | t # _ \<Rightarrow> Some t)" for ns
    using cool by (simp add: cool_inv_def)
  have old: "t + ?d \<le> pr_now s" if "?d > 0" "ns \<in> set nss" "?last ns = Some t" for ns t
    using cool p that by (auto simp: cool_inv_def)
  have sp0: "spaced ?d (pr_log s ns)" if "?d > 0" for ns
    using cool that by (simp add: cool_inv_def)
  have sp: "spaced ?d (pr_now s # pr_log s ns)" if "?d > 0" "ns \<in> set nss" for ns
    using sp0 [OF that(1), of ns] old [OF that] last [of ns]
    by (cases "pr_log s ns") (simp_all add: spaced_def)
  have other: "ns \<notin> set nss" if "?d > 0" "q \<in> set xs \<union> set ys" "ns \<in> set (fst q)" for q ns
  proof -
    from cool that(1) have "pending_in ns (pr_pending s) \<le> 1" by (simp add: cool_inv_def)
    with pending_in_split [of ns xs nss Registered ys q] p that(2,3) show ?thesis by auto
  qed
  have q: "snd q \<noteq> Recorded \<longrightarrow> (\<forall>ns \<in> set (fst q). \<forall>t. map_of (b_lastApplyByNS (pr_budget ?t)) ns = Some t \<longrightarrow>
      t + ?d \<le> pr_now s)" if "?d > 0" "q \<in> set (pr_pending ?t)" for q
    using that other [of q] cool p m by (auto simp: cool_inv_def simp del: set_TargetNamespaces)
  show ?thesis
    using cool sp q last m p by (auto simp: cool_inv_def simp del: set_TargetNamespaces)
qed

lemma cool_inv_drop:
  assumes "cool_inv cfg s" "pr_pending s = xs @ (nss, ph) # ys"
  shows "cool_inv cfg (s\<lparr>pr_budget := release nss (pr_budget s), pr_pending := xs @ ys\<rparr>)"
proof -
  have le: "pending_in ns (xs @ ys) \<le> pending_in ns (pr_pending s)" for ns
    by (simp add: assms(2))
  have "pending_in ns (xs @ ys) \<le> 1" if "cfg_MinCooldown cfg > 0" for ns
    using le_trans [OF le] assms(1) that by (simp only: cool_inv_def)
  with assms show ?thesis by (simp add: cool_inv_def del: pending_in_simps(3))
qed

lemma cool_inv_step: "proto_step cfg s t \<Longrightarrow> counts_inv s \<Longrightarrow> cool_inv cfg s \<Longrightarrow> cool_inv cfg t"
proof (induction rule: proto_step.cases)
  case (tick s t)
  then show ?case by (fastforce simp: cool_inv_def)
next
  case (start nss s b t)
  then show ?case by (simp add: cool_inv_start)
next
  case (abort s xs nss ys)
  then show ?case by (simp add: cool_inv_drop)
next
  case (register s xs nss ys m uid euid deadline)
  then show ?case by (auto simp: cool_inv_def)
next
  case (record_apply s xs nss ys m)
  then show ?case by (simp add: cool_inv_record)
next
  case (finish s xs nss ys)
  then show ?case by (simp add: cool_inv_drop)
next
  case (forget s uid)
  then show ?case by (simp add: cool_inv_def)
qed

interpretation prot: invariant_system "proto_init cfg" "proto_step cfg"
  "\<lambda>s. counts_inv s \<and> cap_inv cfg s \<and> cool_inv cfg s" for cfg
proof unfold_locales
  fix s
  assume "proto_init cfg s"
  then show "counts_inv s \<and> cap_inv cfg s \<and> cool_inv cfg s"
    by (simp add: proto_init_def counts_inv_def cap_inv_def cool_inv_def inFlightIn_def spaced_def)
next
  fix s t
  assume "counts_inv s \<and> cap_inv cfg s \<and> cool_inv cfg s" "proto_step cfg s t"
  then show "counts_inv t \<and> cap_inv cfg t \<and> cool_inv cfg t"
    using counts_inv_step cap_inv_step cool_inv_step by blast
qed

section \<open>Properties of the budget\<close>

text \<open>A two-fault run for the witnesses: one apply up to its lease.\<close>

definition capped_config :: config where
  "capped_config = DefaultConfig\<lparr>cfg_MaxConcurrentFaults := 1, cfg_MinCooldown := 30\<rparr>"

definition proto_empty :: proto where
  "proto_empty = \<lparr>pr_now = 100, pr_budget = \<lparr>b_registry = NewRegistry ''h'', b_lastApplyByNS = [], b_inFlight = 0, b_inFlightNS = []\<rparr>,
     pr_pending = [], pr_log = (\<lambda>_. [])\<rparr>"

lemma proto_empty_init: "proto_init capped_config proto_empty"
  by (simp add: proto_init_def proto_empty_def NewRegistry_def lease_count_def capped_config_def DefaultConfig_def)

lemma one_leased:
  "\<exists>t. (proto_step capped_config)\<^sup>*\<^sup>* proto_empty t \<and> lease_count (b_registry (pr_budget t)) = 1
     \<and> pr_log t ''shop'' = [100]"
proof -
  have tn: "TargetNamespaces bare_manifest = [''shop'']" by code_simp
  define s1 where "s1 = proto_empty\<lparr>pr_budget := book [''shop''] (pr_budget proto_empty), pr_pending := [([''shop''], Reserved)]\<rparr>"
  define s2 where "s2 = s1\<lparr>pr_budget := (pr_budget s1)\<lparr>b_registry :=
      snd (Register (pr_now s1) ''u'' ''e'' bare_manifest 200 (b_registry (pr_budget s1)))\<rparr>, pr_pending := [([''shop''], Registered)]\<rparr>"
  define s3 where "s3 = s2\<lparr>pr_budget := recordApply (pr_now s2) bare_manifest (pr_budget s2), pr_pending := [([''shop''], Recorded)],
     pr_log := (\<lambda>ns. if ns \<in> set [''shop''] then pr_now s2 # pr_log s2 ns else pr_log s2 ns)\<rparr>"
  have st1: "proto_step capped_config proto_empty s1"
    using proto_step.start [of capped_config "[''shop'']" proto_empty "book [''shop''] (pr_budget proto_empty)" 100]
    by (simp add: reserve_def over_cap_def capped_config_def DefaultConfig_def proto_empty_def NewRegistry_def lease_count_def
        inFlightIn_def s1_def)
  have "pr_pending s1 = [] @ ([''shop''], Reserved) # []" by (simp add: s1_def)
  from proto_step.register [OF this tn] have st2: "proto_step capped_config s1 s2" by (simp add: s2_def)
  have "pr_pending s2 = [] @ ([''shop''], Registered) # []" by (simp add: s2_def)
  from proto_step.record_apply [OF this tn] have st3: "proto_step capped_config s2 s3" by (simp add: s3_def)
  have "(proto_step capped_config)\<^sup>*\<^sup>* proto_empty s3"
    by (rule converse_rtranclp_into_rtranclp, rule st1, rule converse_rtranclp_into_rtranclp, rule st2, rule r_into_rtranclp, rule st3)
  moreover have "lease_count (b_registry (pr_budget s3)) = 1" "pr_log s3 ''shop'' = [100]"
    by (simp_all add: s3_def s2_def s1_def proto_empty_def NewRegistry_def Register_def Let_def put_lease_def lease_count_def)
  ultimately show ?thesis by blast
qed

text \<open>
  C3.  The concurrency cap holds under every interleaving of applies, aborts,
  clears and expiries: the leases and the applies that hold a slot without a
  lease never exceed it together, and the in-flight counters count exactly the
  applies under way.
\<close>

theorem concurrency_cap:
  assumes "proto_init cfg s" "(proto_step cfg)\<^sup>*\<^sup>* s t" "cfg_MaxConcurrentFaults cfg > 0"
  shows "int (lease_count (b_registry (pr_budget t))) + int (in_phase Reserved (pr_pending t)) \<le> cfg_MaxConcurrentFaults cfg
    \<and> b_inFlight (pr_budget t) = int (length (pr_pending t))
    \<and> (\<forall>ns. inFlightIn (pr_budget t) ns = int (pending_in ns (pr_pending t)))"
  using prot.reachable_inv [OF assms(1,2)] assms(3) by (simp add: cap_inv_def counts_inv_def)

theorem concurrency_cap_witness:
  "\<exists>t. (proto_step capped_config)\<^sup>*\<^sup>* proto_empty t \<and> lease_count (b_registry (pr_budget t)) = 1
     \<and> in_phase Reserved (pr_pending t) = 0"
proof -
  obtain t where t: "(proto_step capped_config)\<^sup>*\<^sup>* proto_empty t" "lease_count (b_registry (pr_budget t)) = 1"
    using one_leased by blast
  have "cfg_MaxConcurrentFaults capped_config = 1" by (simp add: capped_config_def)
  with concurrency_cap [OF proto_empty_init t(1)] t show ?thesis by auto
qed

text \<open>
  C4.  The cooldown holds under every interleaving: at most one apply is under
  way per namespace, and the faults recorded in a namespace are at least the
  cooldown apart.
\<close>

theorem cooldown_spacing:
  assumes "proto_init cfg s" "(proto_step cfg)\<^sup>*\<^sup>* s t" "cfg_MinCooldown cfg > 0"
  shows "pending_in ns (pr_pending t) \<le> 1
    \<and> (\<forall>i. Suc i < length (pr_log t ns) \<longrightarrow> pr_log t ns ! Suc i + cfg_MinCooldown cfg \<le> pr_log t ns ! i)"
proof -
  have c: "cool_inv cfg t" using prot.reachable_inv [OF assms(1,2)] by blast
  with assms(3) have p: "pending_in ns (pr_pending t) \<le> 1" and sp: "spaced (cfg_MinCooldown cfg) (pr_log t ns)"
    by (simp_all add: cool_inv_def)
  have "pr_log t ns ! Suc i + cfg_MinCooldown cfg \<le> pr_log t ns ! i" if "Suc i < length (pr_log t ns)" for i
    using sp that unfolding spaced_def successively_conv_nth by blast
  with p show ?thesis by blast
qed

theorem cooldown_spacing_witness:
  "\<exists>t. (proto_step capped_config)\<^sup>*\<^sup>* proto_empty t \<and> pr_log t ''shop'' = [100] \<and> pending_in ''shop'' (pr_pending t) \<le> 1"
proof -
  obtain t where t: "(proto_step capped_config)\<^sup>*\<^sup>* proto_empty t" "pr_log t ''shop'' = [100]"
    using one_leased by blast
  have "cfg_MinCooldown capped_config > 0" by (simp add: capped_config_def)
  from cooldown_spacing [OF proto_empty_init t(1) this] t show ?thesis by auto
qed

lemma parse_tiers_ok:
  "parse_tiers names out = Inr m \<Longrightarrow>
     (\<forall>n \<in> set names. trim_space n \<in> set AllTiers)
     \<and> (\<forall>t. map_of m t = (if t \<in> trim_space ` set names then Some True else map_of out t))"
proof (induction names arbitrary: out)
  case (Cons n ns)
  then show ?case
    by (auto simp: ParseBlastRadiusTier_def Let_def split: sum.splits if_splits)
qed simp

lemma parse_tiers_err: "(\<exists>e. parse_tiers names out = Inl e) \<longleftrightarrow> (\<exists>n \<in> set names. trim_space n \<notin> set AllTiers)"
  by (induction names arbitrary: out) (auto simp: ParseBlastRadiusTier_def Let_def split: sum.splits if_splits)

text \<open>
  The permitted-tier flag: no names leaves the default policy alone; a
  name that is no tier is an error; otherwise the policy permits exactly the
  tiers named, however they are padded or repeated.
\<close>

theorem ParsePermittedTiers_spec:
  "case ParsePermittedTiers names of
     Inl _ \<Rightarrow> \<exists>n \<in> set names. trim_space n \<notin> set AllTiers
   | Inr None \<Rightarrow> names = []
   | Inr (Some m) \<Rightarrow> names \<noteq> []
       \<and> (\<forall>tier. tier_permitted (cfg\<lparr>cfg_PermittedTiers := m\<rparr>) tier \<longleftrightarrow> tier \<in> trim_space ` set names)
       \<and> trim_space ` set names \<subseteq> set AllTiers"
  using parse_tiers_err [of names "[]"] parse_tiers_ok [of names "[]"]
  by (auto simp: ParsePermittedTiers_def tier_permitted_def split: sum.split)

end
