(* ===== verification/Fault_History.thy ===== *)
theory Fault_History
  imports Simian_Types
begin

text \<open>
  The bounded in-memory history of \<^verbatim>\<open>src/pkg/executor/history.go\<close>: a ring of
  recently applied faults with an index from fault UID to position, and a ring
  of recently refused ones.  The index operations are modelled with the
  position arithmetic of the code, and an out-of-range access (a Go panic) is
  \<^const>\<open>None\<close>; the index invariant shows it never happens.
\<close>

section \<open>Data\<close>

definition DefaultHistoryCapacity :: int where "DefaultHistoryCapacity = 100"

record recent_fault =
  rf_FaultUID :: string
  rf_Manifest :: fault_manifest
  rf_AppliedAt :: gotime
  rf_ClearedAt :: gotime
  rf_ClearReason :: string

record refused_fault =
  rx_FaultUID :: string
  rx_Manifest :: fault_manifest
  rx_RefusedAt :: gotime
  rx_Stage :: string
  rx_Reason :: string
  rx_Error :: string

record history =
  h_capacity :: int
  h_items :: "recent_fault list"
  h_byUID :: "int gomap"
  h_refused :: "refused_fault list"

text \<open>The executor's errors are always \<^verbatim>\<open>*ExecutorError\<close>; \<^const>\<open>None\<close> is a nil error.\<close>

definition RefusalWorthRemembering :: "exec_error option \<Rightarrow> bool" where
  "RefusalWorthRemembering err =
     (case err of None \<Rightarrow> False | Some ee \<Rightarrow> ee_Reason ee \<noteq> ReasonBudgetExceeded)"


section \<open>Operations\<close>

definition NewHistory :: "int \<Rightarrow> history" where
  "NewHistory capacity =
     \<lparr>h_capacity = (if capacity \<le> 0 then DefaultHistoryCapacity else capacity),
      h_items = [], h_byUID = [], h_refused = []\<rparr>"

text \<open>Appending to a ring, the eviction step of \<^verbatim>\<open>Push\<close> and \<^verbatim>\<open>PushRefused\<close>.\<close>

definition ring_push :: "nat \<Rightarrow> 'a \<Rightarrow> 'a list \<Rightarrow> 'a list" where
  "ring_push cap x xs = (if length xs \<ge> cap then drop 1 xs else xs) @ [x]"

definition PushRefused :: "refused_fault \<Rightarrow> history \<Rightarrow> history" where
  "PushRefused rf h = h\<lparr>h_refused := ring_push (nat (h_capacity h)) rf (h_refused h)\<rparr>"

text \<open>The loops of \<^verbatim>\<open>ListRefused\<close> and \<^verbatim>\<open>List\<close>, over the ring from its newest entry:
  \<open>n\<close> entries are already collected, and a positive limit stops the loop.\<close>

fun collect_newest :: "('a \<Rightarrow> bool) \<Rightarrow> int \<Rightarrow> int \<Rightarrow> 'a list \<Rightarrow> 'a list" where
  "collect_newest p limit n [] = []"
| "collect_newest p limit n (x # xs) =
     (if \<not> p x then collect_newest p limit n xs
      else if limit > 0 \<and> n + 1 \<ge> limit then [x]
      else x # collect_newest p limit (n + 1) xs)"

definition ListRefused :: "string \<Rightarrow> int \<Rightarrow> history \<Rightarrow> refused_fault list" where
  "ListRefused ns limit h =
     collect_newest (\<lambda>rf. TargetsNamespace (rx_Manifest rf) ns) limit 0 (rev (h_refused h))"

text \<open>Evicting the oldest entry drops its index and shifts the others by one.\<close>

definition evict_oldest :: "history \<Rightarrow> history" where
  "evict_oldest h =
     (case h_items h of
        [] \<Rightarrow> h
      | ev # rest \<Rightarrow>
          h\<lparr>h_items := rest,
            h_byUID := map (\<lambda>p. (fst p, snd p - 1)) (AList.delete (rf_FaultUID ev) (h_byUID h))\<rparr>)"

definition Push :: "recent_fault \<Rightarrow> history \<Rightarrow> history" where
  "Push rf h =
     (if rf_FaultUID rf = '''' then h
      else let h1 = (if int (length (h_items h)) \<ge> h_capacity h then evict_oldest h else h);
               items = h_items h1 @ [rf]
           in h1\<lparr>h_items := items,
                 h_byUID := AList.update (rf_FaultUID rf) (int (length items) - 1) (h_byUID h1)\<rparr>)"

definition Has :: "string \<Rightarrow> history \<Rightarrow> bool" where
  "Has faultUID h \<longleftrightarrow> map_of (h_byUID h) faultUID \<noteq> None"

definition UpdateCleared :: "string \<Rightarrow> gotime \<Rightarrow> string \<Rightarrow> history \<Rightarrow> history option" where
  "UpdateCleared faultUID t reason h =
     (case map_of (h_byUID h) faultUID of
        None \<Rightarrow> Some h
      | Some idx \<Rightarrow>
          if 0 \<le> idx \<and> idx < int (length (h_items h))
          then Some (h\<lparr>h_items := (h_items h)[nat idx :=
                 (h_items h ! nat idx)\<lparr>rf_ClearedAt := t, rf_ClearReason := reason\<rparr>]\<rparr>)
          else None)"

definition List_recent :: "string \<Rightarrow> int \<Rightarrow> history \<Rightarrow> recent_fault list" where
  "List_recent ns limit h =
     sort_key (\<lambda>rf. - rf_AppliedAt rf)
       (collect_newest (\<lambda>rf. TargetsNamespace (rf_Manifest rf) ns) limit 0 (rev (h_items h)))"


section \<open>The refused ring\<close>

interpretation ring: bounded_log ring_push
  by unfold_locales (simp add: ring_push_def)

text \<open>The loop with its counter collects the first matches, all of them without a limit.\<close>

lemma collect_newest_limit:
  "0 \<le> n \<Longrightarrow> n < limit \<Longrightarrow> collect_newest p limit n xs = take (nat (limit - n)) (filter p xs)"
proof (induction p limit n xs rule: collect_newest.induct)
  case (2 p limit n x xs)
  show ?case
  proof (cases "p x \<and> n + 1 < limit")
    case True
    then have "nat (limit - n) = Suc (nat (limit - (n + 1)))" by linarith
    with 2 True show ?thesis by simp
  next
    case False
    with 2 show ?thesis by (cases "p x") (auto simp: take_Cons')
  qed
qed simp

lemma collect_newest_all: "limit \<le> 0 \<Longrightarrow> collect_newest p limit n xs = filter p xs"
  by (induction p limit n xs rule: collect_newest.induct) auto

lemma collect_newest_eq:
  "collect_newest p limit 0 xs = (if limit \<le> 0 then filter p xs else take (nat limit) (filter p xs))"
  by (simp add: collect_newest_all collect_newest_limit)

text \<open>After any sequence of refusals, the ring holds the newest of them.\<close>

lemma refused_after_pushes:
  assumes "0 < h_capacity h" "int (length (h_refused h)) \<le> h_capacity h"
  shows "h_refused (fold PushRefused rs h) =
           drop (length (h_refused h) + length rs - nat (h_capacity h)) (h_refused h @ rs)"
proof -
  have "h_refused (fold PushRefused rs h) = fold (ring_push (nat (h_capacity h))) rs (h_refused h)
      \<and> h_capacity (fold PushRefused rs h) = h_capacity h" for h
    by (induction rs arbitrary: h) (simp_all add: PushRefused_def)
  with ring.fold_push_suffix [of "nat (h_capacity h)" "h_refused h" rs] assms show ?thesis
    by simp
qed


section \<open>The index of the recent ring\<close>

text \<open>
  Every index entry points at an item with that UID.  \<open>history_exact\<close> adds the
  converse, which needs the UIDs in the ring to be distinct.
\<close>

definition history_inv :: "history \<Rightarrow> bool" where
  "history_inv h \<longleftrightarrow>
     0 < h_capacity h \<and> int (length (h_items h)) \<le> h_capacity h
     \<and> int (length (h_refused h)) \<le> h_capacity h
     \<and> (\<forall>uid i. map_of (h_byUID h) uid = Some i \<longrightarrow>
           0 \<le> i \<and> i < int (length (h_items h)) \<and> rf_FaultUID (h_items h ! nat i) = uid)"

definition history_exact :: "history \<Rightarrow> bool" where
  "history_exact h \<longleftrightarrow>
     history_inv h \<and> distinct (map rf_FaultUID (h_items h))
     \<and> (\<forall>i < length (h_items h). map_of (h_byUID h) (rf_FaultUID (h_items h ! i)) = Some (int i))"

lemma history_inv_New: "history_inv (NewHistory c)"
  by (simp add: history_inv_def NewHistory_def DefaultHistoryCapacity_def)

lemma history_exact_New: "history_exact (NewHistory c)"
  by (simp add: history_exact_def history_inv_New) (simp add: NewHistory_def)

lemma history_inv_PushRefused: "history_inv h \<Longrightarrow> history_inv (PushRefused rf h)"
  using ring.length_push [of "nat (h_capacity h)" "h_refused h" rf]
  by (simp add: history_inv_def PushRefused_def) linarith

lemma map_of_shift:
  "map_of (map (\<lambda>p. (fst p, snd p - (1::int))) m) k = map_option (\<lambda>i. i - 1) (map_of m k)"
  by (induction m) auto

lemma evict_oldest_inv:
  assumes "history_inv h"
  shows "history_inv (evict_oldest h)"
proof (cases "h_items h")
  case Nil
  with assms show ?thesis by (simp add: evict_oldest_def)
next
  case (Cons ev rest)
  have "0 \<le> i \<and> i < int (length rest) \<and> rf_FaultUID (rest ! nat i) = uid"
    if "map_of (h_byUID (evict_oldest h)) uid = Some i" for uid i
  proof -
    from that Cons have ne: "uid \<noteq> rf_FaultUID ev" and j: "map_of (h_byUID h) uid = Some (i + 1)"
      by (auto simp: evict_oldest_def map_of_shift split: if_splits)
    from j assms have r: "0 \<le> i + 1" "i + 1 < int (length (h_items h))"
      and u: "rf_FaultUID (h_items h ! nat (i + 1)) = uid"
      by (auto simp: history_inv_def)
    have "i + 1 \<noteq> 0" using u ne Cons by force
    with r have "nat (i + 1) = Suc (nat i)" "0 \<le> i" by auto
    with r u Cons show ?thesis by simp
  qed
  with assms Cons show ?thesis by (simp add: history_inv_def evict_oldest_def)
qed

lemma length_evict: "h_items h \<noteq> [] \<Longrightarrow> Suc (length (h_items (evict_oldest h))) = length (h_items h)"
  by (cases "h_items h") (simp_all add: evict_oldest_def)

lemma capacity_evict [simp]: "h_capacity (evict_oldest h) = h_capacity h"
  by (simp add: evict_oldest_def split: list.split)

lemma append_inv:
  assumes "history_inv h" "int (length (h_items h)) < h_capacity h"
  shows "history_inv (h\<lparr>h_items := h_items h @ [rf],
           h_byUID := AList.update (rf_FaultUID rf) (int (length (h_items h))) (h_byUID h)\<rparr>)"
proof -
  have "0 \<le> i \<and> i < int (Suc (length (h_items h))) \<and> rf_FaultUID ((h_items h @ [rf]) ! nat i) = uid"
    if "((map_of (h_byUID h))(rf_FaultUID rf \<mapsto> int (length (h_items h)))) uid = Some i" for uid i
  proof (cases "uid = rf_FaultUID rf")
    case True
    with that show ?thesis by auto
  next
    case False
    with that assms show ?thesis by (fastforce simp: history_inv_def nth_append)
  qed
  with assms show ?thesis by (simp add: history_inv_def)
qed

definition make_room :: "history \<Rightarrow> history" where
  "make_room h = (if int (length (h_items h)) \<ge> h_capacity h then evict_oldest h else h)"

lemma Push_append:
  "rf_FaultUID rf \<noteq> '''' \<Longrightarrow>
     Push rf h = (make_room h)\<lparr>h_items := h_items (make_room h) @ [rf],
       h_byUID := AList.update (rf_FaultUID rf) (int (length (h_items (make_room h)))) (h_byUID (make_room h))\<rparr>"
  by (simp add: Push_def make_room_def Let_def)

lemma make_room_inv:
  assumes "history_inv h"
  shows "history_inv (make_room h) \<and> int (length (h_items (make_room h))) < h_capacity (make_room h)"
proof (cases "int (length (h_items h)) \<ge> h_capacity h")
  case True
  with assms have "h_items h \<noteq> []" by (auto simp: history_inv_def)
  with True assms length_evict [of h] evict_oldest_inv [OF assms] show ?thesis
    by (auto simp: make_room_def history_inv_def)
next
  case False
  with assms show ?thesis by (simp add: make_room_def)
qed

lemma history_inv_Push: "history_inv h \<Longrightarrow> history_inv (Push rf h)"
  using make_room_inv [of h] append_inv [of "make_room h" rf]
  by (cases "rf_FaultUID rf = ''''") (simp_all add: Push_append, simp add: Push_def)

lemma UpdateCleared_total:
  assumes "history_inv h"
  obtains h' where "UpdateCleared uid t reason h = Some h'"
  using assms by (force simp: UpdateCleared_def history_inv_def split: option.split)

text \<open>Clearing an entry keeps every UID in its place.\<close>

lemma uid_mark_cleared:
  "rf_FaultUID (xs[i := (xs ! i)\<lparr>rf_ClearedAt := t, rf_ClearReason := reason\<rparr>] ! j) = rf_FaultUID (xs ! j)"
  by (cases "i < length xs") (auto simp: nth_list_update list_update_beyond)

lemma UpdateCleared_shape:
  assumes "UpdateCleared uid t reason h = Some h'"
  shows "h_byUID h' = h_byUID h" "h_capacity h' = h_capacity h" "h_refused h' = h_refused h"
    "length (h_items h') = length (h_items h)"
    "\<And>j. rf_FaultUID (h_items h' ! j) = rf_FaultUID (h_items h ! j)"
  using assms uid_mark_cleared by (auto simp: UpdateCleared_def split: option.splits if_splits)

lemma history_inv_UpdateCleared:
  "history_inv h \<Longrightarrow> UpdateCleared uid t reason h = Some h' \<Longrightarrow> history_inv h'"
  by (simp add: history_inv_def UpdateCleared_shape)

lemmas history_inv_ops =
  history_inv_New history_inv_PushRefused history_inv_Push history_inv_UpdateCleared

text \<open>With distinct UIDs the index is exact, and stays so as long as no UID already
  in the ring is pushed again.\<close>

lemma evict_oldest_exact:
  assumes "history_exact h"
  shows "history_exact (evict_oldest h)"
proof (cases "h_items h")
  case Nil
  with assms show ?thesis by (simp add: evict_oldest_def)
next
  case (Cons ev rest)
  have "map_of (h_byUID (evict_oldest h)) (rf_FaultUID (rest ! i)) = Some (int i)" if "i < length rest" for i
  proof -
    have ix: "map_of (h_byUID h) (rf_FaultUID (h_items h ! Suc i)) = Some (int (Suc i))"
      using assms that Cons unfolding history_exact_def by (metis Suc_less_eq length_Cons)
    have "rf_FaultUID (rest ! i) \<noteq> rf_FaultUID ev"
      using assms Cons that by (auto simp: history_exact_def) (metis image_eqI nth_mem)
    with ix Cons show ?thesis
      by (simp add: evict_oldest_def map_of_shift)
  qed
  with assms Cons evict_oldest_inv [of h] show ?thesis
    by (simp add: history_exact_def) (simp add: evict_oldest_def)
qed

lemma set_make_room: "set (h_items (make_room h)) \<subseteq> set (h_items h)"
  by (auto simp: make_room_def evict_oldest_def split: list.splits)

lemma history_exact_Push:
  assumes "history_exact h" "rf_FaultUID rf \<notin> rf_FaultUID ` set (h_items h)"
  shows "history_exact (Push rf h)"
proof (cases "rf_FaultUID rf = ''''")
  case True
  with assms show ?thesis by (simp add: Push_def)
next
  case False
  have ex: "history_exact (make_room h)"
    using assms evict_oldest_exact by (simp add: make_room_def)
  have fresh: "rf_FaultUID rf \<notin> rf_FaultUID ` set (h_items (make_room h))"
    using assms(2) set_make_room by blast
  then have neq: "rf_FaultUID (h_items (make_room h) ! i) \<noteq> rf_FaultUID rf"
    if "i < length (h_items (make_room h))" for i
    using that by (metis image_eqI nth_mem)
  have "history_inv (Push rf h)"
    using assms by (simp add: history_exact_def history_inv_Push)
  then show ?thesis
    using ex fresh neq False
    by (auto simp: history_exact_def Push_append nth_append less_Suc_eq)
qed

lemma history_exact_UpdateCleared:
  assumes "history_exact h" "UpdateCleared uid t reason h = Some h'"
  shows "history_exact h'"
proof -
  note shape = UpdateCleared_shape [OF assms(2)]
  have "map rf_FaultUID (h_items h') = map rf_FaultUID (h_items h)"
    by (simp add: list_eq_iff_nth_eq shape)
  moreover have "history_inv h'"
    using assms history_inv_UpdateCleared [of h] by (simp add: history_exact_def)
  ultimately show ?thesis
    using assms(1) by (simp add: history_exact_def shape)
qed

lemma Has_iff: "history_exact h \<Longrightarrow> Has uid h \<longleftrightarrow> uid \<in> rf_FaultUID ` set (h_items h)"
proof
  assume "history_exact h" "Has uid h"
  then show "uid \<in> rf_FaultUID ` set (h_items h)"
    by (fastforce simp: Has_def history_exact_def history_inv_def)
next
  assume "history_exact h" "uid \<in> rf_FaultUID ` set (h_items h)"
  then show "Has uid h"
    by (auto simp: Has_def history_exact_def in_set_conv_nth)
qed

text \<open>\<^verbatim>\<open>UpdateCleared\<close> on an exact history touches the one entry it names.\<close>

lemma UpdateCleared_items:
  assumes "history_exact h" "UpdateCleared uid t reason h = Some h'"
  shows "h_items h' = map (\<lambda>rf. if rf_FaultUID rf = uid
                                then rf\<lparr>rf_ClearedAt := t, rf_ClearReason := reason\<rparr> else rf) (h_items h)"
proof (cases "map_of (h_byUID h) uid")
  case None
  have "rf_FaultUID rf \<noteq> uid" if "rf \<in> set (h_items h)" for rf
    using that assms(1) None Has_iff [of h uid] by (auto simp: Has_def)
  then show ?thesis using assms(2) None by (simp add: UpdateCleared_def map_idI)
next
  case (Some idx)
  from assms(1) Some have i: "0 \<le> idx" "idx < int (length (h_items h))"
    and u: "rf_FaultUID (h_items h ! nat idx) = uid" and d: "distinct (map rf_FaultUID (h_items h))"
    by (auto simp: history_exact_def history_inv_def)
  have one: "rf_FaultUID (h_items h ! j) = uid \<longleftrightarrow> j = nat idx" if "j < length (h_items h)" for j
    using d u i that nth_eq_iff_index_eq [OF d, of j "nat idx"] by (auto simp: nat_less_iff)
  from i Some assms(2) have "h_items h' = (h_items h)[nat idx :=
       (h_items h ! nat idx)\<lparr>rf_ClearedAt := t, rf_ClearReason := reason\<rparr>]"
    by (auto simp: UpdateCleared_def)
  then show ?thesis
    by (intro nth_equalityI) (simp_all add: nth_list_update one)
qed

section \<open>Properties of the history\<close>

text \<open>The histories a process can hold.\<close>

inductive history_reach :: "history \<Rightarrow> bool" where
  reach_new: "history_reach (NewHistory c)"
| reach_push: "history_reach h \<Longrightarrow> history_reach (Push rf h)"
| reach_refused: "history_reach h \<Longrightarrow> history_reach (PushRefused rx h)"
| reach_cleared: "history_reach h \<Longrightarrow> UpdateCleared uid t reason h = Some h' \<Longrightarrow> history_reach h'"

lemma history_reach_inv: "history_reach h \<Longrightarrow> history_inv h"
  by (induction rule: history_reach.induct) (auto intro: history_inv_ops)

lemma items_make_room:
  "0 < h_capacity h \<Longrightarrow>
     h_items (make_room h) = (if length (h_items h) \<ge> nat (h_capacity h) then drop 1 (h_items h) else h_items h)"
  by (cases "h_items h") (auto simp: make_room_def evict_oldest_def)

lemma capacity_make_room [simp]: "h_capacity (make_room h) = h_capacity h"
  by (simp add: make_room_def)

lemma items_Push:
  "0 < h_capacity h \<Longrightarrow> rf_FaultUID rf \<noteq> '''' \<Longrightarrow>
     h_items (Push rf h) = ring_push (nat (h_capacity h)) rf (h_items h) \<and> h_capacity (Push rf h) = h_capacity h"
  by (simp add: Push_append items_make_room ring_push_def)

lemma items_after_pushes:
  assumes "0 < h_capacity h" "int (length (h_items h)) \<le> h_capacity h" "'''' \<notin> rf_FaultUID ` set rfs"
  shows "h_items (fold Push rfs h) = drop (length (h_items h) + length rfs - nat (h_capacity h)) (h_items h @ rfs)"
proof -
  have "h_items (fold Push rfs h) = fold (ring_push (nat (h_capacity h))) rfs (h_items h)"
    using assms(1,3)
  proof (induction rfs arbitrary: h)
    case (Cons rf rfs)
    then have "rf_FaultUID rf \<noteq> ''''" by auto
    with Cons items_Push [of h rf] show ?case by simp
  qed simp
  with ring.fold_push_suffix [of "nat (h_capacity h)" "h_items h" rfs] assms show ?thesis by simp
qed

lemma uids_Push:
  "rf_FaultUID ` set (h_items (Push rf h)) \<subseteq> insert (rf_FaultUID rf) (rf_FaultUID ` set (h_items h))"
proof (cases "rf_FaultUID rf = ''''")
  case True
  then show ?thesis by (simp add: Push_def subset_insertI)
next
  case False
  with image_mono [OF set_make_room [of h], of rf_FaultUID] show ?thesis by (simp add: Push_append subset_insertI2)
qed

lemma exact_after_pushes:
  "history_exact h \<Longrightarrow> distinct (map rf_FaultUID rfs) \<Longrightarrow>
     rf_FaultUID ` set rfs \<inter> rf_FaultUID ` set (h_items h) = {} \<Longrightarrow> history_exact (fold Push rfs h)"
proof (induction rfs arbitrary: h)
  case Nil
  then show ?case by simp
next
  case (Cons rf rfs)
  have fresh: "rf_FaultUID rf \<notin> rf_FaultUID ` set (h_items h)"
    and d: "rf_FaultUID rf \<notin> rf_FaultUID ` set rfs" "distinct (map rf_FaultUID rfs)"
    and dj: "rf_FaultUID ` set rfs \<inter> rf_FaultUID ` set (h_items h) = {}"
    using Cons.prems(2,3) by (simp_all add: Int_insert_left split: if_splits)
  have "rf_FaultUID ` set rfs \<inter> rf_FaultUID ` set (h_items (Push rf h)) = {}"
  proof (rule subset_antisym)
    have "rf_FaultUID ` set rfs \<inter> rf_FaultUID ` set (h_items (Push rf h)) \<subseteq>
        rf_FaultUID ` set rfs \<inter> insert (rf_FaultUID rf) (rf_FaultUID ` set (h_items h))"
      by (rule Int_mono [OF subset_refl uids_Push])
    also have "\<dots> = {}" using d(1) dj by simp
    finally show "rf_FaultUID ` set rfs \<inter> rf_FaultUID ` set (h_items (Push rf h)) \<subseteq> {}" .
  qed simp
  from Cons.IH [OF history_exact_Push [OF Cons.prems(1) fresh] d(2) this] show ?case by simp
qed

text \<open>
  The index never points outside the ring: in every history a process can
  hold, however often it was pushed to, stamping a fault cleared returns.
\<close>

theorem UpdateCleared_never_panics:
  assumes "history_reach h"
  shows "\<exists>h'. UpdateCleared uid t reason h = Some h'"
  using UpdateCleared_total [OF history_reach_inv [OF assms]] by blast

definition sample_recent :: "string \<Rightarrow> gotime \<Rightarrow> recent_fault" where
  "sample_recent u t = \<lparr>rf_FaultUID = u, rf_Manifest =
     \<lparr>m_UID = u, m_Source = '''', m_Engine = '''', m_APIVersion = '''', m_ResourceKind = '''', m_Spec = None, m_Targets = [],
      m_Duration = 1, m_BlastRadiusTier = '''', m_Probes = [], m_Rationale = '''', m_PlanID = '''', m_Annotations = []\<rparr>,
     rf_AppliedAt = t, rf_ClearedAt = 0, rf_ClearReason = ''''\<rparr>"

theorem UpdateCleared_never_panics_witness:
  "\<exists>h'. UpdateCleared ''b'' 9 ''r'' (fold Push [sample_recent ''a'' 1, sample_recent ''b'' 2, sample_recent ''c'' 3] (NewHistory 2)) = Some h'"
  by (rule UpdateCleared_never_panics) (simp add: history_reach.intros)

text \<open>
  C36.  After faults with distinct non-empty UIDs are pushed, the ring holds the
  newest of them in order, up to its capacity; a UID is found exactly when its
  fault is still held, and stamping it changes that entry and no other.
\<close>

theorem history_holds_newest:
  fixes c :: int
  assumes "distinct (map rf_FaultUID rfs)" "'''' \<notin> rf_FaultUID ` set rfs"
  defines "h \<equiv> fold Push rfs (NewHistory c)"
  shows "h_items h = drop (length rfs - nat (if c \<le> 0 then DefaultHistoryCapacity else c)) rfs
    \<and> (Has uid h \<longleftrightarrow> uid \<in> rf_FaultUID ` set (h_items h))
    \<and> (\<exists>h'. UpdateCleared uid t reason h = Some h'
          \<and> h_items h' = map (\<lambda>rf. if rf_FaultUID rf = uid then rf\<lparr>rf_ClearedAt := t, rf_ClearReason := reason\<rparr> else rf) (h_items h))"
proof (intro conjI)
  have new: "h_items (NewHistory c) = []" "h_capacity (NewHistory c) = (if c \<le> 0 then DefaultHistoryCapacity else c)"
    by (simp_all add: NewHistory_def)
  show "h_items h = drop (length rfs - nat (if c \<le> 0 then DefaultHistoryCapacity else c)) rfs"
    using items_after_pushes [of "NewHistory c" rfs] assms(2) by (simp add: h_def new DefaultHistoryCapacity_def)
  have ex: "history_exact h"
    using exact_after_pushes [OF history_exact_New assms(1)] by (simp add: h_def new)
  then show "Has uid h \<longleftrightarrow> uid \<in> rf_FaultUID ` set (h_items h)" by (rule Has_iff)
  from ex have "history_inv h" by (simp add: history_exact_def)
  then obtain h' where "UpdateCleared uid t reason h = Some h'" by (rule UpdateCleared_total)
  with UpdateCleared_items [OF ex] show "\<exists>h'. UpdateCleared uid t reason h = Some h'
          \<and> h_items h' = map (\<lambda>rf. if rf_FaultUID rf = uid then rf\<lparr>rf_ClearedAt := t, rf_ClearReason := reason\<rparr> else rf) (h_items h)"
    by blast
qed

theorem history_holds_newest_witness:
  "h_items (fold Push [sample_recent ''a'' 1, sample_recent ''b'' 2, sample_recent ''c'' 3] (NewHistory 2)) =
     [sample_recent ''b'' 2, sample_recent ''c'' 3]"
proof -
  let ?rfs = "[sample_recent ''a'' 1, sample_recent ''b'' 2, sample_recent ''c'' 3]"
  have "distinct (map rf_FaultUID ?rfs)" "'''' \<notin> rf_FaultUID ` set ?rfs"
    by (simp_all add: sample_recent_def)
  from history_holds_newest [OF this, of 2] show ?thesis by simp
qed

text \<open>
  After any sequence of refusals, listing a namespace returns the matching
  refusals among the newest ones the capacity keeps, newest first, at most
  \<open>limit\<close> of them when the limit is positive.
\<close>

theorem ListRefused_newest_first:
  "ListRefused ns limit (fold PushRefused rs (NewHistory c)) =
     (let kept = take (nat (if c \<le> 0 then DefaultHistoryCapacity else c)) (rev rs);
          matching = filter (\<lambda>rx. ns = '''' \<or> ns \<in> t_Namespace ` set (m_Targets (rx_Manifest rx))) kept
      in if limit \<le> 0 then matching else take (nat limit) matching)"
proof -
  have "h_refused (fold PushRefused rs (NewHistory c)) =
      drop (length rs - nat (if c \<le> 0 then DefaultHistoryCapacity else c)) rs"
    using refused_after_pushes [of "NewHistory c" rs] by (simp add: NewHistory_def DefaultHistoryCapacity_def)
  moreover have "TargetsNamespace m ns \<longleftrightarrow> ns = '''' \<or> ns \<in> t_Namespace ` set (m_Targets m)" for m
    by (auto simp: TargetsNamespace_def)
  moreover have "rev (drop (length rs - n) rs) = take n (rev rs)" for n
    by (cases "n \<le> length rs") (simp_all add: rev_drop)
  ultimately show ?thesis
    by (simp only: ListRefused_def collect_newest_eq Let_def)
qed

end
