(* ===== verification/Executor_Pipeline.thy ===== *)
theory Executor_Pipeline
  imports Target_Compat Probe_Core Apply_Budget Fault_History
begin

text \<open>
  The executor pipeline, \<^verbatim>\<open>src/pkg/executor/executor.go\<close>: the only path to a
  chaos driver.  A stage is a computation over the frame of one apply (the
  executor's shared state, the audit log, the cluster, the manifest being
  applied and the reservation it holds) that may end early with an executor
  error.  The collaborators (drivers, eligibility, probers, workload and pod
  lookups, the clock, the UID source) are fields of the environment.

  An apply is modelled from its start to its end; how applies interleave is
  the subject of the protocol of \<^verbatim>\<open>Apply_Budget\<close>, whose steps are the critical
  sections used here.
\<close>

section \<open>Environment and state\<close>

record 'w exec_env =
  x_cfg :: config
  x_net :: net_pkg
  x_drivers :: "'w drivers"
  x_elig :: "'w eligibility"
  x_prober :: "'w prober option"
  x_defaultProbes :: "(fault_manifest \<Rightarrow> probe_spec list) option"
  x_workloads :: "'w workload_selectors option"
  x_pods :: "'w target_pods option"
  x_now :: "'w \<Rightarrow> gotime \<times> 'w"
  x_cancelled :: "'w \<Rightarrow> bool"
  x_newUID :: "'w \<Rightarrow> string \<times> 'w"

record 'w executor =
  e_budget :: budget
  e_history :: "history option"
  e_audit :: "audit_event list"
  e_world :: 'w

text \<open>\<open>fr_held\<close> is the pending release: \<^const>\<open>None\<close> before the reservation and after the first
  call of the release function.\<close>

record 'w frame = "'w executor" +
  fr_m :: fault_manifest
  fr_held :: "string list option"

type_synonym ('w, 'a) stage = "('w frame, exec_error, 'a) em"

definition New :: "registry \<Rightarrow> history option \<Rightarrow> 'w \<Rightarrow> 'w executor" where
  "New r h w =
     \<lparr>e_budget = \<lparr>b_registry = r, b_lastApplyByNS = [], b_inFlight = 0, b_inFlightNS = []\<rparr>,
      e_history = h, e_audit = [], e_world = w\<rparr>"

definition Recent :: "'w executor \<Rightarrow> string \<Rightarrow> int \<Rightarrow> recent_fault list" where
  "Recent e ns limit = (case e_history e of None \<Rightarrow> [] | Some h \<Rightarrow> List_recent ns limit h)"

definition Refused :: "'w executor \<Rightarrow> string \<Rightarrow> int \<Rightarrow> refused_fault list" where
  "Refused e ns limit = (case e_history e of None \<Rightarrow> [] | Some h \<Rightarrow> ListRefused ns limit h)"

definition ListActive :: "'w executor \<Rightarrow> string \<Rightarrow> active_fault list" where
  "ListActive e ns = List_leases (b_registry (e_budget e)) ns"


section \<open>Primitive steps\<close>

text \<open>A check on the manifest and the cluster, run in the frame; a query of the cluster; an
  event about the current manifest.\<close>

definition liftC :: "('w, 'a) mcheck \<Rightarrow> ('w, 'a) stage" where
  "liftC c = (\<lambda>s. case c (fr_m s, e_world s) of (r, (m, w)) \<Rightarrow> (r, s\<lparr>fr_m := m, e_world := w\<rparr>))"

definition askE :: "('w \<Rightarrow> 'r \<times> 'w) \<Rightarrow> ('w, 'r) stage" where
  "askE q = (\<lambda>s. case q (e_world s) of (r, w) \<Rightarrow> (Inr r, s\<lparr>e_world := w\<rparr>))"

definition add_event :: "string \<Rightarrow> string \<Rightarrow> jobj \<Rightarrow> 'w frame \<Rightarrow> 'w frame" where
  "add_event ev reason payload s = s\<lparr>e_audit := e_audit s @ [fault_event ev (fr_m s) reason payload]\<rparr>"

definition emitE :: "string \<Rightarrow> string \<Rightarrow> jobj \<Rightarrow> ('w, unit) stage" where
  "emitE ev reason payload = modifyE (add_event ev reason payload)"

definition theM :: "('w, fault_manifest) stage" where
  "theM = getE fr_m"

text \<open>An error of a check that returns one.\<close>

definition raiseE :: "exec_error option \<Rightarrow> ('w, unit) stage" where
  "raiseE err = (case err of None \<Rightarrow> retE () | Some e \<Rightarrow> throwE e)"

definition rejected :: "exec_error \<Rightarrow> 'w frame \<Rightarrow> 'w frame" where
  "rejected e s = add_event EventExecutorRejected (ee_Reason e) [(''error'', JStr (ExecutorError_Error e))] s"

definition rejecting :: "('w, 'a) stage \<Rightarrow> ('w, 'a) stage" where
  "rejecting c = onErrorE c rejected"

definition withActor :: "req_ctx \<Rightarrow> jobj \<Rightarrow> jobj" where
  "withActor ctx p = (if ctx_Actor ctx = '''' then p else AList.update ''actor'' (JStr (ctx_Actor ctx)) p)"


section \<open>Schema and safety\<close>

definition schema_error :: "string \<Rightarrow> exec_error" where
  "schema_error msg = NewExecutorError StageSchema ReasonSchemaInvalid msg None"

definition validateSchema :: "fault_manifest \<Rightarrow> exec_error option" where
  "validateSchema m =
     (if m_Engine m = '''' then Some (schema_error ''engine is required'')
      else if m_ResourceKind m = '''' then Some (schema_error ''resource_kind is required'')
      else if m_APIVersion m = '''' then Some (schema_error ''api_version is required'')
      else if m_Targets m = [] then Some (schema_error ''manifest must declare at least one target'')
      else if m_Spec m = None then Some (schema_error ''spec is required'')
      else case CheckOutageManifest m of
             Some err \<Rightarrow> Some (schema_error err)
           | None \<Rightarrow> None)"

definition safety_err :: "string \<Rightarrow> string \<Rightarrow> goerror option \<Rightarrow> exec_error" where
  "safety_err reason msg cause = NewExecutorError StageSafety reason msg cause"

definition check_exclusion :: "'w eligibility \<Rightarrow> target_ref \<Rightarrow> ('w, unit) mcheck" where
  "check_exclusion elig t = bindE (queryE (el_ExcludedWorkloads elig (t_Namespace t))) (\<lambda>r.
     case r of
       Inl err \<Rightarrow> throwE (safety_err ReasonWorkloadExcluded ''exclusion lookup failed'' (Some err))
     | Inr excluded \<Rightarrow>
         if t_Name t \<noteq> '''' \<and> t_Name t \<in> set excluded
         then throwE (safety_err ReasonWorkloadExcluded
                (sprintf ''workload % in namespace % is excluded'' [AQ (t_Name t), AQ (t_Namespace t)]) None)
         else retE ())"

definition check_eligible :: "'w eligibility \<Rightarrow> target_ref \<Rightarrow> ('w, unit) mcheck" where
  "check_eligible elig t =
     (if t_Namespace t = '''' then throwE (safety_err ReasonNamespaceNotEligible ''target namespace is empty'' None)
      else bindE (queryE (el_IsEligible elig (t_Namespace t))) (\<lambda>r.
        case r of
          Inl err \<Rightarrow> throwE (safety_err ReasonNamespaceNotEligible ''eligibility lookup failed'' (Some err))
        | Inr ok \<Rightarrow>
            if ok then retE ()
            else throwE (safety_err ReasonNamespaceNotEligible
                   (sprintf ''namespace % is not eligible for chaos'' [AQ (t_Namespace t)]) None)))"

fun check_targets :: "'w eligibility \<Rightarrow> target_ref list \<Rightarrow> ('w, unit) mcheck" where
  "check_targets elig [] = retE ()"
| "check_targets elig (t # ts) =
     bindE (check_eligible elig t) (\<lambda>_. bindE (check_exclusion elig t) (\<lambda>_. check_targets elig ts))"

definition check_tier :: "config \<Rightarrow> net_pkg \<Rightarrow> ('w, unit) mcheck" where
  "check_tier cfg net = bindE manifestE (\<lambda>m.
     let tier = ReclassifyForSpec net m (AllCIDRs cfg) (cfg_ClusterDomains cfg)
     in bindE (modManifestE (\<lambda>m. m\<lparr>m_BlastRadiusTier := tier\<rparr>)) (\<lambda>_.
       if \<not> tier_permitted cfg tier
       then throwE (safety_err ReasonTierNotPermitted
              (sprintf ''blast tier % is not permitted by current policy'' [AQ tier]) None)
       else retE ()))"

definition validateSafety :: "config \<Rightarrow> net_pkg \<Rightarrow> 'w eligibility \<Rightarrow> ('w, string list) mcheck" where
  "validateSafety cfg net elig = bindE manifestE (\<lambda>m.
     if m_Duration m \<le> 0 then throwE (safety_err ReasonDurationOverCeiling ''duration must be positive'' None)
     else if cfg_DurationCeiling cfg > 0 \<and> m_Duration m > cfg_DurationCeiling cfg
     then throwE (safety_err ReasonDurationOverCeiling
            (sprintf ''duration % exceeds ceiling %''
               [AS (duration_string (m_Duration m)), AS (duration_string (cfg_DurationCeiling cfg))]) None)
     else bindE (check_targets elig (m_Targets m)) (\<lambda>_.
       bindE (validateSpecNamespaceScope elig) (\<lambda>narrowed.
         bindE (check_tier cfg net) (\<lambda>_. retE narrowed))))"


section \<open>Reservation\<close>

definition reserveE :: "'w exec_env \<Rightarrow> ('w, unit) stage" where
  "reserveE x = (\<lambda>s.
     let nss = TargetNamespaces (fr_m s)
     in case reserve (x_cfg x) (x_now x) nss (e_budget s) (e_world s) of
          (Inl e, w) \<Rightarrow> (Inl e, s\<lparr>e_world := w\<rparr>)
        | (Inr b, w) \<Rightarrow> (Inr (), s\<lparr>e_budget := b, e_world := w, fr_held := Some nss\<rparr>))"

text \<open>The release function: the first call gives the reservation back, later ones do
  nothing.\<close>

definition release_held :: "'w frame \<Rightarrow> 'w frame" where
  "release_held s =
     (case fr_held s of
        None \<Rightarrow> s
      | Some nss \<Rightarrow> s\<lparr>e_budget := release nss (e_budget s), fr_held := None\<rparr>)"


section \<open>Probes\<close>

record probe_stage =
  st_mode :: string
  st_event :: string
  st_stage :: string
  st_reason :: string
  st_unrunnable :: string

definition probe_why :: "probe_stage \<Rightarrow> bool \<Rightarrow> probe_result \<Rightarrow> string" where
  "probe_why st cancelled res =
     (if \<not> res_Passed res \<and> cancelled then ReasonInterrupted
      else if res_Err res \<noteq> None \<and> st_unrunnable st \<noteq> '''' then st_unrunnable st
      else st_reason st)"

definition milliseconds :: "duration \<Rightarrow> int" where
  "milliseconds d = (if d < 0 then - (- d div 1000000) else d div 1000000)"

definition probe_payload :: "probe_stage \<Rightarrow> bool \<Rightarrow> probe_result \<Rightarrow> jobj" where
  "probe_payload st cancelled res =
     [(''probe'', JStr (res_Name res)), (''type'', JStr (res_Type res)), (''mode'', JStr (st_mode st))]
     @ (if \<not> res_Passed res \<and> cancelled then [] else [(''passed'', JBool (res_Passed res))])
     @ [(''observed'', JStr (res_Observed res)), (''expected'', JStr (res_Expected res)),
        (''attempts'', JInt (res_Attempts res)), (''elapsed_ms'', JInt (milliseconds (res_Elapsed res)))]
     @ (case res_Err res of None \<Rightarrow> [] | Some e \<Rightarrow> [(''error'', JStr (err_text e))])"

fun run_probes :: "'w exec_env \<Rightarrow> 'w prober \<Rightarrow> probe_target \<Rightarrow> probe_stage \<Rightarrow> probe_spec list \<Rightarrow> ('w, unit) stage" where
  "run_probes x pb target st [] = retE ()"
| "run_probes x pb target st (p # ps) =
     bindE (askE (pb p target)) (\<lambda>res. bindE (getE (\<lambda>s. x_cancelled x (e_world s))) (\<lambda>cancelled.
       bindE (emitE (st_event st) (if res_Passed res then '''' else probe_why st cancelled res)
                (probe_payload st cancelled res)) (\<lambda>_.
         if \<not> res_Passed res
         then throwE (NewExecutorError (st_stage st) (probe_why st cancelled res) (Result_Describe res) (res_Err res))
         else run_probes x pb target st ps)))"

definition first_target :: "fault_manifest \<Rightarrow> probe_target" where
  "first_target m =
     (case m_Targets m of
        [] \<Rightarrow> \<lparr>pt_Namespace = '''', pt_Labels = []\<rparr>
      | t # _ \<Rightarrow> \<lparr>pt_Namespace = t_Namespace t, pt_Labels = t_Labels t\<rparr>)"

definition runProbes :: "'w exec_env \<Rightarrow> probe_spec list \<Rightarrow> probe_stage \<Rightarrow> ('w, unit) stage" where
  "runProbes x probes st =
     (if probes = [] then retE ()
      else case x_prober x of
             None \<Rightarrow> throwE (NewExecutorError (st_stage st) ReasonProbeNotConfigured
                (sprintf ''manifest declares % % probe(s) but the executor has no prober wired in''
                   [AD (int (length probes)), AS (st_mode st)]) None)
           | Some pb \<Rightarrow> bindE theM (\<lambda>m. run_probes x pb (first_target m) st probes))"

definition settle :: "'w exec_env \<Rightarrow> ('w, unit) stage" where
  "settle x = bindE theM (\<lambda>m. runProbes x (SettleProbes m)
     \<lparr>st_mode = ProbeModeSettle, st_event = EventFaultEfficacy, st_stage = StageProbe,
      st_reason = ReasonProbeFailed, st_unrunnable = ''''\<rparr>)"

definition precheck :: "'w exec_env \<Rightarrow> ('w, unit) stage" where
  "precheck x = bindE theM (\<lambda>m. runProbes x (SOTProbes m)
     \<lparr>st_mode = ProbeModeSOT, st_event = EventFaultPrecheck, st_stage = StagePrecheck,
      st_reason = ReasonPrecheckFailed, st_unrunnable = ReasonCannotGate\<rparr>)"

definition attachDefaultProbes :: "'w exec_env \<Rightarrow> ('w, string list) stage" where
  "attachDefaultProbes x =
     (case x_defaultProbes x of
        None \<Rightarrow> retE []
      | Some f \<Rightarrow> bindE theM (\<lambda>m.
          let defaults = f m
          in bindE (modifyE (\<lambda>s. s\<lparr>fr_m := m\<lparr>m_Probes := m_Probes m @ defaults\<rparr>\<rparr>))
               (\<lambda>_. retE (map p_Name defaults))))"


section \<open>Driver stages\<close>

fun collect_exclusions :: "'w eligibility \<Rightarrow> string list \<Rightarrow> string list gomap \<Rightarrow> ('w, string list gomap) stage" where
  "collect_exclusions elig [] byNS = retE byNS"
| "collect_exclusions elig (ns # nss) byNS =
     bindE (askE (el_ExcludedWorkloads elig ns)) (\<lambda>r.
       case r of
         Inl err \<Rightarrow> throwE (safety_err ReasonWorkloadExcluded ''exclusion lookup failed'' (Some err))
       | Inr excluded \<Rightarrow> collect_exclusions elig nss (AList.update ns excluded byNS))"

definition withExclusions :: "'w exec_env \<Rightarrow> req_ctx \<Rightarrow> ('w, req_ctx) stage" where
  "withExclusions x ctx = bindE theM (\<lambda>m.
     bindE (collect_exclusions (x_elig x) (TargetNamespaces m) []) (\<lambda>byNS. retE (WithExcludedWorkloads ctx byNS)))"

definition checkDriverTargets :: "'w chaos_driver \<Rightarrow> req_ctx \<Rightarrow> ('w, unit) stage" where
  "checkDriverTargets d ctx =
     (case d_CheckTargets d of
        None \<Rightarrow> retE ()
      | Some f \<Rightarrow> bindE theM (\<lambda>m. bindE (askE (f ctx m)) (\<lambda>r.
          case r of
            Some err \<Rightarrow>
              if is_target_incompatible err
              then throwE (NewExecutorError StagePrecheck ReasonTargetIncompatible
                     (trim_prefix (err_text err) (err_text ErrTargetIncompatible @ '': '')) None)
              else retE ()
          | None \<Rightarrow> retE ())))"

definition compatE :: "'w exec_env \<Rightarrow> ('w, unit) stage" where
  "compatE x = bindE theM (\<lambda>m. bindE (askE (checkTargetCompat (x_pods x) m)) raiseE)"

text \<open>\<^verbatim>\<open>confirmInjected\<close>; the elapsed time is the difference of two clock readings.\<close>

definition confirm_payload :: "bool \<Rightarrow> string \<Rightarrow> goerror option \<Rightarrow> duration \<Rightarrow> jobj" where
  "confirm_payload interrupted observed err elapsed =
     (if interrupted then [] else [(''passed'', JBool (err = None))])
     @ [(''observed'', JStr observed), (''elapsed_ms'', JInt (milliseconds elapsed))]
     @ (case err of None \<Rightarrow> [] | Some e \<Rightarrow> [(''error'', JStr (err_text e))])"

definition confirmInjected :: "'w exec_env \<Rightarrow> 'w chaos_driver \<Rightarrow> string \<Rightarrow> ('w, unit) stage" where
  "confirmInjected x d engineUID =
     (case d_Confirm d of
        None \<Rightarrow> retE ()
      | Some c \<Rightarrow>
          bindE (askE (x_now x)) (\<lambda>start. bindE (askE (c engineUID)) (\<lambda>(observed, err).
            bindE (askE (x_now x)) (\<lambda>fin. bindE (getE (\<lambda>s. x_cancelled x (e_world s))) (\<lambda>cancelled.
              let interrupted = (err \<noteq> None \<and> cancelled);
                  reason = (if interrupted then ReasonInterrupted
                            else if err \<noteq> None then ReasonInjectionFailed else '''')
              in bindE (emitE EventFaultInjected reason
                          (confirm_payload interrupted observed err (time_sub fin start))) (\<lambda>_.
                   if interrupted
                   then throwE (NewExecutorError StageDriver ReasonInterrupted
                          ''stopped before the engine confirmed the fault'' err)
                   else if err \<noteq> None
                   then throwE (NewExecutorError StageDriver ReasonInjectionFailed
                          ''engine did not inject the fault'' err)
                   else retE ()))))))"

definition verifiedBy :: "'w chaos_driver \<Rightarrow> fault_manifest \<Rightarrow> string list" where
  "verifiedBy d m =
     (case d_Confirm d of None \<Rightarrow> [] | Some _ \<Rightarrow> [''engine-status'']) @ map p_Name (SettleProbes m)"

text \<open>\<^verbatim>\<open>abandon\<close>: what it records of the clear, and the registry after it.\<close>

definition abandon :: "'w exec_env \<Rightarrow> string \<Rightarrow> exec_error \<Rightarrow> 'w frame \<Rightarrow> 'w frame" where
  "abandon x engineUID cause s =
     (let base = [(''engine_uid'', JStr engineUID), (''error'', JStr (ExecutorError_Error cause))];
          left = (\<lambda>msg. base @ [(''clear_error'', JStr msg), (''left_to_reaper'', JBool True)])
      in case map_of (x_drivers x) (m_Engine (fr_m s)) of
           None \<Rightarrow>
             add_event EventLeaseCleared (ee_Reason cause)
               (left (sprintf ''no driver registered for engine %'' [AQ (m_Engine (fr_m s))])) s
         | Some d \<Rightarrow>
             (case d_Clear d engineUID (e_world s) of
                (Some err, w) \<Rightarrow>
                  add_event EventLeaseCleared (ee_Reason cause) (left (err_text err)) (s\<lparr>e_world := w\<rparr>)
              | (None, w) \<Rightarrow>
                  add_event EventLeaseCleared (ee_Reason cause) base
                    (s\<lparr>e_world := w, e_budget := (e_budget s)\<lparr>b_registry :=
                         snd (Forget (m_UID (fr_m s)) (b_registry (e_budget s)))\<rparr>\<rparr>)))"


section \<open>Apply\<close>

definition strs_json :: "string list \<Rightarrow> json" where
  "strs_json xs = JArr (map JStr xs)"

definition validated_payload ::
  "fault_manifest \<Rightarrow> string list \<Rightarrow> string list \<times> string list \<Rightarrow> string gomap option \<Rightarrow> string list \<Rightarrow> jobj" where
  "validated_payload m narrowed resolved podLabels attached =
     (case podLabels of None \<Rightarrow> [] | Some l \<Rightarrow> [(''selector_labels_from_targets'', labels_json l)])
     @ (if fst resolved \<noteq> [] then [(''target_labels_from_workload'', strs_json (fst resolved))] else [])
     @ (if snd resolved \<noteq> [] then [(''target_labels_unresolved'', strs_json (snd resolved))] else [])
     @ (if attached \<noteq> [] then [(''default_probes'', strs_json attached)] else [])
     @ (if narrowed \<noteq> [] then [(''selectors_narrowed_to'', strs_json (TargetNamespaces m)),
                                 (''selector_paths'', strs_json narrowed)] else [])"

definition applied_payload :: "fault_manifest \<Rightarrow> string \<Rightarrow> gotime \<Rightarrow> string list \<Rightarrow> jobj \<Rightarrow> jobj" where
  "applied_payload m engineUID deadline verified details =
     (let p = AuditRecord m @ [(''engine_uid'', JStr engineUID), (''deadline'', JStr (format_rfc3339 deadline)),
                               (''verified_by'', strs_json verified)]
      in p @ filter (\<lambda>d. map_of p (fst d) = None) details)"

definition lookup_driver :: "'w exec_env \<Rightarrow> ('w, 'w chaos_driver) stage" where
  "lookup_driver x = bindE theM (\<lambda>m.
     case map_of (x_drivers x) (m_Engine m) of
       Some d \<Rightarrow> retE d
     | None \<Rightarrow> throwE (NewExecutorError StageDriver ReasonDriverFailed
                 (sprintf ''no driver registered for engine %'' [AQ (m_Engine m)]) None))"

text \<open>Register the lease and start the cooldown, then hand the reservation back.\<close>

definition register_lease :: "'w exec_env \<Rightarrow> string \<Rightarrow> gotime \<Rightarrow> ('w, unit) stage" where
  "register_lease x engineUID deadline =
     bindE (askE (x_now x)) (\<lambda>t1.
       bindE (modifyE (\<lambda>s. s\<lparr>e_budget := (e_budget s)\<lparr>b_registry :=
                snd (Register t1 (m_UID (fr_m s)) engineUID (fr_m s) deadline (b_registry (e_budget s)))\<rparr>\<rparr>)) (\<lambda>_.
         bindE (askE (x_now x)) (\<lambda>t2.
           bindE (modifyE (\<lambda>s. s\<lparr>e_budget := recordApply t2 (fr_m s) (e_budget s)\<rparr>)) (\<lambda>_.
             modifyE release_held))))"

definition push_recent :: "gotime \<Rightarrow> 'w frame \<Rightarrow> 'w frame" where
  "push_recent now s =
     s\<lparr>e_history := map_option (Push \<lparr>rf_FaultUID = m_UID (fr_m s), rf_Manifest = fr_m s, rf_AppliedAt = now,
          rf_ClearedAt = 0, rf_ClearReason = ''''\<rparr>) (e_history s)\<rparr>"

text \<open>From a successful driver call to the end of \<^verbatim>\<open>apply\<close>.\<close>

definition after_apply :: "'w exec_env \<Rightarrow> 'w chaos_driver \<Rightarrow> jobj \<Rightarrow> string \<Rightarrow> ('w, string) stage" where
  "after_apply x d details engineUID = bindE theM (\<lambda>m. bindE (askE (x_now x)) (\<lambda>now.
     let deadline = now + m_Duration m
     in bindE (register_lease x engineUID deadline) (\<lambda>_.
          bindE (emitE EventDriverApplied ''''
                   (applied_payload m engineUID deadline (verifiedBy d m) details)) (\<lambda>_.
            bindE (emitE EventLeaseRegistered '''' []) (\<lambda>_.
              bindE (onErrorE (bindE (confirmInjected x d engineUID) (\<lambda>_. settle x)) (abandon x engineUID)) (\<lambda>_.
                bindE (modifyE (push_recent now)) (\<lambda>_. retE (m_UID m))))))))"

definition driver_failed :: "goerror \<Rightarrow> ('w, 'a) stage" where
  "driver_failed applyErr =
     bindE (emitE EventDriverFailed ReasonDriverFailed [(''error'', JStr (err_text applyErr))]) (\<lambda>_.
       throwE (NewExecutorError StageDriver ReasonDriverFailed ''driver apply failed'' (Some applyErr)))"

definition call_driver :: "'w chaos_driver \<Rightarrow> req_ctx \<Rightarrow> ('w, (goerror + string) \<times> jobj) stage" where
  "call_driver d ctx = bindE theM (\<lambda>m.
     askE (\<lambda>w. case d_Apply d ctx m w of (r, details, w') \<Rightarrow> ((r, details), w')))"

definition drive :: "'w exec_env \<Rightarrow> req_ctx \<Rightarrow> 'w chaos_driver \<Rightarrow> ('w, string) stage" where
  "drive x ctx d = bindE (call_driver d ctx) (\<lambda>rd.
     case fst rd of
       Inl applyErr \<Rightarrow> driver_failed applyErr
     | Inr engineUID \<Rightarrow> after_apply x d (snd rd) engineUID)"

text \<open>The run-up under the reservation.\<close>

definition run_up :: "'w exec_env \<Rightarrow> req_ctx \<Rightarrow> string list \<Rightarrow> ('w, string) stage" where
  "run_up x ctx narrowed =
     bindE (liftC (resolveTargetLabels (x_workloads x))) (\<lambda>resolved.
       bindE (rejecting (liftC (narrowPodSelector (x_elig x) (x_workloads x)))) (\<lambda>podLabels.
         bindE (attachDefaultProbes x) (\<lambda>attached.
           bindE theM (\<lambda>m.
             bindE (emitE EventExecutorValidated '''' (validated_payload m narrowed resolved podLabels attached)) (\<lambda>_.
               bindE (rejecting (lookup_driver x)) (\<lambda>d.
                 bindE (rejecting (withExclusions x ctx)) (\<lambda>ctx'.
                   bindE (rejecting (bindE (compatE x) (\<lambda>_. bindE (checkDriverTargets d ctx') (\<lambda>_. precheck x)))) (\<lambda>_.
                     drive x ctx' d))))))))"

text \<open>The schema and safety gate.\<close>

definition gateE :: "'w exec_env \<Rightarrow> fault_manifest \<Rightarrow> ('w, string list) stage" where
  "gateE x m = rejecting (bindE (raiseE (validateSchema m)) (\<lambda>_.
     liftC (validateSafety (x_cfg x) (x_net x) (x_elig x))))"

definition apply_fault :: "'w exec_env \<Rightarrow> req_ctx \<Rightarrow> ('w, string) stage" where
  "apply_fault x ctx = bindE theM (\<lambda>m0.
     bindE (emitE EventExecutorReceived '''' (withActor ctx (AuditRecord m0))) (\<lambda>_.
       bindE (gateE x m0) (\<lambda>narrowed.
         bindE (rejecting (reserveE x)) (\<lambda>_.
           finallyE (run_up x ctx narrowed) release_held))))"

text \<open>
  \<^verbatim>\<open>Apply\<close>.  The refused fault keeps the submitted manifest, except that its
  spec map and its target slice are shared with the one the pipeline worked
  on, so their changes show.
\<close>

definition refused_manifest :: "fault_manifest \<Rightarrow> 'w frame \<Rightarrow> fault_manifest" where
  "refused_manifest m s = m\<lparr>m_Spec := m_Spec (fr_m s), m_Targets := m_Targets (fr_m s)\<rparr>"

definition record_refusal ::
  "'w exec_env \<Rightarrow> fault_manifest \<Rightarrow> exec_error \<Rightarrow> 'w frame \<Rightarrow> 'w frame" where
  "record_refusal x m e s =
     (case e_history s of
        None \<Rightarrow> s
      | Some h \<Rightarrow>
          if \<not> RefusalWorthRemembering (Some e) then s
          else case x_now x (e_world s) of
                 (now, w) \<Rightarrow> s\<lparr>e_world := w, e_history := Some (PushRefused
                    \<lparr>rx_FaultUID = m_UID m, rx_Manifest = refused_manifest m s, rx_RefusedAt = now,
                     rx_Stage = ee_Stage e, rx_Reason = ee_Reason e, rx_Error = ExecutorError_Error e\<rparr> h)\<rparr>)"

definition with_uid :: "'w exec_env \<Rightarrow> fault_manifest \<Rightarrow> 'w \<Rightarrow> fault_manifest \<times> 'w" where
  "with_uid x m w = (if m_UID m \<noteq> '''' then (m, w) else case x_newUID x w of (u, w') \<Rightarrow> (m\<lparr>m_UID := u\<rparr>, w'))"

definition to_frame :: "'w executor \<Rightarrow> fault_manifest \<Rightarrow> 'w frame" where
  "to_frame e m = executor.extend e (frame.fields m None)"

definition Apply :: "'w exec_env \<Rightarrow> req_ctx \<Rightarrow> fault_manifest \<Rightarrow> 'w executor \<Rightarrow> (exec_error + string) \<times> 'w executor" where
  "Apply x ctx m0 e =
     (case with_uid x m0 (e_world e) of
        (m, w) \<Rightarrow>
          (case onErrorE (apply_fault x ctx) (record_refusal x m) (to_frame (e\<lparr>e_world := w\<rparr>) m) of
             (r, s) \<Rightarrow> (r, executor.truncate s)))"


section \<open>Clear\<close>

definition explicit_clear :: string where [const_defs]: "explicit_clear = ''explicit-clear''"

text \<open>A history panic would be \<^const>\<open>None\<close> of \<^const>\<open>UpdateCleared\<close>; the history invariant excludes it.\<close>

definition Clear :: "'w exec_env \<Rightarrow> req_ctx \<Rightarrow> string \<Rightarrow> 'w executor \<Rightarrow> goerror option \<times> 'w executor" where
  "Clear x ctx faultUID e =
     (case Get (b_registry (e_budget e)) faultUID of
        None \<Rightarrow> (Some (GoErr (sprintf ''fault % not found'' [AQ faultUID])), e)
      | Some af \<Rightarrow>
          (case map_of (x_drivers x) (m_Engine (af_Manifest af)) of
             None \<Rightarrow> (Some (GoErr (sprintf ''no driver for engine %'' [AQ (m_Engine (af_Manifest af))])), e)
           | Some d \<Rightarrow>
               (case d_Clear d (af_EngineUID af) (e_world e) of
                  (Some err, w) \<Rightarrow> (Some err, e\<lparr>e_world := w\<rparr>)
                | (None, w) \<Rightarrow>
                    let b = (e_budget e)\<lparr>b_registry := snd (Forget faultUID (b_registry (e_budget e)))\<rparr>;
                        ev = mk_event EventLeaseCleared faultUID explicit_clear (withActor ctx [])
                    in (case e_history e of
                          None \<Rightarrow> (None, e\<lparr>e_world := w, e_budget := b, e_audit := e_audit e @ [ev]\<rparr>)
                        | Some h \<Rightarrow>
                            (case x_now x w of
                               (now, w') \<Rightarrow>
                                 (None, e\<lparr>e_world := w', e_budget := b, e_audit := e_audit e @ [ev],
                                    e_history := UpdateCleared faultUID now explicit_clear h\<rparr>))))))"

end
