(* ===== verification/Executor_Facts.thy ===== *)
theory Executor_Facts
  imports Executor_Pipeline
begin

text \<open>
  What holds of every run of the pipeline.  Three relations between the
  frames before and after a stage carry the proofs: a quiet stage only reads
  the cluster, extends the log and fills in the manifest; a leasing stage
  also changes the registry, for its own fault only; every stage keeps the
  reservation counters in step with the reservation held.
\<close>

section \<open>Quiet stages\<close>

text \<open>What no stage after the safety gate changes of a manifest.\<close>

definition core ::
  "fault_manifest \<Rightarrow> (string \<times> string \<times> string) \<times> (string \<times> string) \<times> duration \<times> string \<times> (string \<times> string \<times> string) list" where
  "core m = ((m_UID m, m_Source m, m_PlanID m), (m_Engine m, m_ResourceKind m), m_Duration m, m_BlastRadiusTier m,
             map (\<lambda>t. (t_Namespace t, t_Kind t, t_Name t)) (m_Targets m))"

lemma core_eq:
  assumes "core m = core m'"
  shows "m_UID m = m_UID m'" "m_Engine m = m_Engine m'" "m_Duration m = m_Duration m'"
    "m_BlastRadiusTier m = m_BlastRadiusTier m'" "m_PlanID m = m_PlanID m'" "m_Source m = m_Source m'"
    "m_ResourceKind m = m_ResourceKind m'"
    "TargetNamespaces m = TargetNamespaces m'"
proof -
  have "map fst (map (\<lambda>t. (t_Namespace t, t_Kind t, t_Name t)) (m_Targets m)) =
      map fst (map (\<lambda>t. (t_Namespace t, t_Kind t, t_Name t)) (m_Targets m'))"
    using assms by (simp only: core_def prod.inject)
  then show "TargetNamespaces m = TargetNamespaces m'"
    by (simp add: TargetNamespaces_def comp_def)
qed (use assms in \<open>simp_all add: core_def\<close>)

definition quiet :: "'w frame \<Rightarrow> 'w frame \<Rightarrow> bool" where
  "quiet s t \<longleftrightarrow>
     e_budget t = e_budget s \<and> e_history t = e_history s \<and> fr_held t = fr_held s
     \<and> prefix (e_audit s) (e_audit t) \<and> core (fr_m t) = core (fr_m s)"

interpretation qt: evolution quiet
proof unfold_locales
  show "quiet s s" for s :: "'a frame" by (simp add: quiet_def)
  show "quiet s t \<Longrightarrow> quiet t u \<Longrightarrow> quiet s u" for s t u :: "'a frame"
    using prefix_order.trans by (auto simp: quiet_def)
qed

lemma quiet_ask: "evolves quiet (askE q)"
  by (simp add: evolves_def askE_def quiet_def split: prod.split)

lemma quiet_add_event: "quiet s (add_event ev r p s)"
  by (simp add: quiet_def add_event_def)

lemma quiet_emit: "evolves quiet (emitE ev r p)"
  by (simp add: emitE_def qt.ev_modify quiet_add_event)

lemma quiet_theM: "evolves quiet theM"
  by (simp add: theM_def qt.ev_get)

lemma quiet_rejecting: "evolves quiet c \<Longrightarrow> evolves quiet (rejecting c)"
  by (simp add: rejecting_def qt.ev_onError rejected_def quiet_add_event)

lemma quiet_raise: "evolves quiet (raiseE err)"
  by (simp add: raiseE_def qt.ev_ret qt.ev_throw split: option.split)

lemmas quiet_rules = qt.ev_rules quiet_ask quiet_emit quiet_theM quiet_rejecting quiet_raise

text \<open>Checks that keep a view of the manifest, such as its core.\<close>

definition keeps_on :: "(fault_manifest \<Rightarrow> 'v) \<Rightarrow> fault_manifest \<times> 'w \<Rightarrow> fault_manifest \<times> 'w \<Rightarrow> bool" where
  "keeps_on f s t \<longleftrightarrow> f (fst t) = f (fst s)"

interpretation kp: evolution "keeps_on f" for f
  by unfold_locales (simp_all add: keeps_on_def)

lemma quiet_liftC: "evolves (keeps_on core) c \<Longrightarrow> evolves quiet (liftC c)"
  by (auto simp: evolves_def liftC_def quiet_def keeps_on_def split: prod.split) (metis fst_conv snd_conv)

lemma kp_query: "evolves (keeps_on f) (queryE q)"
  by (auto simp: evolves_def queryE_def keeps_on_def split: prod.split)

lemma kp_mod: "(\<And>m. f (g m) = f m) \<Longrightarrow> evolves (keeps_on f) (modManifestE g)"
  by (auto simp: modManifestE_def keeps_on_def intro!: kp.ev_modify)

lemmas kp_rules = kp.ev_rules kp_query

lemma resolve_targets_core:
  "map (\<lambda>t. (t_Namespace t, t_Kind t, t_Name t)) (fst (fst (resolve_targets ws ts w))) =
     map (\<lambda>t. (t_Namespace t, t_Kind t, t_Name t)) ts"
proof (induction ws ts w rule: resolve_targets.induct)
  case (2 ws t ts w)
  then show ?case
    by (auto simp: Let_def split: if_splits prod.splits sum.splits)
qed simp

lemma kp_resolve: "evolves (keeps_on core) (resolveTargetLabels wl)"
proof (cases wl)
  case None
  then show ?thesis by (simp add: resolveTargetLabels_def kp.ev_ret)
next
  case (Some ws)
  have "core (m\<lparr>m_Targets := fst (fst (resolve_targets ws (m_Targets m) w))\<rparr>) = core m" for m and w :: 'a
    using resolve_targets_core [of ws "m_Targets m" w] by (simp add: core_def)
  with Some show ?thesis
    by (auto simp: resolveTargetLabels_def evolves_def keeps_on_def split: prod.split) (metis fst_conv)
qed

lemma core_put_labels: "core (put_labels l m) = core m"
  by (simp add: core_def put_labels_def)

lemma kp_no_exclusions: "evolves (keeps_on core) (check_no_exclusions elig msg nss)"
  by (induction nss) (auto intro!: kp_rules split: sum.split)

lemma kp_check_sites: "evolves (keeps_on core) (check_sites elig m ss)"
  by (induction ss) (auto intro!: kp_rules kp_no_exclusions)

lemma kp_narrow: "evolves (keeps_on core) (narrowPodSelector elig wl)"
  unfolding narrowPodSelector_def checkSecondarySelectors_def narrow_to_targets_def
  by (auto intro!: kp_rules kp_check_sites kp_no_exclusions kp_mod core_put_labels split: prod.split)

lemma quiet_attach: "evolves quiet (attachDefaultProbes x)"
  unfolding attachDefaultProbes_def theM_def
  by (auto simp: evolves_def bindE_def getE_def modifyE_def retE_def quiet_def core_def Let_def split: option.split)

lemma quiet_exclusions: "evolves quiet (collect_exclusions elig nss byNS)"
  by (induction nss arbitrary: byNS) (auto intro!: quiet_rules split: sum.split)

lemma quiet_probes: "evolves quiet (run_probes x pb target st ps)"
  by (induction ps) (auto intro!: quiet_rules)

lemma quiet_runProbes: "evolves quiet (runProbes x ps st)"
  by (auto simp: runProbes_def intro!: quiet_rules quiet_probes split: option.split)

lemma quiet_precheck: "evolves quiet (precheck x)" and quiet_settle: "evolves quiet (settle x)"
  by (auto simp: precheck_def settle_def intro!: quiet_rules quiet_runProbes)

lemma quiet_confirm: "evolves quiet (confirmInjected x d euid)"
  by (auto simp: confirmInjected_def Let_def intro!: quiet_rules split: option.split prod.split)

lemma quiet_checks: "evolves quiet (bindE (compatE x) (\<lambda>_. bindE (checkDriverTargets d ctx) (\<lambda>_. precheck x)))"
  by (auto simp: compatE_def checkDriverTargets_def intro!: quiet_rules quiet_precheck split: option.split)

lemma quiet_lookup: "evolves quiet (lookup_driver x)"
  by (auto simp: lookup_driver_def intro!: quiet_rules split: option.split)

lemma quiet_withExclusions: "evolves quiet (withExclusions x ctx)"
  by (auto simp: withExclusions_def intro!: quiet_rules quiet_exclusions)

lemmas quiet_stages =
  quiet_liftC [OF kp_resolve] quiet_liftC [OF kp_narrow] quiet_attach quiet_lookup quiet_withExclusions
  quiet_checks quiet_confirm quiet_settle

section \<open>The stages up to the reservation\<close>

text \<open>The safety gate also classifies the tier, so it keeps less of the manifest.\<close>

definition ident :: "fault_manifest \<Rightarrow> string \<times> string \<times> string" where
  "ident m = (m_UID m, m_Source m, m_PlanID m)"

definition still :: "'w frame \<Rightarrow> 'w frame \<Rightarrow> bool" where
  "still s t \<longleftrightarrow>
     e_budget t = e_budget s \<and> e_history t = e_history s \<and> fr_held t = fr_held s
     \<and> prefix (e_audit s) (e_audit t) \<and> ident (fr_m t) = ident (fr_m s)"

interpretation st: evolution still
proof unfold_locales
  show "still s s" for s :: "'a frame" by (simp add: still_def)
  show "still s t \<Longrightarrow> still t u \<Longrightarrow> still s u" for s t u :: "'a frame"
    using prefix_order.trans by (auto simp: still_def)
qed

lemma quiet_still: "quiet s t \<Longrightarrow> still s t"
  by (auto simp: quiet_def still_def ident_def core_def)

lemma still_quiet_stage: "evolves quiet c \<Longrightarrow> evolves still c"
  by (simp add: evolves_def quiet_still)

lemma still_liftC: "evolves (keeps_on ident) c \<Longrightarrow> evolves still (liftC c)"
  by (auto simp: evolves_def liftC_def still_def keeps_on_def split: prod.split) (metis fst_conv snd_conv)

lemma kp_check_targets: "evolves (keeps_on f) (check_targets elig ts)"
  by (induction ts) (auto simp: check_eligible_def check_exclusion_def intro!: kp_rules split: sum.split)

lemma kp_lookup_eligible: "evolves (keeps_on f) (lookup_eligible elig path ns cache)"
  by (auto simp: lookup_eligible_def intro!: kp_rules split: option.split sum.split)

lemma kp_site_namespaces: "evolves (keeps_on f) (check_site_namespaces elig path nss cache)"
  by (induction nss arbitrary: cache) (auto intro!: kp_rules kp_lookup_eligible)

lemma ident_update_spec: "ident (update_spec_at p g m) = ident m"
  by (simp add: ident_def update_spec_at_def split: option.split)

lemma kp_scope_sites: "evolves (keeps_on ident) (scope_sites elig tns ss narrowed cache)"
  by (induction ss arbitrary: narrowed cache)
    (auto intro!: kp_rules kp_site_namespaces kp_mod ident_update_spec)

lemma kp_check_tier: "evolves (keeps_on ident) (check_tier cfg net)"
  unfolding check_tier_def Let_def
  by (auto intro!: kp_rules kp_mod simp: ident_def)

lemma kp_validateSafety: "evolves (keeps_on ident) (validateSafety cfg net elig)"
  unfolding validateSafety_def validateSpecNamespaceScope_def
  by (auto intro!: kp_rules kp_check_targets kp_scope_sites kp_check_tier)

lemma still_gate: "evolves still (gateE x m)"
  unfolding gateE_def rejecting_def
  by (intro st.ev_rules still_quiet_stage [OF quiet_raise] still_liftC kp_validateSafety)
    (simp add: rejected_def quiet_still quiet_add_event)

text \<open>From relations to triples.\<close>

lemma evolves_post:
  assumes "evolves R m" "\<And>s t. P s \<Longrightarrow> R s t \<Longrightarrow> Q t"
  shows "validE P m (\<lambda>_. Q) (\<lambda>_. Q)"
  unfolding validE_def
proof (intro allI impI)
  fix s
  assume "P s"
  obtain r t where m: "m s = (r, t)" by (cases "m s")
  have "R s t" using assms(1) m by (metis evolves_def snd_conv)
  with assms(2) \<open>P s\<close> have "Q t" by blast
  with m show "case m s of (Inl e, t) \<Rightarrow> Q t | (Inr a, t) \<Rightarrow> Q t" by (simp split: sum.split)
qed

lemma evolves_keeps:
  assumes "evolves R m" "\<And>s t. R s t \<Longrightarrow> P s \<Longrightarrow> P t"
  shows "keepsE P m"
  using evolves_post [OF assms(1), where P = P and Q = P] assms(2) by blast


section \<open>Reservations are balanced\<close>

text \<open>The counters are those of \<open>b0\<close>, plus the reservation held.\<close>

definition bal :: "budget \<Rightarrow> budget \<Rightarrow> string list option \<Rightarrow> bool" where
  "bal b0 b held \<longleftrightarrow>
     (case held of
        None \<Rightarrow> b_inFlight b = b_inFlight b0 \<and> inFlightIn b = inFlightIn b0
      | Some nss \<Rightarrow> distinct nss \<and> b_inFlight b = b_inFlight b0 + 1
          \<and> (\<forall>ns. inFlightIn b ns = inFlightIn b0 ns + (if ns \<in> set nss then 1 else 0)))"

definition nonneg :: "budget \<Rightarrow> bool" where
  "nonneg b \<longleftrightarrow> (\<forall>ns. 0 \<le> inFlightIn b ns)"

lemma bal_registry [simp]: "bal b0 (b\<lparr>b_registry := r\<rparr>) held = bal b0 b held"
  by (cases held) (simp_all add: bal_def)

lemma bal_record [simp]: "bal b0 (recordApply now m b) held = bal b0 b held"
  by (cases held) (simp_all add: bal_def)

lemma bal_book: "bal b0 b None \<Longrightarrow> distinct nss \<Longrightarrow> bal b0 (book nss b) (Some nss)"
  by (simp add: bal_def inFlightIn_book count_list_distinct)

lemma bal_release: "nonneg b0 \<Longrightarrow> bal b0 b (Some nss) \<Longrightarrow> bal b0 (release nss b) None"
  by (auto simp: bal_def inFlightIn_release nonneg_def fun_eq_iff)

definition balanced :: "budget \<Rightarrow> 'w frame \<Rightarrow> bool" where
  "balanced b0 s \<longleftrightarrow> bal b0 (e_budget s) (fr_held s)"

definition balances :: "budget \<Rightarrow> 'w frame \<Rightarrow> 'w frame \<Rightarrow> bool" where
  "balances b0 s t \<longleftrightarrow> (balanced b0 s \<longrightarrow> balanced b0 t)"

interpretation bl: evolution "balances b0" for b0
  by unfold_locales (simp_all add: balances_def)

lemma balances_quiet: "evolves quiet c \<Longrightarrow> evolves (balances b0) c"
  by (auto simp: evolves_def quiet_def balances_def balanced_def)

lemma balances_release: "nonneg b0 \<Longrightarrow> balances b0 s (release_held s)"
  by (auto simp: balances_def balanced_def release_held_def bal_release split: option.split)

lemma held_release [simp]: "fr_held (release_held s) = None"
  by (simp add: release_held_def split: option.split)

lemma balances_register:
  assumes "nonneg b0"
  shows "evolves (balances b0) (register_lease x euid dl)"
  unfolding register_lease_def
  by (intro bl.ev_bind balances_quiet [OF quiet_ask] bl.ev_modify balances_release assms)
    (simp_all add: balances_def balanced_def)

lemma balances_abandon: "balances b0 s (abandon x euid e s)"
  by (simp add: abandon_def Let_def balances_def balanced_def add_event_def split: option.split prod.split)

lemma balances_push: "balances b0 s (push_recent now s)"
  by (simp add: push_recent_def balances_def balanced_def)

lemmas balances_quiet_rules =
  balances_quiet [OF quiet_theM] balances_quiet [OF quiet_ask] balances_quiet [OF quiet_emit]
  balances_quiet [OF quiet_confirm] balances_quiet [OF quiet_settle]

lemma quiet_call_driver: "evolves quiet (call_driver d ctx)"
  unfolding call_driver_def by (intro quiet_rules)

lemma quiet_driver_failed: "evolves quiet (driver_failed err)"
  unfolding driver_failed_def by (intro quiet_rules)

lemma balances_drive:
  assumes "nonneg b0"
  shows "evolves (balances b0) (drive x ctx d)"
proof -
  have "evolves (balances b0) (after_apply x d details euid)" for details euid
    unfolding after_apply_def Let_def
    by (intro bl.ev_rules balances_quiet_rules balances_register [OF assms] balances_abandon balances_push)
  then show ?thesis
    unfolding drive_def
    by (intro bl.ev_bind balances_quiet [OF quiet_call_driver])
      (simp add: balances_quiet [OF quiet_driver_failed] split: sum.split)
qed

lemma balances_run_up: "nonneg b0 \<Longrightarrow> evolves (balances b0) (run_up x ctx narrowed)"
  unfolding run_up_def
  by (intro bl.ev_bind balances_drive) (assumption | intro balances_quiet quiet_stages quiet_rejecting quiet_theM quiet_emit)+

text \<open>The triple of an apply from the triples of its parts.\<close>

lemma validE_apply_fault:
  assumes "\<And>s. P s \<Longrightarrow> P' (fr_m s) (add_event EventExecutorReceived '''' (withActor ctx (AuditRecord (fr_m s))) s)"
    and "\<And>m. validE (\<lambda>s. P' m s \<and> fr_m s = m) (gateE x m) (\<lambda>_. R) E"
    and "validE R (rejecting (reserveE x)) (\<lambda>_. S) E"
    and "\<And>n. validE S (finallyE (run_up x ctx n) release_held) Q E"
  shows "validE P (apply_fault x ctx) Q E"
  unfolding apply_fault_def
proof (rule validE_bind [where R = "\<lambda>m s. P s \<and> fr_m s = m"])
  show "validE P theM (\<lambda>m s. P s \<and> fr_m s = m) E"
    by (simp add: validE_def theM_def getE_def)
  fix m
  show "validE (\<lambda>s. P s \<and> fr_m s = m) (bindE (emitE EventExecutorReceived '''' (withActor ctx (AuditRecord m))) (\<lambda>_.
       bindE (gateE x m) (\<lambda>narrowed. bindE (rejecting (reserveE x)) (\<lambda>_.
         finallyE (run_up x ctx narrowed) release_held)))) Q E"
  proof (rule validE_bind [where R = "\<lambda>_ s. P' m s \<and> fr_m s = m"])
    show "validE (\<lambda>s. P s \<and> fr_m s = m) (emitE EventExecutorReceived '''' (withActor ctx (AuditRecord m)))
        (\<lambda>_ s. P' m s \<and> fr_m s = m) E"
      using assms(1) by (auto simp: validE_def emitE_def modifyE_def) (simp add: add_event_def)
  qed (rule validE_bind [OF assms(2) validE_bind [OF assms(3) assms(4)]])
qed

text \<open>The reservation stage keeps everything but the budget.\<close>

lemma validE_reserve:
  assumes "\<And>s b w. P s \<Longrightarrow> reserve (x_cfg x) (x_now x) (TargetNamespaces (fr_m s)) (e_budget s) (e_world s) = (Inr b, w) \<Longrightarrow>
        Q (s\<lparr>e_budget := b, e_world := w, fr_held := Some (TargetNamespaces (fr_m s))\<rparr>)"
    and "\<And>s e w. P s \<Longrightarrow> ee_Reason e = ReasonBudgetExceeded \<Longrightarrow> E e (rejected e (s\<lparr>e_world := w\<rparr>))"
  shows "validE P (rejecting (reserveE x)) (\<lambda>_. Q) E"
  unfolding validE_def rejecting_def onErrorE_def reserveE_def Let_def
  using assms by (auto split: sum.split prod.split dest: reserve_error)

lemma apply_fault_balanced:
  assumes "nonneg b0"
  shows "keepsE (\<lambda>s. fr_held s = None \<and> balanced b0 s) (apply_fault x ctx)"
proof (rule validE_apply_fault [where P' = "\<lambda>_ s. fr_held s = None \<and> balanced b0 s"
      and R = "\<lambda>s. fr_held s = None \<and> balanced b0 s" and S = "balanced b0"])
  show "validE (\<lambda>s. (fr_held s = None \<and> balanced b0 s) \<and> fr_m s = m) (gateE x m)
      (\<lambda>_ s. fr_held s = None \<and> balanced b0 s) (\<lambda>_ s. fr_held s = None \<and> balanced b0 s)" for m
    by (rule validE_weaken [OF evolves_keeps [OF still_gate, where P = "\<lambda>s. fr_held s = None \<and> balanced b0 s"]])
      (auto simp: still_def balanced_def)
  show "validE (\<lambda>s. fr_held s = None \<and> balanced b0 s) (rejecting (reserveE x)) (\<lambda>_. balanced b0)
      (\<lambda>_ s. fr_held s = None \<and> balanced b0 s)"
    by (rule validE_reserve) (auto simp: rejected_def add_event_def balanced_def bal_book dest!: reserve_ok)
  show "validE (balanced b0) (finallyE (run_up x ctx n) release_held)
      (\<lambda>_ s. fr_held s = None \<and> balanced b0 s) (\<lambda>_ s. fr_held s = None \<and> balanced b0 s)" for n
    using evolves_keeps [OF balances_run_up [OF assms, of x ctx n], of "balanced b0"] balances_release [OF assms]
    by (intro validE_finally) (auto simp: balances_def elim!: validE_weaken)
qed (auto simp: add_event_def balanced_def)


section \<open>Leases\<close>

abbreviation reg_of :: "'w frame \<Rightarrow> registry" where
  "reg_of s \<equiv> b_registry (e_budget s)"

text \<open>A leasing stage touches the lease of its own fault only, and a lease it leaves there
  carries the manifest of the fault.\<close>

definition leasing :: "'w frame \<Rightarrow> 'w frame \<Rightarrow> bool" where
  "leasing s t \<longleftrightarrow>
     core (fr_m t) = core (fr_m s) \<and> prefix (e_audit s) (e_audit t)
     \<and> (\<forall>uid. uid \<noteq> m_UID (fr_m s) \<longrightarrow> Get (reg_of t) uid = Get (reg_of s) uid)
     \<and> (\<forall>af. Get (reg_of t) (m_UID (fr_m s)) = Some af \<longrightarrow>
          Get (reg_of s) (m_UID (fr_m s)) = Some af \<or> core (af_Manifest af) = core (fr_m s))"

interpretation ls: evolution leasing
proof unfold_locales
  show "leasing s s" for s :: "'a frame" by (simp add: leasing_def)
next
  fix s t u :: "'a frame"
  assume st: "leasing s t" and tu: "leasing t u"
  from st have c: "core (fr_m t) = core (fr_m s)" by (simp add: leasing_def)
  then have "m_UID (fr_m t) = m_UID (fr_m s)" by (rule core_eq)
  with st tu show "leasing s u"
    unfolding leasing_def by (metis prefix_order.trans)
qed

lemma leasing_quiet: "evolves quiet c \<Longrightarrow> evolves leasing c"
  by (auto simp: evolves_def quiet_def leasing_def)

lemma leasing_release: "leasing s (release_held s)"
  by (simp add: leasing_def release_held_def split: option.split)

lemma leasing_register: "evolves leasing (register_lease x euid dl)"
  unfolding register_lease_def
  by (intro ls.ev_bind leasing_quiet [OF quiet_ask] ls.ev_modify leasing_release)
    (simp_all add: leasing_def Register_def Let_def lease_of_def)

lemma leasing_abandon: "leasing s (abandon x euid e s)"
  by (simp add: abandon_def Let_def leasing_def add_event_def split: option.split prod.split)

lemma leasing_push: "leasing s (push_recent now s)"
  by (simp add: push_recent_def leasing_def)

lemmas leasing_quiet_rules =
  leasing_quiet [OF quiet_theM] leasing_quiet [OF quiet_ask] leasing_quiet [OF quiet_emit]
  leasing_quiet [OF quiet_confirm] leasing_quiet [OF quiet_settle]

lemma leasing_drive: "evolves leasing (drive x ctx d)"
proof -
  have "evolves leasing (after_apply x d details euid)" for details euid
    unfolding after_apply_def Let_def
    by (intro ls.ev_rules leasing_quiet_rules leasing_register leasing_abandon leasing_push)
  then show ?thesis
    unfolding drive_def
    by (intro ls.ev_bind leasing_quiet [OF quiet_call_driver])
      (simp add: leasing_quiet [OF quiet_driver_failed] split: sum.split)
qed

lemma leasing_run_up: "evolves leasing (run_up x ctx narrowed)"
  unfolding run_up_def
  by (intro ls.ev_bind leasing_drive) (assumption | intro leasing_quiet quiet_stages quiet_rejecting quiet_theM quiet_emit)+

lemma leasing_tail: "evolves leasing (finallyE (run_up x ctx narrowed) release_held)"
  by (intro ls.ev_finally leasing_run_up leasing_release)


section \<open>The safety gate\<close>

text \<open>
  What a manifest that passed the gate satisfies: \<open>E\<close> holds the namespaces the
  checker answers to be eligible, and a named workload was missing from some
  answer about the exclusions of its namespace.
\<close>

definition not_excluded :: "'w eligibility \<Rightarrow> string \<Rightarrow> string \<Rightarrow> bool" where
  "not_excluded elig ns name \<longleftrightarrow>
     name = '''' \<or> (\<exists>w w' l. el_ExcludedWorkloads elig ns w = (Inr l, w') \<and> name \<notin> set l)"

definition gated :: "config \<Rightarrow> 'w eligibility \<Rightarrow> string set \<Rightarrow> fault_manifest \<Rightarrow> bool" where
  "gated cfg elig E m \<longleftrightarrow>
     0 < m_Duration m
     \<and> (cfg_DurationCeiling cfg > 0 \<longrightarrow> m_Duration m \<le> cfg_DurationCeiling cfg)
     \<and> tier_permitted cfg (m_BlastRadiusTier m)
     \<and> (\<forall>(ns, _, name) \<in> set (map (\<lambda>t. (t_Namespace t, t_Kind t, t_Name t)) (m_Targets m)).
          ns \<noteq> '''' \<and> ns \<in> E \<and> not_excluded elig ns name)"

lemma gated_core:
  assumes "core m = core m'"
  shows "gated cfg elig E m = gated cfg elig E m'"
proof -
  have "map (\<lambda>t. (t_Namespace t, t_Kind t, t_Name t)) (m_Targets m) =
      map (\<lambda>t. (t_Namespace t, t_Kind t, t_Name t)) (m_Targets m')"
    using assms by (simp only: core_def prod.inject)
  then show ?thesis
    by (simp only: gated_def core_eq(3) [OF assms] core_eq(4) [OF assms])
qed

lemma safety_err_sel [simp]: "ee_Stage (safety_err r msg c) = StageSafety" "ee_Reason (safety_err r msg c) = r"
  by (simp_all add: safety_err_def)

definition target_ok :: "'w eligibility \<Rightarrow> string set \<Rightarrow> target_ref \<Rightarrow> bool" where
  "target_ok elig E t \<longleftrightarrow> t_Namespace t \<noteq> '''' \<and> t_Namespace t \<in> E \<and> not_excluded elig (t_Namespace t) (t_Name t)"

lemma check_eligible_ok:
  assumes "elig_sound elig E"
  shows "validE (\<lambda>s. P (fst s)) (check_eligible elig t)
    (\<lambda>_ s. (t_Namespace t \<noteq> '''' \<and> t_Namespace t \<in> E) \<and> P (fst s)) (\<lambda>e s. P (fst s) \<and> safety_error e)"
proof (cases "t_Namespace t = ''''")
  case True
  then show ?thesis by (simp add: check_eligible_def validE_throw_if)
next
  case False
  show ?thesis
    unfolding check_eligible_def if_not_P [OF False]
  proof (intro validE_bind_query, goal_cases)
    case (1 r)
    then have "r = Inr True \<longrightarrow> t_Namespace t \<in> E"
      using assms by (auto simp: elig_sound_def)
    with False show ?case by (cases r) (auto intro!: validE_throw_if validE_ret_if)
  qed
qed

lemma check_exclusion_ok:
  "validE (\<lambda>s. P (fst s)) (check_exclusion elig t)
    (\<lambda>_ s. not_excluded elig (t_Namespace t) (t_Name t) \<and> P (fst s)) (\<lambda>e s. P (fst s) \<and> safety_error e)"
  unfolding check_exclusion_def
proof (intro validE_bind_query, goal_cases)
  case (1 r)
  show ?case
  proof (cases r)
    case (Inr l)
    with 1 have "not_excluded elig (t_Namespace t) (t_Name t)"
      if "\<not> (t_Name t \<noteq> '''' \<and> t_Name t \<in> set l)"
      using that unfolding not_excluded_def by blast
    with Inr show ?thesis by (auto intro!: validE_throw_if validE_ret_if)
  qed (simp add: validE_throw_if)
qed

lemma check_targets_ok:
  assumes "elig_sound elig E"
  shows "validE (\<lambda>s. P (fst s)) (check_targets elig ts)
    (\<lambda>_ s. (\<forall>t \<in> set ts. target_ok elig E t) \<and> P (fst s)) (\<lambda>e s. P (fst s) \<and> safety_error e)"
proof (induction ts)
  case Nil
  then show ?case by (simp add: validE_ret_if)
next
  case (Cons t ts)
  show ?case
    unfolding check_targets.simps
    by (rule validE_bind_pure [OF check_eligible_ok [OF assms]],
        rule validE_bind_pure [OF check_exclusion_ok],
        rule validE_weaken [OF Cons.IH]) (auto simp: target_ok_def)
qed

text \<open>What the gate leaves of the manifest \<open>m0\<close> it was given.\<close>

definition gate_post :: "config \<Rightarrow> 'w eligibility \<Rightarrow> string set \<Rightarrow> fault_manifest \<Rightarrow> fault_manifest \<Rightarrow> bool" where
  "gate_post cfg elig E m0 m \<longleftrightarrow>
     gated cfg elig E m \<and> m_Engine m = m_Engine m0 \<and> m_ResourceKind m = m_ResourceKind m0
     \<and> (m_Engine m0 \<notin> set specScopeExempt \<longrightarrow> spec_scoped E m)
     \<and> (has_selector (spec_map m0) \<longrightarrow> has_selector (spec_map m))"

lemma check_tier_ok:
  assumes T: "\<forall>t \<in> set (m_Targets m0). target_ok elig E t" and "0 < m_Duration m0"
    and "cfg_DurationCeiling cfg > 0 \<longrightarrow> m_Duration m0 \<le> cfg_DurationCeiling cfg"
  shows "validE (\<lambda>s. same_but_spec m0 (fst s) \<and> (has_selector (spec_map m0) \<longrightarrow> has_selector (spec_map (fst s)))
      \<and> (m_Engine m0 \<notin> set specScopeExempt \<longrightarrow> spec_scoped (E \<union> set (TargetNamespaces m0)) (fst s)))
    (check_tier cfg net) (\<lambda>_ s. gate_post cfg elig E m0 (fst s)) (\<lambda>e s. safety_error e)"
proof -
  have E: "E \<union> set (TargetNamespaces m0) = E" using T by (auto simp: target_ok_def)
  have "gate_post cfg elig E m0 (m\<lparr>m_BlastRadiusTier := tier\<rparr>)"
    if "same_but_spec m0 m" "has_selector (spec_map m0) \<longrightarrow> has_selector (spec_map m)"
      "m_Engine m0 \<notin> set specScopeExempt \<longrightarrow> spec_scoped E m" "tier_permitted cfg tier" for m tier
    using that assms
    by (auto simp: gate_post_def gated_def same_but_spec_sel target_ok_def spec_scoped_def spec_map_def)
  then show ?thesis
    unfolding E
    by (auto simp: validE_def check_tier_def Let_def bindE_def getE_def modManifestE_def modifyE_def retE_def throwE_def)
qed

lemma validateSafety_ok:
  assumes "elig_sound elig E"
  shows "validE (\<lambda>s. fst s = m0) (validateSafety cfg net elig)
    (\<lambda>_ s. gate_post cfg elig E m0 (fst s)) (\<lambda>e s. safety_error e)"
  unfolding validateSafety_def
proof (rule validE_bind_manifest [where P = "\<lambda>m. m = m0"], goal_cases)
  case (1 m)
  let ?T = "\<forall>t \<in> set (m_Targets m0). target_ok elig E t"
  have "validE (\<lambda>s. fst s = m0) (bindE (check_targets elig (m_Targets m0)) (\<lambda>_.
       bindE (validateSpecNamespaceScope elig) (\<lambda>narrowed. bindE (check_tier cfg net) (\<lambda>_. retE narrowed))))
    (\<lambda>_ s. gate_post cfg elig E m0 (fst s)) (\<lambda>e s. safety_error e)"
    if d: "0 < m_Duration m0" "cfg_DurationCeiling cfg > 0 \<longrightarrow> m_Duration m0 \<le> cfg_DurationCeiling cfg"
  proof (rule validE_bind_pure [where R = "\<lambda>_. ?T" and P' = "\<lambda>_ s. fst s = m0"])
    show "validE (\<lambda>s. fst s = m0) (check_targets elig (m_Targets m0)) (\<lambda>_ s. ?T \<and> fst s = m0) (\<lambda>e s. safety_error e)"
      by (rule validE_weaken [OF check_targets_ok [OF assms, where P = "\<lambda>m. m = m0"]]) auto
    fix a :: unit
    assume T: ?T
    show "validE (\<lambda>s. fst s = m0) (bindE (validateSpecNamespaceScope elig)
         (\<lambda>narrowed. bindE (check_tier cfg net) (\<lambda>_. retE narrowed)))
      (\<lambda>_ s. gate_post cfg elig E m0 (fst s)) (\<lambda>e s. safety_error e)"
      by (rule validE_bind [OF validE_weaken [OF validateSpecNamespaceScope_ok [OF assms]]
            validE_bind [OF check_tier_ok [OF T d]]]) (auto intro!: validE_ret_if)
  qed
  with 1 show ?case by (auto intro!: validE_throw_if)
qed

section \<open>Every lease passed the gate\<close>

lemma validE_liftC:
  assumes "validE (\<lambda>s. fst s = m0) c (\<lambda>_ s. Q (fst s)) (\<lambda>e s. E e)"
  shows "validE (\<lambda>s. fr_m s = m0) (liftC c) (\<lambda>_ s. Q (fr_m s)) (\<lambda>e s. E e)"
  unfolding validE_def
proof (intro allI impI)
  fix s :: "'a frame"
  assume m: "fr_m s = m0"
  obtain r m w where c: "c (fr_m s, e_world s) = (r, (m, w))" by (metis surj_pair)
  have "validE (\<lambda>s. fst s = m0) c (\<lambda>_ s. Q (fst s)) (\<lambda>e s. E e)" by (rule assms)
  then have "case c (fr_m s, e_world s) of (Inl e, t) \<Rightarrow> E e | (Inr a, t) \<Rightarrow> Q (fst t)"
    unfolding validE_def using m by (metis fst_conv)
  with c show "case liftC c s of (Inl e, t) \<Rightarrow> E e | (Inr a, t) \<Rightarrow> Q (fr_m t)"
    by (simp add: liftC_def split: sum.splits)
qed

lemma gateE_ok:
  assumes "elig_sound (x_elig x) E"
  shows "validE (\<lambda>s. fr_m s = m) (gateE x m) (\<lambda>_ s. gate_post (x_cfg x) (x_elig x) E m (fr_m s))
    (\<lambda>e s. ee_Stage e = StageSchema \<or> ee_Stage e = StageSafety)"
  unfolding gateE_def rejecting_def
proof (rule validE_onError, rule validE_bind [where R = "\<lambda>_ s. fr_m s = m"])
  have "ee_Stage e = StageSchema" if "validateSchema m = Some e" for e
    using that by (auto simp: validateSchema_def schema_error_def split: if_splits option.splits)
  then show "validE (\<lambda>s. fr_m s = m) (raiseE (validateSchema m)) (\<lambda>_ s. fr_m s = m)
      (\<lambda>e s. ee_Stage e = StageSchema \<or> ee_Stage e = StageSafety)"
    by (auto simp: raiseE_def intro!: validE_ret_if validE_throw_if split: option.split)
  show "validE (\<lambda>s. fr_m s = m) (liftC (validateSafety (x_cfg x) (x_net x) (x_elig x)))
      (\<lambda>_ s. gate_post (x_cfg x) (x_elig x) E m (fr_m s))
      (\<lambda>e s. ee_Stage e = StageSchema \<or> ee_Stage e = StageSafety)" for a :: unit
    by (rule validE_liftC [OF validE_weaken [OF validateSafety_ok [OF assms]]]) auto
qed

text \<open>The registry: leases of \<open>r0\<close>, or leases of the applied fault whose manifest passed the gate.\<close>

definition lease_inv :: "config \<Rightarrow> 'w eligibility \<Rightarrow> string set \<Rightarrow> registry \<Rightarrow> string \<Rightarrow> registry \<Rightarrow> bool" where
  "lease_inv cfg elig E r0 uid r \<longleftrightarrow>
     (\<forall>u af. Get r u = Some af \<longrightarrow> Get r0 u = Some af \<or> u = uid \<and> gated cfg elig E (af_Manifest af))
     \<and> (\<forall>u. u \<noteq> uid \<longrightarrow> Get r u = Get r0 u)"

lemma leasing_lease_inv:
  assumes l: "leasing s t" and g: "gated cfg elig E (fr_m s)" and r: "reg_of s = r0" "m_UID (fr_m s) = uid"
  shows "lease_inv cfg elig E r0 uid (reg_of t)"
  unfolding lease_inv_def
proof (intro conjI allI impI)
  show "Get (reg_of t) u = Get r0 u" if "u \<noteq> uid" for u
    using l r that by (simp add: leasing_def)
  fix u af
  assume a: "Get (reg_of t) u = Some af"
  show "Get r0 u = Some af \<or> u = uid \<and> gated cfg elig E (af_Manifest af)"
  proof (cases "u = uid")
    case True
    with a l r have "Get r0 u = Some af \<or> core (af_Manifest af) = core (fr_m s)" by (auto simp: leasing_def)
    with True g gated_core [of "af_Manifest af" "fr_m s"] show ?thesis by auto
  next
    case False
    with a l r show ?thesis by (simp add: leasing_def)
  qed
qed

lemma apply_fault_leases:
  assumes "elig_sound (x_elig x) E"
  shows "validE (\<lambda>s. reg_of s = r0 \<and> m_UID (fr_m s) = uid) (apply_fault x ctx)
    (\<lambda>_ s. lease_inv (x_cfg x) (x_elig x) E r0 uid (reg_of s))
    (\<lambda>_ s. lease_inv (x_cfg x) (x_elig x) E r0 uid (reg_of s))"
proof -
  let ?I = "\<lambda>s :: 'a frame. reg_of s = r0 \<and> m_UID (fr_m s) = uid"
  let ?G = "\<lambda>s :: 'a frame. ?I s \<and> gated (x_cfg x) (x_elig x) E (fr_m s)"
  let ?L = "\<lambda>s :: 'a frame. lease_inv (x_cfg x) (x_elig x) E r0 uid (reg_of s)"
  have IL: "lease_inv (x_cfg x) (x_elig x) E r0 uid r0" by (simp add: lease_inv_def)
  have gate: "validE (\<lambda>s. ?I s \<and> fr_m s = m) (gateE x m) (\<lambda>_. ?G) (\<lambda>_. ?L)" for m
    by (rule validE_weaken [OF validE_conj [OF evolves_keeps [OF still_gate, where P = ?I] gateE_ok [OF assms]]])
      (auto simp: still_def ident_def gate_post_def IL)
  have res: "validE ?G (rejecting (reserveE x)) (\<lambda>_. ?G) (\<lambda>_. ?L)"
    by (rule validE_reserve) (auto simp: rejected_def add_event_def IL dest!: reserve_ok)
  have tail: "validE ?G (finallyE (run_up x ctx n) release_held) (\<lambda>_. ?L) (\<lambda>_. ?L)" for n
    by (rule evolves_post [OF leasing_tail]) (blast intro: leasing_lease_inv)
  show ?thesis
    by (rule validE_apply_fault [OF _ gate res tail]) (simp add: add_event_def)
qed

section \<open>Every failure is on the record\<close>

text \<open>A stage that cannot fail.\<close>

definition noerr :: "('s, 'e, 'a) em \<Rightarrow> bool" where
  "noerr m \<longleftrightarrow> validE (\<lambda>_. True) m (\<lambda>_ _. True) (\<lambda>_ _. False)"

lemma noerr_prims: "noerr theM" "noerr (askE q)" "noerr (emitE ev r p)" "noerr (modifyE g)" "noerr (retE a)" "noerr (getE f)"
  by (auto simp: noerr_def validE_def theM_def getE_def askE_def emitE_def modifyE_def retE_def split: prod.split)

lemma noerr_bind: "noerr m \<Longrightarrow> (\<And>a. noerr (f a)) \<Longrightarrow> noerr (bindE m f)"
  unfolding noerr_def by (rule validE_bind [where R = "\<lambda>_ _. True"])

lemma noerr_register: "noerr (register_lease x euid dl)"
  unfolding register_lease_def by (intro noerr_bind noerr_prims)

lemma noerr_attach: "noerr (attachDefaultProbes x)"
  by (auto simp: attachDefaultProbes_def Let_def intro!: noerr_bind noerr_prims split: option.split)

lemma noerr_resolve: "noerr (liftC (resolveTargetLabels wl))"
  by (auto simp: noerr_def validE_def liftC_def resolveTargetLabels_def retE_def split: option.split prod.split)

lemma validE_noerr_bind:
  assumes "noerr m" "evolves R m" "\<And>s t. P s \<Longrightarrow> R s t \<Longrightarrow> P' t" "\<And>a. validE P' (f a) Q E"
  shows "validE P (bindE m f) Q E"
proof (rule validE_bind [where R = "\<lambda>_. P'"])
  have "validE (\<lambda>s. P s \<and> True) m (\<lambda>_ s. P' s \<and> True) (\<lambda>_ s. P' s \<and> False)"
    by (rule validE_conj [OF evolves_post [OF assms(2,3)] assms(1) [unfolded noerr_def]])
  then show "validE P m (\<lambda>_. P') E" by (rule validE_weaken) auto
qed (rule assms(4))

text \<open>
  The last event of a failed apply names the fault and the reason; if it is a
  rejection, the registry and the cooldown clocks are as they were.
\<close>

definition ended :: "budget \<Rightarrow> exec_error \<Rightarrow> 'w frame \<Rightarrow> bool" where
  "ended b0 e s \<longleftrightarrow>
     e_audit s \<noteq> [] \<and> ae_FaultUID (last (e_audit s)) = m_UID (fr_m s) \<and> ae_Reason (last (e_audit s)) = ee_Reason e
     \<and> (ae_Event (last (e_audit s)) = EventExecutorRejected
          \<and> b_registry (e_budget s) = b_registry b0 \<and> b_lastApplyByNS (e_budget s) = b_lastApplyByNS b0
        \<or> ae_Event (last (e_audit s)) = EventDriverFailed
          \<and> b_registry (e_budget s) = b_registry b0 \<and> b_lastApplyByNS (e_budget s) = b_lastApplyByNS b0
        \<or> ae_Event (last (e_audit s)) = EventLeaseCleared
          \<and> (Get (reg_of s) (m_UID (fr_m s)) = None
             \<or> map_of (ae_Payload (last (e_audit s))) ''left_to_reaper'' = Some (JBool True)))"

definition untouched :: "budget \<Rightarrow> 'w frame \<Rightarrow> bool" where
  "untouched b0 s \<longleftrightarrow> b_registry (e_budget s) = b_registry b0 \<and> b_lastApplyByNS (e_budget s) = b_lastApplyByNS b0"

lemma untouched_quiet: "untouched b0 s \<Longrightarrow> quiet s t \<Longrightarrow> untouched b0 t"
  by (simp add: untouched_def quiet_def)

lemma ended_rejected: "untouched b0 s \<Longrightarrow> ended b0 e (rejected e s)"
  by (simp add: ended_def rejected_def add_event_def untouched_def)

lemma validE_rejecting:
  assumes "evolves quiet c"
  shows "validE (untouched b0) (rejecting c) (\<lambda>_. untouched b0) (ended b0)"
  unfolding rejecting_def
  by (rule validE_onError, rule validE_weaken [OF evolves_keeps [OF assms, where P = "untouched b0"]])
    (auto intro: untouched_quiet ended_rejected)

lemma ended_abandon: "ended b0 e (abandon x euid e s)"
  by (simp add: abandon_def Let_def ended_def add_event_def split: option.split prod.split)

lemma ended_release: "ended b0 e s \<Longrightarrow> ended b0 e (release_held s)"
  by (simp add: ended_def release_held_def split: option.split)

lemma validE_top: "noerr m \<Longrightarrow> (\<And>a. validE (\<lambda>_. True) (f a) Q E) \<Longrightarrow> validE P (bindE m f) Q E"
  unfolding noerr_def
  by (rule validE_bind [where R = "\<lambda>_ _. True"]) (auto elim!: validE_weaken)

lemma noerr_call_driver: "noerr (call_driver d ctx)"
  unfolding call_driver_def by (intro noerr_bind noerr_prims)

lemma after_apply_ended: "validE (\<lambda>_. True) (after_apply x d details euid) (\<lambda>_ _. True) (ended b0)"
  unfolding after_apply_def Let_def
  by (intro validE_top noerr_prims noerr_register validE_bind [where R = "\<lambda>_ _. True"] validE_onError)
    (auto simp: validE_def ended_abandon modifyE_def retE_def split: prod.split sum.split)

lemma drive_ended: "validE (untouched b0) (drive x ctx d) (\<lambda>_ _. True) (ended b0)"
  unfolding drive_def
proof (rule validE_noerr_bind [OF noerr_call_driver quiet_call_driver, where P' = "untouched b0"], goal_cases)
  case (2 rd)
  have "validE (untouched b0) (driver_failed err :: ('a, string) stage) (\<lambda>_ _. True) (ended b0)" for err
    by (simp add: driver_failed_def validE_def emitE_def modifyE_def bindE_def throwE_def ended_def untouched_def add_event_def)
  moreover have "validE (untouched b0) (after_apply x d (snd rd) euid) (\<lambda>_ _. True) (ended b0)" for euid
    by (rule validE_weaken [OF after_apply_ended]) auto
  ultimately show ?case by (simp split: sum.split)
qed (rule untouched_quiet)

lemma run_up_ended: "validE (untouched b0) (run_up x ctx n) (\<lambda>_ _. True) (ended b0)"
  unfolding run_up_def
  apply (rule validE_noerr_bind [OF noerr_resolve quiet_stages(1) untouched_quiet], assumption, assumption)
  apply (rule validE_bind [OF validE_rejecting [OF quiet_stages(2)]])
  apply (rule validE_noerr_bind [OF noerr_attach quiet_attach untouched_quiet], assumption, assumption)
  apply (rule validE_noerr_bind [OF noerr_prims(1) quiet_theM untouched_quiet], assumption, assumption)
  apply (rule validE_noerr_bind [OF noerr_prims(3) quiet_emit untouched_quiet], assumption, assumption)
  apply (rule validE_bind [OF validE_rejecting [OF quiet_lookup]])
  apply (rule validE_bind [OF validE_rejecting [OF quiet_withExclusions]])
  apply (rule validE_bind [OF validE_rejecting [OF quiet_checks]])
  apply (rule drive_ended)
  done

lemma apply_fault_ended:
  "validE (untouched b0) (apply_fault x ctx) (\<lambda>_ _. True) (ended b0)"
proof (rule validE_apply_fault [where P' = "\<lambda>_. untouched b0" and R = "untouched b0" and S = "untouched b0"])
  have "validE (untouched b0) (bindE (raiseE (validateSchema m)) (\<lambda>_.
      liftC (validateSafety (x_cfg x) (x_net x) (x_elig x)))) (\<lambda>_. untouched b0) (\<lambda>_. untouched b0)" for m
    by (rule evolves_keeps [where R = still])
      (auto simp: still_def untouched_def intro!: st.ev_bind still_quiet_stage [OF quiet_raise] still_liftC kp_validateSafety)
  from validE_weaken [OF this]
  show "validE (\<lambda>s. untouched b0 s \<and> fr_m s = m) (gateE x m) (\<lambda>_. untouched b0) (ended b0)" for m
    unfolding gateE_def rejecting_def by (rule validE_onError) (auto intro: ended_rejected)
  show "validE (untouched b0) (rejecting (reserveE x)) (\<lambda>_. untouched b0) (ended b0)"
    by (rule validE_reserve) (auto simp: untouched_def intro!: ended_rejected dest!: reserve_ok)
  show "validE (untouched b0) (finallyE (run_up x ctx n) release_held) (\<lambda>_ _. True) (ended b0)" for n
    by (rule validE_finally, rule validE_weaken [OF run_up_ended]) (auto intro: ended_release)
qed (simp add: untouched_def add_event_def)


section \<open>A success is leased and verified\<close>

text \<open>The events of the Settle probes: one passing event per probe.\<close>

definition efficacy_pass :: "audit_event \<Rightarrow> bool" where
  "efficacy_pass ev \<longleftrightarrow> ae_Event ev = EventFaultEfficacy \<and> ae_Reason ev = ''''
     \<and> map_of (ae_Payload ev) ''passed'' = Some (JBool True)"

lemma run_probes_pass:
  assumes "run_probes x pb target st ps s = (Inr (), t)" "st_event st = EventFaultEfficacy"
  shows "\<exists>evs. e_audit t = e_audit s @ evs \<and> map (\<lambda>_. ()) evs = map (\<lambda>_. ()) ps \<and> list_all efficacy_pass evs"
  using assms
proof (induction ps arbitrary: s)
  case Nil
  then show ?case by (simp add: retE_def)
next
  case (Cons p ps)
  obtain res w where r: "pb p target (e_world s) = (res, w)" by (cases "pb p target (e_world s)")
  define s1 where "s1 = add_event (st_event st) '''' (probe_payload st (x_cancelled x w) res) (s\<lparr>e_world := w\<rparr>)"
  have ok: "res_Passed res" and run: "run_probes x pb target st ps s1 = (Inr (), t)"
    using Cons.prems r
    by (auto simp: bindE_def askE_def getE_def emitE_def modifyE_def throwE_def s1_def split: if_splits)
  obtain evs where evs: "e_audit t = e_audit s1 @ evs" "map (\<lambda>_. ()) evs = map (\<lambda>_. ()) ps" "list_all efficacy_pass evs"
    using Cons.IH [OF run Cons.prems(2)] by blast
  let ?ev = "fault_event (st_event st) (fr_m s) '''' (probe_payload st (x_cancelled x w) res)"
  have "efficacy_pass ?ev" using ok Cons.prems(2) by (simp add: efficacy_pass_def probe_payload_def)
  moreover have "e_audit s1 = e_audit s @ [?ev]" by (simp add: s1_def add_event_def)
  ultimately show ?case using evs by (intro exI [of _ "?ev # evs"]) simp
qed

lemma settle_pass:
  assumes "settle x s = (Inr (), t)"
  shows "\<exists>evs. e_audit t = e_audit s @ evs \<and> length evs = length (SettleProbes (fr_m s)) \<and> list_all efficacy_pass evs"
proof (cases "SettleProbes (fr_m s) = []")
  case True
  with assms show ?thesis by (simp add: settle_def runProbes_def theM_def bindE_def getE_def retE_def)
next
  case False
  with assms obtain pb st where "run_probes x pb (first_target (fr_m s)) st (SettleProbes (fr_m s)) s = (Inr (), t)"
    "st_event st = EventFaultEfficacy"
    by (fastforce simp: settle_def runProbes_def theM_def bindE_def getE_def throwE_def split: option.splits)
  from run_probes_pass [OF this] show ?thesis by (metis length_map)
qed

text \<open>
  A successful apply leaves the fault leased for its duration, the Settle
  probes of the leased manifest passed as the last events of the log, and the
  fault in the history.
\<close>

definition clock_reading :: "'w exec_env \<Rightarrow> gotime \<Rightarrow> bool" where
  "clock_reading x t \<longleftrightarrow> (\<exists>w w'. x_now x w = (t, w'))"

definition leased_for :: "'w exec_env \<Rightarrow> string \<Rightarrow> fault_manifest \<Rightarrow> registry \<Rightarrow> bool" where
  "leased_for x uid m r \<longleftrightarrow>
     (\<exists>af now. Get r uid = Some af \<and> af_FaultUID af = uid \<and> af_Manifest af = m
        \<and> clock_reading x now \<and> af_Deadline af = now + m_Duration m)"

definition settled :: "fault_manifest \<Rightarrow> audit_event list \<Rightarrow> bool" where
  "settled m es \<longleftrightarrow>
     (\<exists>pre evs. es = pre @ evs \<and> length evs = length (SettleProbes m) \<and> list_all efficacy_pass evs)"

definition verified :: "'w exec_env \<Rightarrow> string \<Rightarrow> 'w frame \<Rightarrow> bool" where
  "verified x uid s \<longleftrightarrow>
     uid = m_UID (fr_m s) \<and> leased_for x uid (fr_m s) (reg_of s) \<and> settled (fr_m s) (e_audit s)"

definition leased :: "'w exec_env \<Rightarrow> fault_manifest \<Rightarrow> 'w frame \<Rightarrow> bool" where
  "leased x m s \<longleftrightarrow> fr_m s = m \<and> leased_for x (m_UID m) m (reg_of s)"

definition fixed :: "'w frame \<Rightarrow> 'w frame \<Rightarrow> bool" where
  "fixed s t \<longleftrightarrow> fr_m t = fr_m s \<and> reg_of t = reg_of s"

interpretation fx: evolution fixed
  by unfold_locales (simp_all add: fixed_def)

lemma fixed_prims: "evolves fixed theM" "evolves fixed (askE q)" "evolves fixed (emitE ev r p)"
  by (auto simp: evolves_def theM_def getE_def askE_def emitE_def modifyE_def fixed_def add_event_def split: prod.split)

lemma fixed_probes: "evolves fixed (run_probes x pb target st ps)"
  by (induction ps) (auto intro!: fx.ev_rules fixed_prims)

lemma fixed_settle: "evolves fixed (settle x)"
  by (auto simp: settle_def runProbes_def intro!: fx.ev_rules fixed_prims fixed_probes split: option.split)

lemma fixed_confirm: "evolves fixed (confirmInjected x d euid)"
  by (auto simp: confirmInjected_def Let_def intro!: fx.ev_rules fixed_prims split: option.split prod.split)

lemma leased_fixed: "leased x m s \<Longrightarrow> fixed s t \<Longrightarrow> leased x m t"
  by (simp add: leased_def fixed_def)

lemma register_leased:
  "clock_reading x now \<Longrightarrow>
     validE (\<lambda>s. fr_m s = m) (register_lease x euid (now + m_Duration m)) (\<lambda>_. leased x m) (\<lambda>_ _. True)"
  by (auto simp: register_lease_def validE_def bindE_def askE_def modifyE_def release_held_def leased_def leased_for_def
      Register_def Let_def lease_of_def split: prod.split option.split)

lemma settle_verified:
  "validE (leased x m) (settle x) (\<lambda>_ s. leased x m s \<and> settled m (e_audit s)) (\<lambda>_ _. True)"
  unfolding validE_def
proof (intro allI impI)
  fix s :: "'a frame"
  assume l: "leased x m s"
  obtain r t where t: "settle x s = (r, t)" by (cases "settle x s")
  have "leased x m t" using leased_fixed [OF l] fixed_settle [of x] t by (metis evolves_def snd_conv)
  moreover have "settled m (e_audit t)" if "r = Inr ()"
    using settle_pass [of x s t] t l that by (auto simp: leased_def settled_def)
  ultimately show "case settle x s of (Inl e, t) \<Rightarrow> True | (Inr a, t) \<Rightarrow> leased x m t \<and> settled m (e_audit t)"
    using t by (simp split: sum.split)
qed

lemma after_apply_verified:
  "validE (\<lambda>_. True) (after_apply x d details euid) (verified x) (\<lambda>_ _. True)"
  unfolding after_apply_def Let_def
proof (rule validE_bind [where R = "\<lambda>m s. fr_m s = m"], goal_cases)
  case 1
  then show ?case by (simp add: validE_def theM_def getE_def)
next
  case (2 m)
  have now: "validE (\<lambda>s. fr_m s = m) (askE (x_now x)) (\<lambda>now s. clock_reading x now \<and> fr_m s = m) (\<lambda>_ _. True)"
    by (auto simp: validE_def askE_def clock_reading_def split: prod.split)
  have em: "validE (leased x m) (emitE ev r p) (\<lambda>_. leased x m) (\<lambda>_ _. True)" for ev r p
    by (rule validE_weaken [OF evolves_keeps [OF fixed_prims(3), where P = "leased x m"]]) (auto intro: leased_fixed)
  have conf: "validE (leased x m) (confirmInjected x d euid) (\<lambda>_. leased x m) (\<lambda>_ _. True)"
    by (rule validE_weaken [OF evolves_keeps [OF fixed_confirm, where P = "leased x m"]]) (auto intro: leased_fixed)
  have fin: "validE (\<lambda>s. leased x m s \<and> settled m (e_audit s))
      (bindE (modifyE (push_recent now)) (\<lambda>_. retE (m_UID m))) (verified x) (\<lambda>_ _. True)" for now
    by (auto simp: validE_def modifyE_def bindE_def retE_def push_recent_def verified_def leased_def)
  show ?case
    by (rule validE_bind_pure [OF now], rule validE_bind [OF register_leased], assumption, rule validE_bind [OF em],
        rule validE_bind [OF em], rule validE_bind [OF validE_onError [OF validE_bind [OF conf settle_verified]] fin])
qed

lemma validE_any: "validE (\<lambda>_. True) c (\<lambda>_ _. True) (\<lambda>_ _. True)"
  by (simp add: validE_def split: prod.split sum.split)

lemma run_up_verified: "validE (\<lambda>_. True) (run_up x ctx n) (verified x) (\<lambda>_ _. True)"
proof -
  have df: "validE (\<lambda>_. True) (driver_failed err) (verified x) (\<lambda>_ _. True)" for err
    by (simp add: validE_def driver_failed_def emitE_def modifyE_def bindE_def throwE_def)
  show ?thesis
    unfolding run_up_def drive_def
    by (intro validE_bind [OF validE_any]) (simp add: df after_apply_verified split: sum.split)
qed

lemma verified_release: "verified x uid s \<Longrightarrow> verified x uid (release_held s)"
  by (cases "fr_held s") (auto simp: verified_def release_held_def)

lemma apply_fault_verified: "validE (\<lambda>_. True) (apply_fault x ctx) (verified x) (\<lambda>_ _. True)"
proof (rule validE_apply_fault [where P' = "\<lambda>_ _. True" and R = "\<lambda>_. True" and S = "\<lambda>_. True"])
  show "validE (\<lambda>_. True) (finallyE (run_up x ctx n) release_held) (verified x) (\<lambda>_ _. True)" for n
    by (rule validE_finally, rule validE_weaken [OF run_up_verified]) (auto intro: verified_release)
qed (simp_all add: validE_def split: prod.split sum.split)

section \<open>The spec of a lease is scoped\<close>

text \<open>A manifest whose primary selector exists and whose selectors are all scoped stays so
  through the run-up, and so is the spec of the lease.\<close>

definition scoped_manifest :: "string set \<Rightarrow> fault_manifest \<Rightarrow> bool" where
  "scoped_manifest E m \<longleftrightarrow> has_selector (spec_map m) \<and> spec_scoped E m"

definition keeps_pred :: "(fault_manifest \<Rightarrow> bool) \<Rightarrow> fault_manifest \<times> 'w \<Rightarrow> fault_manifest \<times> 'w \<Rightarrow> bool" where
  "keeps_pred Q s t \<longleftrightarrow> (Q (fst s) \<longrightarrow> Q (fst t))"

interpretation kq: evolution "keeps_pred Q" for Q
  by unfold_locales (simp_all add: keeps_pred_def)

lemma keeps_pred_on: "evolves (keeps_on (\<lambda>m. m)) c \<Longrightarrow> evolves (keeps_pred Q) c"
  by (simp add: evolves_def keeps_on_def keeps_pred_def)

lemma scoped_put_labels: "scoped_manifest E m \<Longrightarrow> scoped_manifest E (put_labels l m)"
  using put_labels_scoped by (auto simp: scoped_manifest_def has_selector_def put_labels_def spec_map_def)

lemma kq_query: "evolves (keeps_pred Q) (queryE q)"
  by (rule keeps_pred_on [OF kp_query])

lemma kq_no_exclusions: "evolves (keeps_pred Q) (check_no_exclusions elig msg nss)"
  by (induction nss) (auto intro!: kq.ev_rules kq_query split: sum.split)

lemma kq_check_sites: "evolves (keeps_pred Q) (check_sites elig m ss)"
  by (induction ss) (auto intro!: kq.ev_rules kq_no_exclusions)

lemma kq_narrow: "evolves (keeps_pred (scoped_manifest E)) (narrowPodSelector elig wl)"
  unfolding narrowPodSelector_def checkSecondarySelectors_def narrow_to_targets_def modManifestE_def
  by (auto intro!: kq.ev_rules kq_check_sites kq_no_exclusions simp: keeps_pred_def scoped_put_labels split: prod.split)

lemma kq_resolve: "evolves (keeps_pred (scoped_manifest E)) (resolveTargetLabels wl)"
  by (auto simp: resolveTargetLabels_def evolves_def retE_def keeps_pred_def scoped_manifest_def spec_scoped_def
      spec_map_def split: option.split prod.split)

definition scoping :: "string set \<Rightarrow> 'w frame \<Rightarrow> 'w frame \<Rightarrow> bool" where
  "scoping E s t \<longleftrightarrow>
     (scoped_manifest E (fr_m s) \<longrightarrow>
        scoped_manifest E (fr_m t)
        \<and> (\<forall>u af. Get (reg_of t) u = Some af \<longrightarrow> Get (reg_of s) u = Some af \<or> spec_scoped E (af_Manifest af)))"

interpretation sc: evolution "scoping E" for E
  by unfold_locales (auto simp: scoping_def)

lemma scoping_fixed: "evolves fixed c \<Longrightarrow> evolves (scoping E) c"
  by (auto simp: evolves_def fixed_def scoping_def)

lemma scoping_liftC: "evolves (keeps_pred (scoped_manifest E)) c \<Longrightarrow> evolves (scoping E) (liftC c)"
  by (auto simp: evolves_def liftC_def scoping_def keeps_pred_def split: prod.split) (metis fst_conv snd_conv)

lemma scoping_rejecting: "evolves (scoping E) c \<Longrightarrow> evolves (scoping E) (rejecting c)"
  unfolding rejecting_def
  by (rule sc.ev_onError) (auto simp: rejected_def add_event_def scoping_def)

lemma fixed_exclusions: "evolves fixed (collect_exclusions elig nss byNS)"
  by (induction nss arbitrary: byNS) (auto intro!: fx.ev_rules fixed_prims split: sum.split)

lemma fixed_lookup: "evolves fixed (lookup_driver x)"
  by (auto simp: lookup_driver_def intro!: fx.ev_rules fixed_prims split: option.split)

lemma fixed_withExclusions: "evolves fixed (withExclusions x ctx)"
  by (auto simp: withExclusions_def intro!: fx.ev_rules fixed_prims fixed_exclusions)

lemma fixed_precheck: "evolves fixed (precheck x)"
  by (auto simp: precheck_def runProbes_def intro!: fx.ev_rules fixed_prims fixed_probes split: option.split)

lemma fixed_checks: "evolves fixed (bindE (compatE x) (\<lambda>_. bindE (checkDriverTargets d ctx) (\<lambda>_. precheck x)))"
  by (auto simp: compatE_def raiseE_def checkDriverTargets_def intro!: fx.ev_rules fixed_prims fixed_precheck split: option.split)

lemma fixed_call: "evolves fixed (call_driver d ctx)" and fixed_failed: "evolves fixed (driver_failed err)"
  by (auto simp: call_driver_def driver_failed_def intro!: fx.ev_rules fixed_prims)

lemma scoping_attach: "evolves (scoping E) (attachDefaultProbes x)"
  by (auto simp: evolves_def attachDefaultProbes_def theM_def bindE_def getE_def modifyE_def retE_def Let_def
      scoping_def scoped_manifest_def spec_scoped_def spec_map_def split: option.split)

lemma scoping_release: "scoping E s (release_held s)"
  by (cases "fr_held s") (auto simp: scoping_def release_held_def)

lemma scoping_register: "evolves (scoping E) (register_lease x euid dl)"
  unfolding register_lease_def
  by (intro sc.ev_bind scoping_fixed [OF fixed_prims(2)] sc.ev_modify scoping_release)
    (auto simp: scoping_def Register_def Let_def lease_of_def scoped_manifest_def)

lemma scoping_abandon: "scoping E s (abandon x euid e s)"
  by (simp add: abandon_def Let_def scoping_def add_event_def split: option.split prod.split)

lemma scoping_push: "scoping E s (push_recent now s)"
  by (simp add: push_recent_def scoping_def)

lemmas scoping_fixed_rules =
  fixed_prims [THEN scoping_fixed] fixed_confirm [THEN scoping_fixed] fixed_settle [THEN scoping_fixed]
  fixed_lookup [THEN scoping_fixed] fixed_withExclusions [THEN scoping_fixed] fixed_checks [THEN scoping_fixed]
  fixed_call [THEN scoping_fixed] fixed_failed [THEN scoping_fixed]

lemma scoping_drive: "evolves (scoping E) (drive x ctx d)"
proof -
  have "evolves (scoping E) (after_apply x d details euid)" for details euid
    unfolding after_apply_def Let_def
    by (intro sc.ev_rules scoping_fixed_rules scoping_register scoping_abandon scoping_push)
  then show ?thesis
    unfolding drive_def
    by (intro sc.ev_bind scoping_fixed_rules) (simp add: scoping_fixed_rules split: sum.split)
qed

lemma scoping_tail: "evolves (scoping E) (finallyE (run_up x ctx n) release_held)"
  unfolding run_up_def
  by (intro sc.ev_finally sc.ev_bind scoping_release scoping_drive scoping_rejecting scoping_liftC
      kq_resolve kq_narrow scoping_attach scoping_fixed_rules)

lemma apply_fault_scoped:
  assumes "elig_sound (x_elig x) E" "m_Engine m0 \<notin> set specScopeExempt" "has_selector (spec_map m0)"
  shows "validE (\<lambda>s. reg_of s = r0 \<and> fr_m s = m0) (apply_fault x ctx)
    (\<lambda>_ s. \<forall>u af. Get (reg_of s) u = Some af \<longrightarrow> Get r0 u = Some af \<or> spec_scoped E (af_Manifest af))
    (\<lambda>_ s. \<forall>u af. Get (reg_of s) u = Some af \<longrightarrow> Get r0 u = Some af \<or> spec_scoped E (af_Manifest af))"
proof -
  let ?G = "\<lambda>s :: 'a frame. reg_of s = r0 \<and> scoped_manifest E (fr_m s)"
  let ?L = "\<lambda>s :: 'a frame. \<forall>u af. Get (reg_of s) u = Some af \<longrightarrow> Get r0 u = Some af \<or> spec_scoped E (af_Manifest af)"
  have gate: "validE (\<lambda>s. (reg_of s = r0 \<and> m = m0) \<and> fr_m s = m) (gateE x m) (\<lambda>_. ?G) (\<lambda>_. ?L)" for m
    by (rule validE_weaken [OF validE_conj [OF evolves_keeps [OF still_gate, where P = "\<lambda>s. reg_of s = r0 \<and> m = m0"]
          gateE_ok [OF assms(1)]]])
      (use assms(2,3) in \<open>auto simp: still_def gate_post_def scoped_manifest_def\<close>)
  have res: "validE ?G (rejecting (reserveE x)) (\<lambda>_. ?G) (\<lambda>_. ?L)"
    by (rule validE_reserve) (auto simp: rejected_def add_event_def dest!: reserve_ok)
  have tail: "validE ?G (finallyE (run_up x ctx n) release_held) (\<lambda>_. ?L) (\<lambda>_. ?L)" for n
    by (rule evolves_post [OF scoping_tail [of E]]) (auto simp: scoping_def)
  show ?thesis
    by (rule validE_apply_fault [OF _ gate res tail]) (simp add: add_event_def)
qed

section \<open>The fault's identity and the history\<close>


lemma apply_fault_ident:
  "keepsE (\<lambda>s. ident (fr_m s) = i) (apply_fault x ctx)"
proof (rule validE_apply_fault [where P' = "\<lambda>_ s. ident (fr_m s) = i" and R = "\<lambda>s. ident (fr_m s) = i"
      and S = "\<lambda>s. ident (fr_m s) = i"])
  show "validE (\<lambda>s. ident (fr_m s) = i \<and> fr_m s = m) (gateE x m) (\<lambda>_ s. ident (fr_m s) = i) (\<lambda>_ s. ident (fr_m s) = i)" for m
    by (rule evolves_post [OF still_gate]) (auto simp: still_def)
  show "validE (\<lambda>s. ident (fr_m s) = i) (rejecting (reserveE x)) (\<lambda>_ s. ident (fr_m s) = i) (\<lambda>_ s. ident (fr_m s) = i)"
    by (rule validE_reserve) (simp_all add: rejected_def add_event_def)
  show "validE (\<lambda>s. ident (fr_m s) = i) (finallyE (run_up x ctx n) release_held)
      (\<lambda>_ s. ident (fr_m s) = i) (\<lambda>_ s. ident (fr_m s) = i)" for n
    by (rule evolves_post [OF leasing_tail]) (auto simp: leasing_def core_def ident_def)
qed (simp add: add_event_def)

text \<open>Only the last step of a successful apply writes the history.\<close>

definition hist_same :: "'w frame \<Rightarrow> 'w frame \<Rightarrow> bool" where
  "hist_same s t \<longleftrightarrow> e_history t = e_history s"

interpretation hs: evolution hist_same
  by unfold_locales (simp_all add: hist_same_def)

lemma hist_quiet: "evolves quiet c \<Longrightarrow> evolves hist_same c"
  by (simp add: evolves_def quiet_def hist_same_def)

lemma hist_register: "evolves hist_same (register_lease x euid dl)"
  unfolding register_lease_def
  by (intro hs.ev_bind hist_quiet [OF quiet_ask] hs.ev_modify)
    (simp_all add: hist_same_def release_held_def split: option.split)

lemma hist_abandon: "hist_same s (abandon x euid e s)"
  by (simp add: abandon_def Let_def hist_same_def add_event_def split: option.split prod.split)

text \<open>The entry of a success is the fault of the lease it registered: the manifest, and the
  clock reading its deadline was counted from.\<close>

definition leased_at :: "fault_manifest \<Rightarrow> gotime \<Rightarrow> 'w frame \<Rightarrow> bool" where
  "leased_at m now s \<longleftrightarrow> fr_m s = m \<and>
     (\<exists>af. Get (reg_of s) (m_UID m) = Some af \<and> af_Manifest af = m \<and> af_Deadline af = now + m_Duration m)"

definition pushed :: "'w exec_env \<Rightarrow> history option \<Rightarrow> string \<Rightarrow> 'w frame \<Rightarrow> bool" where
  "pushed x h0 uid s \<longleftrightarrow>
     (\<exists>now af. clock_reading x now \<and> Get (reg_of s) uid = Some af \<and> m_UID (af_Manifest af) = uid
        \<and> af_Deadline af = now + m_Duration (af_Manifest af)
        \<and> e_history s = map_option (Push \<lparr>rf_FaultUID = uid, rf_Manifest = af_Manifest af, rf_AppliedAt = now,
             rf_ClearedAt = 0, rf_ClearReason = ''''\<rparr>) h0)"

abbreviation hist_is :: "history option \<Rightarrow> 'w frame \<Rightarrow> bool" where
  "hist_is h0 s \<equiv> e_history s = h0"

lemma hist_triple: "evolves hist_same c \<Longrightarrow> keepsE (hist_is h0) c"
  by (rule evolves_keeps [where R = hist_same]) (simp_all add: hist_same_def)

lemma register_leased_at:
  "validE (\<lambda>s. fr_m s = m) (register_lease x euid (now + m_Duration m)) (\<lambda>_. leased_at m now) (\<lambda>_ _. True)"
  by (auto simp: register_lease_def validE_def bindE_def askE_def modifyE_def release_held_def leased_at_def
      Register_def Let_def lease_of_def split: prod.split option.split)

lemma leased_at_keeps:
  assumes "evolves fixed c" "evolves hist_same c"
  shows "validE (\<lambda>s. hist_is h0 s \<and> leased_at m now s) c (\<lambda>_ s. hist_is h0 s \<and> leased_at m now s) (\<lambda>_. hist_is h0)"
  by (rule validE_weaken [OF validE_conj [OF hist_triple [OF assms(2), of h0]
        evolves_keeps [OF assms(1), where P = "leased_at m now"]]])
    (auto simp: fixed_def leased_at_def)

lemma after_apply_history:
  "validE (hist_is h0) (after_apply x d details euid) (pushed x h0) (\<lambda>_. hist_is h0)"
  unfolding after_apply_def Let_def
proof (rule validE_bind [where R = "\<lambda>m s. hist_is h0 s \<and> fr_m s = m"], goal_cases)
  case 1
  then show ?case by (simp add: validE_def theM_def getE_def)
next
  case (2 m)
  let ?R = "\<lambda>now (s :: 'a frame). hist_is h0 s \<and> leased_at m now s"
  have now: "validE (\<lambda>s. hist_is h0 s \<and> fr_m s = m) (askE (x_now x))
      (\<lambda>now s. clock_reading x now \<and> hist_is h0 s \<and> fr_m s = m) (\<lambda>_. hist_is h0)"
    by (auto simp: validE_def askE_def clock_reading_def split: prod.split)
  have reg: "validE (\<lambda>s. hist_is h0 s \<and> fr_m s = m) (register_lease x euid (now + m_Duration m)) (\<lambda>_. ?R now) (\<lambda>_. hist_is h0)" for now
    by (rule validE_weaken [OF validE_conj [OF hist_triple [OF hist_register] register_leased_at]]) auto
  have em: "validE (?R now) (emitE ev r p) (\<lambda>_. ?R now) (\<lambda>_. hist_is h0)" for now ev r p
    by (rule leased_at_keeps [OF fixed_prims(3) hist_quiet [OF quiet_emit]])
  have inj: "validE (?R now) (onErrorE (bindE (confirmInjected x d euid) (\<lambda>_. settle x)) (abandon x euid)) (\<lambda>_. ?R now) (\<lambda>_. hist_is h0)" for now
    by (rule validE_onError, rule validE_weaken [OF leased_at_keeps])
      (use hist_abandon in \<open>auto simp: hist_same_def intro!: fx.ev_bind fixed_confirm fixed_settle hs.ev_bind
          hist_quiet [OF quiet_confirm] hist_quiet [OF quiet_settle]\<close>)
  have fin: "validE (?R now) (bindE (modifyE (push_recent now)) (\<lambda>_. retE (m_UID m))) (pushed x h0) (\<lambda>_. hist_is h0)"
    if "clock_reading x now" for now
    using that
    by (auto simp: validE_def modifyE_def bindE_def retE_def push_recent_def pushed_def leased_at_def)
  show ?case
    by (rule validE_bind_pure [OF now], rule validE_bind [OF reg], rule validE_bind [OF em], rule validE_bind [OF em],
        rule validE_bind [OF inj fin])
qed

lemma apply_fault_history:
  "validE (hist_is h0) (apply_fault x ctx) (pushed x h0) (\<lambda>_. hist_is h0)"
proof (rule validE_apply_fault [where P' = "\<lambda>_. hist_is h0" and R = "hist_is h0" and S = "hist_is h0"])
  show "validE (\<lambda>s. hist_is h0 s \<and> fr_m s = m) (gateE x m) (\<lambda>_. hist_is h0) (\<lambda>_. hist_is h0)" for m
    by (rule evolves_post [OF still_gate]) (simp add: still_def)
  show "validE (hist_is h0) (rejecting (reserveE x)) (\<lambda>_. hist_is h0) (\<lambda>_. hist_is h0)"
    by (rule validE_reserve) (simp_all add: rejected_def add_event_def)
  have df: "validE (hist_is h0) (driver_failed err :: ('a, string) stage) (pushed x h0) (\<lambda>_. hist_is h0)" for err
    by (simp add: validE_def driver_failed_def emitE_def modifyE_def bindE_def throwE_def add_event_def)
  have st: "keepsE (hist_is h0) c" if "evolves quiet c" for c :: "('a, 'b) stage"
    by (rule hist_triple [OF hist_quiet [OF that]])
  have "validE (hist_is h0) (run_up x ctx n) (pushed x h0) (\<lambda>_. hist_is h0)" for n
    unfolding run_up_def drive_def
    by (rule validE_bind [OF st], rule quiet_stages quiet_rejecting quiet_theM quiet_emit quiet_call_driver, (rule quiet_stages)?)+
      (simp add: df after_apply_history split: sum.split)
  then show "validE (hist_is h0) (finallyE (run_up x ctx n) release_held) (pushed x h0) (\<lambda>_. hist_is h0)" for n
    by (rule validE_finally [OF validE_weaken]) (auto simp: pushed_def release_held_def split: option.split)
qed (simp add: add_event_def)

end
