(* ===== verification/Executor_Example.thy ===== *)
theory Executor_Example
  imports Executor_Facts
begin

text \<open>
  A small cluster on which the executor's guarantees are exercised: one
  eligible namespace with one excluded workload, a Chaos Mesh driver that
  accepts every fault, a clock that advances when the driver is called, and a
  prober that answers as it is told.  The run of an apply on it is worked out
  stage by stage.
\<close>

section \<open>The cluster\<close>

definition demo_driver :: "int chaos_driver" where
  "demo_driver =
     \<lparr>d_Engine = EngineChaosMesh, d_Apply = (\<lambda>_ _ w. (Inr ''cm-1'', [], w + 1)), d_Clear = (\<lambda>_ w. (None, w)),
      d_Confirm = None, d_CheckTargets = None, d_ReapExpired = None, d_ListLive = None\<rparr>"

definition demo_elig :: "int eligibility" where
  "demo_elig = StaticEligibility \<lparr>se_Eligible = [(''shop'', True)], se_Exclusions = [(''shop'', [''db''])]\<rparr>"

definition demo_prober :: "bool \<Rightarrow> int prober" where
  "demo_prober ok p t w =
     (\<lparr>res_Name = p_Name p, res_Type = p_Type p, res_Passed = ok, res_Observed = '''', res_Expected = '''',
       res_Attempts = 1, res_Elapsed = 0, res_Err = None\<rparr>, w)"

definition demo_env :: "bool \<Rightarrow> int exec_env" where
  "demo_env ok =
     \<lparr>x_cfg = DefaultConfig, x_net = \<lparr>net_ParseIP = (\<lambda>_. None), net_ParseCIDR = (\<lambda>_. None)\<rparr>,
      x_drivers = [(EngineChaosMesh, demo_driver)], x_elig = demo_elig, x_prober = Some (demo_prober ok),
      x_defaultProbes = None, x_workloads = None, x_pods = None, x_now = (\<lambda>w. (w, w)),
      x_cancelled = (\<lambda>_. False), x_newUID = (\<lambda>w. (''u-new'', w))\<rparr>"

definition demo_ctx :: req_ctx where
  "demo_ctx = \<lparr>ctx_Actor = ''ops'', ctx_Excluded = []\<rparr>"

definition demo_probe :: probe_spec where
  "demo_probe = \<lparr>p_Name = ''slow'', p_Type = ''http'', p_Mode = ProbeModeSettle, p_Spec = []\<rparr>"

definition demo_manifest :: fault_manifest where
  "demo_manifest =
     \<lparr>m_UID = ''f1'', m_Source = SourceDirected, m_Engine = EngineChaosMesh,
      m_APIVersion = ''chaos-mesh.org/v1alpha1'', m_ResourceKind = ''PodChaos'',
      m_Spec = Some [(''action'', JStr ''pod-kill''),
                     (k_selector, JObj [(k_labelSelectors, JObj [(''app'', JStr ''web'')])])],
      m_Targets = [\<lparr>t_Namespace = ''shop'', t_Kind = ''Deployment'', t_Name = ''web'', t_Labels = [(''app'', ''web'')]\<rparr>],
      m_Duration = 60 * sec, m_BlastRadiusTier = '''', m_Probes = [demo_probe], m_Rationale = '''',
      m_PlanID = '''', m_Annotations = []\<rparr>"

text \<open>The manifest the gate leaves: its selector narrowed, its tier classified.\<close>

definition demo_sent :: fault_manifest where
  "demo_sent = demo_manifest\<lparr>m_BlastRadiusTier := TierNamespace,
     m_Spec := Some [(''action'', JStr ''pod-kill''),
                     (k_selector, JObj [(k_labelSelectors, JObj [(''app'', JStr ''web'')]),
                                        (k_namespaces, JArr [JStr ''shop''])])]\<rparr>"

definition demo_exec :: "int executor" where
  "demo_exec = New (NewRegistry ''pod-0'') (Some (NewHistory 3)) 5"

section \<open>The stages\<close>

lemma demo_schema: "validateSchema demo_manifest = None"
  by code_simp

lemma demo_safety:
  "validateSafety DefaultConfig \<lparr>net_ParseIP = (\<lambda>_. None), net_ParseCIDR = (\<lambda>_. None)\<rparr> demo_elig (demo_manifest, 5) =
     (Inr [''spec.selector''], (demo_sent, 5))"
  by code_simp

lemma demo_narrow: "narrowPodSelector demo_elig None (demo_sent, 5) = (Inr None, (demo_sent, 5))"
  by code_simp

lemma demo_sent_sel:
  "TargetNamespaces demo_sent = [''shop'']" "SettleProbes demo_sent = [demo_probe]" "SOTProbes demo_sent = []"
  "m_UID demo_sent = ''f1''" "m_Engine demo_sent = EngineChaosMesh" "m_Duration demo_sent = 60 * sec"
  by code_simp+

lemma demo_env_sel:
  "x_cfg (demo_env ok) = DefaultConfig" "x_net (demo_env ok) = \<lparr>net_ParseIP = (\<lambda>_. None), net_ParseCIDR = (\<lambda>_. None)\<rparr>"
  "x_drivers (demo_env ok) = [(EngineChaosMesh, demo_driver)]" "x_elig (demo_env ok) = demo_elig"
  "x_prober (demo_env ok) = Some (demo_prober ok)" "x_defaultProbes (demo_env ok) = None"
  "x_workloads (demo_env ok) = None" "x_pods (demo_env ok) = None" "x_now (demo_env ok) w = (w, w)"
  "x_cancelled (demo_env ok) w = False"
  by (simp_all add: demo_env_def)

lemma demo_driver_sel:
  "d_Apply demo_driver c m w = (Inr ''cm-1'', [], w + 1)" "d_Clear demo_driver u w = (None, w)"
  "d_Confirm demo_driver = None" "d_CheckTargets demo_driver = None"
  by (simp_all add: demo_driver_def)

lemma demo_exclusions: "collect_exclusions demo_elig [''shop''] [] s = (Inr [(''shop'', [''db''])], s)"
  by (simp add: demo_elig_def StaticEligibility_def bindE_def askE_def retE_def)

lemmas demo_simps = demo_env_sel demo_driver_sel demo_sent_sel

lemma run_bind: "m s = (Inr a, t) \<Longrightarrow> f a t = r \<Longrightarrow> bindE m f s = r"
  by (simp add: bindE_def)

lemma run_onError_ok: "m s = (Inr a, t) \<Longrightarrow> onErrorE m h s = (Inr a, t)"
  by (simp add: onErrorE_def)

lemma run_onError: "m s = (Inl e, t) \<Longrightarrow> onErrorE m h s = (Inl e, h e t)"
  by (simp add: onErrorE_def)

text \<open>A frame in which the demo fault stands after the gate.\<close>

definition demo_in :: "int frame \<Rightarrow> int \<Rightarrow> bool" where
  "demo_in s w \<longleftrightarrow> fr_m s = demo_sent \<and> e_world s = w"

lemma demo_gate:
  assumes "fr_m s = demo_manifest" "e_world s = 5"
  shows "gateE (demo_env ok) demo_manifest s = (Inr [''spec.selector''], s\<lparr>fr_m := demo_sent\<rparr>)"
  unfolding gateE_def rejecting_def
  by (rule run_onError_ok, rule run_bind [where a = "()" and t = s])
    (simp_all add: assms demo_schema raiseE_def retE_def liftC_def demo_safety demo_env_sel)

lemma demo_reserve:
  assumes "demo_in s w"
  shows "rejecting (reserveE (demo_env ok)) s =
    (Inr (), s\<lparr>e_budget := book [''shop''] (e_budget s), fr_held := Some [''shop'']\<rparr>)"
  unfolding rejecting_def
  by (rule run_onError_ok)
    (use assms in \<open>simp add: reserveE_def demo_in_def demo_simps reserve_def over_cap_def DefaultConfig_def Let_def\<close>)

lemma demo_run_up:
  assumes "demo_in s 5"
  shows "run_up (demo_env ok) demo_ctx n s =
    drive (demo_env ok) (WithExcludedWorkloads demo_ctx [(''shop'', [''db''])]) demo_driver
      (add_event EventExecutorValidated '''' (validated_payload demo_sent n ([], []) None []) s)" (is "_ = drive _ _ _ ?s'")
proof -
  define s' where "s' = ?s'"
  have s: "fr_m s = demo_sent" "e_world s = 5" "fr_m s' = demo_sent" "e_world s' = 5"
    using assms(1) by (simp_all add: demo_in_def s'_def add_event_def)
  show ?thesis
    unfolding run_up_def
    apply (rule run_bind [where a = "([], [])" and t = s], simp add: liftC_def resolveTargetLabels_def demo_simps retE_def s [symmetric])
    apply (rule run_bind [where a = None and t = s], simp add: rejecting_def onErrorE_def liftC_def demo_env_sel s demo_narrow, simp add: s [symmetric])
    apply (rule run_bind [where a = "[]" and t = s], simp add: attachDefaultProbes_def demo_simps retE_def)
    apply (rule run_bind [where a = demo_sent and t = s], simp add: theM_def getE_def s)
    apply (rule run_bind [where a = "()" and t = s'], simp add: emitE_def modifyE_def s'_def)
    apply (rule run_bind [where a = demo_driver and t = s'],
        simp add: rejecting_def onErrorE_def lookup_driver_def bindE_def theM_def getE_def retE_def s demo_simps)
    apply (rule run_bind [where a = "WithExcludedWorkloads demo_ctx [(''shop'', [''db''])]" and t = s'],
        simp add: rejecting_def onErrorE_def withExclusions_def bindE_def theM_def getE_def retE_def s demo_simps demo_exclusions del: collect_exclusions.simps)
    apply (rule run_bind [where a = "()" and t = s'])
     apply (simp add: rejecting_def onErrorE_def bindE_def theM_def getE_def retE_def s demo_simps compatE_def askE_def raiseE_def
        checkTargetCompat_def checkDriverTargets_def precheck_def runProbes_def)
    apply (simp add: s'_def s)
    done
qed

lemma demo_probe_mode: "demo_prober ok p t w = (fst (demo_prober ok p t w), w)" "res_Passed (fst (demo_prober ok p t w)) = ok"
  "res_Err (fst (demo_prober ok p t w)) = None"
  by (simp_all add: demo_prober_def)

text \<open>The driver stage registers the lease; whether it stays depends on the probe.\<close>

definition demo_lease :: active_fault where
  "demo_lease =
     \<lparr>af_FaultUID = ''f1'', af_EngineUID = ''cm-1'', af_Manifest = demo_sent, af_AppliedAt = 6,
      af_Deadline = 6 + 60 * sec, af_Holder = ''pod-0'', af_LastBeat = 6\<rparr>"

lemma demo_settle:
  assumes "demo_in s w"
  shows "settle (demo_env True) s =
      (Inr (), add_event EventFaultEfficacy '''' (probe_payload
         \<lparr>st_mode = ProbeModeSettle, st_event = EventFaultEfficacy, st_stage = StageProbe,
          st_reason = ReasonProbeFailed, st_unrunnable = ''''\<rparr> False
         (fst (demo_prober True demo_probe (first_target demo_sent) w))) s)"
    and "\<exists>e t. settle (demo_env False) s = (Inl e, t) \<and> fr_m t = fr_m s \<and> e_world t = w
          \<and> e_budget t = e_budget s \<and> ee_Reason e = ReasonProbeFailed"
  using assms
  by (auto simp: settle_def bindE_def theM_def getE_def runProbes_def askE_def emitE_def modifyE_def retE_def throwE_def
      demo_in_def demo_simps demo_prober_def add_event_def probe_why_def)

lemma demo_register:
  assumes "demo_in s 6" "r_holder (reg_of s) = ''pod-0''"
  shows "\<exists>t. register_lease (demo_env ok) ''cm-1'' (6 + 60 * sec) s = (Inr (), t) \<and> demo_in t 6
    \<and> Get (reg_of t) ''f1'' = Some demo_lease"
  using assms
  by (auto simp: register_lease_def bindE_def askE_def modifyE_def release_held_def demo_in_def demo_simps
      Register_def Let_def lease_of_def demo_lease_def split: option.split)

lemma demo_in_event [simp]: "demo_in (add_event ev r p s) w = demo_in s w" "reg_of (add_event ev r p s) = reg_of s"
  by (simp_all add: demo_in_def add_event_def)

lemma demo_confirm: "confirmInjected (demo_env ok) demo_driver u s = (Inr (), s)"
  by (simp add: confirmInjected_def demo_driver_sel retE_def)

lemma demo_after:
  assumes "demo_in s 6" "r_holder (reg_of s) = ''pod-0''"
  obtains t where "demo_in t 6" "Get (reg_of t) ''f1'' = Some demo_lease"
    "after_apply (demo_env ok) demo_driver [] ''cm-1'' s =
       bindE (onErrorE (settle (demo_env ok)) (abandon (demo_env ok) ''cm-1'')) (\<lambda>_.
         bindE (modifyE (push_recent 6)) (\<lambda>_. retE ''f1'')) t"
proof -
  obtain t where t: "register_lease (demo_env ok) ''cm-1'' (6 + 60 * sec) s = (Inr (), t)" "demo_in t 6"
    "Get (reg_of t) ''f1'' = Some demo_lease"
    using demo_register [OF assms] by blast
  from assms have s: "fr_m s = demo_sent" "e_world s = 6" by (simp_all add: demo_in_def)
  let ?t = "add_event EventLeaseRegistered '''' [] (add_event EventDriverApplied ''''
     (applied_payload demo_sent ''cm-1'' (6 + 60 * sec) (verifiedBy demo_driver demo_sent) []) t)"
  have "bindE (confirmInjected (demo_env ok) demo_driver ''cm-1'') (\<lambda>_. settle (demo_env ok)) = settle (demo_env ok)"
    by (simp add: fun_eq_iff bindE_def demo_confirm)
  then have "after_apply (demo_env ok) demo_driver [] ''cm-1'' s =
       bindE (onErrorE (settle (demo_env ok)) (abandon (demo_env ok) ''cm-1'')) (\<lambda>_.
         bindE (modifyE (push_recent 6)) (\<lambda>_. retE ''f1'')) ?t"
    unfolding after_apply_def Let_def
    apply (intro run_bind [where a = demo_sent and t = s], simp add: theM_def getE_def s)
    apply (rule run_bind [where a = 6 and t = s], simp add: askE_def s demo_simps)
    apply (simp only: demo_sent_sel, rule run_bind [where a = "()" and t = t], rule t(1))
    apply (rule run_bind, simp add: emitE_def modifyE_def, rule run_bind, simp add: emitE_def modifyE_def, rule refl)
    done
  with that [of ?t] t(2,3) show ?thesis by simp
qed

lemma demo_drive_start:
  assumes "demo_in s 5"
  shows "drive (demo_env ok) c demo_driver s = after_apply (demo_env ok) demo_driver [] ''cm-1'' (s\<lparr>e_world := 6\<rparr>)"
  using assms
  by (simp add: drive_def call_driver_def bindE_def theM_def getE_def askE_def demo_in_def demo_simps)

lemma demo_drive_ok:
  assumes "demo_in s 5" "r_holder (reg_of s) = ''pod-0''"
  shows "\<exists>t. drive (demo_env True) c demo_driver s = (Inr ''f1'', t) \<and> Get (reg_of t) ''f1'' = Some demo_lease"
proof -
  from assms have "demo_in (s\<lparr>e_world := 6\<rparr>) 6" "r_holder (reg_of (s\<lparr>e_world := 6\<rparr>)) = ''pod-0''"
    by (simp_all add: demo_in_def)
  from demo_after [OF this, of True] obtain t where t: "demo_in t 6" "Get (reg_of t) ''f1'' = Some demo_lease"
    "after_apply (demo_env True) demo_driver [] ''cm-1'' (s\<lparr>e_world := 6\<rparr>) =
       bindE (onErrorE (settle (demo_env True)) (abandon (demo_env True) ''cm-1'')) (\<lambda>_.
         bindE (modifyE (push_recent 6)) (\<lambda>_. retE ''f1'')) t" by blast
  with demo_settle(1) [OF t(1)] show ?thesis
    by (simp add: demo_drive_start [OF assms(1)] bindE_def onErrorE_def modifyE_def retE_def push_recent_def)
qed

lemma demo_drive_failed:
  assumes "demo_in s 5" "r_holder (reg_of s) = ''pod-0''"
  shows "\<exists>e t. drive (demo_env False) c demo_driver s = (Inl e, t) \<and> ee_Reason e = ReasonProbeFailed"
proof -
  from assms have "demo_in (s\<lparr>e_world := 6\<rparr>) 6" "r_holder (reg_of (s\<lparr>e_world := 6\<rparr>)) = ''pod-0''"
    by (simp_all add: demo_in_def)
  from demo_after [OF this, of False] obtain t where t: "demo_in t 6"
    "after_apply (demo_env False) demo_driver [] ''cm-1'' (s\<lparr>e_world := 6\<rparr>) =
       bindE (onErrorE (settle (demo_env False)) (abandon (demo_env False) ''cm-1'')) (\<lambda>_.
         bindE (modifyE (push_recent 6)) (\<lambda>_. retE ''f1'')) t" by blast
  with demo_settle(2) [OF t(1)] show ?thesis
    by (auto simp: demo_drive_start [OF assms(1)] bindE_def onErrorE_def)
qed

text \<open>The whole apply.\<close>

lemma demo_apply_fault:
  assumes "fr_m s = demo_manifest" "e_world s = 5" "r_holder (reg_of s) = ''pod-0''"
  shows "\<exists>t. demo_in t 5 \<and> r_holder (reg_of t) = ''pod-0''
     \<and> (\<forall>ok. apply_fault (demo_env ok) demo_ctx s =
       finallyE (drive (demo_env ok) (WithExcludedWorkloads demo_ctx [(''shop'', [''db''])]) demo_driver) release_held t)"
proof -
  define s1 where "s1 = add_event EventExecutorReceived '''' (withActor demo_ctx (AuditRecord demo_manifest)) s"
  define s2 where "s2 = s1\<lparr>fr_m := demo_sent\<rparr>"
  define s3 where "s3 = s2\<lparr>e_budget := book [''shop''] (e_budget s2), fr_held := Some [''shop'']\<rparr>"
  define s4 where "s4 = add_event EventExecutorValidated '''' (validated_payload demo_sent [''spec.selector''] ([], []) None []) s3"
  have s: "fr_m s1 = demo_manifest" "e_world s1 = 5" "demo_in s2 5" "demo_in s3 5" "demo_in s4 5" "r_holder (reg_of s4) = ''pod-0''"
    using assms by (simp_all add: s1_def s2_def s3_def s4_def demo_in_def add_event_def)
  have "apply_fault (demo_env ok) demo_ctx s =
       finallyE (drive (demo_env ok) (WithExcludedWorkloads demo_ctx [(''shop'', [''db''])]) demo_driver) release_held s4" for ok
    unfolding apply_fault_def
    apply (rule run_bind [where a = demo_manifest and t = s], simp add: theM_def getE_def assms)
    apply (rule run_bind [where a = "()" and t = s1], simp add: emitE_def modifyE_def s1_def)
    apply (rule run_bind [where a = "[''spec.selector'']" and t = s2], simp add: demo_gate s s2_def)
    apply (rule run_bind [where a = "()" and t = s3], simp add: demo_reserve [OF s(3)] s3_def)
    apply (simp add: finallyE_def demo_run_up [OF s(4)] s4_def)
    done
  with s show ?thesis by (intro exI [of _ s4]) simp
qed

end
