(* ===== verification/Executor_Guarantees.thy ===== *)
theory Executor_Guarantees
  imports Executor_Example
begin

text \<open>
  What the callers of \<^verbatim>\<open>Executor.Apply\<close> and \<^verbatim>\<open>Executor.Clear\<close> can rely on, for every
  driver, eligibility checker, prober and clock.  The lemmas of
  \<^verbatim>\<open>Executor_Facts\<close> speak of the frame of one apply; here they are carried to the
  executor, through \<^verbatim>\<open>Apply\<close>'s own last step, the record of the refusal.
\<close>

section \<open>From the frame to the executor\<close>

lemma with_uid_manifest:
  "with_uid x m w = (m', w') \<Longrightarrow> \<exists>u. m' = m\<lparr>m_UID := u\<rparr> \<and> (m_UID m \<noteq> '''' \<longrightarrow> u = m_UID m)"
  by (auto simp: with_uid_def split: if_splits prod.splits)

lemma to_frame_sel [simp]:
  "e_budget (to_frame e m) = e_budget e" "e_history (to_frame e m) = e_history e" "e_audit (to_frame e m) = e_audit e"
  "e_world (to_frame e m) = e_world e" "fr_m (to_frame e m) = m" "fr_held (to_frame e m) = None"
  by (simp_all add: to_frame_def executor.defs frame.defs)

lemma truncate_sel [simp]:
  "e_budget (executor.truncate s) = e_budget s" "e_history (executor.truncate s) = e_history s"
  "e_audit (executor.truncate s) = e_audit s" "e_world (executor.truncate s) = e_world s"
  by (simp_all add: executor.defs)

lemma record_refusal_sel [simp]:
  "e_budget (record_refusal x m e s) = e_budget s" "e_audit (record_refusal x m e s) = e_audit s"
  "fr_m (record_refusal x m e s) = fr_m s"
  by (simp_all add: record_refusal_def split: option.split prod.split)

text \<open>An apply is a run of the pipeline on the manifest with its UID; a failed one ends with
  the record of the refusal.\<close>

lemma Apply_run:
  assumes run: "Apply x ctx m0 e = (r, e')" and v: "validE P (apply_fault x ctx) Q F"
    and start: "\<And>m w. with_uid x m0 (e_world e) = (m, w) \<Longrightarrow> P (to_frame (e\<lparr>e_world := w\<rparr>) m)"
  obtains (success) a s where "r = Inr a" "Q a s" "e' = executor.truncate s"
  | (failed) err s m w where "r = Inl err" "F err s" "with_uid x m0 (e_world e) = (m, w)"
      "e' = executor.truncate (record_refusal x m err s)"
proof -
  obtain m w where mw: "with_uid x m0 (e_world e) = (m, w)" by force
  define f where "f = to_frame (e\<lparr>e_world := w\<rparr>) m"
  obtain q s where q: "apply_fault x ctx f = (q, s)" by force
  have "P f" using start [OF mw] by (simp add: f_def)
  with v q have post: "case q of Inl err \<Rightarrow> F err s | Inr a \<Rightarrow> Q a s"
    by (auto simp: validE_def split: sum.split dest!: spec [of _ f])
  from run mw q have "(r, e') = (case q of Inl err \<Rightarrow> (q, executor.truncate (record_refusal x m err s))
      | Inr a \<Rightarrow> (q, executor.truncate s))"
    by (auto simp: Apply_def onErrorE_def f_def split: sum.split)
  with post mw that show ?thesis by (cases q) auto
qed

lemma Apply_failed:
  assumes "Apply x ctx m0 e = (Inl err, e')"
  obtains m w s where "with_uid x m0 (e_world e) = (m, w)"
    "apply_fault x ctx (to_frame (e\<lparr>e_world := w\<rparr>) m) = (Inl err, s)"
    "e' = executor.truncate (record_refusal x m err s)"
  using assms by (auto simp: Apply_def onErrorE_def split: prod.splits sum.splits)

section \<open>The example applied\<close>

lemma demo_start: "with_uid (demo_env ok) demo_manifest (e_world demo_exec) = (demo_manifest, 5)"
  by (simp add: with_uid_def demo_manifest_def demo_exec_def New_def)

lemma demo_same: "demo_exec\<lparr>e_world := 5\<rparr> = demo_exec"
  by (simp add: demo_exec_def New_def)

lemma demo_apply_start:
  "\<exists>t. demo_in t 5 \<and> r_holder (reg_of t) = ''pod-0''
     \<and> (\<forall>ok. apply_fault (demo_env ok) demo_ctx (to_frame demo_exec demo_manifest) =
          finallyE (drive (demo_env ok) (WithExcludedWorkloads demo_ctx [(''shop'', [''db''])]) demo_driver) release_held t)"
  by (rule demo_apply_fault) (simp_all add: demo_exec_def New_def NewRegistry_def)

lemma reg_release [simp]: "reg_of (release_held s) = reg_of s"
  by (simp add: release_held_def split: option.split)

lemma demo_Apply_ok:
  "\<exists>e'. Apply (demo_env True) demo_ctx demo_manifest demo_exec = (Inr ''f1'', e')
     \<and> Get (b_registry (e_budget e')) ''f1'' = Some demo_lease"
proof -
  obtain t where t: "demo_in t 5" "r_holder (reg_of t) = ''pod-0''"
    and a: "\<forall>ok. apply_fault (demo_env ok) demo_ctx (to_frame demo_exec demo_manifest) =
       finallyE (drive (demo_env ok) (WithExcludedWorkloads demo_ctx [(''shop'', [''db''])]) demo_driver) release_held t"
    using demo_apply_start by blast
  from demo_drive_ok [OF t] obtain u where
    "drive (demo_env True) (WithExcludedWorkloads demo_ctx [(''shop'', [''db''])]) demo_driver t = (Inr ''f1'', u)"
    "Get (reg_of u) ''f1'' = Some demo_lease" by blast
  then show ?thesis
    by (simp add: Apply_def demo_start demo_same onErrorE_def a finallyE_def)
qed

lemma demo_Apply_failed:
  "\<exists>e e'. Apply (demo_env False) demo_ctx demo_manifest demo_exec = (Inl e, e') \<and> ee_Reason e = ReasonProbeFailed"
proof -
  obtain t where t: "demo_in t 5" "r_holder (reg_of t) = ''pod-0''"
    and a: "\<forall>ok. apply_fault (demo_env ok) demo_ctx (to_frame demo_exec demo_manifest) =
       finallyE (drive (demo_env ok) (WithExcludedWorkloads demo_ctx [(''shop'', [''db''])]) demo_driver) release_held t"
    using demo_apply_start by blast
  from demo_drive_failed [OF t] obtain e u where
    "drive (demo_env False) (WithExcludedWorkloads demo_ctx [(''shop'', [''db''])]) demo_driver t = (Inl e, u)"
    "ee_Reason e = ReasonProbeFailed" by blast
  then show ?thesis
    by (simp add: Apply_def demo_start demo_same onErrorE_def a finallyE_def)
qed

lemma demo_sound: "elig_sound demo_elig {''shop''}"
  by (auto simp: elig_sound_def demo_elig_def StaticEligibility_def split: if_splits)

section \<open>Guarantees\<close>

text \<open>
  C1.  Whatever the outcome of an apply, every lease of the registry after it
  was there before, or is the lease of the applied fault and its manifest
  passed the safety policy: a positive duration under the ceiling, a permitted
  tier, targets in namespaces the eligibility checker answered to be eligible
  that name no excluded workload.  No other fault's lease changes.
\<close>

theorem Apply_leases_gated:
  assumes "elig_sound (x_elig x) E" and run: "Apply x ctx m e = (r, e')"
    and lease: "Get (b_registry (e_budget e')) u = Some af"
  shows "Get (b_registry (e_budget e)) u = Some af
    \<or> 0 < m_Duration (af_Manifest af)
      \<and> (cfg_DurationCeiling (x_cfg x) > 0 \<longrightarrow> m_Duration (af_Manifest af) \<le> cfg_DurationCeiling (x_cfg x))
      \<and> tier_permitted (x_cfg x) (m_BlastRadiusTier (af_Manifest af))
      \<and> (\<forall>t \<in> set (m_Targets (af_Manifest af)).
            t_Namespace t \<in> E \<and> not_excluded (x_elig x) (t_Namespace t) (t_Name t))
      \<and> (m_UID m \<noteq> '''' \<longrightarrow> u = m_UID m)"
proof -
  obtain m' w where mw: "with_uid x m (e_world e) = (m', w)" by force
  from with_uid_manifest [OF mw] have uid: "m_UID m \<noteq> '''' \<longrightarrow> m_UID m' = m_UID m" by auto
  have "lease_inv (x_cfg x) (x_elig x) E (b_registry (e_budget e)) (m_UID m') (b_registry (e_budget e'))"
    by (rule Apply_run [OF run apply_fault_leases [OF assms(1), of "b_registry (e_budget e)" "m_UID m'"]])
      (use mw in auto)
  with lease uid show ?thesis
    by (auto simp: lease_inv_def gated_def)
qed

theorem Apply_leases_gated_witness:
  "\<exists>e'. Apply (demo_env True) demo_ctx demo_manifest demo_exec = (Inr ''f1'', e')
     \<and> Get (b_registry (e_budget e')) ''f1'' = Some demo_lease
     \<and> m_Duration (af_Manifest demo_lease) \<le> 15 * minute
     \<and> tier_permitted DefaultConfig (m_BlastRadiusTier (af_Manifest demo_lease))"
proof -
  obtain e' where e': "Apply (demo_env True) demo_ctx demo_manifest demo_exec = (Inr ''f1'', e')"
    "Get (b_registry (e_budget e')) ''f1'' = Some demo_lease" using demo_Apply_ok by blast
  have "elig_sound (x_elig (demo_env True)) {''shop''}" using demo_sound by (simp add: demo_env_sel)
  from Apply_leases_gated [OF this e'] e' show ?thesis
    by (simp add: demo_exec_def New_def NewRegistry_def Get_def demo_env_sel DefaultConfig_def minute_def sec_def)
qed

text \<open>
  C9.  When the submitted spec has a primary selector and the engine is not
  exempt, every selector in the spec of the lease, which is the spec the driver
  was given, names at least one namespace and only namespaces the checker
  answered to be eligible.
\<close>

theorem Apply_lease_spec_scoped:
  assumes "elig_sound (x_elig x) E" "m_Engine m \<notin> set specScopeExempt" "has_selector (spec_map m)"
    and run: "Apply x ctx m e = (r, e')" and lease: "Get (b_registry (e_budget e')) u = Some af"
  shows "Get (b_registry (e_budget e)) u = Some af
    \<or> (\<forall>s \<in> set (findSelectorSites (spec_map (af_Manifest af))). s_namespaces s \<noteq> [] \<and> set (s_namespaces s) \<subseteq> E)"
proof -
  obtain m' w where mw: "with_uid x m (e_world e) = (m', w)" by force
  from with_uid_manifest [OF mw] assms(2,3) have m': "m_Engine m' \<notin> set specScopeExempt" "has_selector (spec_map m')"
    by (auto simp: spec_map_def)
  show ?thesis
    by (rule Apply_run [OF run apply_fault_scoped [OF assms(1) m', of "b_registry (e_budget e)"]])
      (use mw lease in \<open>auto simp: spec_scoped_def\<close>)
qed

theorem Apply_lease_spec_scoped_witness:
  "\<exists>e'. Apply (demo_env True) demo_ctx demo_manifest demo_exec = (Inr ''f1'', e')
     \<and> Get (b_registry (e_budget e')) ''f1'' = Some demo_lease
     \<and> list_all (\<lambda>s. s_namespaces s \<noteq> [] \<and> set (s_namespaces s) \<subseteq> {''shop''}) (findSelectorSites (spec_map (af_Manifest demo_lease)))"
proof -
  obtain e' where e': "Apply (demo_env True) demo_ctx demo_manifest demo_exec = (Inr ''f1'', e')"
    "Get (b_registry (e_budget e')) ''f1'' = Some demo_lease" using demo_Apply_ok by blast
  have "elig_sound (x_elig (demo_env True)) {''shop''}" using demo_sound by (simp add: demo_env_sel)
  moreover have "m_Engine demo_manifest \<notin> set specScopeExempt" by code_simp
  moreover have "has_selector (spec_map demo_manifest)"
    by (simp add: has_selector_def spec_map_def demo_manifest_def const_defs)
  ultimately show ?thesis using Apply_lease_spec_scoped [OF _ _ _ e'] e'
    by (simp add: demo_exec_def New_def NewRegistry_def Get_def list_all_iff)
qed

text \<open>
  C2.  An apply gives back what it reserved, on every path: afterwards the
  in-flight count and every namespace's in-flight count are what they were.
\<close>

theorem Apply_balances:
  assumes "\<forall>ns. 0 \<le> inFlightIn (e_budget e) ns" and run: "Apply x ctx m e = (r, e')"
  shows "b_inFlight (e_budget e') = b_inFlight (e_budget e) \<and> inFlightIn (e_budget e') = inFlightIn (e_budget e)"
proof -
  have "nonneg (e_budget e)" using assms by (simp add: nonneg_def)
  note v = apply_fault_balanced [OF this, of x ctx]
  show ?thesis
    by (rule Apply_run [OF run v]) (auto simp: balanced_def bal_def)
qed

theorem Apply_balances_witness:
  "\<exists>e e'. Apply (demo_env False) demo_ctx demo_manifest demo_exec = (Inl e, e')
     \<and> b_inFlight (e_budget e') = 0 \<and> inFlightIn (e_budget e') ''shop'' = 0"
proof -
  obtain e e' where a: "Apply (demo_env False) demo_ctx demo_manifest demo_exec = (Inl e, e')"
    using demo_Apply_failed by blast
  have "\<forall>ns. 0 \<le> inFlightIn (e_budget demo_exec) ns" by (simp add: demo_exec_def New_def inFlightIn_def)
  from Apply_balances [OF this a] have "b_inFlight (e_budget e') = 0" "inFlightIn (e_budget e') ''shop'' = inFlightIn (e_budget demo_exec) ''shop''"
    by (simp_all add: demo_exec_def New_def)
  with a show ?thesis by (simp add: demo_exec_def New_def) (simp add: inFlightIn_def)
qed

text \<open>
  C5.  A failed apply is on the record: the last audit event names the fault
  and the error's reason.  A rejection or a driver failure left the registry
  and the cooldown clocks as they were; a fault abandoned after the driver
  accepted it is gone from the registry, or the event says that it is left to
  the reaper.
\<close>

theorem Apply_failure_audited:
  assumes run: "Apply x ctx m e = (Inl err, e')"
  defines "ev \<equiv> last (e_audit e')"
  shows "e_audit e' \<noteq> [] \<and> (m_UID m \<noteq> '''' \<longrightarrow> ae_FaultUID ev = m_UID m) \<and> ae_Reason ev = ee_Reason err
    \<and> ((ae_Event ev = EventExecutorRejected \<or> ae_Event ev = EventDriverFailed)
         \<and> b_registry (e_budget e') = b_registry (e_budget e)
         \<and> b_lastApplyByNS (e_budget e') = b_lastApplyByNS (e_budget e)
       \<or> ae_Event ev = EventLeaseCleared
         \<and> (Get (b_registry (e_budget e')) (ae_FaultUID ev) = None
            \<or> map_of (ae_Payload ev) ''left_to_reaper'' = Some (JBool True)))"
proof -
  obtain m' w where mw: "with_uid x m (e_world e) = (m', w)" by force
  from with_uid_manifest [OF mw] have uid: "m_UID m \<noteq> '''' \<longrightarrow> m_UID m' = m_UID m" by auto
  have "\<exists>s m''. ended (e_budget e) err s \<and> ident (fr_m s) = ident m' \<and> e' = executor.truncate (record_refusal x m'' err s)"
    by (rule Apply_run [OF run validE_conj [OF apply_fault_ended [of "e_budget e"] apply_fault_ident [of "ident m'"]]])
      (use mw in \<open>auto simp: untouched_def\<close>)
  with uid show ?thesis
    unfolding ev_def by (auto simp: ended_def ident_def)
qed

theorem Apply_failure_audited_witness:
  "\<exists>e e'. Apply (demo_env False) demo_ctx demo_manifest demo_exec = (Inl e, e')
     \<and> ae_FaultUID (last (e_audit e')) = ''f1'' \<and> ae_Reason (last (e_audit e')) = ReasonProbeFailed"
proof -
  obtain e e' where a: "Apply (demo_env False) demo_ctx demo_manifest demo_exec = (Inl e, e')" "ee_Reason e = ReasonProbeFailed"
    using demo_Apply_failed by blast
  from Apply_failure_audited [OF a(1)] a show ?thesis by (simp add: demo_manifest_def)
qed

text \<open>
  C6.  A successful apply returns the UID of a fault that is leased, with its
  deadline the fault's duration after a reading of the clock, and that settled:
  the last events of the audit log are the passing verdicts of the Settle probes
  of the leased manifest, one for each.
\<close>

theorem Apply_success_verified:
  assumes run: "Apply x ctx m e = (Inr uid, e')"
  shows "(m_UID m \<noteq> '''' \<longrightarrow> uid = m_UID m)
    \<and> (\<exists>af now pre verdicts. Get (b_registry (e_budget e')) uid = Some af \<and> af_FaultUID af = uid
        \<and> clock_reading x now \<and> af_Deadline af = now + m_Duration (af_Manifest af)
        \<and> e_audit e' = pre @ verdicts \<and> length verdicts = length (SettleProbes (af_Manifest af))
        \<and> list_all efficacy_pass verdicts)"
proof -
  obtain m' w where mw: "with_uid x m (e_world e) = (m', w)" by force
  from with_uid_manifest [OF mw] have u: "m_UID m \<noteq> '''' \<longrightarrow> m_UID m' = m_UID m" by auto
  have "\<exists>s. verified x uid s \<and> ident (fr_m s) = ident m' \<and> e' = executor.truncate s"
    by (rule Apply_run [OF run validE_conj [OF apply_fault_verified apply_fault_ident [of "ident m'"]]])
      (use mw in auto)
  then obtain s where s: "verified x uid s" "ident (fr_m s) = ident m'" "e' = executor.truncate s" by blast
  then obtain af now pre verdicts where "Get (b_registry (e_budget e')) uid = Some af" "af_FaultUID af = uid"
    "af_Manifest af = fr_m s" "clock_reading x now" "af_Deadline af = now + m_Duration (fr_m s)"
    "e_audit e' = pre @ verdicts" "length verdicts = length (SettleProbes (fr_m s))" "list_all efficacy_pass verdicts"
    by (auto simp: verified_def leased_for_def settled_def)
  with s u show ?thesis by (auto simp: verified_def ident_def)
qed

theorem Apply_success_verified_witness:
  "\<exists>e' af. Apply (demo_env True) demo_ctx demo_manifest demo_exec = (Inr ''f1'', e')
     \<and> Get (b_registry (e_budget e')) ''f1'' = Some af \<and> (\<exists>ev \<in> set (e_audit e'). efficacy_pass ev)"
proof -
  obtain e' where a: "Apply (demo_env True) demo_ctx demo_manifest demo_exec = (Inr ''f1'', e')"
    "Get (b_registry (e_budget e')) ''f1'' = Some demo_lease" using demo_Apply_ok by blast
  from Apply_success_verified [OF a(1)] a(2) obtain pre verdicts where
    "e_audit e' = pre @ verdicts" "length verdicts = length (SettleProbes (af_Manifest demo_lease))" "list_all efficacy_pass verdicts"
    by auto
  moreover have "length (SettleProbes (af_Manifest demo_lease)) = 1" by (simp add: demo_lease_def demo_sent_sel)
  ultimately have "\<exists>ev \<in> set (e_audit e'). efficacy_pass ev"
    by (cases verdicts) auto
  with a show ?thesis by blast
qed

text \<open>
  C28.  What an apply leaves in the history.  A success adds one entry, the fault as
  it was leased: its UID and the manifest of the lease the registry then holds, applied
  at the clock reading the lease's deadline was counted from, and not cleared.  A
  failure adds one refusal: the UID and the manifest submitted, with the spec and the
  targets as the failed run left them, and the error's stage, reason and text; or,
  when the error is the budget's, nothing.
\<close>

theorem Apply_history:
  assumes run: "Apply x ctx m0 e = (r, e')"
  shows "case r of
      Inr uid \<Rightarrow> \<exists>now af. clock_reading x now \<and> Get (b_registry (e_budget e')) uid = Some af \<and> m_UID (af_Manifest af) = uid
        \<and> af_Deadline af = now + m_Duration (af_Manifest af)
        \<and> e_history e' = map_option (Push \<lparr>rf_FaultUID = uid, rf_Manifest = af_Manifest af, rf_AppliedAt = now,
             rf_ClearedAt = 0, rf_ClearReason = ''''\<rparr>) (e_history e)
    | Inl err \<Rightarrow> \<exists>m w s.
        with_uid x m0 (e_world e) = (m, w) \<and> apply_fault x ctx (to_frame (e\<lparr>e_world := w\<rparr>) m) = (Inl err, s) \<and>
        (if ee_Reason err = ReasonBudgetExceeded then e_history e' = e_history e
         else \<exists>now. clock_reading x now \<and> e_history e' = map_option (PushRefused
             \<lparr>rx_FaultUID = m_UID m, rx_Manifest = m\<lparr>m_Spec := m_Spec (fr_m s), m_Targets := m_Targets (fr_m s)\<rparr>,
              rx_RefusedAt = now, rx_Stage = ee_Stage err, rx_Reason = ee_Reason err,
              rx_Error = ExecutorError_Error err\<rparr>) (e_history e))"
proof (cases r)
  case (Inr uid)
  with run have ok: "Apply x ctx m0 e = (Inr uid, e')" by simp
  have "\<exists>s. pushed x (e_history e) uid s \<and> e' = executor.truncate s"
    by (cases rule: Apply_run [OF ok apply_fault_history [of "e_history e"]]) auto
  with Inr show ?thesis by (auto simp: pushed_def)
next
  case (Inl err)
  with run have "Apply x ctx m0 e = (Inl err, e')" by simp
  then obtain m w s where mw: "with_uid x m0 (e_world e) = (m, w)"
    and a: "apply_fault x ctx (to_frame (e\<lparr>e_world := w\<rparr>) m) = (Inl err, s)"
    and e': "e' = executor.truncate (record_refusal x m err s)"
    by (rule Apply_failed)
  from apply_fault_history [of "e_history e" x ctx] a have h: "e_history s = e_history e"
    by (auto simp: validE_def to_frame_sel dest!: spec [of _ "to_frame (e\<lparr>e_world := w\<rparr>) m"])
  obtain now w' where now: "x_now x (e_world s) = (now, w')" by force
  then have "clock_reading x now" by (auto simp: clock_reading_def)
  with h now e' have "if ee_Reason err = ReasonBudgetExceeded then e_history e' = e_history e
      else \<exists>now. clock_reading x now \<and> e_history e' = map_option (PushRefused
             \<lparr>rx_FaultUID = m_UID m, rx_Manifest = m\<lparr>m_Spec := m_Spec (fr_m s), m_Targets := m_Targets (fr_m s)\<rparr>,
              rx_RefusedAt = now, rx_Stage = ee_Stage err, rx_Reason = ee_Reason err,
              rx_Error = ExecutorError_Error err\<rparr>) (e_history e)"
    by (auto simp: record_refusal_def refused_manifest_def RefusalWorthRemembering_def split: option.split)
  with Inl mw a show ?thesis by auto
qed

theorem Apply_history_witness:
  "\<exists>e' now. Apply (demo_env True) demo_ctx demo_manifest demo_exec = (Inr ''f1'', e')
     \<and> e_history e' = Some (Push \<lparr>rf_FaultUID = ''f1'', rf_Manifest = af_Manifest demo_lease, rf_AppliedAt = now,
         rf_ClearedAt = 0, rf_ClearReason = ''''\<rparr> (NewHistory 3))"
proof -
  obtain e' where a: "Apply (demo_env True) demo_ctx demo_manifest demo_exec = (Inr ''f1'', e')"
    "Get (b_registry (e_budget e')) ''f1'' = Some demo_lease" using demo_Apply_ok by blast
  from Apply_history [OF a(1)] a show ?thesis by (auto simp: demo_exec_def New_def)
qed

text \<open>
  C29.  A clear fails without effect on the registry and the history when the
  fault is not leased, its engine has no driver or the driver fails.  Otherwise
  it forgets that fault only, records the explicit clear with the actor, and
  stamps the fault's history entry.
\<close>

theorem Clear_effect:
  assumes run: "Clear x ctx uid e = (r, e')"
  shows "(r = None \<longleftrightarrow> (\<exists>af d w. Get (b_registry (e_budget e)) uid = Some af
            \<and> map_of (x_drivers x) (m_Engine (af_Manifest af)) = Some d
            \<and> d_Clear d (af_EngineUID af) (e_world e) = (None, w)))
    \<and> (r \<noteq> None \<longrightarrow> e_budget e' = e_budget e \<and> e_history e' = e_history e \<and> e_audit e' = e_audit e)
    \<and> (r = None \<longrightarrow>
         (\<forall>u. Get (b_registry (e_budget e')) u = (if u = uid then None else Get (b_registry (e_budget e)) u))
         \<and> e_audit e' = e_audit e @ [mk_event EventLeaseCleared uid explicit_clear (withActor ctx [])]
         \<and> (\<forall>h. e_history e = Some h \<longrightarrow>
              (\<exists>now. clock_reading x now \<and> e_history e' = UpdateCleared uid now explicit_clear h)))"
proof -
  have clock: "\<exists>now. clock_reading x now \<and> UpdateCleared uid n explicit_clear h = UpdateCleared uid now explicit_clear h"
    if "x_now x w = (n, w')" for n w w' h
    using that by (auto simp: clock_reading_def)
  show ?thesis
    using run clock by (auto simp: Clear_def Let_def split: option.splits prod.splits)
qed

theorem Clear_effect_witness:
  "\<exists>e e'. Apply (demo_env True) demo_ctx demo_manifest demo_exec = (Inr ''f1'', e)
     \<and> Clear (demo_env True) demo_ctx ''f1'' e = (None, e') \<and> Get (b_registry (e_budget e')) ''f1'' = None"
proof -
  obtain e where a: "Apply (demo_env True) demo_ctx demo_manifest demo_exec = (Inr ''f1'', e)"
    "Get (b_registry (e_budget e)) ''f1'' = Some demo_lease" using demo_Apply_ok by blast
  obtain r e' where c: "Clear (demo_env True) demo_ctx ''f1'' e = (r, e')" by force
  have "r = None"
    using Clear_effect [OF c] a(2) by (simp add: demo_lease_def demo_simps)
  with Clear_effect [OF c] a(1) c show ?thesis by auto
qed

end
