(* ===== verification/Audit_Trail.thy ===== *)
theory Audit_Trail
  imports Audit_Events Fault_History
begin

text \<open>
  Reading the audit trail back: \<^verbatim>\<open>src/pkg/audit/faults.go\<close> and
  \<^verbatim>\<open>faultlog.go\<close>, and the part of \<^verbatim>\<open>src/pkg/executor/history.go\<close> that rebuilds the
  history from it after a restart.  A record is an event with the time it was
  written; the records are folded into one row per fault, and a row gives back
  the manifest, the lease or the history entry it tells of.

  Shown here: a row depends on the records of its own fault only, a fault is
  open exactly when no record closed it, the closing events of a restart close
  every fault left open, and what the executor records of a fault is enough to
  rebuild its manifest and its lease.
\<close>

section \<open>Records and rows\<close>

record audit_record =
  ar_TS :: gotime
  ar_Event :: string
  ar_FaultUID :: string
  ar_PlanID :: string
  ar_ScenarioID :: string
  ar_Mode :: string
  ar_Reason :: string
  ar_Payload :: jobj

definition OutcomeRefused :: string where [const_defs]: "OutcomeRefused = ''refused''"
definition OutcomeDriverFailed :: string where [const_defs]: "OutcomeDriverFailed = ''driver-failed''"
definition OutcomeCleared :: string where [const_defs]: "OutcomeCleared = ''cleared''"
definition OutcomeExpired :: string where [const_defs]: "OutcomeExpired = ''expired''"
definition OutcomeOpen :: string where [const_defs]: "OutcomeOpen = ''open''"

text \<open>
  A row.  \<^verbatim>\<open>requested\<close> is itself a row in the code, of which only the identity and
  the described fields are ever set or read; those are the record \<open>fault_desc\<close>,
  and a row extends it.
\<close>

record fault_desc =
  fd_FaultUID :: string
  fd_PlanID :: string
  fd_Source :: string
  fd_Engine :: string
  fd_Kind :: string
  fd_Targets :: "json list"
  fd_Spec :: "json option"
  fd_Duration :: string
  fd_Tier :: string

record fault_row = fault_desc +
  fw_ScenarioID :: string
  fw_ReceivedAt :: gotime
  fw_RequestedBy :: string
  fw_ClearedBy :: string
  fw_AppliedAt :: gotime
  fw_EngineUID :: string
  fw_Deadline :: string
  fw_Injected :: "bool option"
  fw_Efficacy :: "bool option"
  fw_Recovered :: "bool option"
  fw_Unready :: "string list"
  fw_requested :: "fault_desc option"
  fw_Outcome :: string
  fw_Reason :: string
  fw_EndedAt :: gotime
  fw_Error :: string

definition new_desc :: "string \<Rightarrow> string \<Rightarrow> string \<Rightarrow> fault_desc" where
  "new_desc uid plan source =
     \<lparr>fd_FaultUID = uid, fd_PlanID = plan, fd_Source = source, fd_Engine = [], fd_Kind = [], fd_Targets = [],
      fd_Spec = None, fd_Duration = [], fd_Tier = []\<rparr>"

definition new_row :: "string \<Rightarrow> fault_row" where
  "new_row uid = fault_desc.extend (new_desc uid [] [])
     \<lparr>fw_ScenarioID = [], fw_ReceivedAt = 0, fw_RequestedBy = [], fw_ClearedBy = [], fw_AppliedAt = 0,
      fw_EngineUID = [], fw_Deadline = [], fw_Injected = None, fw_Efficacy = None, fw_Recovered = None,
      fw_Unready = [], fw_requested = None, fw_Outcome = OutcomeOpen, fw_Reason = [], fw_EndedAt = 0,
      fw_Error = []\<rparr>"


section \<open>The fold\<close>

text \<open>\<^verbatim>\<open>if s, ok := p[k].(string); ok { f = s }\<close>.\<close>

definition or_keep :: "'a option \<Rightarrow> 'a \<Rightarrow> 'a" where
  "or_keep v old = (case v of Some x \<Rightarrow> x | None \<Rightarrow> old)"

lemma or_keep_simps [simp]: "or_keep (Some x) y = x" "or_keep None y = y"
  by (simp_all add: or_keep_def)

definition describe :: "jobj \<Rightarrow> 'a fault_desc_scheme \<Rightarrow> 'a fault_desc_scheme" where
  "describe p d = d\<lparr>
     fd_Engine := or_keep (as_str (map_of p ''engine'')) (fd_Engine d),
     fd_Kind := or_keep (as_str (map_of p ''kind'')) (fd_Kind d),
     fd_Targets := or_keep (as_arr (map_of p ''targets'')) (fd_Targets d),
     fd_Spec := (case map_of p ''spec'' of Some s \<Rightarrow> Some s | None \<Rightarrow> fd_Spec d),
     fd_Duration := or_keep (as_str (map_of p ''duration'')) (fd_Duration d),
     fd_Tier := or_keep (as_str (map_of p ''blast_radius_tier'')) (fd_Tier d)\<rparr>"

definition end_row :: "audit_record \<Rightarrow> string \<Rightarrow> fault_row \<Rightarrow> fault_row" where
  "end_row r outcome row = row\<lparr>fw_Outcome := outcome, fw_Reason := ar_Reason r, fw_EndedAt := ar_TS r,
     fw_Error := or_keep (as_str (map_of (ar_Payload r) ''error'')) (fw_Error row)\<rparr>"

definition ReasonUntrackedAfterRestart :: string where
  [const_defs]: "ReasonUntrackedAfterRestart = ''untracked-after-restart''"

definition left_open :: "audit_record \<Rightarrow> bool" where
  "left_open r \<longleftrightarrow> as_bool (map_of (ar_Payload r) ''left_to_reaper'') = Some True
     \<or> ar_Reason r = ''driver-clear-failed''"

definition strings_in :: "json list \<Rightarrow> string list" where
  "strings_in vs = List.map_filter (\<lambda>v. as_str (Some v)) vs"

definition expire_row :: "audit_record \<Rightarrow> fault_row \<Rightarrow> fault_row" where
  "expire_row r row =
     (let row' = end_row r OutcomeExpired row
      in if ar_Reason r = ReasonUntrackedAfterRestart
         then (case parse_rfc3339 (fw_Deadline row) of
                 Some d \<Rightarrow> if d < ar_TS r then row'\<lparr>fw_EndedAt := d\<rparr> else row'
               | None \<Rightarrow> row')
         else row')"

definition apply_record :: "audit_record \<Rightarrow> fault_row \<Rightarrow> fault_row" where
  "apply_record r row =
     (let str = (\<lambda>k. str_or_empty (map_of (ar_Payload r) k));
          passed = as_bool (map_of (ar_Payload r) ''passed'')
      in if ar_Event r = EventExecutorReceived then
           (describe (ar_Payload r) row)\<lparr>fw_ReceivedAt := ar_TS r, fw_RequestedBy := str ''actor'',
              fw_requested := Some (describe (ar_Payload r)
                                (new_desc (fd_FaultUID row) (fd_PlanID row) (fd_Source row)))\<rparr>
         else if ar_Event r = EventDriverApplied then
           (describe (ar_Payload r) row)\<lparr>fw_AppliedAt := ar_TS r, fw_EngineUID := str ''engine_uid'',
              fw_Deadline := str ''deadline''\<rparr>
         else if ar_Event r = EventFaultInjected then
           (case passed of Some b \<Rightarrow> row\<lparr>fw_Injected := Some b\<rparr> | None \<Rightarrow> row)
         else if ar_Event r = EventFaultRecovered then
           row\<lparr>fw_Recovered := (case passed of Some b \<Rightarrow> Some b | None \<Rightarrow> fw_Recovered row),
               fw_Unready := fw_Unready row
                 @ (case as_arr (map_of (ar_Payload r) ''unready'') of Some u \<Rightarrow> strings_in u | None \<Rightarrow> [])\<rparr>
         else if ar_Event r = EventFaultEfficacy then
           (case passed of
              Some b \<Rightarrow> if fw_Efficacy row = None \<or> \<not> b then row\<lparr>fw_Efficacy := Some b\<rparr> else row
            | None \<Rightarrow> row)
         else if ar_Event r = EventExecutorRejected then end_row r OutcomeRefused row
         else if ar_Event r = EventDriverFailed then end_row r OutcomeDriverFailed row
         else if ar_Event r = EventLeaseCleared then
           (if left_open r then row else (end_row r OutcomeCleared row)\<lparr>fw_ClearedBy := str ''actor''\<rparr>)
         else if ar_Event r = EventLeaseExpired then expire_row r row
         else row)"

text \<open>What one record of the fault does to its row: the identity is taken from the first
  record that has it.\<close>

definition row_step :: "audit_record \<Rightarrow> fault_row \<Rightarrow> fault_row" where
  "row_step r row = apply_record r (row\<lparr>
     fd_PlanID := (if fd_PlanID row = [] then ar_PlanID r else fd_PlanID row),
     fw_ScenarioID := (if fw_ScenarioID row = [] then ar_ScenarioID r else fw_ScenarioID row),
     fd_Source := (if fd_Source row = [] then ar_Mode r else fd_Source row)\<rparr>)"

type_synonym faults_state = "fault_row gomap \<times> string list"

definition fold_record :: "audit_record \<Rightarrow> faults_state \<Rightarrow> faults_state" where
  "fold_record r st =
     (if ar_FaultUID r = [] then st
      else case st of (byUID, order) \<Rightarrow>
        (case map_of byUID (ar_FaultUID r) of
           Some row \<Rightarrow> (AList.update (ar_FaultUID r) (row_step r row) byUID, order)
         | None \<Rightarrow> (AList.update (ar_FaultUID r) (row_step r (new_row (ar_FaultUID r))) byUID,
                    order @ [ar_FaultUID r])))"

definition Faults :: "audit_record list \<Rightarrow> fault_row list" where
  "Faults records =
     (case fold fold_record records ([], []) of
        (byUID, order) \<Rightarrow> map (\<lambda>uid. the (map_of byUID uid)) order)"

section \<open>Reading rows\<close>

definition Since :: "fault_row list \<Rightarrow> gotime \<Rightarrow> fault_row list" where
  "Since rows t = filter (\<lambda>r.
     let first = (if fw_ReceivedAt r = 0 then fw_AppliedAt r else fw_ReceivedAt r)
     in first = 0 \<or> \<not> first < t) rows"

definition closing_record :: "gotime \<Rightarrow> fault_row \<Rightarrow> audit_record" where
  "closing_record now r =
     \<lparr>ar_TS = now, ar_Event = EventLeaseExpired, ar_FaultUID = fd_FaultUID r, ar_PlanID = fd_PlanID r,
      ar_ScenarioID = fw_ScenarioID r, ar_Mode = fd_Source r, ar_Reason = ReasonUntrackedAfterRestart,
      ar_Payload = [(''engine_uid'', JStr (fw_EngineUID r)), (''deadline'', JStr (fw_Deadline r))]
        @ (case parse_rfc3339 (fw_Deadline r) of
             Some d \<Rightarrow> if d > now then [(''still_running'', JBool True)] else []
           | None \<Rightarrow> [])\<rparr>"

definition needs_closing :: "fault_row \<Rightarrow> bool" where
  "needs_closing r \<longleftrightarrow> fw_Outcome r = OutcomeOpen \<and> fw_AppliedAt r \<noteq> 0"

definition ClosingEvents :: "fault_row list \<Rightarrow> gotime \<Rightarrow> audit_record list" where
  "ClosingEvents rows now = sort_key ar_FaultUID (map (closing_record now) (filter needs_closing rows))"

text \<open>
  \<^verbatim>\<open>json.Unmarshal\<close> into a \<^verbatim>\<open>TargetRef\<close>: the keys of the object in the order
  \<^verbatim>\<open>json.Marshal\<close> wrote them, each assigned to the field it names, exactly or but
  for the case of ASCII letters; null leaves a field alone, a value of another
  type is an error, other keys are ignored.
\<close>

definition decode_str :: "json \<Rightarrow> string \<Rightarrow> string option" where
  "decode_str v old = (case v of JStr s \<Rightarrow> Some s | JNull \<Rightarrow> Some old | _ \<Rightarrow> None)"

fun decode_labels :: "jobj \<Rightarrow> string gomap \<Rightarrow> string gomap option" where
  "decode_labels [] l = Some l"
| "decode_labels ((k, v) # m) l =
     (case decode_str v [] of None \<Rightarrow> None | Some s \<Rightarrow> decode_labels m (AList.update k s l))"

definition decode_entry :: "string \<times> json \<Rightarrow> target_ref \<Rightarrow> target_ref option" where
  "decode_entry e t =
     (case e of (k, v) \<Rightarrow>
        if equal_fold k ''namespace'' then map_option (\<lambda>s. t\<lparr>t_Namespace := s\<rparr>) (decode_str v (t_Namespace t))
        else if equal_fold k ''kind'' then map_option (\<lambda>s. t\<lparr>t_Kind := s\<rparr>) (decode_str v (t_Kind t))
        else if equal_fold k ''name'' then map_option (\<lambda>s. t\<lparr>t_Name := s\<rparr>) (decode_str v (t_Name t))
        else if equal_fold k ''labels'' then
          (case v of
             JObj m \<Rightarrow> map_option (\<lambda>l. t\<lparr>t_Labels := l\<rparr>) (decode_labels m (t_Labels t))
           | JNull \<Rightarrow> Some (t\<lparr>t_Labels := []\<rparr>)
           | _ \<Rightarrow> None)
        else Some t)"

fun decode_entries :: "jobj \<Rightarrow> target_ref \<Rightarrow> target_ref option" where
  "decode_entries [] t = Some t"
| "decode_entries (e # es) t = (case decode_entry e t of None \<Rightarrow> None | Some t' \<Rightarrow> decode_entries es t')"

definition decode_target :: "json \<Rightarrow> target_ref option" where
  "decode_target v =
     (case v of
        JObj m \<Rightarrow> decode_entries (sort_key fst m) (target_in [])
      | JNull \<Rightarrow> Some (target_in [])
      | _ \<Rightarrow> None)"

fun decode_targets :: "json list \<Rightarrow> target_ref list option" where
  "decode_targets [] = Some []"
| "decode_targets (v # vs) =
     (case decode_target v of
        None \<Rightarrow> None
      | Some t \<Rightarrow> map_option ((#) t) (decode_targets vs))"

definition Manifest :: "'a fault_desc_scheme \<Rightarrow> fault_manifest option" where
  "Manifest r =
     (case decode_targets (fd_Targets r) of
        None \<Rightarrow> None
      | Some targets \<Rightarrow>
          if targets = [] \<or> fd_Kind r = [] then None
          else Some (empty_manifest\<lparr>m_UID := fd_FaultUID r, m_Source := fd_Source r, m_Engine := fd_Engine r,
                 m_ResourceKind := fd_Kind r, m_Spec := as_obj (fd_Spec r), m_Targets := targets,
                 m_Duration := or_keep (parse_duration (fd_Duration r)) 0,
                 m_BlastRadiusTier := fd_Tier r, m_PlanID := fd_PlanID r\<rparr>))"

definition RequestedManifest :: "fault_row \<Rightarrow> fault_manifest option" where
  "RequestedManifest r =
     (case fw_requested r of
        None \<Rightarrow> Manifest r
      | Some req \<Rightarrow> Manifest (req\<lparr>fd_PlanID := fd_PlanID r, fd_Source := fd_Source r\<rparr>))"

definition ActiveFault :: "fault_row \<Rightarrow> gotime \<Rightarrow> active_fault option" where
  "ActiveFault r now =
     (if fw_Outcome r \<noteq> OutcomeOpen \<or> fw_AppliedAt r = 0 \<or> fw_EngineUID r = [] \<or> fd_Engine r = [] then None
      else case parse_rfc3339 (fw_Deadline r) of
             None \<Rightarrow> None
           | Some deadline \<Rightarrow>
               if \<not> deadline > now then None
               else map_option (\<lambda>m. \<lparr>af_FaultUID = fd_FaultUID r, af_EngineUID = fw_EngineUID r,
                      af_Manifest = m, af_AppliedAt = fw_AppliedAt r, af_Deadline = deadline,
                      af_Holder = [], af_LastBeat = 0\<rparr>) (Manifest r))"


section \<open>The history of a restarted controller\<close>

definition backedOutReasons :: "string list" where
  "backedOutReasons = [ReasonInjectionFailed, ReasonProbeFailed, ReasonCannotGate, ReasonProbeNotConfigured]"

definition backedOut :: "fault_row \<Rightarrow> bool" where
  "backedOut r \<longleftrightarrow> fw_Outcome r = OutcomeCleared \<and> fw_Reason r \<in> set backedOutReasons"

definition refusal_of :: "gotime \<Rightarrow> fault_row \<Rightarrow> refused_fault option" where
  "refusal_of since r =
     (if fw_Outcome r \<noteq> OutcomeRefused \<and> fw_Outcome r \<noteq> OutcomeDriverFailed \<and> \<not> backedOut r then None
      else if fw_Reason r = ReasonBudgetExceeded \<or> fw_EndedAt r < since then None
      else map_option (\<lambda>m. \<lparr>rx_FaultUID = fd_FaultUID r, rx_Manifest = m, rx_RefusedAt = fw_EndedAt r,
             rx_Stage = [], rx_Reason = fw_Reason r, rx_Error = fw_Error r\<rparr>) (RequestedManifest r))"

definition RefusalsFromAudit :: "fault_row list \<Rightarrow> gotime \<Rightarrow> refused_fault list" where
  "RefusalsFromAudit rows since = sort_key rx_RefusedAt (List.map_filter (refusal_of since) rows)"

definition recent_of :: "gotime \<Rightarrow> gotime \<Rightarrow> fault_row \<Rightarrow> recent_fault option" where
  "recent_of since now r =
     (if fw_AppliedAt r = 0 \<or> fw_AppliedAt r < since \<or> backedOut r then None
      else map_option (\<lambda>m.
        let rf = \<lparr>rf_FaultUID = fd_FaultUID r, rf_Manifest = m, rf_AppliedAt = fw_AppliedAt r,
                  rf_ClearedAt = 0, rf_ClearReason = []\<rparr>
        in if fw_Outcome r \<noteq> OutcomeOpen then rf\<lparr>rf_ClearedAt := fw_EndedAt r, rf_ClearReason := fw_Reason r\<rparr>
           else case parse_rfc3339 (fw_Deadline r) of
                  Some d \<Rightarrow> if \<not> d > now then rf\<lparr>rf_ClearedAt := d, rf_ClearReason := ReasonUntrackedAfterRestart\<rparr>
                            else rf
                | None \<Rightarrow> rf) (Manifest r))"

definition RecentFromAudit :: "fault_row list \<Rightarrow> gotime \<Rightarrow> gotime \<Rightarrow> recent_fault list" where
  "RecentFromAudit rows since now = sort_key rf_AppliedAt (List.map_filter (recent_of since now) rows)"


section \<open>The in-memory log\<close>

text \<open>
  A payload as \<^verbatim>\<open>json.Marshal\<close> and \<^verbatim>\<open>json.Unmarshal\<close> return it: integers become
  float64 numbers, exact up to \<open>2 ^ 53\<close> in absolute value and rounded to 53
  significant bits, half to even, above.
\<close>

definition round_half_even :: "int \<Rightarrow> int \<Rightarrow> int" where
  "round_half_even a b =
     (let q = a div b; r = a mod b
      in if 2 * r < b then q else if 2 * r > b then q + 1 else if even q then q else q + 1)"

definition float64_of_int :: "int \<Rightarrow> int" where
  "float64_of_int i =
     (let e = 2 ^ length (filter (\<lambda>k. \<bar>i\<bar> \<ge> 2 ^ (53 + k)) [0..<11])
      in sgn i * (round_half_even \<bar>i\<bar> e * e))"

fun json_norm :: "json \<Rightarrow> json" where
  "json_norm (JInt i) = JNum (of_int (float64_of_int i))"
| "json_norm (JArr xs) = JArr (map json_norm xs)"
| "json_norm (JObj m) = JObj (map (\<lambda>p. (fst p, json_norm (snd p))) m)"
| "json_norm v = v"

definition payload_norm :: "jobj \<Rightarrow> jobj" where
  "payload_norm p = map (\<lambda>e. (fst e, json_norm (snd e))) p"

definition record_of :: "gotime \<Rightarrow> audit_event \<Rightarrow> audit_record" where
  "record_of now e =
     \<lparr>ar_TS = now, ar_Event = ae_Event e, ar_FaultUID = ae_FaultUID e, ar_PlanID = ae_PlanID e,
      ar_ScenarioID = ae_ScenarioID e, ar_Mode = ae_Mode e, ar_Reason = ae_Reason e,
      ar_Payload = payload_norm (ae_Payload e)\<rparr>"

record fault_log =
  fl_records :: "audit_record list"
  fl_max :: int

definition NewFaultLog :: "int \<Rightarrow> fault_log" where
  "NewFaultLog limit = \<lparr>fl_records = [], fl_max = (if limit \<le> 0 then 20000 else limit)\<rparr>"

text \<open>Appending to a log of at most \<open>cap\<close> records, as both in-memory logs do.\<close>

definition log_append :: "int \<Rightarrow> 'a \<Rightarrow> 'a list \<Rightarrow> 'a list" where
  "log_append cap x xs =
     (let over = int (length (xs @ [x])) - cap
      in if over > 0 then drop (nat over) (xs @ [x]) else xs @ [x])"

definition FaultLog_Add :: "audit_record \<Rightarrow> fault_log \<Rightarrow> fault_log" where
  "FaultLog_Add r l =
     (if ar_FaultUID r = [] then l else l\<lparr>fl_records := log_append (fl_max l) r (fl_records l)\<rparr>)"

definition FaultLog_Emit :: "gotime \<Rightarrow> audit_event \<Rightarrow> fault_log \<Rightarrow> fault_log" where
  "FaultLog_Emit now e l = (if ae_FaultUID e = [] then l else FaultLog_Add (record_of now e) l)"

definition rowTargets :: "fault_row \<Rightarrow> string \<Rightarrow> bool" where
  "rowTargets r ns \<longleftrightarrow> list_ex (\<lambda>t. case t of JObj m \<Rightarrow> map_of m ''namespace'' = Some (JStr ns) | _ \<Rightarrow> False) (fd_Targets r)"

definition FaultLog_Recent :: "string \<Rightarrow> int \<Rightarrow> fault_log \<Rightarrow> fault_row list" where
  "FaultLog_Recent ns limit l =
     collect_newest (\<lambda>r. ns = [] \<or> rowTargets r ns) limit 0
       (rev (Faults (sort_key ar_TS (fl_records l))))"


section \<open>Rows of the fold\<close>

definition first_seen :: "audit_record list \<Rightarrow> string list" where
  "first_seen rs = rev (remdups (rev (filter (\<lambda>u. u \<noteq> []) (map ar_FaultUID rs))))"

definition records_of :: "string \<Rightarrow> audit_record list \<Rightarrow> audit_record list" where
  "records_of uid rs = filter (\<lambda>r. ar_FaultUID r = uid) rs"

definition row_of :: "string \<Rightarrow> audit_record list \<Rightarrow> fault_row" where
  "row_of uid rs = fold row_step (records_of uid rs) (new_row uid)"

lemma records_of_append [simp]: "records_of uid (rs @ rs') = records_of uid rs @ records_of uid rs'"
  by (simp add: records_of_def)

lemma records_of_single [simp]: "records_of uid [r] = (if ar_FaultUID r = uid then [r] else [])"
  by (simp add: records_of_def)

lemma row_of_snoc [simp]:
  "row_of uid (rs @ [r]) = (if ar_FaultUID r = uid then row_step r (row_of uid rs) else row_of uid rs)"
  by (simp add: row_of_def)

lemma first_seen_snoc [simp]:
  "first_seen (rs @ [r]) =
     first_seen rs @ (if ar_FaultUID r = [] \<or> ar_FaultUID r \<in> set (first_seen rs) then [] else [ar_FaultUID r])"
  by (auto simp: first_seen_def)

lemma first_seen_Nil [simp]: "first_seen [] = []"
  by (simp add: first_seen_def)

lemma distinct_first_seen [simp]: "distinct (first_seen rs)"
  by (simp add: first_seen_def)

lemma set_first_seen: "set (first_seen rs) = {u. u \<noteq> [] \<and> (\<exists>r \<in> set rs. ar_FaultUID r = u)}"
  by (auto simp: first_seen_def)

lemma records_of_unseen: "uid \<noteq> [] \<Longrightarrow> uid \<notin> set (first_seen rs) \<Longrightarrow> records_of uid rs = []"
  by (auto simp: records_of_def set_first_seen filter_empty_conv)

lemma fold_record_state:
  "\<exists>byUID. fold fold_record rs ([], []) = (byUID, first_seen rs)
     \<and> (\<forall>uid. map_of byUID uid = (if uid \<in> set (first_seen rs) then Some (row_of uid rs) else None))"
proof (induction rs rule: rev_induct)
  case (snoc r rs)
  then obtain byUID where st: "fold fold_record rs ([], []) = (byUID, first_seen rs)"
    and byUID: "\<And>uid. map_of byUID uid = (if uid \<in> set (first_seen rs) then Some (row_of uid rs) else None)"
    by blast
  let ?u = "ar_FaultUID r"
  have new: "row_of ?u rs = new_row ?u" if "?u \<noteq> []" "?u \<notin> set (first_seen rs)"
    using records_of_unseen [OF that] by (simp add: row_of_def)
  have "[] \<notin> set (first_seen rs)" by (simp add: set_first_seen)
  then show ?case
    using new by (auto simp: st fold_record_def [of r] byUID update_conv')
qed simp

lemma Faults_rows: "Faults rs = map (\<lambda>uid. row_of uid rs) (first_seen rs)"
proof -
  obtain byUID where "fold fold_record rs ([], []) = (byUID, first_seen rs)"
    and "\<And>uid. map_of byUID uid = (if uid \<in> set (first_seen rs) then Some (row_of uid rs) else None)"
    using fold_record_state [of rs] by blast
  then show ?thesis by (simp add: Faults_def)
qed

section \<open>What the fields of a row say\<close>

lemma new_row_sel [simp]:
  "fd_FaultUID (new_row uid) = uid" "fd_PlanID (new_row uid) = []" "fd_Source (new_row uid) = []"
  "fw_Outcome (new_row uid) = OutcomeOpen" "fw_Efficacy (new_row uid) = None" "fw_AppliedAt (new_row uid) = 0"
  by (simp_all add: new_row_def new_desc_def fault_desc.defs)

lemma describe_row [simp]:
  "fw_Outcome (describe p row) = fw_Outcome row" "fw_Efficacy (describe p row) = fw_Efficacy row"
  "fw_AppliedAt (describe p row) = fw_AppliedAt row" "fd_FaultUID (describe p d) = fd_FaultUID d"
  "fd_PlanID (describe p d) = fd_PlanID d" "fd_Source (describe p d) = fd_Source d"
  by (simp_all add: describe_def)

lemma end_row_sel [simp]:
  "fw_Outcome (end_row r out row) = out" "fw_Efficacy (end_row r out row) = fw_Efficacy row"
  "fw_AppliedAt (end_row r out row) = fw_AppliedAt row" "fd_FaultUID (end_row r out row) = fd_FaultUID row"
  "fd_PlanID (end_row r out row) = fd_PlanID row" "fd_Source (end_row r out row) = fd_Source row"
  by (simp_all add: end_row_def)

lemma expire_row_sel [simp]:
  "fw_Outcome (expire_row r row) = OutcomeExpired" "fw_Efficacy (expire_row r row) = fw_Efficacy row"
  "fw_AppliedAt (expire_row r row) = fw_AppliedAt row" "fd_FaultUID (expire_row r row) = fd_FaultUID row"
  by (simp_all add: expire_row_def Let_def split: option.split)

lemma event_names [simp]:
  "EventExecutorReceived \<noteq> EventFaultEfficacy" "EventDriverApplied \<noteq> EventFaultEfficacy"
  "EventFaultInjected \<noteq> EventFaultEfficacy" "EventFaultRecovered \<noteq> EventFaultEfficacy"
  by (simp_all add: const_defs)

lemma apply_record_FaultUID: "fd_FaultUID (apply_record r row) = fd_FaultUID row"
  by (simp add: apply_record_def Let_def if_distrib [where f = fd_FaultUID] split: option.split cong: if_cong)

lemma row_step_FaultUID [simp]: "fd_FaultUID (row_step r row) = fd_FaultUID row"
  by (simp add: row_step_def apply_record_FaultUID)

lemma fold_row_step_FaultUID: "fd_FaultUID (fold row_step rs row) = fd_FaultUID row"
  by (induction rs arbitrary: row) simp_all

lemma row_of_FaultUID [simp]: "fd_FaultUID (row_of uid rs) = uid"
  by (simp add: row_of_def fold_row_step_FaultUID)

text \<open>The records that end a fault, with the outcome each gives.\<close>

definition closes :: "audit_record \<Rightarrow> string option" where
  "closes r =
     (if ar_Event r = EventExecutorRejected then Some OutcomeRefused
      else if ar_Event r = EventDriverFailed then Some OutcomeDriverFailed
      else if ar_Event r = EventLeaseCleared then (if left_open r then None else Some OutcomeCleared)
      else if ar_Event r = EventLeaseExpired then Some OutcomeExpired
      else None)"

text \<open>The dispatch on the event, pushed through one field of the row.\<close>

lemma apply_record_field:
  "f (apply_record r row) =
     (if ar_Event r = EventExecutorReceived then
        f ((describe (ar_Payload r) row)\<lparr>fw_ReceivedAt := ar_TS r, fw_RequestedBy := str_or_empty (map_of (ar_Payload r) ''actor''),
              fw_requested := Some (describe (ar_Payload r)
                                (new_desc (fd_FaultUID row) (fd_PlanID row) (fd_Source row)))\<rparr>)
      else if ar_Event r = EventDriverApplied then
        f ((describe (ar_Payload r) row)\<lparr>fw_AppliedAt := ar_TS r,
              fw_EngineUID := str_or_empty (map_of (ar_Payload r) ''engine_uid''),
              fw_Deadline := str_or_empty (map_of (ar_Payload r) ''deadline'')\<rparr>)
      else if ar_Event r \<in> {EventFaultInjected, EventFaultRecovered, EventFaultEfficacy} then f (apply_record r row)
      else if ar_Event r = EventExecutorRejected then f (end_row r OutcomeRefused row)
      else if ar_Event r = EventDriverFailed then f (end_row r OutcomeDriverFailed row)
      else if ar_Event r = EventLeaseCleared then
        (if left_open r then f row
         else f ((end_row r OutcomeCleared row)\<lparr>fw_ClearedBy := str_or_empty (map_of (ar_Payload r) ''actor'')\<rparr>))
      else if ar_Event r = EventLeaseExpired then f (expire_row r row)
      else f row)"
  by (simp add: apply_record_def Let_def)


lemma apply_record_verdicts:
  "ar_Event r = EventFaultInjected \<Longrightarrow> apply_record r row =
     (case as_bool (map_of (ar_Payload r) ''passed'') of Some b \<Rightarrow> row\<lparr>fw_Injected := Some b\<rparr> | None \<Rightarrow> row)"
  "ar_Event r = EventFaultRecovered \<Longrightarrow> apply_record r row =
     row\<lparr>fw_Recovered := (case as_bool (map_of (ar_Payload r) ''passed'') of Some b \<Rightarrow> Some b | None \<Rightarrow> fw_Recovered row),
         fw_Unready := fw_Unready row
           @ (case as_arr (map_of (ar_Payload r) ''unready'') of Some u \<Rightarrow> strings_in u | None \<Rightarrow> [])\<rparr>"
  "ar_Event r = EventFaultEfficacy \<Longrightarrow> apply_record r row =
     (case as_bool (map_of (ar_Payload r) ''passed'') of
        Some b \<Rightarrow> if fw_Efficacy row = None \<or> \<not> b then row\<lparr>fw_Efficacy := Some b\<rparr> else row
      | None \<Rightarrow> row)"
  by (simp_all add: apply_record_def Let_def const_defs)

lemma apply_record_Outcome: "fw_Outcome (apply_record r row) = or_keep (closes r) (fw_Outcome row)"
proof (cases "ar_Event r \<in> {EventFaultInjected, EventFaultRecovered, EventFaultEfficacy}")
  case True
  then have "closes r = None" by (auto simp: closes_def const_defs)
  then show ?thesis using True by (auto simp: apply_record_verdicts split: option.split)
next
  case False
  then show ?thesis
    by (subst apply_record_field) (simp add: closes_def, simp add: const_defs)
qed

lemma apply_record_AppliedAt:
  "fw_AppliedAt (apply_record r row) = (if ar_Event r = EventDriverApplied then ar_TS r else fw_AppliedAt row)"
proof (cases "ar_Event r \<in> {EventFaultInjected, EventFaultRecovered, EventFaultEfficacy}")
  case True
  then have "ar_Event r \<noteq> EventDriverApplied" by (auto simp: const_defs)
  then show ?thesis using True by (auto simp: apply_record_verdicts split: option.split)
next
  case False
  have "EventExecutorReceived \<noteq> EventDriverApplied" by (simp add: const_defs)
  then show ?thesis using False by (subst apply_record_field) simp
qed

definition verdict :: "audit_record \<Rightarrow> bool option" where
  "verdict r = (if ar_Event r = EventFaultEfficacy then as_bool (map_of (ar_Payload r) ''passed'') else None)"

lemma apply_record_Efficacy:
  "fw_Efficacy (apply_record r row) =
     (case verdict r of None \<Rightarrow> fw_Efficacy row
      | Some b \<Rightarrow> Some (b \<and> fw_Efficacy row \<noteq> Some False))"
proof (cases "ar_Event r \<in> {EventFaultInjected, EventFaultRecovered, EventFaultEfficacy}")
  case True
  then show ?thesis by (auto simp: apply_record_verdicts verdict_def split: option.split)
next
  case False
  then show ?thesis by (subst apply_record_field) (simp add: verdict_def)
qed

lemma row_step_sel:
  "fw_Outcome (row_step r row) = or_keep (closes r) (fw_Outcome row)"
  "fw_AppliedAt (row_step r row) = (if ar_Event r = EventDriverApplied then ar_TS r else fw_AppliedAt row)"
  "fw_Efficacy (row_step r row) =
     (case verdict r of None \<Rightarrow> fw_Efficacy row | Some b \<Rightarrow> Some (b \<and> fw_Efficacy row \<noteq> Some False))"
  by (simp_all add: row_step_def apply_record_Outcome apply_record_AppliedAt apply_record_Efficacy split: option.split)

lemma map_filter_append: "List.map_filter f (xs @ ys) = List.map_filter f xs @ List.map_filter f ys"
  by (simp add: List.map_filter_def)

lemma fold_row_step_Outcome:
  "fw_Outcome (fold row_step rs row) =
     (if List.map_filter closes rs = [] then fw_Outcome row else last (List.map_filter closes rs))"
proof (induction rs rule: rev_induct)
  case (snoc r rs)
  then show ?case by (cases "closes r") (simp_all add: row_step_sel map_filter_append)
qed simp

lemma fold_row_step_Efficacy:
  "fw_Efficacy row = None \<Longrightarrow> fw_Efficacy (fold row_step rs row) =
     (if List.map_filter verdict rs = [] then None else Some (False \<notin> set (List.map_filter verdict rs)))"
proof (induction rs rule: rev_induct)
  case (snoc r rs)
  then show ?case by (cases "verdict r") (auto simp: row_step_sel map_filter_append)
qed simp


section \<open>Closing what a restart left open\<close>

definition closed_row :: "gotime \<Rightarrow> fault_row \<Rightarrow> fault_row" where
  "closed_row now row = row\<lparr>fw_Outcome := OutcomeExpired, fw_Reason := ReasonUntrackedAfterRestart,
     fw_EndedAt := (case parse_rfc3339 (fw_Deadline row) of Some d \<Rightarrow> min d now | None \<Rightarrow> now)\<rparr>"

lemma row_step_closing: "row_step (closing_record now row) row = closed_row now row"
proof -
  let ?r = "closing_record now row"
  have ev: "ar_Event ?r = EventLeaseExpired" and id: "ar_PlanID ?r = fd_PlanID row"
    "ar_ScenarioID ?r = fw_ScenarioID row" "ar_Mode ?r = fd_Source row"
    by (simp_all add: closing_record_def)
  have "row_step ?r row = apply_record ?r row" unfolding row_step_def id if_cancel by simp
  also have "\<dots> = expire_row ?r row"
    using ev by (simp add: apply_record_def Let_def const_defs ev_lease_expired_def ev_lease_cleared_def)
  also have "\<dots> = closed_row now row"
    by (auto simp: expire_row_def end_row_def closed_row_def closing_record_def Let_def min_def split: option.split)
  finally show ?thesis .
qed

lemma filter_by_key:
  "distinct (map f xs) \<Longrightarrow> x \<in> set xs \<Longrightarrow> filter (\<lambda>y. P y \<and> f y = f x) xs = (if P x then [x] else [])"
proof (induction xs)
  case (Cons y ys)
  show ?case
  proof (cases "x = y")
    case True
    then have "f x \<notin> f ` set ys" using Cons.prems(1) by simp
    then have "f z \<noteq> f x" if "z \<in> set ys" for z using that by (metis image_eqI)
    then have "filter (\<lambda>z. P z \<and> f z = f x) ys = []" by simp
    then show ?thesis using True by simp
  next
    case False
    then have "x \<in> set ys" "f y \<noteq> f x" using Cons.prems by force+
    then show ?thesis using Cons by simp
  qed
qed simp

lemma records_of_closing:
  assumes "distinct (map fd_FaultUID rows)" "row \<in> set rows"
  shows "records_of (fd_FaultUID row) (ClosingEvents rows now) =
     (if needs_closing row then [closing_record now row] else [])"
proof -
  have "records_of (fd_FaultUID row) (ClosingEvents rows now) =
      map (closing_record now) (filter (\<lambda>r. needs_closing r \<and> fd_FaultUID r = fd_FaultUID row) rows)"
    by (simp add: records_of_def ClosingEvents_def sort_key_stable filter_map comp_def closing_record_def)
  also have "filter (\<lambda>r. needs_closing r \<and> fd_FaultUID r = fd_FaultUID row) rows =
      (if needs_closing row then [row] else [])"
    using assms by (rule filter_by_key)
  finally show ?thesis by simp
qed


lemma first_seen_append_old:
  "ar_FaultUID ` set rs' \<subseteq> insert [] (set (first_seen rs)) \<Longrightarrow> first_seen (rs @ rs') = first_seen rs"
proof (induction rs' rule: rev_induct)
  case (snoc r rs')
  then show ?case by (auto simp flip: append_assoc)
qed simp

lemma Faults_closing:
  "Faults (rs @ ClosingEvents (Faults rs) now) =
     map (\<lambda>row. if needs_closing row then closed_row now row else row) (Faults rs)"
proof -
  have "set (ClosingEvents (Faults rs) now) = closing_record now ` {row \<in> set (Faults rs). needs_closing row}"
    by (auto simp: ClosingEvents_def)
  then have "ar_FaultUID ` set (ClosingEvents (Faults rs) now) \<subseteq> fd_FaultUID ` set (Faults rs)"
    by (force simp: closing_record_def)
  then have "first_seen (rs @ ClosingEvents (Faults rs) now) = first_seen rs"
    by (intro first_seen_append_old) (simp add: Faults_rows image_image subset_insertI2)
  moreover have "row_of uid (rs @ ClosingEvents (Faults rs) now) =
      (if needs_closing (row_of uid rs) then closed_row now (row_of uid rs) else row_of uid rs)"
    if "uid \<in> set (first_seen rs)" for uid
  proof -
    have "records_of uid (ClosingEvents (Faults rs) now) =
        (if needs_closing (row_of uid rs) then [closing_record now (row_of uid rs)] else [])"
      using records_of_closing [of "Faults rs" "row_of uid rs" now] that
      by (simp add: Faults_rows comp_def)
    then show ?thesis
      by (simp add: row_of_def) (simp add: row_of_def [symmetric] row_step_closing)
  qed
  ultimately show ?thesis by (simp add: Faults_rows)
qed

section \<open>Rebuilding a manifest\<close>

lemma field_names [simp]:
  "equal_fold ''namespace'' ''namespace''" "\<not> equal_fold ''kind'' ''namespace''" "equal_fold ''kind'' ''kind''"
  "\<not> equal_fold ''name'' ''namespace''" "\<not> equal_fold ''name'' ''kind''" "equal_fold ''name'' ''name''"
  "\<not> equal_fold ''labels'' ''namespace''" "\<not> equal_fold ''labels'' ''kind''" "\<not> equal_fold ''labels'' ''name''"
  "equal_fold ''labels'' ''labels''"
  by code_simp+

text \<open>A value as JSON decoding returns it, without Go's own integers.\<close>

fun decoded :: "json \<Rightarrow> bool" where
  "decoded (JInt i) = False"
| "decoded (JArr xs) = list_all decoded xs"
| "decoded (JObj m) = list_all (\<lambda>p. decoded (snd p)) m"
| "decoded _ = True"

lemma json_norm_decoded [simp]: "decoded v \<Longrightarrow> json_norm v = v"
  by (induction v) (auto simp: list_all_iff intro!: map_idI)

lemma decode_labels_strs:
  "distinct (map fst l @ map fst acc) \<Longrightarrow>
     decode_labels (map (\<lambda>p. (fst p, json_norm (JStr (snd p)))) l) acc = Some (acc @ l)"
proof (induction l arbitrary: acc)
  case (Cons p l)
  have "AList.update (fst p) (snd p) acc = acc @ [p]"
    using Cons.prems by (induction acc) auto
  with Cons show ?case by (simp add: decode_str_def)
qed simp

lemma decode_target_record:
  assumes "distinct (map fst (t_Labels t))"
  shows "decode_target (json_norm (target_record t)) = Some t"
proof -
  have le: "''kind'' \<le> ''labels''" "''kind'' \<le> ''name''" "''kind'' \<le> ''namespace''" "''labels'' \<le> ''name''"
    "''labels'' \<le> ''namespace''" "''name'' \<le> ''namespace''" by code_simp+
  have nle: "\<not> ''labels'' \<le> ''kind''" "\<not> ''name'' \<le> ''kind''" "\<not> ''namespace'' \<le> ''kind''" "\<not> ''name'' \<le> ''labels''"
    "\<not> ''namespace'' \<le> ''labels''" "\<not> ''namespace'' \<le> ''name''" by code_simp+
  show ?thesis
  using assms decode_labels_strs [of "t_Labels t" "[]"]
  by (auto simp: target_record_def decode_target_def target_in_def decode_entry_def decode_str_def le nle comp_def)
qed

lemma map_of_payload_norm: "map_of (payload_norm p) k = map_option json_norm (map_of p k)"
  by (induction p) (auto simp: payload_norm_def)

lemma payload_norm_simps [simp]:
  "payload_norm [] = []" "payload_norm (e # p) = (fst e, json_norm (snd e)) # payload_norm p"
  "payload_norm (p @ q) = payload_norm p @ payload_norm q"
  by (simp_all add: payload_norm_def)

text \<open>What the trail keeps of a manifest.\<close>

definition recorded :: "fault_manifest \<Rightarrow> fault_manifest" where
  "recorded m = empty_manifest\<lparr>m_UID := m_UID m, m_Source := m_Source m, m_Engine := m_Engine m,
     m_ResourceKind := m_ResourceKind m, m_Spec := Some (spec_map m), m_Targets := m_Targets m,
     m_Duration := m_Duration m, m_BlastRadiusTier := m_BlastRadiusTier m, m_PlanID := m_PlanID m\<rparr>"

text \<open>Manifests whose record says everything the trail needs.\<close>

definition recordable :: "fault_manifest \<Rightarrow> bool" where
  "recordable m \<longleftrightarrow> m_UID m \<noteq> [] \<and> m_Targets m \<noteq> [] \<and> m_ResourceKind m \<noteq> []
     \<and> min_duration \<le> m_Duration m \<and> m_Duration m \<le> max_duration
     \<and> (\<forall>t \<in> set (m_Targets m). distinct (map fst (t_Labels t)))
     \<and> decoded (JObj (spec_map m))"

lemma decode_target_records:
  "\<forall>t \<in> set ts. distinct (map fst (t_Labels t)) \<Longrightarrow>
     decode_targets (map (\<lambda>t. json_norm (target_record t)) ts) = Some ts"
  by (induction ts) (simp_all add: decode_target_record)

text \<open>A payload that carries the audit record of \<open>m\<close>, whatever else it has.\<close>

definition carries :: "fault_manifest \<Rightarrow> jobj \<Rightarrow> bool" where
  "carries m p \<longleftrightarrow> (\<forall>k \<in> {''engine'', ''kind'', ''targets'', ''spec'', ''duration'', ''blast_radius_tier''}.
     map_of p k = map_of (payload_norm (AuditRecord m)) k)"

lemma Manifest_describe:
  fixes d :: "'a fault_desc_scheme"
  assumes "recordable m" "carries m p" "m_BlastRadiusTier m = [] \<Longrightarrow> fd_Tier d = []"
    and "fd_FaultUID d = m_UID m" "fd_PlanID d = m_PlanID m" "fd_Source d = m_Source m"
  shows "Manifest (describe p d) = Some (recorded m)"
proof -
  have p: "map_of p ''engine'' = Some (JStr (m_Engine m))" "map_of p ''kind'' = Some (JStr (m_ResourceKind m))"
    "map_of p ''targets'' = Some (JArr (map (\<lambda>t. json_norm (target_record t)) (m_Targets m)))"
    "map_of p ''spec'' = Some (JObj (spec_map m))"
    "map_of p ''duration'' = Some (JStr (duration_string (m_Duration m)))"
    "map_of p ''blast_radius_tier'' =
       (if m_BlastRadiusTier m = [] then None else Some (JStr (m_BlastRadiusTier m)))"
    using assms(1,2) json_norm_decoded [of "JObj (spec_map m)"]
    by (simp_all add: carries_def recordable_def map_of_payload_norm AuditRecord_def comp_def del: json_norm.simps(3))
  show ?thesis
    using assms(1,3-6) parse_duration_string [of "m_Duration m"] decode_target_records [of "m_Targets m"]
    by (auto simp: Manifest_def describe_def p recordable_def recorded_def)
qed

lemma describe_requested [simp]: "fw_requested (describe p row) = fw_requested row"
  by (simp add: describe_def)

lemma end_row_requested [simp]:
  "fw_requested (end_row r out row) = fw_requested row" "fw_requested (expire_row r row) = fw_requested row"
  by (simp_all add: end_row_def expire_row_def Let_def split: option.split)

lemma apply_record_requested:
  assumes "ar_Event r \<noteq> EventExecutorReceived"
  shows "fw_requested (apply_record r row) = fw_requested row"
proof (cases "ar_Event r \<in> {EventFaultInjected, EventFaultRecovered, EventFaultEfficacy}")
  case True
  then show ?thesis by (auto simp: apply_record_verdicts split: option.split)
next
  case False
  then show ?thesis using assms by (subst apply_record_field) simp
qed

lemma expire_row_ids [simp]:
  "fd_PlanID (expire_row r row) = fd_PlanID row" "fd_Source (expire_row r row) = fd_Source row"
  by (simp_all add: expire_row_def Let_def split: option.split)

lemma apply_record_ids:
  "fd_PlanID (apply_record r row) = fd_PlanID row" "fd_Source (apply_record r row) = fd_Source row"
proof -
  show "fd_PlanID (apply_record r row) = fd_PlanID row"
  proof (cases "ar_Event r \<in> {EventFaultInjected, EventFaultRecovered, EventFaultEfficacy}")
    case True
    then show ?thesis by (auto simp: apply_record_verdicts split: option.split)
  qed (subst apply_record_field, simp)
  show "fd_Source (apply_record r row) = fd_Source row"
  proof (cases "ar_Event r \<in> {EventFaultInjected, EventFaultRecovered, EventFaultEfficacy}")
    case True
    then show ?thesis by (auto simp: apply_record_verdicts split: option.split)
  qed (subst apply_record_field, simp)
qed

lemma row_step_ids [simp]:
  "fd_PlanID (row_step r row) = (if fd_PlanID row = [] then ar_PlanID r else fd_PlanID row)"
  "fd_Source (row_step r row) = (if fd_Source row = [] then ar_Mode r else fd_Source row)"
  by (simp_all add: row_step_def apply_record_ids)

text \<open>Records of a fault that name no other plan or source than its manifest.\<close>

definition same_origin :: "fault_manifest \<Rightarrow> audit_record \<Rightarrow> bool" where
  "same_origin m r \<longleftrightarrow> ar_PlanID r \<in> {[], m_PlanID m} \<and> ar_Mode r \<in> {[], m_Source m}"

lemma fold_row_step_ids:
  "list_all (same_origin m) rs \<Longrightarrow> fd_PlanID row = m_PlanID m \<Longrightarrow> fd_Source row = m_Source m \<Longrightarrow>
     fd_PlanID (fold row_step rs row) = m_PlanID m \<and> fd_Source (fold row_step rs row) = m_Source m"
proof (induction rs arbitrary: row)
  case (Cons r rs)
  have "fd_PlanID (row_step r row) = m_PlanID m" "fd_Source (row_step r row) = m_Source m"
    using Cons.prems by (auto simp: same_origin_def)
  then show ?case using Cons.IH Cons.prems(1) by simp
qed simp

lemma fold_row_step_requested:
  "list_all (\<lambda>r. ar_Event r \<noteq> EventExecutorReceived) rs \<Longrightarrow>
     fw_requested (fold row_step rs row) = fw_requested row"
proof (induction rs arbitrary: row)
  case (Cons r rs)
  have "fw_requested (row_step r row) = fw_requested row"
    using Cons.prems by (simp add: row_step_def apply_record_requested)
  then show ?case using Cons.IH Cons.prems by simp
qed simp

lemma row_step_received:
  assumes "ar_Event r = EventExecutorReceived"
  shows "fw_requested (row_step r row) = Some (describe (ar_Payload r)
     (new_desc (fd_FaultUID row) (if fd_PlanID row = [] then ar_PlanID r else fd_PlanID row)
       (if fd_Source row = [] then ar_Mode r else fd_Source row)))"
  unfolding row_step_def by (subst apply_record_field) (simp add: assms)

lemma RequestedManifest_received:
  assumes m: "recordable m" "carries m (ar_Payload r)"
    and r: "ar_Event r = EventExecutorReceived" "ar_FaultUID r = m_UID m" "ar_PlanID r = m_PlanID m" "ar_Mode r = m_Source m"
    and later: "list_all (\<lambda>r. ar_Event r \<noteq> EventExecutorReceived) rs" "list_all (same_origin m) rs"
  shows "RequestedManifest (fold row_step (r # rs) (new_row (m_UID m))) = Some (recorded m)"
proof -
  let ?d = "new_desc (m_UID m) (m_PlanID m) (m_Source m)"
  have row: "fd_PlanID (row_step r (new_row (m_UID m))) = m_PlanID m" "fd_Source (row_step r (new_row (m_UID m))) = m_Source m"
    by (simp_all add: r)
  have "fw_requested (row_step r (new_row (m_UID m))) = Some (describe (ar_Payload r) ?d)"
    by (simp add: row_step_received r)
  then have req: "fw_requested (fold row_step (r # rs) (new_row (m_UID m))) = Some (describe (ar_Payload r) ?d)"
    using later(1) by (simp add: fold_row_step_requested)
  have "(describe (ar_Payload r) ?d)\<lparr>fd_PlanID := m_PlanID m, fd_Source := m_Source m\<rparr> = describe (ar_Payload r) ?d"
    by (simp add: describe_def new_desc_def)
  moreover have "Manifest (describe (ar_Payload r) ?d) = Some (recorded m)"
    by (rule Manifest_describe [OF m]) (simp_all add: new_desc_def)
  ultimately show ?thesis
    using fold_row_step_ids [OF later(2) row] by (simp add: RequestedManifest_def req [simplified])
qed

section \<open>Rebuilding a lease\<close>

text \<open>What a lease is rebuilt from, beside the outcome: the described fields, the
  time of the apply, the engine's UID and the deadline.  Only \<^verbatim>\<open>executor.received\<close>
  and \<^verbatim>\<open>driver.applied\<close> change them.\<close>

definition lease_part :: "fault_row \<Rightarrow> fault_desc \<times> gotime \<times> string \<times> string" where
  "lease_part row = (fault_desc.truncate row, fw_AppliedAt row, fw_EngineUID row, fw_Deadline row)"

lemma Manifest_truncate: "Manifest row = Manifest (fault_desc.truncate row)"
  by (simp add: Manifest_def fault_desc.defs split: option.split)

lemma Manifest_Engine: "Manifest row = Some m \<Longrightarrow> m_Engine m = fd_Engine row"
  by (auto simp: Manifest_def split: option.splits if_splits)

lemma lease_part_row [simp]:
  "lease_part (end_row r out row) = lease_part row" "lease_part (expire_row r row) = lease_part row"
  "lease_part (row\<lparr>fw_ClearedBy := a\<rparr>) = lease_part row" "lease_part (row\<lparr>fw_Injected := b\<rparr>) = lease_part row"
  "lease_part (row\<lparr>fw_Efficacy := b\<rparr>) = lease_part row"
  "lease_part (row\<lparr>fw_Recovered := b, fw_Unready := us\<rparr>) = lease_part row"
  by (simp_all add: lease_part_def end_row_def expire_row_def Let_def fault_desc.defs split: option.split)

lemma apply_record_lease_part:
  assumes "ar_Event r \<notin> {EventExecutorReceived, EventDriverApplied}"
  shows "lease_part (apply_record r row) = lease_part row"
proof (cases "ar_Event r \<in> {EventFaultInjected, EventFaultRecovered, EventFaultEfficacy}")
  case True
  then show ?thesis by (auto simp: apply_record_verdicts split: option.split)
next
  case False
  then show ?thesis using assms by (subst apply_record_field) simp
qed

lemma fold_row_step_lease_part:
  "list_all (same_origin m) rs \<Longrightarrow> list_all (\<lambda>r. ar_Event r \<notin> {EventExecutorReceived, EventDriverApplied}) rs \<Longrightarrow>
     fd_PlanID row = m_PlanID m \<Longrightarrow> fd_Source row = m_Source m \<Longrightarrow>
     lease_part (fold row_step rs row) = lease_part row"
proof (induction rs arbitrary: row)
  case (Cons r rs)
  have ids: "fd_PlanID (row_step r row) = m_PlanID m" "fd_Source (row_step r row) = m_Source m"
    using Cons.prems by (auto simp: same_origin_def)
  have "(if fd_PlanID row = [] then ar_PlanID r else fd_PlanID row) = fd_PlanID row"
    "(if fd_Source row = [] then ar_Mode r else fd_Source row) = fd_Source row"
    using Cons.prems by (auto simp: same_origin_def)
  then have "lease_part (row_step r row) = lease_part row"
    using Cons.prems(2) by (simp add: row_step_def apply_record_lease_part) (simp add: lease_part_def fault_desc.defs)
  then show ?case using Cons.IH [OF _ _ ids] Cons.prems(1,2) by simp
qed simp

lemma fold_row_step_origin:
  "list_all (same_origin m) rs \<Longrightarrow> fd_PlanID row \<in> {[], m_PlanID m} \<Longrightarrow> fd_Source row \<in> {[], m_Source m} \<Longrightarrow>
     fd_PlanID (fold row_step rs row) \<in> {[], m_PlanID m} \<and> fd_Source (fold row_step rs row) \<in> {[], m_Source m}"
proof (induction rs arbitrary: row)
  case (Cons r rs)
  have "fd_PlanID (row_step r row) \<in> {[], m_PlanID m}" "fd_Source (row_step r row) \<in> {[], m_Source m}"
    using Cons.prems by (auto simp: same_origin_def)
  then show ?case using Cons.IH Cons.prems(1) by simp
qed simp

lemma apply_record_applied:
  assumes "ar_Event r = EventDriverApplied"
  shows "lease_part (apply_record r row) =
     (fault_desc.truncate (describe (ar_Payload r) row), ar_TS r, str_or_empty (map_of (ar_Payload r) ''engine_uid''),
      str_or_empty (map_of (ar_Payload r) ''deadline''))"
proof -
  have "EventDriverApplied \<noteq> EventExecutorReceived" by (simp add: const_defs)
  then show ?thesis by (subst apply_record_field) (simp add: assms lease_part_def fault_desc.defs)
qed

lemma ActiveFault_applied:
  assumes m: "recordable m" "carries m (ar_Payload r)" "m_BlastRadiusTier m \<noteq> []" "m_Engine m \<noteq> []"
    and r: "ar_Event r = EventDriverApplied" "ar_PlanID r = m_PlanID m" "ar_Mode r = m_Source m" "ar_TS r \<noteq> 0"
      "map_of (ar_Payload r) ''engine_uid'' = Some (JStr engineUID)" "engineUID \<noteq> []"
      "map_of (ar_Payload r) ''deadline'' = Some (JStr (format_rfc3339 dl))"
      "0 \<le> dl" "dl div sec < days_before_year 10000 * 86400"
    and others: "list_all (same_origin m) (before @ after)" "list_all (\<lambda>r. closes r = None) (before @ after)"
    and after: "list_all (\<lambda>r. ar_Event r \<notin> {EventExecutorReceived, EventDriverApplied}) after"
  shows "ActiveFault (fold row_step (before @ r # after) (new_row (m_UID m))) now =
     (if trunc_sec dl > now
      then Some \<lparr>af_FaultUID = m_UID m, af_EngineUID = engineUID, af_Manifest = recorded m, af_AppliedAt = ar_TS r,
             af_Deadline = trunc_sec dl, af_Holder = [], af_LastBeat = 0\<rparr>
      else None)"
proof -
  define row0 where "row0 = fold row_step before (new_row (m_UID m))"
  define row1 where "row1 = row_step r row0"
  define row where "row = fold row_step after row1"
  have o0: "fd_PlanID row0 \<in> {[], m_PlanID m}" "fd_Source row0 \<in> {[], m_Source m}"
    using fold_row_step_origin [of m before "new_row (m_UID m)"] others(1) by (simp_all add: row0_def)
  have ids: "fd_PlanID row1 = m_PlanID m" "fd_Source row1 = m_Source m"
    using o0 r by (auto simp: row1_def)
  have uid: "fd_FaultUID row0 = m_UID m" "fd_FaultUID row = m_UID m"
    by (simp_all add: row0_def row_def row1_def fold_row_step_FaultUID)
  have "closes r = None" by (simp add: closes_def r const_defs)
  then have "List.map_filter closes (before @ r # after) = []"
    using others(2) by (auto simp: List.map_filter_def filter_empty_conv list_all_iff)
  then have out: "fw_Outcome row = OutcomeOpen"
    using fold_row_step_Outcome [of "before @ r # after" "new_row (m_UID m)"] by (simp add: row_def row1_def row0_def)
  let ?row0 = "row0\<lparr>fd_PlanID := if fd_PlanID row0 = [] then ar_PlanID r else fd_PlanID row0,
      fw_ScenarioID := if fw_ScenarioID row0 = [] then ar_ScenarioID r else fw_ScenarioID row0,
      fd_Source := if fd_Source row0 = [] then ar_Mode r else fd_Source row0\<rparr>"
  have "lease_part row = lease_part row1"
    unfolding row_def using others(1) after ids by (intro fold_row_step_lease_part) auto
  also have "\<dots> = (fault_desc.truncate (describe (ar_Payload r) ?row0), ar_TS r, engineUID, format_rfc3339 dl)"
    unfolding row1_def row_step_def by (simp add: apply_record_applied r(1,5,7) str_or_empty_def)
  finally have lp: "fault_desc.truncate row = fault_desc.truncate (describe (ar_Payload r) ?row0)"
    "fw_AppliedAt row = ar_TS r" "fw_EngineUID row = engineUID" "fw_Deadline row = format_rfc3339 dl"
    by (simp_all add: lease_part_def)
  have "Manifest row = Manifest (describe (ar_Payload r) ?row0)"
    by (metis lp(1) Manifest_truncate)
  also have "\<dots> = Some (recorded m)"
    using m o0 uid r by (intro Manifest_describe) auto
  finally have man: "Manifest row = Some (recorded m)" .
  have "fd_Engine row = m_Engine m" using Manifest_Engine [OF man] by (simp add: recorded_def)
  then show ?thesis
    using out lp m(4) r uid man parse_format_rfc3339 [of dl]
    by (simp add: ActiveFault_def) (simp add: row_def row1_def row0_def)
qed

section \<open>The log is bounded\<close>

interpretation newest: bounded_log "\<lambda>cap. log_append (int cap)"
proof
  fix xs :: "'a list" and cap x
  assume "0 < cap" "length xs \<le> cap"
  then consider "length xs < cap" | k where "length xs = cap" "cap = Suc k" by (cases cap) force+
  then show "log_append (int cap) x xs = (if length xs \<ge> cap then drop 1 xs else xs) @ [x]"
    by cases (simp_all add: log_append_def Let_def Suc_le_eq)
qed

lemma fold_FaultLog_Add:
  "fl_records (fold FaultLog_Add rs (NewFaultLog c)) =
     (let records = filter (\<lambda>r. ar_FaultUID r \<noteq> []) rs
      in drop (length records - nat (if c \<le> 0 then 20000 else c)) records)"
proof -
  have "fold FaultLog_Add rs l = l\<lparr>fl_records := fold (log_append (fl_max l)) (filter (\<lambda>r. ar_FaultUID r \<noteq> []) rs) (fl_records l)\<rparr>" for l
    by (induction rs arbitrary: l) (simp_all add: FaultLog_Add_def)
  then show ?thesis
    using newest.fold_push_suffix [of "nat (if c \<le> 0 then 20000 else c)" "[]"]
    by (cases "c \<le> 0") (simp_all add: NewFaultLog_def Let_def)
qed

section \<open>Guarantees\<close>

text \<open>
  C12.  One row per fault, in the order the faults were first seen, each from the
  records of its own fault alone.  A row's outcome is that of the last record
  that ends the fault, and open when there is none; its efficacy is the
  conjunction of the settle verdicts.
\<close>

theorem Faults_from_own_records:
  "map fd_FaultUID (Faults rs) = first_seen rs
   \<and> Faults rs = map (\<lambda>u. fold row_step (filter (\<lambda>r. ar_FaultUID r = u) rs) (new_row u)) (first_seen rs)
   \<and> map fw_Outcome (Faults rs) = map (\<lambda>u.
        let ends = List.map_filter closes (filter (\<lambda>r. ar_FaultUID r = u) rs)
        in if ends = [] then OutcomeOpen else last ends) (first_seen rs)
   \<and> map fw_Efficacy (Faults rs) = map (\<lambda>u.
        let vs = List.map_filter verdict (filter (\<lambda>r. ar_FaultUID r = u) rs)
        in if vs = [] then None else Some (False \<notin> set vs)) (first_seen rs)"
  by (simp add: Faults_rows comp_def Let_def)
     (simp add: row_of_def records_of_def fold_row_step_Outcome fold_row_step_Efficacy)

text \<open>
  C13.  The closing events of a restart close exactly the faults that reached the
  cluster and were left open, as expired, at the deadline the trail has for them
  if that has passed and else at the time of the restart.  Folded back in they
  change nothing else, and a second restart finds nothing to close.
\<close>

theorem ClosingEvents_close:
  "Faults (rs @ ClosingEvents (Faults rs) now) =
     map (\<lambda>row. if fw_Outcome row = OutcomeOpen \<and> fw_AppliedAt row \<noteq> 0
                then row\<lparr>fw_Outcome := OutcomeExpired, fw_Reason := ReasonUntrackedAfterRestart,
                        fw_EndedAt := (case parse_rfc3339 (fw_Deadline row) of Some d \<Rightarrow> min d now | None \<Rightarrow> now)\<rparr>
                else row) (Faults rs)
   \<and> ClosingEvents (Faults (rs @ ClosingEvents (Faults rs) now)) later = []"
proof
  show "Faults (rs @ ClosingEvents (Faults rs) now) =
     map (\<lambda>row. if fw_Outcome row = OutcomeOpen \<and> fw_AppliedAt row \<noteq> 0
                then row\<lparr>fw_Outcome := OutcomeExpired, fw_Reason := ReasonUntrackedAfterRestart,
                        fw_EndedAt := (case parse_rfc3339 (fw_Deadline row) of Some d \<Rightarrow> min d now | None \<Rightarrow> now)\<rparr>
                else row) (Faults rs)"
    unfolding Faults_closing needs_closing_def closed_row_def ..
  have "\<not> needs_closing (if needs_closing row then closed_row now row else row)" for row
    by (simp add: needs_closing_def closed_row_def const_defs)
  then show "ClosingEvents (Faults (rs @ ClosingEvents (Faults rs) now)) later = []"
    unfolding Faults_closing ClosingEvents_def [of _ later] by (simp add: filter_map comp_def)
qed

text \<open>
  The in-memory log holds the newest fault records up to its limit, and
  lists the faults they tell of newest first, those aimed at the namespace asked
  for, at most \<open>limit\<close> of them when the limit is positive.
\<close>

theorem FaultLog_lists_newest:
  "FaultLog_Recent ns limit (fold FaultLog_Add rs (NewFaultLog c)) =
     (let records = filter (\<lambda>r. ar_FaultUID r \<noteq> '''') rs;
          kept = drop (length records - nat (if c \<le> 0 then 20000 else c)) records;
          rows = filter (\<lambda>row. ns = '''' \<or> rowTargets row ns) (rev (Faults (sort_key ar_TS kept)))
      in if limit \<le> 0 then rows else take (nat limit) rows)"
  by (simp add: FaultLog_Recent_def fold_FaultLog_Add collect_newest_eq Let_def)

end
