(* ===== verification/Restart_Recovery.thy ===== *)
theory Restart_Recovery
  imports Executor_Guarantees Audit_Trail
begin

text \<open>
  From an apply to the controller that restarts after it: the audit events of
  an apply, read back from the trail as \<^verbatim>\<open>cmd/simian/serve.go\<close> does at start-up,
  give the lease of a fault that is still running.  The executor
  (\<^verbatim>\<open>Executor_Pipeline\<close>) and the reader of the trail (\<^verbatim>\<open>Audit_Trail\<close>) meet here.
\<close>

section \<open>The events of an apply\<close>

text \<open>An event of the fault \<open>i\<close> (its UID, source and plan) with a name in \<open>E\<close>.\<close>

definition of_fault :: "string \<times> string \<times> string \<Rightarrow> string set \<Rightarrow> audit_event \<Rightarrow> bool" where
  "of_fault i E ev \<longleftrightarrow> (ae_FaultUID ev, ae_Mode ev, ae_PlanID ev) = i \<and> ae_Event ev \<in> E"

definition trail :: "string set \<Rightarrow> 'w frame \<Rightarrow> 'w frame \<Rightarrow> bool" where
  "trail E s t \<longleftrightarrow> ident (fr_m t) = ident (fr_m s)
     \<and> (\<exists>evs. e_audit t = e_audit s @ evs \<and> list_all (of_fault (ident (fr_m s)) E) evs)"

interpretation tr: evolution "trail E" for E
proof unfold_locales
  show "trail E s s" for s :: "'a frame" by (simp add: trail_def)
  show "trail E s u" if "trail E s t" "trail E t u" for s t u :: "'a frame"
    using that by (auto simp: trail_def)
qed

lemma trail_mono: "E \<subseteq> E' \<Longrightarrow> evolves (trail E) c \<Longrightarrow> evolves (trail E') c"
  unfolding evolves_def trail_def of_fault_def by (blast intro: list.pred_mono_strong)

lemma trail_prims:
  "evolves (trail E) theM" "evolves (trail E) (askE q)" "ev \<in> E \<Longrightarrow> evolves (trail E) (emitE ev r p)"
  "evolves (trail E) (raiseE err)" "evolves (trail E) (reserveE x)"
proof -
  show "evolves (trail E) theM" "evolves (trail E) (askE q)" "evolves (trail E) (raiseE err)"
    by (auto simp: evolves_def theM_def getE_def askE_def raiseE_def retE_def throwE_def trail_def split: prod.split option.split)
  show "evolves (trail E) (emitE ev r p)" if "ev \<in> E"
    using that by (auto simp: evolves_def emitE_def modifyE_def add_event_def trail_def of_fault_def fault_event_def ident_def)
  show "evolves (trail E) (reserveE x)"
    by (auto simp: evolves_def reserveE_def trail_def Let_def split: prod.split sum.split)
qed

lemma trail_liftC: "evolves (keeps_on ident) c \<Longrightarrow> evolves (trail E) (liftC c)"
  by (auto simp: evolves_def liftC_def trail_def keeps_on_def split: prod.split) (metis fst_conv snd_conv)

lemma keeps_ident: "evolves (keeps_on core) c \<Longrightarrow> evolves (keeps_on ident) c"
  by (auto simp: evolves_def keeps_on_def core_def ident_def)

lemma trail_probes: "st_event st \<in> E \<Longrightarrow> evolves (trail E) (run_probes x pb target st ps)"
  by (induction ps) (auto intro!: tr.ev_rules trail_prims)

lemma trail_settle: "EventFaultEfficacy \<in> E \<Longrightarrow> evolves (trail E) (settle x)"
  by (auto simp: settle_def runProbes_def intro!: tr.ev_rules trail_prims trail_probes split: option.split)

lemma trail_precheck: "EventFaultPrecheck \<in> E \<Longrightarrow> evolves (trail E) (precheck x)"
  by (auto simp: precheck_def runProbes_def intro!: tr.ev_rules trail_prims trail_probes split: option.split)

lemma trail_confirm: "EventFaultInjected \<in> E \<Longrightarrow> evolves (trail E) (confirmInjected x d euid)"
  by (auto simp: confirmInjected_def Let_def intro!: tr.ev_rules trail_prims split: option.split prod.split)

lemma trail_attach: "evolves (trail E) (attachDefaultProbes x)"
  unfolding attachDefaultProbes_def theM_def
  by (auto simp: evolves_def bindE_def getE_def modifyE_def retE_def trail_def ident_def Let_def split: option.split)

lemma trail_exclusions: "evolves (trail E) (collect_exclusions elig nss byNS)"
  by (induction nss arbitrary: byNS) (auto intro!: tr.ev_rules trail_prims split: sum.split)

lemma trail_checks:
  "EventFaultPrecheck \<in> E \<Longrightarrow>
     evolves (trail E) (bindE (compatE x) (\<lambda>_. bindE (checkDriverTargets d ctx) (\<lambda>_. precheck x)))"
  by (auto simp: compatE_def checkDriverTargets_def intro!: tr.ev_rules trail_prims trail_precheck split: option.split)

lemma trail_lookup: "evolves (trail E) (lookup_driver x)" "evolves (trail E) (withExclusions x ctx)"
  by (auto simp: lookup_driver_def withExclusions_def intro!: tr.ev_rules trail_prims trail_exclusions split: option.split)

lemma trail_call_driver: "evolves (trail E) (call_driver d ctx)"
  by (auto simp: call_driver_def intro!: tr.ev_rules trail_prims)

section \<open>Before the driver\<close>

definition since :: "audit_event list \<Rightarrow> string \<times> string \<times> string \<Rightarrow> string set \<Rightarrow> 'w frame \<Rightarrow> bool" where
  "since a0 i E s \<longleftrightarrow> ident (fr_m s) = i \<and> (\<exists>evs. e_audit s = a0 @ evs \<and> list_all (of_fault i E) evs)"

lemma since_trail: "since a0 i E s \<Longrightarrow> trail E s t \<Longrightarrow> since a0 i E t"
  by (auto simp: since_def trail_def)

abbreviation okE :: "('s \<Rightarrow> bool) \<Rightarrow> ('s, 'e, 'a) em \<Rightarrow> ('a \<Rightarrow> 's \<Rightarrow> bool) \<Rightarrow> bool" where
  "okE P c Q \<equiv> validE P c Q (\<lambda>_ _. True)"

lemma ok_trail: "evolves (trail E) c \<Longrightarrow> okE (since a0 i E) c (\<lambda>_. since a0 i E)"
  by (rule validE_weaken [OF evolves_keeps [where R = "trail E" and P = "since a0 i E"]]) (auto intro: since_trail)

lemma ok_rejecting: "okE P c Q \<Longrightarrow> okE P (rejecting c) Q"
  unfolding rejecting_def by (rule validE_onError) (auto elim: validE_weaken)

text \<open>The names of the events before the driver took the fault, and after.\<close>

definition BeforeEvents :: "string set" where
  "BeforeEvents = {EventExecutorReceived, EventExecutorValidated, EventFaultPrecheck}"

definition AfterEvents :: "string set" where
  "AfterEvents = {EventLeaseRegistered, EventFaultInjected, EventFaultEfficacy}"

lemma ok_gate: "okE (since a0 i E) (gateE x m) (\<lambda>_. since a0 i E)"
  unfolding gateE_def
  by (intro ok_rejecting ok_trail tr.ev_bind trail_prims trail_liftC kp_validateSafety)

text \<open>
  A fault the driver took: it is leased, and the log has its \<^verbatim>\<open>driver.applied\<close>
  with the engine's UID, the manifest and the deadline of the lease.
\<close>

definition on_trail :: "audit_event list \<Rightarrow> string \<times> string \<times> string \<Rightarrow> string \<Rightarrow> 'w frame \<Rightarrow> bool" where
  "on_trail a0 i uid s \<longleftrightarrow>
     (\<exists>af before after verified details.
        Get (b_registry (e_budget s)) uid = Some af \<and> uid = m_UID (af_Manifest af) \<and> ident (af_Manifest af) = i
        \<and> e_audit s = a0 @ before @ fault_event EventDriverApplied (af_Manifest af) ''''
             (applied_payload (af_Manifest af) (af_EngineUID af) (af_Deadline af) verified details) # after
        \<and> list_all (of_fault i BeforeEvents) before \<and> list_all (of_fault i AfterEvents) after)"

text \<open>The same, while the manifest is still in the frame.\<close>

definition taken :: "audit_event list \<Rightarrow> fault_manifest \<Rightarrow> active_fault \<Rightarrow> 'w frame \<Rightarrow> bool" where
  "taken a0 m af s \<longleftrightarrow> fr_m s = m \<and> Get (b_registry (e_budget s)) (m_UID m) = Some af \<and> af_Manifest af = m
     \<and> (\<exists>before after verified details.
        e_audit s = a0 @ before @ fault_event EventDriverApplied m ''''
             (applied_payload m (af_EngineUID af) (af_Deadline af) verified details) # after
        \<and> list_all (of_fault (ident m) BeforeEvents) before \<and> list_all (of_fault (ident m) AfterEvents) after)"

lemma taken_step:
  assumes "taken a0 m af s" "trail AfterEvents s t" "fixed s t"
  shows "taken a0 m af t"
proof -
  obtain evs where evs: "e_audit t = e_audit s @ evs" "list_all (of_fault (ident m) AfterEvents) evs"
    using assms by (auto simp: trail_def taken_def)
  obtain before after verified details where s: "e_audit s = a0 @ before @ fault_event EventDriverApplied m ''''
      (applied_payload m (af_EngineUID af) (af_Deadline af) verified details) # after"
    "list_all (of_fault (ident m) BeforeEvents) before" "list_all (of_fault (ident m) AfterEvents) after"
    using assms(1) unfolding taken_def by blast
  have "list_all (of_fault (ident m) AfterEvents) (after @ evs)" using s(3) evs(2) by simp
  then show ?thesis
    using assms(1,3) evs(1) s(1,2) unfolding taken_def fixed_def by fastforce
qed

lemma ok_taken:
  assumes "evolves (trail AfterEvents) c" "evolves fixed c"
  shows "okE (taken a0 m af) c (\<lambda>_. taken a0 m af)"
  using assms taken_step [of a0 m af] unfolding validE_def evolves_def
  by (metis (no_types, lifting) prod.collapse split_conv old.sum.exhaust sum.simps(5) sum.simps(6))

lemma register_taken:
  "okE (\<lambda>s. since a0 (ident m) BeforeEvents s \<and> fr_m s = m) (register_lease x euid dl)
     (\<lambda>_ s. since a0 (ident m) BeforeEvents s \<and> fr_m s = m
        \<and> (\<exists>af. Get (b_registry (e_budget s)) (m_UID m) = Some af \<and> af_Manifest af = m
              \<and> af_EngineUID af = euid \<and> af_Deadline af = dl))"
  by (auto simp: register_lease_def validE_def bindE_def askE_def modifyE_def release_held_def since_def
      Register_def Let_def lease_of_def split: prod.split option.split)

lemma emit_taken:
  "okE (\<lambda>s. since a0 (ident m) BeforeEvents s \<and> fr_m s = m
        \<and> (\<exists>af. Get (b_registry (e_budget s)) (m_UID m) = Some af \<and> af_Manifest af = m
              \<and> af_EngineUID af = euid \<and> af_Deadline af = dl))
     (emitE EventDriverApplied '''' (applied_payload m euid dl vs details))
     (\<lambda>_ s. \<exists>af. taken a0 m af s)"
  by (fastforce simp: emitE_def validE_def modifyE_def add_event_def since_def taken_def)

lemma taken_push: "taken a0 m af s \<Longrightarrow> taken a0 m af (push_recent now s)"
  by (simp add: taken_def push_recent_def)

lemma taken_on_trail: "taken a0 m af s \<Longrightarrow> on_trail a0 (ident m) (m_UID m) s"
  unfolding taken_def on_trail_def by metis

lemma validE_ex:
  assumes "\<And>b. validE (P b) c Q E"
  shows "validE (\<lambda>s. \<exists>b. P b s) c Q E"
  unfolding validE_def
proof (intro allI impI)
  fix s assume "\<exists>b. P b s"
  then obtain b where "P b s" by blast
  with assms [of b] show "case c s of (Inl e, t) \<Rightarrow> E e t | (Inr a, t) \<Rightarrow> Q a t" by (simp add: validE_def)
qed

lemma after_apply_on_trail:
  "okE (since a0 i BeforeEvents) (after_apply x d details euid) (on_trail a0 i)"
  unfolding after_apply_def Let_def
proof (rule validE_bind [where R = "\<lambda>m s. ident m = i \<and> since a0 (ident m) BeforeEvents s \<and> fr_m s = m"], goal_cases)
  case 1
  then show ?case by (auto simp: validE_def theM_def getE_def since_def)
next
  case (2 m)
  have now: "okE (\<lambda>s. since a0 (ident m) BeforeEvents s \<and> fr_m s = m) (askE (x_now x))
      (\<lambda>_ s. since a0 (ident m) BeforeEvents s \<and> fr_m s = m)"
    by (auto simp: validE_def askE_def since_def split: prod.split)
  have em: "okE (\<lambda>s. \<exists>af. taken a0 m af s) (emitE EventLeaseRegistered '''' []) (\<lambda>_ s. \<exists>af. taken a0 m af s)"
    by (rule validE_ex, rule validE_weaken [OF ok_taken [OF trail_prims(3) fixed_prims(3)]]) (auto simp: AfterEvents_def)
  have inj: "okE (\<lambda>s. \<exists>af. taken a0 m af s) (onErrorE (bindE (confirmInjected x d euid) (\<lambda>_. settle x)) (abandon x euid))
      (\<lambda>_ s. \<exists>af. taken a0 m af s)"
    by (rule validE_ex, rule validE_onError,
        rule validE_weaken [OF ok_taken [OF tr.ev_bind [OF trail_confirm trail_settle] fx.ev_bind [OF fixed_confirm fixed_settle]]])
       (auto simp: AfterEvents_def)
  have fin: "okE (\<lambda>s. \<exists>af. taken a0 m af s) (bindE (modifyE (push_recent now)) (\<lambda>_. retE (m_UID m)))
      (on_trail a0 (ident m))" for now
    by (auto simp: validE_def modifyE_def bindE_def retE_def intro: taken_on_trail taken_push)
  have "okE (\<lambda>s. since a0 (ident m) BeforeEvents s \<and> fr_m s = m)
     (bindE (askE (x_now x)) (\<lambda>now. bindE (register_lease x euid (now + m_Duration m)) (\<lambda>_.
        bindE (emitE EventDriverApplied '''' (applied_payload m euid (now + m_Duration m) (verifiedBy d m) details)) (\<lambda>_.
          bindE (emitE EventLeaseRegistered '''' []) (\<lambda>_.
            bindE (onErrorE (bindE (confirmInjected x d euid) (\<lambda>_. settle x)) (abandon x euid)) (\<lambda>_.
              bindE (modifyE (push_recent now)) (\<lambda>_. retE (m_UID m))))))))
     (on_trail a0 (ident m))"
    by (rule validE_bind [OF now], rule validE_bind [OF register_taken], rule validE_bind [OF emit_taken],
        rule validE_bind [OF em], rule validE_bind [OF inj fin])
  then show ?case by (cases "ident m = i") (auto simp: validE_def)
qed

lemma run_up_on_trail: "okE (since a0 i BeforeEvents) (run_up x ctx n) (on_trail a0 i)"
proof -
  have df: "okE (since a0 i BeforeEvents) (driver_failed err) (on_trail a0 i)" for err
    by (simp add: validE_def driver_failed_def emitE_def modifyE_def bindE_def throwE_def)
  have pre: "EventExecutorValidated \<in> BeforeEvents" "EventFaultPrecheck \<in> BeforeEvents" by (simp_all add: BeforeEvents_def)
  show ?thesis
    unfolding run_up_def drive_def
    by (rule validE_bind, rule ok_trail ok_rejecting, (rule ok_trail)?,
        rule trail_liftC [OF keeps_ident [OF kp_resolve]] trail_liftC [OF keeps_ident [OF kp_narrow]] trail_attach
          trail_prims(1) trail_prims(3) trail_lookup trail_checks trail_call_driver, (rule pre)?)+
      (simp add: df after_apply_on_trail split: sum.split)
qed

lemma on_trail_release: "on_trail a0 i uid s \<Longrightarrow> on_trail a0 i uid (release_held s)"
proof -
  have "b_registry (e_budget (release_held s)) = b_registry (e_budget s)" "e_audit (release_held s) = e_audit s"
    by (simp_all add: release_held_def release_def split: option.split)
  then show "on_trail a0 i uid s \<Longrightarrow> ?thesis" by (simp only: on_trail_def)
qed

lemma apply_fault_on_trail:
  "okE (\<lambda>s. e_audit s = a0 \<and> ident (fr_m s) = i) (apply_fault x ctx) (on_trail a0 i)"
proof (rule validE_apply_fault [where P' = "\<lambda>_. since a0 i BeforeEvents" and R = "since a0 i BeforeEvents"
      and S = "since a0 i BeforeEvents"])
  show "since a0 i BeforeEvents (add_event EventExecutorReceived '''' (withActor ctx (AuditRecord (fr_m s))) s)"
    if "e_audit s = a0 \<and> ident (fr_m s) = i" for s :: "'a frame"
    using that by (auto simp: since_def add_event_def of_fault_def fault_event_def ident_def BeforeEvents_def)
  show "okE (\<lambda>s. since a0 i BeforeEvents s \<and> fr_m s = m) (gateE x m) (\<lambda>_. since a0 i BeforeEvents)" for m
    by (rule validE_weaken [OF ok_gate]) auto
  show "okE (since a0 i BeforeEvents) (rejecting (reserveE x)) (\<lambda>_. since a0 i BeforeEvents)"
    by (intro ok_rejecting ok_trail trail_prims)
  show "okE (since a0 i BeforeEvents) (finallyE (run_up x ctx n) release_held) (on_trail a0 i)" for n
    by (rule validE_finally, rule validE_weaken [OF run_up_on_trail])
       (auto intro: on_trail_release)
qed

lemma Apply_on_trail:
  assumes "Apply x ctx m e = (Inr uid, e')" "Get (b_registry (e_budget e')) uid = Some af"
  obtains before after vs details where "uid = m_UID (af_Manifest af)"
    "e_audit e' = e_audit e @ before @ fault_event EventDriverApplied (af_Manifest af) ''''
        (applied_payload (af_Manifest af) (af_EngineUID af) (af_Deadline af) vs details) # after"
    "list_all (of_fault (ident (af_Manifest af)) BeforeEvents) before"
    "list_all (of_fault (ident (af_Manifest af)) AfterEvents) after"
proof -
  obtain m' w where mw: "with_uid x m (e_world e) = (m', w)" by force
  have "\<exists>s. on_trail (e_audit e) (ident m') uid s \<and> e' = executor.truncate s"
    by (rule Apply_run [OF assms(1) apply_fault_on_trail [of "e_audit e" "ident m'"]]) (use mw in auto)
  with assms(2) that show thesis unfolding on_trail_def by auto
qed

section \<open>Reading an apply back\<close>

lemma closes_record_of: "ae_Event ev \<in> BeforeEvents \<union> AfterEvents \<Longrightarrow> closes (record_of t ev) = None"
  by (auto simp: closes_def record_of_def BeforeEvents_def AfterEvents_def const_defs ev_lease_cleared_def ev_lease_expired_def)

lemma records_of_fault:
  fixes ts :: "gotime list"
  assumes "list_all (of_fault (ident m) E) evs" "E \<subseteq> BeforeEvents \<union> AfterEvents"
  defines "rs \<equiv> map2 record_of ts evs"
  shows "records_of (m_UID m) rs = rs" "list_all (same_origin m) rs" "list_all (\<lambda>r. closes r = None) rs"
    "list_all (\<lambda>r. ar_Event r \<in> E) rs"
proof -
  have "of_fault (ident m) E ev" if "(t, ev) \<in> set (zip ts evs)" for t ev
    using assms(1) that by (auto simp: list_all_iff dest: set_zip_rightD)
  then have "\<forall>r \<in> set rs. \<exists>t ev. r = record_of t ev \<and> of_fault (ident m) E ev" by (auto simp: rs_def)
  then show "records_of (m_UID m) rs = rs" "list_all (same_origin m) rs" "list_all (\<lambda>r. closes r = None) rs"
    "list_all (\<lambda>r. ar_Event r \<in> E) rs"
    using assms(2) closes_record_of
    by (fastforce simp: records_of_def list_all_iff filter_id_conv of_fault_def ident_def record_of_def same_origin_def)+
qed

lemma carries_applied:
  assumes "m_BlastRadiusTier m \<noteq> []"
  shows "carries m (payload_norm (applied_payload m euid dl vs details))"
    "map_of (payload_norm (applied_payload m euid dl vs details)) ''engine_uid'' = Some (JStr euid)"
    "map_of (payload_norm (applied_payload m euid dl vs details)) ''deadline'' = Some (JStr (format_rfc3339 dl))"
  using assms by (simp_all add: carries_def applied_payload_def Let_def AuditRecord_def)

text \<open>
  C7.  An apply survives a restart.  The events of a successful apply, written to
  the trail at any times and read back after older records of other faults,
  give one row for the fault from which the lease is rebuilt while its deadline,
  to the second, is ahead: the same fault, engine object, deadline and manifest,
  but for what the trail does not keep.
\<close>

theorem Apply_survives_restart:
  fixes old :: "audit_record list" and ts :: "gotime list"
  assumes run: "Apply x ctx m e = (Inr uid, e')" and lease: "Get (b_registry (e_budget e')) uid = Some af"
    and rec: "recordable (af_Manifest af)" "m_BlastRadiusTier (af_Manifest af) \<noteq> ''''"
      "m_Engine (af_Manifest af) \<noteq> ''''" "af_EngineUID af \<noteq> ''''"
    and dl: "0 \<le> af_Deadline af" "af_Deadline af div sec < days_before_year 10000 * 86400"
    and old: "\<forall>r \<in> set old. ar_FaultUID r \<noteq> uid"
    and ts: "length ts = length (e_audit e') - length (e_audit e)" "0 \<notin> set ts"
  defines "records \<equiv> old @ map2 record_of ts (drop (length (e_audit e)) (e_audit e'))"
  shows "\<exists>row \<in> set (Faults records). fd_FaultUID row = uid \<and> (\<exists>applied \<in> set ts. \<forall>now.
     ActiveFault row now =
       (if now < trunc_sec (af_Deadline af)
        then Some \<lparr>af_FaultUID = uid, af_EngineUID = af_EngineUID af, af_Manifest = recorded (af_Manifest af),
               af_AppliedAt = applied, af_Deadline = trunc_sec (af_Deadline af), af_Holder = '''', af_LastBeat = 0\<rparr>
        else None))"
proof -
  let ?m = "af_Manifest af"
  obtain before after vs details where uid: "uid = m_UID ?m" and audit: "e_audit e' = e_audit e @ before @
      fault_event EventDriverApplied ?m '''' (applied_payload ?m (af_EngineUID af) (af_Deadline af) vs details) # after"
    and evs: "list_all (of_fault (ident ?m) BeforeEvents) before" "list_all (of_fault (ident ?m) AfterEvents) after"
    by (rule Apply_on_trail [OF run lease])
  let ?ap = "fault_event EventDriverApplied ?m '''' (applied_payload ?m (af_EngineUID af) (af_Deadline af) vs details)"
  define ts1 t ts2 where "ts1 = take (length before) ts" and "t = ts ! length before" and "ts2 = drop (Suc (length before)) ts"
  have len: "length ts = length before + Suc (length after)" using ts(1) audit by simp
  then have split: "ts = ts1 @ t # ts2" unfolding ts1_def t_def ts2_def by (intro id_take_nth_drop) simp
  have "t \<in> set ts" using split by simp
  define rs1 r rs2 where "rs1 = map2 record_of ts1 before" and "r = record_of t ?ap" and "rs2 = map2 record_of ts2 after"
  have "length ts1 = length before" using len by (simp add: ts1_def)
  then have recs: "records = old @ rs1 @ r # rs2"
    unfolding records_def audit split rs1_def r_def rs2_def by simp
  note b = records_of_fault [OF evs(1), of ts1, folded rs1_def] and a = records_of_fault [OF evs(2), of ts2, folded rs2_def]
  have "records_of uid old = []" using old by (simp add: records_of_def)
  moreover have "ar_FaultUID r = uid" by (simp add: r_def record_of_def uid)
  ultimately have row: "row_of uid records = fold row_step (rs1 @ r # rs2) (new_row uid)"
    using b(1) a(1) records_of_append [of uid "[r]" rs2] by (simp add: row_of_def recs uid)
  have "r \<in> set records" by (simp add: recs)
  then have "row_of uid records \<in> set (Faults records)"
    using rec(1) \<open>ar_FaultUID r = uid\<close> by (auto simp: Faults_rows set_first_seen recordable_def uid)
  moreover have "ActiveFault (row_of uid records) now =
       (if trunc_sec (af_Deadline af) > now
        then Some \<lparr>af_FaultUID = uid, af_EngineUID = af_EngineUID af, af_Manifest = recorded ?m,
               af_AppliedAt = t, af_Deadline = trunc_sec (af_Deadline af), af_Holder = '''', af_LastBeat = 0\<rparr>
        else None)" for now
  proof -
    have ev: "ar_Event r = EventDriverApplied" "ar_PlanID r = m_PlanID ?m" "ar_Mode r = m_Source ?m" "ar_TS r = t"
      "ar_Payload r = payload_norm (applied_payload ?m (af_EngineUID af) (af_Deadline af) vs details)"
      by (simp_all add: r_def record_of_def fault_event_def)
    have "list_all (\<lambda>r. ar_Event r \<notin> {EventExecutorReceived, EventDriverApplied}) rs2"
      using a(4) by (auto simp: list_all_iff AfterEvents_def const_defs)
    moreover have "t \<noteq> 0" using \<open>t \<in> set ts\<close> ts(2) by metis
    ultimately show ?thesis
      using ActiveFault_applied [OF rec(1) _ _ _ ev(1-3) _ _ rec(4) _ dl, of rs1 rs2 now] rec(2,3) a(2,3) b(2,3)
      by (simp add: ev carries_applied row [unfolded uid] uid)
  qed
  ultimately show ?thesis using \<open>t \<in> set ts\<close> by (intro bexI [of _ "row_of uid records"] conjI) auto
qed

lemma demo_recordable: "recordable (af_Manifest demo_lease)"
  by (simp add: recordable_def demo_lease_def demo_sent_def demo_manifest_def) code_simp

theorem Apply_survives_restart_witness:
  "\<exists>e' row af. Apply (demo_env True) demo_ctx demo_manifest demo_exec = (Inr ''f1'', e')
     \<and> row \<in> set (Faults (map2 record_of (replicate (length (e_audit e')) 1) (e_audit e')))
     \<and> ActiveFault row 0 = Some af \<and> af_FaultUID af = ''f1'' \<and> af_EngineUID af = af_EngineUID demo_lease"
proof -
  obtain e' where e': "Apply (demo_env True) demo_ctx demo_manifest demo_exec = (Inr ''f1'', e')"
    "Get (b_registry (e_budget e')) ''f1'' = Some demo_lease" using demo_Apply_ok by blast
  have [simp]: "e_audit demo_exec = []" by (simp add: demo_exec_def New_def)
  have dl: "0 < trunc_sec (af_Deadline demo_lease)" "0 \<le> af_Deadline demo_lease"
    "af_Deadline demo_lease div sec < days_before_year 10000 * 86400" by code_simp+
  have ne: "m_BlastRadiusTier (af_Manifest demo_lease) \<noteq> ''''" "m_Engine (af_Manifest demo_lease) \<noteq> ''''"
    "af_EngineUID demo_lease \<noteq> ''''" by code_simp+
  from Apply_survives_restart [OF e' demo_recordable ne dl(2,3), of "[]" "replicate (length (e_audit e')) 1"]
  obtain row applied where "row \<in> set (Faults (map2 record_of (replicate (length (e_audit e')) 1) (e_audit e')))"
    "ActiveFault row 0 = Some \<lparr>af_FaultUID = ''f1'', af_EngineUID = af_EngineUID demo_lease,
       af_Manifest = recorded (af_Manifest demo_lease), af_AppliedAt = applied,
       af_Deadline = trunc_sec (af_Deadline demo_lease), af_Holder = '''', af_LastBeat = 0\<rparr>"
    using dl(1) by (auto simp: drop_Cons')
  with e' show ?thesis by fastforce
qed

section \<open>The request on record\<close>

text \<open>Every path of an apply records the request first, and nothing but events of the fault
  after it.\<close>

definition LaterEvents :: "string set" where
  "LaterEvents = BeforeEvents \<union> AfterEvents \<union> {EventDriverApplied, EventExecutorRejected, EventDriverFailed, EventLeaseCleared}
     - {EventExecutorReceived}"

lemma later_events:
  "EventExecutorValidated \<in> LaterEvents" "EventFaultPrecheck \<in> LaterEvents" "EventDriverApplied \<in> LaterEvents"
  "EventLeaseRegistered \<in> LaterEvents" "EventFaultInjected \<in> LaterEvents" "EventFaultEfficacy \<in> LaterEvents"
  "EventExecutorRejected \<in> LaterEvents" "EventDriverFailed \<in> LaterEvents" "EventLeaseCleared \<in> LaterEvents"
  by (simp_all add: LaterEvents_def BeforeEvents_def AfterEvents_def const_defs ev_lease_cleared_def)

lemma trail_add_event: "ev \<in> E \<Longrightarrow> trail E s (add_event ev r p s)"
  by (auto simp: add_event_def trail_def of_fault_def fault_event_def ident_def)

lemma trail_rejecting: "evolves (trail LaterEvents) c \<Longrightarrow> evolves (trail LaterEvents) (rejecting c)"
  unfolding rejecting_def rejected_def by (intro tr.ev_onError trail_add_event later_events)

lemma trail_abandon: "trail LaterEvents s (abandon x euid err s)"
  using trail_add_event [OF later_events(9)]
  by (auto simp: abandon_def Let_def trail_def add_event_def split: option.split prod.split)

lemma trail_register: "evolves (trail E) (register_lease x euid dl)"
  unfolding register_lease_def
  by (intro tr.ev_bind trail_prims tr.ev_modify) (auto simp: trail_def release_held_def split: option.split)

lemma trail_after_apply: "evolves (trail LaterEvents) (after_apply x d details euid)"
  unfolding after_apply_def Let_def
  by (intro tr.ev_bind tr.ev_onError tr.ev_modify tr.ev_ret trail_prims trail_register trail_confirm trail_settle
      trail_abandon later_events) (simp add: trail_def push_recent_def)

lemma trail_run_up: "evolves (trail LaterEvents) (run_up x ctx n)"
proof -
  have "evolves (trail LaterEvents) (case fst rd of Inl err \<Rightarrow> driver_failed err | Inr euid \<Rightarrow> after_apply x d (snd rd) euid)" for d rd
    unfolding driver_failed_def
    by (cases "fst rd") (simp_all add: trail_after_apply tr.ev_bind tr.ev_throw trail_prims later_events)
  then show ?thesis
    unfolding run_up_def drive_def
    by (intro tr.ev_bind trail_rejecting trail_liftC keeps_ident kp_resolve kp_narrow trail_attach trail_prims(1)
        trail_prims(3) [OF later_events(1)] trail_lookup trail_checks [OF later_events(2)] trail_call_driver)
qed

lemma trail_rest:
  "evolves (trail LaterEvents) (bindE (gateE x m) (\<lambda>n. bindE (rejecting (reserveE x)) (\<lambda>_. finallyE (run_up x ctx n) release_held)))"
  unfolding gateE_def
  by (intro tr.ev_bind tr.ev_finally trail_rejecting trail_prims trail_liftC kp_validateSafety trail_run_up)
    (auto simp: trail_def release_held_def split: option.split)

lemma Apply_received:
  assumes "Apply x ctx m e = (r, e')" "with_uid x m (e_world e) = (m', w)"
  shows "\<exists>rest. e_audit e' = e_audit e @ fault_event EventExecutorReceived m' '''' (withActor ctx (AuditRecord m')) # rest
     \<and> list_all (of_fault (ident m') LaterEvents) rest"
proof -
  let ?f = "to_frame (e\<lparr>e_world := w\<rparr>) m'"
  let ?s = "add_event EventExecutorReceived '''' (withActor ctx (AuditRecord m')) ?f"
  let ?rest = "bindE (gateE x m') (\<lambda>n. bindE (rejecting (reserveE x)) (\<lambda>_. finallyE (run_up x ctx n) release_held))"
  have f: "fr_m ?f = m'" "e_audit ?f = e_audit e" by (simp_all add: to_frame_def frame.defs executor.defs)
  obtain q s where q: "?rest ?s = (q, s)" by force
  have "trail LaterEvents ?s (snd (?rest ?s))" by (rule spec [OF trail_rest [unfolded evolves_def]])
  then have "trail LaterEvents ?s s" by (simp only: q snd_conv)
  then obtain rest where rest: "e_audit s = e_audit ?s @ rest" "list_all (of_fault (ident m') LaterEvents) rest"
    by (auto simp: trail_def add_event_def f)
  have "apply_fault x ctx ?f = (q, s)"
    using q by (simp add: apply_fault_def bindE_def theM_def getE_def emitE_def modifyE_def f)
  then have "e_audit e' = e_audit s"
    using assms by (auto simp: Apply_def onErrorE_def record_refusal_def executor.defs Let_def
        split: sum.splits option.splits if_splits prod.splits)
  with rest show ?thesis by (auto simp: add_event_def f)
qed

lemma carries_withActor: "carries m (payload_norm (withActor ctx (AuditRecord m)))"
  by (simp add: carries_def map_of_payload_norm withActor_def update_conv')

text \<open>
  C38.  Every apply, whatever its outcome, leaves the request on record: read back
  from the trail, after older records of other faults, the fault's row gives the
  manifest as it was submitted, even when the pipeline narrowed it afterwards.
\<close>

theorem Apply_request_on_record:
  fixes old :: "audit_record list" and ts :: "gotime list"
  assumes run: "Apply x ctx m e = (r, e')" and m: "recordable m"
    and old: "\<forall>r \<in> set old. ar_FaultUID r \<noteq> m_UID m"
    and ts: "length ts = length (e_audit e') - length (e_audit e)"
  defines "records \<equiv> old @ map2 record_of ts (drop (length (e_audit e)) (e_audit e'))"
  shows "\<exists>row \<in> set (Faults records). fd_FaultUID row = m_UID m \<and> RequestedManifest row = Some (recorded m)"
proof -
  have "with_uid x m (e_world e) = (m, e_world e)" using m by (simp add: with_uid_def recordable_def)
  from Apply_received [OF run this] obtain rest
    where audit: "e_audit e' = e_audit e @ fault_event EventExecutorReceived m '''' (withActor ctx (AuditRecord m)) # rest"
      and rest: "list_all (of_fault (ident m) LaterEvents) rest" by blast
  let ?ev = "fault_event EventExecutorReceived m '''' (withActor ctx (AuditRecord m))"
  obtain t ts' where ts': "ts = t # ts'" using ts audit by (cases ts) auto
  define rc rs where "rc = record_of t ?ev" and "rs = map2 record_of ts' rest"
  have recs: "records = old @ rc # rs" by (simp add: records_def audit ts' rc_def rs_def)
  have "\<exists>t ev. r = record_of t ev \<and> of_fault (ident m) LaterEvents ev" if "r \<in> set rs" for r
    using that rest by (auto simp: rs_def list_all_iff dest: set_zip_rightD)
  then have rs: "records_of (m_UID m) rs = rs" "list_all (same_origin m) rs"
      "list_all (\<lambda>r. ar_Event r \<noteq> EventExecutorReceived) rs"
    by (fastforce simp: records_of_def list_all_iff filter_id_conv of_fault_def ident_def record_of_def same_origin_def
        LaterEvents_def)+
  have rc: "ar_Event rc = EventExecutorReceived" "ar_FaultUID rc = m_UID m" "ar_PlanID rc = m_PlanID m" "ar_Mode rc = m_Source m"
    "ar_Payload rc = payload_norm (withActor ctx (AuditRecord m))"
    by (simp_all add: rc_def record_of_def fault_event_def)
  have "records_of (m_UID m) old = []" using old by (simp add: records_of_def)
  then have "row_of (m_UID m) records = fold row_step (rc # rs) (new_row (m_UID m))"
    using rs(1) rc(2) records_of_append [of "m_UID m" "[rc]" rs] by (simp add: row_of_def recs)
  moreover have "RequestedManifest (fold row_step (rc # rs) (new_row (m_UID m))) = Some (recorded m)"
    by (rule RequestedManifest_received [OF m _ rc(1-4) rs(3,2)]) (simp add: rc carries_withActor)
  moreover have "row_of (m_UID m) records \<in> set (Faults records)"
    using m rc(2) by (auto simp: Faults_rows set_first_seen recordable_def recs)
  ultimately show ?thesis by (intro bexI [of _ "row_of (m_UID m) records"]) (simp_all add: fold_row_step_FaultUID)
qed

theorem Apply_request_on_record_witness:
  "\<exists>err e' row. Apply (demo_env False) demo_ctx demo_manifest demo_exec = (Inl err, e')
     \<and> row \<in> set (Faults (map2 record_of (replicate (length (e_audit e')) 1) (e_audit e')))
     \<and> RequestedManifest row = Some (recorded demo_manifest)"
proof -
  obtain err e' where e': "Apply (demo_env False) demo_ctx demo_manifest demo_exec = (Inl err, e')"
    using demo_Apply_failed by blast
  have [simp]: "e_audit demo_exec = []" by (simp add: demo_exec_def New_def)
  have "recordable demo_manifest" by (simp add: recordable_def demo_manifest_def) code_simp
  from Apply_request_on_record [OF e' this, of "[]" "replicate (length (e_audit e')) 1"] e'
  show ?thesis by fastforce
qed

end
