(* ===== verification/Plan_Dag.thy ===== *)
theory Plan_Dag
  imports Simian_Types "HOL-Library.Multiset"
begin

text \<open>
  Package \<^verbatim>\<open>planner\<close>, file \<^verbatim>\<open>dag.go\<close>: the check that the steps of an attack plan
  form a directed acyclic graph, and the grouping of the steps into layers that
  the autonomous loop executes one after the other.  Go's maps from step orders
  are association lists; the code sorts each layer, so the order in which Go
  enumerates a map does not show.
\<close>

section \<open>The operations\<close>

definition lookup_orders :: "(int \<times> int list) list \<Rightarrow> int \<Rightarrow> int list" where
  "lookup_orders m k = (case map_of m k of Some xs \<Rightarrow> xs | None \<Rightarrow> [])"

definition plan_indeg :: "plan_step list \<Rightarrow> (int \<times> int) list" where
  "plan_indeg steps = fold (\<lambda>s. AList.update (ps_Order s) (int (length (ps_DependsOn s)))) steps []"

definition plan_deps :: "plan_step list \<Rightarrow> (int \<times> int list) list" where
  "plan_deps steps = fold (\<lambda>s. AList.update (ps_Order s) (ps_DependsOn s)) steps []"

definition add_dependent :: "int \<Rightarrow> int \<Rightarrow> (int \<times> int list) list \<Rightarrow> (int \<times> int list) list" where
  "add_dependent order d m = AList.update d (lookup_orders m d @ [order]) m"

definition plan_dependents :: "(int \<times> int list) list \<Rightarrow> (int \<times> int list) list" where
  "plan_dependents deps = fold (\<lambda>(order, ds). fold (add_dependent order) ds) deps []"

definition decrement :: "int \<Rightarrow> (int \<times> int) list \<Rightarrow> (int \<times> int) list" where
  "decrement dep m = (case map_of m dep of None \<Rightarrow> m | Some n \<Rightarrow> AList.update dep (n - 1) m)"

definition take_step :: "(int \<times> int list) list \<Rightarrow> int \<Rightarrow> (int \<times> int) list \<Rightarrow> (int \<times> int) list" where
  "take_step dependents order indeg = fold decrement (lookup_orders dependents order) (AList.delete order indeg)"

definition free_layer :: "(int \<times> int) list \<Rightarrow> int list" where
  "free_layer indeg = sort (map fst (filter (\<lambda>(order, n). n = 0) indeg))"

function layers_from ::
  "(int \<times> int list) list \<Rightarrow> (int \<times> int) list \<Rightarrow> int \<Rightarrow> int list list \<Rightarrow> string + int list list" where
  "layers_from dependents indeg remaining layers =
     (if remaining \<le> 0 then Inr layers
      else if free_layer indeg = [] then Inl ''plan contains a dependency cycle''
      else layers_from dependents (fold (take_step dependents) (free_layer indeg) indeg)
             (remaining - int (length (free_layer indeg))) (layers @ [free_layer indeg]))"
  by pat_completeness auto
termination
  by (relation "measure (\<lambda>(_, _, remaining, _). nat remaining)") (simp_all add: Suc_le_eq flip: length_greater_0_conv)

declare layers_from.simps [simp del]

definition PlanLayers :: "plan_step list \<Rightarrow> string + int list list" where
  "PlanLayers steps =
     (if steps = [] then Inr []
      else layers_from (plan_dependents (plan_deps steps)) (plan_indeg steps) (int (length steps)) [])"

fun duplicate_order :: "plan_step list \<Rightarrow> int set \<Rightarrow> int option" where
  "duplicate_order [] seen = None"
| "duplicate_order (s # ss) seen =
     (if ps_Order s \<in> seen then Some (ps_Order s) else duplicate_order ss (insert (ps_Order s) seen))"

fun bad_dependency :: "int set \<Rightarrow> int \<Rightarrow> int list \<Rightarrow> string option" where
  "bad_dependency orders order [] = None"
| "bad_dependency orders order (dep # deps) =
     (if dep = order then Some (sprintf ''step % depends on itself'' [AD order])
      else if dep \<notin> orders then Some (sprintf ''step % depends on unknown step %'' [AD order, AD dep])
      else bad_dependency orders order deps)"

fun bad_step :: "int set \<Rightarrow> plan_step list \<Rightarrow> string option" where
  "bad_step orders [] = None"
| "bad_step orders (s # ss) =
     (case bad_dependency orders (ps_Order s) (ps_DependsOn s) of
        Some e \<Rightarrow> Some e
      | None \<Rightarrow> bad_step orders ss)"

definition validateStepDAG :: "plan_step list \<Rightarrow> string option" where
  "validateStepDAG steps =
     (if steps = [] then Some ''plan has no steps''
      else case duplicate_order steps {} of
             Some k \<Rightarrow> Some (sprintf ''duplicate step order %'' [AD k])
           | None \<Rightarrow>
               (case bad_step (ps_Order ` set steps) steps of
                  Some e \<Rightarrow> Some e
                | None \<Rightarrow> (case PlanLayers steps of Inl e \<Rightarrow> Some e | Inr _ \<Rightarrow> None)))"

section \<open>What the graph is\<close>

text \<open>The plan's graph: an edge from each step to each step it depends on.\<close>

definition depends :: "plan_step list \<Rightarrow> (int \<times> int) set" where
  "depends steps = {(ps_Order s, d) | s d. s \<in> set steps \<and> d \<in> set (ps_DependsOn s)}"

definition plan_wf :: "plan_step list \<Rightarrow> bool" where
  "plan_wf steps \<longleftrightarrow> distinct (map ps_Order steps)
     \<and> (\<forall>s \<in> set steps. set (ps_DependsOn s) \<subseteq> ps_Order ` set steps)
     \<and> acyclic (depends steps)"

section \<open>The maps the code builds\<close>

lemma map_of_fold_update:
  "map_of (fold (\<lambda>s. AList.update (k s) (v s)) xs m) = map_of (rev (map (\<lambda>s. (k s, v s)) xs) @ m)"
  by (induction xs arbitrary: m) (simp_all add: update_conv')

lemma distinct_fold_update:
  "distinct (map fst m) \<Longrightarrow> distinct (map fst (fold (\<lambda>s. AList.update (k s) (v s)) xs m))"
  by (induction xs arbitrary: m) (simp_all add: distinct_update)

lemma count_lookup_add_dependent:
  "count_list (lookup_orders (fold (add_dependent order) ds m) k) c =
     count_list (lookup_orders m k) c + (if c = order then count_list ds k else 0)"
  by (induction ds arbitrary: m) (auto simp: add_dependent_def lookup_orders_def update_conv')

lemma count_lookup_plan_dependents:
  "distinct (map fst deps) \<Longrightarrow>
     count_list (lookup_orders (plan_dependents deps) k) c = count_list (lookup_orders deps c) k"
proof -
  have "distinct (map fst deps) \<Longrightarrow>
     count_list (lookup_orders (fold (\<lambda>(order, ds). fold (add_dependent order) ds) deps m) k) c =
     count_list (lookup_orders m k) c + count_list (lookup_orders deps c) k" for m
  proof (induction deps arbitrary: m)
    case (Cons p deps)
    obtain order ds where [simp]: "p = (order, ds)" by force
    have "lookup_orders deps order = []"
      using Cons.prems by (force simp: lookup_orders_def split: option.split dest: map_of_SomeD)
    then show ?case
      using Cons.prems by (simp add: Cons.IH count_lookup_add_dependent) (simp add: lookup_orders_def)
  qed (simp add: lookup_orders_def)
  then show "distinct (map fst deps) \<Longrightarrow> ?thesis"
    by (simp add: plan_dependents_def) (simp add: lookup_orders_def)
qed

lemma map_of_decrements:
  "map_of (fold decrement ds m) c = map_option (\<lambda>n. n - int (count_list ds c)) (map_of m c)"
  by (induction ds arbitrary: m) (auto simp: decrement_def update_conv' option.map_ident split: option.splits)

lemma distinct_decrements: "distinct (map fst m) \<Longrightarrow> distinct (map fst (fold decrement ds m))"
  by (induction ds arbitrary: m) (auto simp: decrement_def distinct_update split: option.split)

section \<open>The loop's invariant\<close>

text \<open>The in-degree map after the steps in \<open>R\<close> were taken: every other step with the
  number of its dependencies not yet taken.\<close>

definition indeg_inv :: "(int \<Rightarrow> int list) \<Rightarrow> int set \<Rightarrow> int set \<Rightarrow> (int \<times> int) list \<Rightarrow> bool" where
  "indeg_inv D K R m \<longleftrightarrow> distinct (map fst m) \<and>
     (\<forall>c. map_of m c = (if c \<in> K - R then Some (int (length (filter (\<lambda>d. d \<notin> R) (D c)))) else None))"

lemma length_filter_insert:
  "x \<notin> R \<Longrightarrow> length (filter (\<lambda>d. d \<notin> insert x R) ds) + count_list ds x = length (filter (\<lambda>d. d \<notin> R) ds)"
  by (induction ds) auto

lemma indeg_inv_take_step:
  assumes inv: "indeg_inv D K R m" and x: "x \<notin> R"
    and dep: "\<And>c. c \<in> K \<Longrightarrow> count_list (lookup_orders dependents x) c = count_list (D c) x"
  shows "indeg_inv D K (insert x R) (take_step dependents x m)"
proof -
  have "distinct (map fst (take_step dependents x m))"
    using inv by (simp add: take_step_def indeg_inv_def distinct_decrements distinct_delete)
  moreover have "map_of (take_step dependents x m) c =
      (if c \<in> K - insert x R then Some (int (length (filter (\<lambda>d. d \<notin> insert x R) (D c)))) else None)" for c
    using inv length_filter_insert [OF x, of "D c"] dep [of c]
    by (auto simp: take_step_def map_of_decrements indeg_inv_def delete_conv')
  ultimately show ?thesis by (simp add: indeg_inv_def)
qed

lemma indeg_inv_take_steps:
  assumes "indeg_inv D K R m" "distinct xs" "set xs \<inter> R = {}"
    and "\<And>x c. c \<in> K \<Longrightarrow> count_list (lookup_orders dependents x) c = count_list (D c) x"
  shows "indeg_inv D K (R \<union> set xs) (fold (take_step dependents) xs m)"
  using assms(1-3)
proof (induction xs arbitrary: R m)
  case (Cons x xs)
  then have "indeg_inv D K (insert x R) (take_step dependents x m)"
    by (intro indeg_inv_take_step) (auto simp: assms(4))
  from Cons.IH [OF this] Cons.prems show ?case by auto
qed simp

lemma set_free_layer:
  assumes "indeg_inv D K R m"
  shows "set (free_layer m) = {c \<in> K - R. set (D c) \<subseteq> R}"
proof -
  have "c \<in> set (free_layer m) \<longleftrightarrow> map_of m c = Some 0" for c
    using assms unfolding indeg_inv_def by (subst map_of_eq_Some_iff) (auto simp: free_layer_def image_iff)
  then show ?thesis
    using assms by (auto simp: indeg_inv_def filter_empty_conv split: if_splits)
qed

lemma distinct_free_layer: "indeg_inv D K R m \<Longrightarrow> distinct (free_layer m)"
  by (auto simp: free_layer_def indeg_inv_def distinct_map_filter)

text \<open>What a sequence of layers is, starting with the steps in \<open>R\<close> taken: each layer holds
  exactly the steps whose dependencies are all taken, in ascending order.\<close>

fun layering :: "(int \<Rightarrow> int list) \<Rightarrow> int set \<Rightarrow> int set \<Rightarrow> int list list \<Rightarrow> bool" where
  "layering D K R [] \<longleftrightarrow> True"
| "layering D K R (l # ls) \<longleftrightarrow> l \<noteq> [] \<and> sorted l \<and> distinct l \<and> set l = {c \<in> K - R. set (D c) \<subseteq> R}
     \<and> layering D K (R \<union> set l) ls"

text \<open>The reverse adjacency lists count what the dependency lists count.\<close>

definition reverses :: "(int \<times> int list) list \<Rightarrow> int set \<Rightarrow> (int \<Rightarrow> int list) \<Rightarrow> bool" where
  "reverses dependents K D \<longleftrightarrow>
     (\<forall>x. \<forall>c \<in> K. count_list (lookup_orders dependents x) c = count_list (D c) x)"

lemma layer_step:
  assumes inv: "indeg_inv D K R m" and "reverses dependents K D" "finite K"
  shows "indeg_inv D K (R \<union> set (free_layer m)) (fold (take_step dependents) (free_layer m) m)"
    and "length (free_layer m) + card (K - (R \<union> set (free_layer m))) = card (K - R)"
proof -
  let ?l = "free_layer m"
  have l: "distinct ?l" "set ?l = {c \<in> K - R. set (D c) \<subseteq> R}"
    using inv by (simp_all add: set_free_layer distinct_free_layer)
  show "indeg_inv D K (R \<union> set ?l) (fold (take_step dependents) ?l m)"
    using assms(2) l by (intro indeg_inv_take_steps inv) (auto simp: reverses_def)
  have "card (set ?l \<union> (K - (R \<union> set ?l))) = card (set ?l) + card (K - (R \<union> set ?l))"
    using assms(3) by (intro card_Un_disjoint) auto
  moreover have "set ?l \<union> (K - (R \<union> set ?l)) = K - R" using l(2) by blast
  ultimately show "length ?l + card (K - (R \<union> set ?l)) = card (K - R)"
    by (simp add: distinct_card [OF l(1)])
qed

lemma layers_from_sound:
  "\<lbrakk>indeg_inv D K R m; reverses dependents K D; finite K; int (card (K - R)) \<le> remaining;
    layers_from dependents m remaining acc = Inr ls\<rbrakk> \<Longrightarrow>
     \<exists>ls'. ls = acc @ ls' \<and> layering D K R ls' \<and> int (length (concat ls')) = remaining"
proof (induction dependents m remaining acc arbitrary: R rule: layers_from.induct)
  case (1 dp m remaining acc)
  let ?l = "free_layer m"
  note inv = "1.prems"(1) and step = layer_step [OF "1.prems"(1-3)]
  show ?case
  proof (cases "remaining \<le> 0")
    case True
    then show ?thesis using "1.prems" by (intro exI [of _ "[]"]) (simp add: layers_from.simps)
  next
    case False
    then have ne: "?l \<noteq> []" and run: "layers_from dp (fold (take_step dp) ?l m)
        (remaining - int (length ?l)) (acc @ [?l]) = Inr ls"
      using "1.prems"(5) by (auto simp: layers_from.simps [of dp m remaining] split: if_splits)
    have "int (card (K - (R \<union> set ?l))) \<le> remaining - int (length ?l)"
      using step(2) "1.prems"(4) by linarith
    from "1.IH" [OF False ne step(1) "1.prems"(2,3) this run]
    obtain ls' where "ls = (acc @ [?l]) @ ls'" "layering D K (R \<union> set ?l) ls'"
      "int (length (concat ls')) = remaining - int (length ?l)" by blast
    moreover have "sorted ?l" by (simp add: free_layer_def)
    ultimately show ?thesis using ne set_free_layer [OF inv] distinct_free_layer [OF inv]
      by (intro exI [of _ "?l # ls'"]) simp
  qed
qed

lemma layers_from_complete:
  "\<lbrakk>indeg_inv D K R m; reverses dependents K D; finite K; int (card (K - R)) = remaining;
    \<forall>c \<in> K. set (D c) \<subseteq> K; wf {(d, c). c \<in> K \<and> d \<in> set (D c)}\<rbrakk> \<Longrightarrow>
     \<exists>ls. layers_from dependents m remaining acc = Inr ls"
proof (induction dependents m remaining acc arbitrary: R rule: layers_from.induct)
  case (1 dp m remaining acc)
  let ?l = "free_layer m"
  note inv = "1.prems"(1) and step = layer_step [OF "1.prems"(1-3)]
  show ?case
  proof (cases "remaining \<le> 0")
    case False
    have "K - R \<noteq> {}"
    proof
      assume "K - R = {}"
      then have "card (K - R) = 0" by (simp only: card.empty)
      then show False using False "1.prems"(4) by simp
    qed
    then obtain c0 where "c0 \<in> K - R" by blast
    from wfE_min [OF "1.prems"(6) this] obtain c where "c \<in> K - R"
      and "\<And>d. (d, c) \<in> {(d, c). c \<in> K \<and> d \<in> set (D c)} \<Longrightarrow> d \<notin> K - R" by blast
    then have "set (D c) \<subseteq> R" using "1.prems"(5) by blast
    then have "c \<in> set ?l" using set_free_layer [OF inv] \<open>c \<in> K - R\<close> by simp
    then have ne: "?l \<noteq> []" by force
    have "int (card (K - (R \<union> set ?l))) = remaining - int (length ?l)"
      using step(2) "1.prems"(4) by linarith
    from "1.IH" [OF False ne step(1) "1.prems"(2,3) this "1.prems"(5,6)]
    show ?thesis using False ne by (simp add: layers_from.simps [of dp m remaining])
  qed (simp add: layers_from.simps)
qed

lemma layering_Cons:
  assumes "layering D K R (l # ls)"
  shows "distinct l" "set l \<subseteq> K - R" "layering D K (R \<union> set l) ls"
    and "\<And>c. c \<in> set l \<Longrightarrow> set (D c) \<subseteq> R" "\<And>c. c \<in> K \<Longrightarrow> c \<notin> R \<Longrightarrow> set (D c) \<subseteq> R \<Longrightarrow> c \<in> set l"
proof -
  have "set l = {c \<in> K - R. set (D c) \<subseteq> R}" using assms by simp
  then have mem: "c \<in> set l \<longleftrightarrow> c \<in> K \<and> c \<notin> R \<and> set (D c) \<subseteq> R" for c by blast
  show "distinct l" using assms by simp
  show "layering D K (R \<union> set l) ls" using assms unfolding layering.simps by blast
  show "set l \<subseteq> K - R" by (simp add: subset_iff mem)
  show "\<And>c. c \<in> set l \<Longrightarrow> set (D c) \<subseteq> R" "\<And>c. c \<in> K \<Longrightarrow> c \<notin> R \<Longrightarrow> set (D c) \<subseteq> R \<Longrightarrow> c \<in> set l"
    by (simp_all add: mem)
qed

lemma layering_layers: "layering D K R ls \<Longrightarrow> l \<in> set ls \<Longrightarrow> l \<noteq> [] \<and> sorted l"
  by (induction ls arbitrary: R) auto

lemma layering_concat: "layering D K R ls \<Longrightarrow> distinct (concat ls) \<and> set (concat ls) \<subseteq> K - R"
proof (induction ls arbitrary: R)
  case (Cons l ls)
  note l = layering_Cons [OF Cons.prems]
  show ?case using Cons.IH [OF l(3)] l(1,2) by auto
qed simp

definition below :: "int list list \<Rightarrow> nat \<Rightarrow> int set" where
  "below ls i = \<Union> (set ` set (take i ls))"

lemma below_simps [simp]:
  "below ls 0 = {}" "below (l # ls) (Suc i) = set l \<union> below ls i"
  by (simp_all add: below_def)

lemma in_below: "d \<in> below ls i \<longleftrightarrow> (\<exists>j < i. j < length ls \<and> d \<in> set (ls ! j))"
proof -
  have "d \<in> below ls i \<longleftrightarrow> (\<exists>j < length (take i ls). d \<in> set (take i ls ! j))"
    by (force simp: below_def in_set_conv_nth [of _ "take i ls"])
  then show ?thesis by auto
qed

lemma layering_depth:
  "layering D K R ls \<Longrightarrow> i < length ls \<Longrightarrow> c \<in> set (ls ! i) \<Longrightarrow>
     set (D c) \<subseteq> R \<union> below ls i \<and> (i > 0 \<longrightarrow> \<not> set (D c) \<subseteq> R \<union> below ls (i - 1)) \<and> c \<in> K - R"
proof (induction ls arbitrary: R i)
  case (Cons l ls)
  note l = layering_Cons [OF Cons.prems(1)]
  show ?case
  proof (cases i)
    case 0
    then show ?thesis using Cons.prems(3) l(2) l(4) [of c] by auto
  next
    case (Suc j)
    then have j: "j < length ls" "c \<in> set (ls ! j)" using Cons.prems by auto
    note IH = Cons.IH [OF l(3) j]
    then have "\<not> set (D c) \<subseteq> R" using l(5) [of c] by auto
    then show ?thesis using IH Suc by (cases j) (auto simp: Un_assoc)
  qed
qed simp

section \<open>The plan's own maps\<close>

abbreviation deps_of :: "plan_step list \<Rightarrow> int \<Rightarrow> int list" where
  "deps_of steps \<equiv> lookup_orders (plan_deps steps)"

abbreviation orders_of :: "plan_step list \<Rightarrow> int set" where
  "orders_of steps \<equiv> ps_Order ` set steps"

lemma map_of_plan_indeg: "map_of (plan_indeg steps) c = map_option (int \<circ> length) (map_of (plan_deps steps) c)"
proof -
  have "map_of (rev (map (\<lambda>s. (ps_Order s, int (length (ps_DependsOn s)))) steps)) c =
      map_option (int \<circ> length) (map_of (rev (map (\<lambda>s. (ps_Order s, ps_DependsOn s)) steps)) c)"
    by (induction steps rule: rev_induct) auto
  then show ?thesis by (simp add: plan_indeg_def plan_deps_def map_of_fold_update)
qed

lemma plan_deps_None: "map_of (plan_deps steps) c = None \<longleftrightarrow> c \<notin> orders_of steps"
  by (simp add: plan_deps_def map_of_fold_update map_of_eq_None_iff image_image)

lemma indeg_inv_init: "indeg_inv (deps_of steps) (orders_of steps) {} (plan_indeg steps)"
proof -
  have "distinct (map fst (plan_indeg steps))" by (simp add: plan_indeg_def distinct_fold_update)
  moreover have "map_of (plan_indeg steps) c =
      (if c \<in> orders_of steps then Some (int (length (deps_of steps c))) else None)" for c
    using plan_deps_None [of steps c] by (auto simp: map_of_plan_indeg lookup_orders_def)
  ultimately show ?thesis by (simp add: indeg_inv_def)
qed

lemma reverses_plan: "reverses (plan_dependents (plan_deps steps)) K (deps_of steps)"
  by (simp add: reverses_def count_lookup_plan_dependents plan_deps_def distinct_fold_update)

lemma deps_of_step:
  assumes "distinct (map ps_Order steps)" "s \<in> set steps"
  shows "deps_of steps (ps_Order s) = ps_DependsOn s"
proof -
  have "map_of (rev (map (\<lambda>s. (ps_Order s, ps_DependsOn s)) steps)) (ps_Order s) = Some (ps_DependsOn s)"
    using assms by (intro map_of_is_SomeI) (simp_all add: rev_map [symmetric] comp_def)
  then show ?thesis by (simp add: lookup_orders_def plan_deps_def map_of_fold_update)
qed

lemma PlanLayers_layering:
  assumes "PlanLayers steps = Inr layers"
  shows "layering (deps_of steps) (orders_of steps) {} layers" "length (concat layers) = length steps"
proof -
  have "\<exists>ls'. layers = [] @ ls' \<and> layering (deps_of steps) (orders_of steps) {} ls'
      \<and> int (length (concat ls')) = int (length steps)"
  proof (cases "steps = []")
    case False
    with assms show ?thesis
      by (intro layers_from_sound [OF indeg_inv_init reverses_plan])
         (simp_all add: PlanLayers_def card_image_le [of "set steps", THEN order_trans] card_length)
  qed (use assms in \<open>simp add: PlanLayers_def\<close>)
  then show "layering (deps_of steps) (orders_of steps) {} layers" "length (concat layers) = length steps"
    by auto
qed

lemma PlanLayers_cover:
  assumes "PlanLayers steps = Inr layers"
  shows "distinct (map ps_Order steps)" "distinct (concat layers)" "set (concat layers) = orders_of steps"
proof -
  note l = PlanLayers_layering [OF assms] and c = layering_concat [OF PlanLayers_layering(1) [OF assms]]
  have "card (set (concat layers)) = length steps" using c l(2) by (metis distinct_card)
  moreover have "card (set (concat layers)) \<le> card (orders_of steps)" using c by (intro card_mono) auto
  moreover have "card (orders_of steps) \<le> length steps" by (metis card_length length_map set_map)
  ultimately have eq: "card (orders_of steps) = length steps" "card (set (concat layers)) = card (orders_of steps)"
    by linarith+
  show "distinct (map ps_Order steps)" by (rule card_distinct) (simp add: eq)
  show "distinct (concat layers)" using c by blast
  show "set (concat layers) = orders_of steps" using c eq(2) by (intro card_subset_eq) auto
qed

lemma PlanLayers_depth:
  assumes "PlanLayers steps = Inr layers" "s \<in> set steps" "i < length layers" "ps_Order s \<in> set (layers ! i)"
  shows "\<forall>d \<in> set (ps_DependsOn s). \<exists>j < i. d \<in> set (layers ! j)"
    and "i > 0 \<longrightarrow> (\<exists>d \<in> set (ps_DependsOn s). d \<in> set (layers ! (i - 1)))"
proof -
  note d = layering_depth [OF PlanLayers_layering(1) [OF assms(1)] assms(3,4)]
  have D: "deps_of steps (ps_Order s) = ps_DependsOn s"
    using PlanLayers_cover(1) [OF assms(1)] assms(2) by (rule deps_of_step)
  show "\<forall>d \<in> set (ps_DependsOn s). \<exists>j < i. d \<in> set (layers ! j)"
  proof
    fix x assume "x \<in> set (ps_DependsOn s)"
    then have "x \<in> below layers i" using conjunct1 [OF d] unfolding D by auto
    then show "\<exists>j < i. x \<in> set (layers ! j)" unfolding in_below by blast
  qed
  show "i > 0 \<longrightarrow> (\<exists>d \<in> set (ps_DependsOn s). d \<in> set (layers ! (i - 1)))"
  proof
    assume "i > 0"
    then obtain x where "x \<in> set (ps_DependsOn s)" "x \<in> below layers i" "x \<notin> below layers (i - 1)"
      using d unfolding D by auto
    then show "\<exists>d \<in> set (ps_DependsOn s). d \<in> set (layers ! (i - 1))"
      using \<open>i > 0\<close> unfolding in_below by (metis Suc_pred' less_antisym)
  qed
qed

lemma acyclic_ranked:
  fixes f :: "'a \<Rightarrow> nat"
  assumes "\<And>x y. (x, y) \<in> r \<Longrightarrow> f y < f x"
  shows "acyclic r"
  by (rule acyclicI_order [of r f]) (use assms in blast)

lemma PlanLayers_wf:
  assumes "PlanLayers steps = Inr layers"
  shows "plan_wf steps"
proof -
  note cover = PlanLayers_cover [OF assms]
  define rank where "rank c = (LEAST i. i < length layers \<and> c \<in> set (layers ! i))" for c
  have rank: "rank c < length layers \<and> c \<in> set (layers ! rank c)" if "c \<in> orders_of steps" for c
  proof -
    have "c \<in> set (concat layers)" using that cover(3) by simp
    then have "\<exists>i. i < length layers \<and> c \<in> set (layers ! i)" by (auto simp: in_set_conv_nth [of _ layers])
    then show ?thesis unfolding rank_def by (rule LeastI_ex)
  qed
  have dep: "\<exists>j < rank (ps_Order s). d \<in> set (layers ! j) \<and> j < length layers"
    if "s \<in> set steps" "d \<in> set (ps_DependsOn s)" for s d
    using PlanLayers_depth(1) [OF assms that(1), of "rank (ps_Order s)"] rank [of "ps_Order s"] that by fastforce
  have "set (ps_DependsOn s) \<subseteq> orders_of steps" if "s \<in> set steps" for s
  proof
    fix d assume "d \<in> set (ps_DependsOn s)"
    then have "d \<in> set (concat layers)" using dep [OF that] by (auto intro: nth_mem)
    then show "d \<in> orders_of steps" by (simp only: cover(3))
  qed
  moreover have "rank y < rank x" if "(x, y) \<in> depends steps" for x y
    using that dep by (auto simp: depends_def rank_def intro: le_less_trans [OF Least_le])
  ultimately show ?thesis using cover(1) acyclic_ranked [of "depends steps" rank] by (auto simp: plan_wf_def)
qed

lemma plan_wf_layers:
  assumes "plan_wf steps"
  shows "\<exists>layers. PlanLayers steps = Inr layers"
proof (cases "steps = []")
  case False
  have D: "set (deps_of steps (ps_Order s)) = set (ps_DependsOn s)" if "s \<in> set steps" for s
    using assms deps_of_step [OF _ that] by (simp add: plan_wf_def)
  have "{(d, c). c \<in> orders_of steps \<and> d \<in> set (deps_of steps c)} = (depends steps)\<inverse>"
    using D by (auto simp: depends_def)
  moreover have "finite (depends steps)"
    by (rule finite_subset [of _ "\<Union>s \<in> set steps. {ps_Order s} \<times> set (ps_DependsOn s)"]) (auto simp: depends_def)
  ultimately have "wf {(d, c). c \<in> orders_of steps \<and> d \<in> set (deps_of steps c)}"
    using assms by (simp add: plan_wf_def finite_acyclic_wf_converse)
  moreover have "int (card (orders_of steps - {})) = int (length steps)"
    using assms distinct_card [of "map ps_Order steps"] by (simp add: plan_wf_def)
  ultimately show ?thesis using assms False D
    unfolding PlanLayers_def by (simp, intro layers_from_complete [OF indeg_inv_init reverses_plan])
       (auto simp: plan_wf_def)
qed (simp add: PlanLayers_def)

lemma duplicate_order_None:
  "duplicate_order steps seen = None \<longleftrightarrow> distinct (map ps_Order steps) \<and> ps_Order ` set steps \<inter> seen = {}"
  by (induction steps arbitrary: seen) auto

lemma bad_dependency_None:
  "bad_dependency orders order deps = None \<longleftrightarrow> order \<notin> set deps \<and> set deps \<subseteq> orders"
  by (induction deps) auto

lemma bad_step_None:
  "bad_step orders steps = None \<longleftrightarrow>
     (\<forall>s \<in> set steps. ps_Order s \<notin> set (ps_DependsOn s) \<and> set (ps_DependsOn s) \<subseteq> orders)"
proof (induction steps)
  case (Cons s ss)
  then show ?case using bad_dependency_None [of orders "ps_Order s" "ps_DependsOn s"] by (auto split: option.split)
qed simp

lemma acyclic_irrefl_depends: "acyclic (depends steps) \<Longrightarrow> s \<in> set steps \<Longrightarrow> ps_Order s \<notin> set (ps_DependsOn s)"
  by (auto simp: acyclic_def depends_def)

section \<open>Guarantees\<close>

text \<open>
  C11.  Layering a plan groups every step into exactly one layer.  A step's
  dependencies lie in earlier layers, one of them in the layer just before it,
  and each layer is in ascending order; layering fails exactly when two steps
  share an order, a dependency is no step of the plan, or the dependencies have
  a cycle.  The loop always ends.
\<close>

theorem PlanLayers_topological:
  "case PlanLayers steps of
     Inl _ \<Rightarrow> \<not> plan_wf steps
   | Inr layers \<Rightarrow> plan_wf steps
       \<and> mset (concat layers) = mset (map ps_Order steps)
       \<and> (\<forall>l \<in> set layers. l \<noteq> [] \<and> sorted l)
       \<and> (\<forall>s \<in> set steps. \<forall>i < length layers. ps_Order s \<in> set (layers ! i) \<longrightarrow>
            (\<forall>d \<in> set (ps_DependsOn s). \<exists>j < i. d \<in> set (layers ! j))
            \<and> (i > 0 \<longrightarrow> (\<exists>d \<in> set (ps_DependsOn s). d \<in> set (layers ! (i - 1)))))"
proof (cases "PlanLayers steps")
  case (Inl e)
  then show ?thesis using plan_wf_layers [of steps] by auto
next
  case (Inr layers)
  note cover = PlanLayers_cover [OF Inr]
  have "mset (concat layers) = mset (map ps_Order steps)"
    using cover by (intro set_eq_iff_mset_eq_distinct [THEN iffD1]) simp_all
  moreover have "l \<noteq> [] \<and> sorted l" if "l \<in> set layers" for l
    using layering_layers [OF PlanLayers_layering(1) [OF Inr]] that by blast
  ultimately show ?thesis
    unfolding Inr sum.case using PlanLayers_wf [OF Inr] PlanLayers_depth [OF Inr] by blast
qed

definition sample_step :: "int \<Rightarrow> int list \<Rightarrow> plan_step" where
  "sample_step k deps = \<lparr>ps_Order = k, ps_Manifest = empty_manifest, ps_Rationale = [],
     ps_DurationRationale = [], ps_DependsOn = deps\<rparr>"

definition sample_plan :: "plan_step list" where
  "sample_plan = [sample_step 3 [1], sample_step 2 [1, 1], sample_step 4 [3], sample_step 1 []]"

lemma sample_plan_layers: "PlanLayers sample_plan = Inr [[1], [2, 3], [4]]"
  by code_simp

theorem PlanLayers_topological_witness:
  "PlanLayers sample_plan = Inr [[1], [2, 3], [4]] \<and> plan_wf sample_plan
   \<and> mset (concat [[1], [2, 3], [4]]) = mset (map ps_Order sample_plan)"
  using PlanLayers_topological [of sample_plan] unfolding sample_plan_layers by simp

lemma validateStepDAG_None: "validateStepDAG steps = None \<longleftrightarrow> steps \<noteq> [] \<and> plan_wf steps"
proof -
  have "(case PlanLayers steps of Inl e \<Rightarrow> Some e | Inr _ \<Rightarrow> None) = None \<longleftrightarrow> plan_wf steps"
    using plan_wf_layers [of steps] PlanLayers_wf [of steps] by (auto split: sum.split)
  then show ?thesis
    using duplicate_order_None [of steps "{}"] bad_step_None [of "orders_of steps" steps]
      acyclic_irrefl_depends [of steps]
    by (auto simp: validateStepDAG_def plan_wf_def split: option.split)
qed

text \<open>
  A plan is accepted exactly when it has steps, no two share an order, and
  their dependencies are steps of the plan without a cycle.
\<close>

theorem validateStepDAG_accepts: "validateStepDAG steps = None \<longleftrightarrow> steps \<noteq> [] \<and> plan_wf steps"
  by (rule validateStepDAG_None)

end
