(* ===== verification/Topology_Graph.thy ===== *)
theory Topology_Graph
  imports Target_Compat
begin

text \<open>
  The shape of an arena as the planner and the health gate see it:
  \<^verbatim>\<open>src/pkg/topology\<close>.  The discoverer summarises the cached Kubernetes objects and
  infers who calls whom from NetworkPolicies and from environment variables;
  the caches themselves are a parameter, the objects they hold.

  Shown here: the inferred graph has exactly the edges the two heuristics find,
  each with the heuristics that found it.
\<close>

section \<open>Summaries\<close>

record env_ref =
  er_EnvName :: string
  er_Service :: string
  er_Port :: string

record container_summary =
  ct_Name :: string
  ct_Image :: string
  ct_EnvRefs :: "env_ref list"
  ct_ReadOnlyRootFS :: bool
  ct_MountPaths :: "string list"
  ct_RestartProbes :: "(int \<times> string) list"
  ct_GRPCPorts :: "int list"

record workload =
  wl_Kind :: string
  wl_Name :: string
  wl_Labels :: "string gomap"
  wl_DesiredReplicas :: int
  wl_Containers :: "container_summary list"
  wl_EnvoyInjected :: bool

record service =
  sv_Name :: string
  sv_Selector :: "string gomap"
  sv_Ports :: "(string \<times> int) list"

record pod_summary =
  pd_Name :: string
  pd_Phase :: string
  pd_Ready :: bool
  pd_Restarts :: int
  pd_NodeName :: string
  pd_Zone :: string
  pd_AgeSec :: int

record target_topology =
  tt_Namespace :: string
  tt_Workloads :: "workload list"
  tt_Services :: "service list"
  tt_DependencyGraph :: "string list gomap"
  tt_ReplicaMap :: "int gomap"
  tt_PodStatus :: "pod_summary list gomap"
  tt_EdgeProvenance :: "string list gomap"

definition lookup_list :: "'a list gomap \<Rightarrow> string \<Rightarrow> 'a list" where
  "lookup_list m k = (case map_of m k of Some xs \<Rightarrow> xs | None \<Rightarrow> [])"

section \<open>The objects of the cluster\<close>

record pod_template =
  tp_Labels :: "string gomap"
  tp_Annotations :: "string gomap"
  tp_Containers :: "(k8s_container \<times> string \<times> string gomap) list"

text \<open>A container of a template comes with its image and environment.  \<open>kw_Replicas\<close> is
  the nil-able \<^verbatim>\<open>spec.replicas\<close> of a Deployment or StatefulSet, \<open>kw_Scheduled\<close> the
  desired number of a DaemonSet's status.\<close>

record k8s_workload =
  kw_Name :: string
  kw_Replicas :: "int option"
  kw_Scheduled :: int
  kw_Template :: pod_template

record owned_pod = k8s_pod +
  pod_Owners :: "(string \<times> string) list"
  pod_NodeName :: string
  pod_Created :: gotime

text \<open>A NetworkPolicy; each ingress rule lists its peers, a peer its pod selector if any.\<close>

record network_policy =
  np_Namespace :: string
  np_Name :: string
  np_Labels :: "string gomap"
  np_Annotations :: "string gomap"
  np_Created :: gotime
  np_Deleting :: bool
  np_PodSelector :: "string gomap"
  np_PolicyTypes :: "string list"
  np_Ingress :: "string gomap option list list option"
  np_Egress :: "string gomap option list list option"

section \<open>Service references in the environment\<close>

definition is_letter :: "char \<Rightarrow> bool" where
  "is_letter c \<longleftrightarrow> (97 \<le> (of_char c :: nat) \<and> (of_char c :: nat) \<le> 122) \<or> (65 \<le> (of_char c :: nat) \<and> (of_char c :: nat) \<le> 90)"

definition validDNSLabelish :: "string \<Rightarrow> bool" where
  "validDNSLabelish s \<longleftrightarrow> s \<noteq> '''' \<and> list_all (\<lambda>c. is_letter c \<or> is_digit c \<or> c = CHR ''-'' \<or> c = CHR ''.'') s"

definition validPortDigits :: "string \<Rightarrow> bool" where
  "validPortDigits s \<longleftrightarrow> s \<noteq> '''' \<and> list_all is_digit s"

definition splitHostPort :: "string \<Rightarrow> (string \<times> string) option" where
  "splitHostPort v0 =
     (let v = trim_space v0
      in if v = '''' \<or> sublist ''://'' v \<or> sublist ''/'' v then None
         else if CHR '':'' \<notin> set v then None
         else let port = rev (takeWhile (\<lambda>c. c \<noteq> CHR '':'') (rev v));
                  host = take (length v - length port - 1) v
              in if host = '''' \<or> port = '''' then None
                 else if \<not> validDNSLabelish host \<or> \<not> validPortDigits port then None
                 else Some (host, port))"

text \<open>Up to the first dot, unless the name starts with one.\<close>

definition strip_namespace :: "string \<Rightarrow> string" where
  "strip_namespace host =
     (let label = takeWhile (\<lambda>c. c \<noteq> CHR ''.'') host in if label = '''' then host else label)"

definition env_ref_of :: "string \<times> string \<Rightarrow> env_ref option" where
  "env_ref_of e =
     (if snd e = '''' then None
      else case splitHostPort (snd e) of
             None \<Rightarrow> None
           | Some (host, port) \<Rightarrow> Some \<lparr>er_EnvName = fst e, er_Service = strip_namespace host, er_Port = port\<rparr>)"

definition envRefsFromContainer :: "string gomap \<Rightarrow> env_ref list" where
  "envRefsFromContainer env = List.map_filter env_ref_of env"

section \<open>Workload summaries\<close>

definition envoyInjectedAnnotation :: string where
  "envoyInjectedAnnotation = ''simian.chaos/envoy-injected''"

text \<open>A probe's port: the last container port of that name, or 0; the number itself.\<close>

definition restart_probe :: "(string \<times> int) list \<Rightarrow> k8s_probe option \<Rightarrow> (int \<times> string) list" where
  "restart_probe ports probe =
     (case Option.bind probe pr_HTTPGet of
        None \<Rightarrow> []
      | Some (port, path) \<Rightarrow>
          let n = (case port of
                     PortInt i \<Rightarrow> i
                   | PortStr s \<Rightarrow> (case find (\<lambda>p. fst p = s) (rev ports) of Some p \<Rightarrow> snd p | None \<Rightarrow> 0))
          in if n \<noteq> 0 then [(n, path)] else [])"

definition grpc_ports :: "k8s_container \<Rightarrow> int list" where
  "grpc_ports c =
     sort (remdups
       (List.map_filter (\<lambda>p. Option.bind p pr_GRPC) [c_LivenessProbe c, c_ReadinessProbe c, c_StartupProbe c]
        @ map snd (filter (\<lambda>p. has_prefix (to_lower (fst p)) ''grpc'') (c_Ports c))))"

definition containerSummary :: "k8s_container \<times> string \<times> string gomap \<Rightarrow> container_summary" where
  "containerSummary ci =
     (case ci of (c, img, env) \<Rightarrow>
        \<lparr>ct_Name = c_Name c, ct_Image = img, ct_EnvRefs = envRefsFromContainer env,
         ct_ReadOnlyRootFS = (c_ReadOnlyRootFS c = Some True), ct_MountPaths = c_MountPaths c,
         ct_RestartProbes = restart_probe (c_Ports c) (c_LivenessProbe c) @ restart_probe (c_Ports c) (c_StartupProbe c),
         ct_GRPCPorts = grpc_ports c\<rparr>)"

definition workload_summary :: "string \<Rightarrow> int \<Rightarrow> k8s_workload \<Rightarrow> workload" where
  "workload_summary kind desired d =
     \<lparr>wl_Kind = kind, wl_Name = kw_Name d, wl_Labels = tp_Labels (kw_Template d), wl_DesiredReplicas = desired,
      wl_Containers = map containerSummary (tp_Containers (kw_Template d)),
      wl_EnvoyInjected = (map_of (tp_Annotations (kw_Template d)) envoyInjectedAnnotation = Some ''true'')\<rparr>"

definition replicas_or_one :: "k8s_workload \<Rightarrow> int" where
  "replicas_or_one d = (case kw_Replicas d of None \<Rightarrow> 1 | Some n \<Rightarrow> n)"

definition workloadFromDeployment :: "k8s_workload \<Rightarrow> workload" where
  "workloadFromDeployment d = workload_summary ''Deployment'' (replicas_or_one d) d"

definition workloadFromStatefulSet :: "k8s_workload \<Rightarrow> workload" where
  "workloadFromStatefulSet s = workload_summary ''StatefulSet'' (replicas_or_one s) s"

definition workloadFromDaemonSet :: "k8s_workload \<Rightarrow> workload" where
  "workloadFromDaemonSet d = workload_summary ''DaemonSet'' (kw_Scheduled d) d"

section \<open>Pods by their owner\<close>

text \<open>Up to the last dash, if it is not the first character.\<close>

definition before_last_dash :: "string \<Rightarrow> string" where
  "before_last_dash s =
     (let tail = takeWhile (\<lambda>c. c \<noteq> CHR ''-'') (rev s)
      in if length tail < length s \<and> length s - length tail - 1 > 0 then take (length s - length tail - 1) s else s)"

definition owner_name :: "string \<times> string \<Rightarrow> string option" where
  "owner_name ref =
     (if fst ref = ''ReplicaSet'' then Some (before_last_dash (snd ref))
      else if fst ref \<in> {''StatefulSet'', ''DaemonSet'', ''Job''} then Some (snd ref) else None)"

definition podOwner :: "owned_pod \<Rightarrow> string" where
  "podOwner p = (case first_some owner_name (pod_Owners p) of Some n \<Rightarrow> n | None \<Rightarrow> pod_Name p)"

definition podIsReady :: "owned_pod \<Rightarrow> bool" where
  "podIsReady p = (case find (\<lambda>c. fst c = ''Ready'') (pod_Conditions p) of Some c \<Rightarrow> snd c = ''True'' | None \<Rightarrow> False)"

definition totalRestarts :: "owned_pod \<Rightarrow> int" where
  "totalRestarts p = sum_list (map cs_RestartCount (pod_Statuses p))"

definition pod_summary_of :: "gotime \<Rightarrow> string gomap \<Rightarrow> owned_pod \<Rightarrow> pod_summary" where
  "pod_summary_of now zoneOf p =
     \<lparr>pd_Name = pod_Name p, pd_Phase = pod_Phase p, pd_Ready = podIsReady p, pd_Restarts = totalRestarts p,
      pd_NodeName = pod_NodeName p,
      pd_Zone = (case map_of zoneOf (pod_NodeName p) of Some z \<Rightarrow> z | None \<Rightarrow> ''''),
      pd_AgeSec = sgn (now - pod_Created p) * (\<bar>now - pod_Created p\<bar> div sec)\<rparr>"

definition groupPodsByOwner :: "gotime \<Rightarrow> string gomap \<Rightarrow> owned_pod list \<Rightarrow> pod_summary list gomap" where
  "groupPodsByOwner now zoneOf pods =
     map (\<lambda>e. (fst e, sort_key pd_Name (snd e)))
       (fold (\<lambda>p out. AList.update (podOwner p) (lookup_list out (podOwner p) @ [pod_summary_of now zoneOf p]) out) pods [])"

section \<open>Who calls whom\<close>

text \<open>A set of edges is a map from the caller to the set of its callees.\<close>

type_synonym edge_set = "bool gomap gomap"

definition put_edge :: "string \<Rightarrow> string \<Rightarrow> edge_set \<Rightarrow> edge_set" where
  "put_edge src dst edges = AList.update src (AList.update dst True (lookup_list edges src)) edges"

text \<open>\<^verbatim>\<open>flatten\<close>: the callees sorted.\<close>

definition flatten_edges :: "edge_set \<Rightarrow> string list gomap" where
  "flatten_edges m = map (\<lambda>e. (fst e, sorted_keys (snd e))) m"

definition env_edge :: "service list \<Rightarrow> string \<Rightarrow> env_ref \<Rightarrow> edge_set \<Rightarrow> edge_set" where
  "env_edge services src e edges =
     (if er_Service e \<notin> sv_Name ` set services \<or> er_Service e = src then edges else put_edge src (er_Service e) edges)"

definition EdgesFromEnvVars :: "workload list \<Rightarrow> service list \<Rightarrow> string list gomap" where
  "EdgesFromEnvVars workloads services =
     flatten_edges (fold (\<lambda>w. fold (\<lambda>c. fold (env_edge services (wl_Name w)) (ct_EnvRefs c)) (wl_Containers w)) workloads [])"

definition labelsSupersetOf :: "string gomap \<Rightarrow> string gomap \<Rightarrow> bool" where
  "labelsSupersetOf have want \<longleftrightarrow> list_all (\<lambda>p. map_of have (fst p) = Some (snd p)) want"

definition matchWorkloads :: "workload list \<Rightarrow> string gomap \<Rightarrow> string list" where
  "matchWorkloads workloads selector =
     (if selector = [] then [] else sort (map wl_Name (filter (\<lambda>w. labelsSupersetOf (wl_Labels w) selector) workloads)))"

definition peer_edges :: "workload list \<Rightarrow> string list \<Rightarrow> string gomap option \<Rightarrow> edge_set \<Rightarrow> edge_set" where
  "peer_edges workloads dsts peer edges =
     (case peer of
        None \<Rightarrow> edges
      | Some selector \<Rightarrow>
          fold (\<lambda>src. fold (\<lambda>dst es. if src = dst then es else put_edge src dst es) dsts) (matchWorkloads workloads selector) edges)"

definition policy_rules :: "network_policy \<Rightarrow> string gomap option list list" where
  "policy_rules np = (case np_Ingress np of None \<Rightarrow> [] | Some rules \<Rightarrow> rules)"

definition EdgesFromNetworkPolicies :: "workload list \<Rightarrow> network_policy list \<Rightarrow> string list gomap" where
  "EdgesFromNetworkPolicies workloads policies =
     flatten_edges (fold (\<lambda>np. fold (fold (peer_edges workloads (matchWorkloads workloads (np_PodSelector np)))) (policy_rules np))
       policies [])"

definition appendUnique :: "string list \<Rightarrow> string \<Rightarrow> string list" where
  "appendUnique s v = (if v \<in> set s then s else s @ [v])"

definition edge_key :: "string \<Rightarrow> string \<Rightarrow> string" where
  "edge_key src dst = src @ ''->'' @ dst"

type_synonym dep_graph = "string list gomap \<times> string list gomap"

definition merge_callee :: "string \<Rightarrow> string \<Rightarrow> string \<Rightarrow> dep_graph \<Rightarrow> dep_graph" where
  "merge_callee label src d gp =
     (case gp of (graph, provenance) \<Rightarrow>
        (if d \<in> set (lookup_list graph src) then graph else AList.update src (lookup_list graph src @ [d]) graph,
         AList.update (edge_key src d) (appendUnique (lookup_list provenance (edge_key src d)) label) provenance))"

definition merge_caller :: "string \<Rightarrow> string \<times> string list \<Rightarrow> dep_graph \<Rightarrow> dep_graph" where
  "merge_caller label e gp =
     (case fold (merge_callee label (fst e)) (snd e) gp of
        (graph, provenance) \<Rightarrow>
          (case map_of graph (fst e) of None \<Rightarrow> graph | Some ds \<Rightarrow> AList.update (fst e) (sort ds) graph, provenance))"

definition MergeEdges :: "string list gomap \<Rightarrow> string \<Rightarrow> dep_graph \<Rightarrow> dep_graph" where
  "MergeEdges add label gp = fold (merge_caller label) add gp"

text \<open>The two merges of \<^verbatim>\<open>Snapshot\<close>.\<close>

definition dependency_graph :: "workload list \<Rightarrow> service list \<Rightarrow> network_policy list \<Rightarrow> dep_graph" where
  "dependency_graph workloads services policies =
     MergeEdges (EdgesFromEnvVars workloads services) ''envvar''
       (MergeEdges (EdgesFromNetworkPolicies workloads policies) ''networkpolicy'' ([], []))"

section \<open>A snapshot\<close>

text \<open>What the caches hold: the lists, or the error of listing.  A cache that is not there
  (\<^verbatim>\<open>IsNotFound\<close>) is read as empty, except for the workloads.\<close>

datatype 'a listing = Listed "'a list" | NotFound string | ListFailed string

fun listed_or_empty :: "string \<Rightarrow> 'a listing \<Rightarrow> string + 'a list" where
  "listed_or_empty what (Listed xs) = Inr xs"
| "listed_or_empty what (NotFound e) = Inr []"
| "listed_or_empty what (ListFailed e) = Inl (''topology: list '' @ what @ '': '' @ e)"

fun listed_only :: "string \<Rightarrow> 'a listing \<Rightarrow> string + 'a list" where
  "listed_only what (Listed xs) = Inr xs"
| "listed_only what (NotFound e) = Inl (''topology: list '' @ what @ '': '' @ e)"
| "listed_only what (ListFailed e) = Inl (''topology: list '' @ what @ '': '' @ e)"

record caches =
  ca_Deployments :: "k8s_workload listing"
  ca_StatefulSets :: "k8s_workload listing"
  ca_DaemonSets :: "k8s_workload listing"
  ca_Services :: "service listing"
  ca_Pods :: "owned_pod listing"
  ca_NetworkPolicies :: "network_policy listing"
  ca_Nodes :: "(string \<times> string gomap) list option"

definition LabelTopologyZone :: string where
  "LabelTopologyZone = ''topology.kubernetes.io/zone''"

definition nodeZones :: "caches \<Rightarrow> string gomap" where
  "nodeZones c =
     (case ca_Nodes c of
        None \<Rightarrow> []
      | Some nodes \<Rightarrow>
          fold (\<lambda>n out. case map_of (snd n) LabelTopologyZone of
                          Some z \<Rightarrow> if z = '''' then out else AList.update (fst n) z out
                        | None \<Rightarrow> out) nodes [])"

definition snapshot_of :: "string \<Rightarrow> gotime \<Rightarrow> string gomap \<Rightarrow> workload list \<Rightarrow> service list \<Rightarrow> owned_pod list
    \<Rightarrow> network_policy list \<Rightarrow> target_topology" where
  "snapshot_of ns now zones ws svcs pods nps =
     (case dependency_graph ws svcs nps of
        (graph, provenance) \<Rightarrow>
          \<lparr>tt_Namespace = ns, tt_Workloads = sort_key wl_Kind (sort_key wl_Name ws), tt_Services = sort_key sv_Name svcs,
           tt_DependencyGraph = graph,
           tt_ReplicaMap = fold (\<lambda>w. AList.update (wl_Name w) (wl_DesiredReplicas w)) ws [],
           tt_PodStatus = groupPodsByOwner now zones pods, tt_EdgeProvenance = provenance\<rparr>)"

definition Snapshot :: "gotime \<Rightarrow> string option \<Rightarrow> caches \<Rightarrow> string \<Rightarrow> string + target_topology" where
  "Snapshot now syncErr c ns =
     (if ns = '''' then Inl ''topology: namespace is required''
      else case syncErr of
             Some e \<Rightarrow> Inl e
           | None \<Rightarrow>
               bindR (listed_only ''deployments'' (ca_Deployments c)) (\<lambda>deps.
               bindR (listed_only ''statefulsets'' (ca_StatefulSets c)) (\<lambda>stss.
               bindR (listed_only ''daemonsets'' (ca_DaemonSets c)) (\<lambda>dss.
               bindR (listed_or_empty ''services'' (ca_Services c)) (\<lambda>svcs.
               bindR (listed_or_empty ''pods'' (ca_Pods c)) (\<lambda>pods.
               bindR (listed_or_empty ''networkpolicies'' (ca_NetworkPolicies c)) (\<lambda>nps.
                 Inr (snapshot_of ns now (nodeZones c)
                        (map workloadFromDeployment deps @ map workloadFromStatefulSet stss @ map workloadFromDaemonSet dss)
                        svcs pods nps))))))))"

section \<open>What a set of edges and a graph say\<close>

definition edges_of :: "edge_set \<Rightarrow> (string \<times> string) set" where
  "edges_of es = {(s, d). map_of (lookup_list es s) d \<noteq> None}"

definition calls :: "string list gomap \<Rightarrow> (string \<times> string) set" where
  "calls g = {(s, d). d \<in> set (lookup_list g s)}"

lemma lookup_list_simps [simp]:
  "lookup_list [] k = []" "lookup_list (AList.update k v m) k' = (if k' = k then v else lookup_list m k')"
  by (simp_all add: lookup_list_def)

lemma edges_of_put [simp]: "edges_of (put_edge s d es) = insert (s, d) (edges_of es)"
  by (auto simp: edges_of_def put_edge_def split: if_splits)

lemma fold_edges:
  assumes "\<And>x es. x \<in> set xs \<Longrightarrow> edges_of (f x es) = E x \<union> edges_of es"
  shows "edges_of (fold f xs es) = (\<Union>x \<in> set xs. E x) \<union> edges_of es"
  using assms by (induction xs arbitrary: es) auto

definition edge_set_ok :: "edge_set \<Rightarrow> bool" where
  "edge_set_ok es \<longleftrightarrow> distinct (map fst es) \<and> list_all (\<lambda>e. distinct (map fst (snd e))) es"

lemma list_all_update: "list_all P m \<Longrightarrow> P (k, v) \<Longrightarrow> list_all P (AList.update k v m)"
  by (induction m) auto

lemma edge_set_ok_put: "edge_set_ok es \<Longrightarrow> edge_set_ok (put_edge s d es)"
proof -
  assume ok: "edge_set_ok es"
  have "distinct (map fst (lookup_list es s))"
    using ok by (auto simp: lookup_list_def edge_set_ok_def list_all_iff dest: map_of_SomeD split: option.split)
  then show ?thesis
    using ok unfolding edge_set_ok_def put_edge_def by (auto intro!: list_all_update distinct_update)
qed

lemma fold_ok:
  "(\<And>x es. edge_set_ok es \<Longrightarrow> edge_set_ok (f x es)) \<Longrightarrow> edge_set_ok es \<Longrightarrow> edge_set_ok (fold f xs es)"
  by (induction xs arbitrary: es) auto

text \<open>The edges the two heuristics find.\<close>

definition env_calls :: "workload list \<Rightarrow> service list \<Rightarrow> (string \<times> string) set" where
  "env_calls ws svcs = {(wl_Name w, er_Service e) | w c e.
     w \<in> set ws \<and> c \<in> set (wl_Containers w) \<and> e \<in> set (ct_EnvRefs c)
     \<and> er_Service e \<in> sv_Name ` set svcs \<and> er_Service e \<noteq> wl_Name w}"

definition selected :: "workload \<Rightarrow> string gomap \<Rightarrow> bool" where
  "selected w selector \<longleftrightarrow> selector \<noteq> [] \<and> labelsSupersetOf (wl_Labels w) selector"

definition policy_calls :: "workload list \<Rightarrow> network_policy list \<Rightarrow> (string \<times> string) set" where
  "policy_calls ws nps = {(wl_Name src, wl_Name dst) | src dst np rule selector.
     np \<in> set nps \<and> rule \<in> set (policy_rules np) \<and> Some selector \<in> set rule
     \<and> src \<in> set ws \<and> selected src selector \<and> dst \<in> set ws \<and> selected dst (np_PodSelector np)
     \<and> wl_Name src \<noteq> wl_Name dst}"

lemma set_matchWorkloads [simp]: "set (matchWorkloads ws sel) = wl_Name ` {w \<in> set ws. selected w sel}"
  by (auto simp: matchWorkloads_def selected_def)

definition env_set :: "workload list \<Rightarrow> service list \<Rightarrow> edge_set" where
  "env_set ws svcs = fold (\<lambda>w. fold (\<lambda>c. fold (env_edge svcs (wl_Name w)) (ct_EnvRefs c)) (wl_Containers w)) ws []"

lemma edges_env_edge:
  "edges_of (env_edge svcs src e es) =
     {p. p = (src, er_Service e) \<and> er_Service e \<in> sv_Name ` set svcs \<and> er_Service e \<noteq> src} \<union> edges_of es"
  by (auto simp: env_edge_def)

lemma edges_env_set: "edges_of (env_set ws svcs) = env_calls ws svcs"
proof -
  let ?E = "\<lambda>w e. {p. p = (wl_Name w, er_Service e) \<and> er_Service e \<in> sv_Name ` set svcs \<and> er_Service e \<noteq> wl_Name w}"
  have "edges_of (fold (env_edge svcs (wl_Name w)) es m) = (\<Union>e \<in> set es. ?E w e) \<union> edges_of m" for w es m
    by (rule fold_edges) (rule edges_env_edge)
  then have "edges_of (fold (\<lambda>c. fold (env_edge svcs (wl_Name w)) (ct_EnvRefs c)) cs m) =
      (\<Union>c \<in> set cs. \<Union>e \<in> set (ct_EnvRefs c). ?E w e) \<union> edges_of m" for w cs m
    by (rule fold_edges)
  then have "edges_of (env_set ws svcs) =
      (\<Union>w \<in> set ws. \<Union>c \<in> set (wl_Containers w). \<Union>e \<in> set (ct_EnvRefs c). ?E w e) \<union> edges_of []"
    unfolding env_set_def by (rule fold_edges)
  moreover have "edges_of [] = {}" by (simp add: edges_of_def)
  ultimately show ?thesis unfolding env_calls_def by (simp only:) blast
qed

lemma env_set_ok: "edge_set_ok (env_set ws svcs)"
  unfolding env_set_def
proof (intro fold_ok)
  show "edge_set_ok (env_edge svcs src e es)" if "edge_set_ok es" for src e es
    using that by (simp add: env_edge_def edge_set_ok_put)
qed (simp_all add: edge_set_ok_def)

definition policy_set :: "workload list \<Rightarrow> network_policy list \<Rightarrow> edge_set" where
  "policy_set ws nps = fold (\<lambda>np. fold (fold (peer_edges ws (matchWorkloads ws (np_PodSelector np)))) (policy_rules np)) nps []"

definition peer_calls :: "workload list \<Rightarrow> string list \<Rightarrow> string gomap option \<Rightarrow> (string \<times> string) set" where
  "peer_calls ws dsts peer =
     {(src, dst). \<exists>sel. peer = Some sel \<and> src \<in> set (matchWorkloads ws sel) \<and> dst \<in> set dsts \<and> src \<noteq> dst}"

lemma edges_peer: "edges_of (peer_edges ws dsts peer es) = peer_calls ws dsts peer \<union> edges_of es"
proof (cases peer)
  case (Some sel)
  have inner: "edges_of (fold (\<lambda>dst es. if src = dst then es else put_edge src dst es) dsts m) =
      (\<Union>dst \<in> set dsts. {p. p = (src, dst) \<and> src \<noteq> dst}) \<union> edges_of m" for src m
    by (rule fold_edges) auto
  have "edges_of (peer_edges ws dsts peer es) =
      (\<Union>src \<in> set (matchWorkloads ws sel). \<Union>dst \<in> set dsts. {p. p = (src, dst) \<and> src \<noteq> dst}) \<union> edges_of es"
    unfolding peer_edges_def Some option.case by (rule fold_edges) (rule inner)
  moreover have "(\<Union>src \<in> set (matchWorkloads ws sel). \<Union>dst \<in> set dsts. {p. p = (src, dst) \<and> src \<noteq> dst}) = peer_calls ws dsts peer"
    unfolding peer_calls_def Some by blast
  ultimately show ?thesis by simp
qed (simp add: peer_edges_def peer_calls_def)

lemma edges_policy_set: "edges_of (policy_set ws nps) = policy_calls ws nps"
proof -
  let ?E = "\<lambda>np. peer_calls ws (matchWorkloads ws (np_PodSelector np))"
  have "edges_of (fold (peer_edges ws (matchWorkloads ws (np_PodSelector np))) rule m) = (\<Union>peer \<in> set rule. ?E np peer) \<union> edges_of m"
    for np rule m by (rule fold_edges) (rule edges_peer)
  then have "edges_of (fold (fold (peer_edges ws (matchWorkloads ws (np_PodSelector np)))) rules m) =
      (\<Union>rule \<in> set rules. \<Union>peer \<in> set rule. ?E np peer) \<union> edges_of m" for np rules m
    by (rule fold_edges)
  then have "edges_of (policy_set ws nps) = (\<Union>np \<in> set nps. \<Union>rule \<in> set (policy_rules np). \<Union>peer \<in> set rule. ?E np peer) \<union> edges_of []"
    unfolding policy_set_def by (rule fold_edges)
  moreover have "edges_of [] = {}" by (simp add: edges_of_def)
  moreover have "(\<Union>np \<in> set nps. \<Union>rule \<in> set (policy_rules np). \<Union>peer \<in> set rule. ?E np peer) = policy_calls ws nps"
    unfolding policy_calls_def peer_calls_def by (simp only: set_matchWorkloads) blast
  ultimately show ?thesis by simp
qed

lemma policy_set_ok: "edge_set_ok (policy_set ws nps)"
  unfolding policy_set_def
proof (intro fold_ok)
  show "edge_set_ok (peer_edges ws dsts peer es)" if "edge_set_ok es" for dsts peer es
  proof (cases peer)
    case (Some sel)
    have "edge_set_ok (if src = dst then m else put_edge src dst m)" if "edge_set_ok m" for src dst m
      using that by (simp add: edge_set_ok_put)
    then show ?thesis unfolding peer_edges_def Some option.case by (intro fold_ok that)
  qed (simp add: peer_edges_def that)
qed (simp_all add: edge_set_ok_def)

lemma lookup_flatten: "lookup_list (flatten_edges m) s = sorted_keys (lookup_list m s)"
proof -
  have "map_of (flatten_edges m) = map_option sorted_keys \<circ> map_of m"
    using map_of_map [of sorted_keys m] by (simp add: flatten_edges_def case_prod_unfold)
  then show ?thesis by (simp add: lookup_list_def sorted_keys_def split: option.split)
qed

lemma calls_flatten: "calls (flatten_edges m) = edges_of m"
proof -
  have "set (sorted_keys x) = dom (map_of x)" for x :: "bool gomap" by (simp add: sorted_keys_def dom_map_of_conv_image_fst)
  then show ?thesis by (auto simp: calls_def edges_of_def lookup_flatten)
qed

section \<open>Merging\<close>

text \<open>What merging one caller's callees does, for the caller and for a key of the provenance.\<close>

definition entries :: "string list gomap \<Rightarrow> (string \<times> string) set" where
  "entries add = {(s, d). \<exists>ds. (s, ds) \<in> set add \<and> d \<in> set ds}"

definition lists_ok :: "string list gomap \<Rightarrow> bool" where
  "lists_ok g \<longleftrightarrow> (\<forall>s. sorted (lookup_list g s) \<and> distinct (lookup_list g s))"

lemma edge_key_inject:
  assumes "CHR ''>'' \<notin> set s" "CHR ''>'' \<notin> set s'"
  shows "edge_key s d = edge_key s' d' \<longleftrightarrow> s = s' \<and> d = d'"
proof
  assume eq: "edge_key s d = edge_key s' d'"
  have "takeWhile (\<lambda>c. c \<noteq> CHR ''>'') (edge_key x y) = x @ ''-''" if "CHR ''>'' \<notin> set x" for x y
    unfolding edge_key_def using that by (subst takeWhile_append2) auto
  then have "s = s'" using eq assms by (metis append_same_eq)
  then show "s = s' \<and> d = d'" using eq by (simp add: edge_key_def)
qed simp

lemma merge_callees:
  assumes "fold (merge_callee label src) ds (g, p) = (g', p')"
  shows "calls g' = calls g \<union> {src} \<times> set ds"
    and "(\<forall>s. distinct (lookup_list g s)) \<Longrightarrow> distinct (lookup_list g' s)"
    and "s \<noteq> src \<Longrightarrow> lookup_list g' s = lookup_list g s"
    and "lookup_list p' k = (if k \<in> edge_key src ` set ds then appendUnique (lookup_list p k) label else lookup_list p k)"
proof -
  have "calls g' = calls g \<union> {src} \<times> set ds
      \<and> ((\<forall>s. distinct (lookup_list g s)) \<longrightarrow> (\<forall>s. distinct (lookup_list g' s)))
      \<and> (\<forall>s. s \<noteq> src \<longrightarrow> lookup_list g' s = lookup_list g s)
      \<and> (\<forall>k. lookup_list p' k = (if k \<in> edge_key src ` set ds then appendUnique (lookup_list p k) label else lookup_list p k))"
    using assms
  proof (induction ds arbitrary: g p)
    case (Cons d ds)
    define g1 where "g1 = (if d \<in> set (lookup_list g src) then g else AList.update src (lookup_list g src @ [d]) g)"
    define p1 where "p1 = AList.update (edge_key src d) (appendUnique (lookup_list p (edge_key src d)) label) p"
    have "merge_callee label src d (g, p) = (g1, p1)" by (simp add: merge_callee_def g1_def p1_def)
    then have "fold (merge_callee label src) ds (g1, p1) = (g', p')" using Cons.prems by simp
    note IH = Cons.IH [OF this]
    have "calls g1 = calls g \<union> {(src, d)}" by (auto simp: g1_def calls_def split: if_splits)
    moreover have "\<forall>s. distinct (lookup_list g s) \<Longrightarrow> \<forall>s. distinct (lookup_list g1 s)" by (auto simp: g1_def)
    moreover have "lookup_list g1 s = lookup_list g s" if "s \<noteq> src" for s using that by (simp add: g1_def)
    moreover have "lookup_list p1 k = (if k = edge_key src d then appendUnique (lookup_list p k) label else lookup_list p k)" for k
      by (simp add: p1_def)
    moreover have "appendUnique (appendUnique xs label) label = appendUnique xs label" for xs by (simp add: appendUnique_def)
    ultimately show ?case using IH by auto
  qed simp
  then show "calls g' = calls g \<union> {src} \<times> set ds"
    and "(\<forall>s. distinct (lookup_list g s)) \<Longrightarrow> distinct (lookup_list g' s)"
    and "s \<noteq> src \<Longrightarrow> lookup_list g' s = lookup_list g s"
    and "lookup_list p' k = (if k \<in> edge_key src ` set ds then appendUnique (lookup_list p k) label else lookup_list p k)"
    by blast+
qed

lemma lookup_sort:
  "lookup_list (case map_of g src of None \<Rightarrow> g | Some ds \<Rightarrow> AList.update src (sort ds) g) s =
     (if s = src then sort (lookup_list g s) else lookup_list g s)"
  by (auto simp: lookup_list_def split: option.split)

lemma merge_caller:
  assumes "merge_caller label e (g, p) = (g', p')" "lists_ok g"
  shows "calls g' = calls g \<union> {fst e} \<times> set (snd e)" "lists_ok g'"
    and "lookup_list p' k = (if k \<in> edge_key (fst e) ` set (snd e) then appendUnique (lookup_list p k) label else lookup_list p k)"
proof -
  obtain g1 where g1: "fold (merge_callee label (fst e)) (snd e) (g, p) = (g1, p')"
    "g' = (case map_of g1 (fst e) of None \<Rightarrow> g1 | Some ds \<Rightarrow> AList.update (fst e) (sort ds) g1)"
    using assms(1) by (auto simp: merge_caller_def split: prod.splits)
  note m = merge_callees [OF g1(1)]
  have l: "lookup_list g' s = (if s = fst e then sort (lookup_list g1 s) else lookup_list g1 s)" for s
    unfolding g1(2) by (rule lookup_sort)
  then have "set (lookup_list g' s) = set (lookup_list g1 s)" for s by simp
  then have "calls g' = calls g1" by (simp add: calls_def)
  then show "calls g' = calls g \<union> {fst e} \<times> set (snd e)" using m(1) by simp
  show "lists_ok g'" using assms(2) m(2,3) l by (simp add: lists_ok_def)
  show "lookup_list p' k = (if k \<in> edge_key (fst e) ` set (snd e) then appendUnique (lookup_list p k) label else lookup_list p k)"
    by (rule m(4))
qed

lemma MergeEdges:
  assumes "MergeEdges add label (g, p) = (g', p')" "lists_ok g"
  shows "calls g' = calls g \<union> entries add \<and> lists_ok g'
    \<and> (\<forall>k. lookup_list p' k = (if \<exists>(s, d) \<in> entries add. k = edge_key s d then appendUnique (lookup_list p k) label else lookup_list p k))"
  using assms
proof (induction add arbitrary: g p)
  case (Cons e add)
  obtain g1 p1 where e: "merge_caller label e (g, p) = (g1, p1)" by force
  note m = merge_caller [OF e Cons.prems(2)]
  have "MergeEdges add label (g1, p1) = (g', p')" using Cons.prems(1) e by (simp add: MergeEdges_def)
  note IH = Cons.IH [OF this m(2)]
  have ent: "entries (e # add) = {fst e} \<times> set (snd e) \<union> entries add" by (cases e) (auto simp: entries_def)
  have idem: "appendUnique (appendUnique xs label) label = appendUnique xs label" for xs by (simp add: appendUnique_def)
  have key: "(\<exists>(s, d) \<in> entries (e # add). k = edge_key s d) \<longleftrightarrow>
      k \<in> edge_key (fst e) ` set (snd e) \<or> (\<exists>(s, d) \<in> entries add. k = edge_key s d)" for k
    unfolding ent by auto
  show ?case unfolding key using IH m(1,3) by (simp add: ent Un_assoc idem)
qed (simp add: MergeEdges_def entries_def)

lemma entries_flatten: "edge_set_ok m \<Longrightarrow> entries (flatten_edges m) = edges_of m"
proof -
  assume ok: "edge_set_ok m"
  have "(\<exists>e. (s, e) \<in> set m \<and> d \<in> fst ` set e) \<longleftrightarrow> map_of (lookup_list m s) d \<noteq> None" for s d
  proof -
    have "(s, e) \<in> set m \<longleftrightarrow> map_of m s = Some e" for e using ok by (simp add: edge_set_ok_def)
    then have "(\<exists>e. (s, e) \<in> set m \<and> d \<in> fst ` set e) \<longleftrightarrow> (\<exists>e. map_of m s = Some e \<and> map_of e d \<noteq> None)"
      by (simp only: map_of_eq_None_iff not_not)
    then show ?thesis by (cases "map_of m s") (simp_all add: lookup_list_def)
  qed
  moreover have "(s, d) \<in> entries (flatten_edges m) \<longleftrightarrow> (\<exists>e. (s, e) \<in> set m \<and> d \<in> fst ` set e)" for s d
  proof -
    have "(s, ds) \<in> set (flatten_edges m) \<longleftrightarrow> (\<exists>e. (s, e) \<in> set m \<and> ds = sorted_keys e)" for ds
      unfolding flatten_edges_def by force
    moreover have "set (sorted_keys x) = fst ` set x" for x :: "bool gomap" by (simp add: sorted_keys_def)
    ultimately show ?thesis unfolding entries_def mem_Collect_eq prod.case by metis
  qed
  ultimately have "p \<in> entries (flatten_edges m) \<longleftrightarrow> p \<in> edges_of m" for p
    by (cases p) (simp add: edges_of_def)
  then show ?thesis by blast
qed

section \<open>Guarantees\<close>

text \<open>
  C39.  The dependency graph of a snapshot has exactly the edges that the
  NetworkPolicies allow or the environment variables name: the callees of every
  workload sorted and once each, and each edge with the heuristics that found it.
\<close>

theorem dependency_graph_exact:
  assumes "list_all (\<lambda>w. CHR ''>'' \<notin> set (wl_Name w)) ws" and "dependency_graph ws svcs nps = (graph, provenance)"
    and "src \<in> wl_Name ` set ws"
  shows "(dst \<in> set (lookup_list graph src) \<longleftrightarrow> (src, dst) \<in> policy_calls ws nps \<union> env_calls ws svcs)
    \<and> sorted (lookup_list graph src) \<and> distinct (lookup_list graph src)
    \<and> lookup_list provenance (edge_key src dst) =
        (if (src, dst) \<in> policy_calls ws nps then [''networkpolicy''] else [])
        @ (if (src, dst) \<in> env_calls ws svcs then [''envvar''] else [])"
proof -
  have pol: "entries (EdgesFromNetworkPolicies ws nps) = policy_calls ws nps"
    using entries_flatten [OF policy_set_ok] edges_policy_set by (simp add: EdgesFromNetworkPolicies_def policy_set_def)
  have env: "entries (EdgesFromEnvVars ws svcs) = env_calls ws svcs"
    using entries_flatten [OF env_set_ok] edges_env_set by (simp add: EdgesFromEnvVars_def env_set_def)
  obtain g1 p1 where 1: "MergeEdges (EdgesFromNetworkPolicies ws nps) ''networkpolicy'' ([], []) = (g1, p1)" by force
  then have 2: "MergeEdges (EdgesFromEnvVars ws svcs) ''envvar'' (g1, p1) = (graph, provenance)"
    using assms(2) by (simp add: dependency_graph_def)
  have "lists_ok []" by (simp add: lists_ok_def)
  note m1 = MergeEdges [OF 1 this, unfolded pol]
  then have "lists_ok g1" by blast
  note m2 = MergeEdges [OF 2 this, unfolded env]
  have g: "calls graph = policy_calls ws nps \<union> env_calls ws svcs" using m1 m2 by (simp add: calls_def)
  have key: "(\<exists>(s, d) \<in> E. edge_key src dst = edge_key s d) \<longleftrightarrow> (src, dst) \<in> E"
    if E: "E \<subseteq> wl_Name ` set ws \<times> UNIV" for E
  proof
    have names: "CHR ''>'' \<notin> set s" if "s \<in> wl_Name ` set ws" for s
      using that assms(1) by (auto simp: list_all_iff)
    assume "\<exists>(s, d) \<in> E. edge_key src dst = edge_key s d"
    then obtain s d where "(s, d) \<in> E" "edge_key src dst = edge_key s d" by blast
    moreover from this have "s \<in> wl_Name ` set ws" using E by blast
    ultimately show "(src, dst) \<in> E" using edge_key_inject [OF names [OF assms(3)] names [of s]] by simp
  qed blast
  have "policy_calls ws nps \<subseteq> wl_Name ` set ws \<times> UNIV" "env_calls ws svcs \<subseteq> wl_Name ` set ws \<times> UNIV"
    by (auto simp: policy_calls_def env_calls_def)
  then have "lookup_list provenance (edge_key src dst) =
        (if (src, dst) \<in> policy_calls ws nps then [''networkpolicy''] else [])
        @ (if (src, dst) \<in> env_calls ws svcs then [''envvar''] else [])"
    using m1 m2 by (simp add: key appendUnique_def)
  moreover have "dst \<in> set (lookup_list graph src) \<longleftrightarrow> (src, dst) \<in> calls graph" by (simp add: calls_def)
  moreover have "sorted (lookup_list graph src) \<and> distinct (lookup_list graph src)" using m2 by (simp add: lists_ok_def)
  ultimately show ?thesis using g by (simp only:)
qed

definition sample_workload :: "string \<Rightarrow> string gomap \<Rightarrow> env_ref list \<Rightarrow> workload" where
  "sample_workload name labels refs =
     \<lparr>wl_Kind = ''Deployment'', wl_Name = name, wl_Labels = labels, wl_DesiredReplicas = 1,
      wl_Containers = [\<lparr>ct_Name = ''main'', ct_Image = '''', ct_EnvRefs = refs, ct_ReadOnlyRootFS = False,
         ct_MountPaths = [], ct_RestartProbes = [], ct_GRPCPorts = []\<rparr>], wl_EnvoyInjected = False\<rparr>"

definition sample_arena :: "workload list" where
  "sample_arena =
     [sample_workload ''web'' [(''app'', ''web'')] (envRefsFromContainer [(''CART_ADDR'', ''cart.shop:7070''), (''URL'', ''http://x:1'')]),
      sample_workload ''cart'' [(''app'', ''cart'')] []]"

definition sample_policy :: network_policy where
  "sample_policy = \<lparr>np_Namespace = ''shop'', np_Name = ''allow'', np_Labels = [], np_Annotations = [], np_Created = 0,
     np_Deleting = False, np_PodSelector = [(''app'', ''cart'')], np_PolicyTypes = [''Ingress''],
     np_Ingress = Some [[Some [(''app'', ''web'')], None]], np_Egress = None\<rparr>"

theorem dependency_graph_exact_witness:
  "dependency_graph sample_arena [\<lparr>sv_Name = ''cart'', sv_Selector = [], sv_Ports = []\<rparr>] [sample_policy] =
     ([(''web'', [''cart''])], [(''web->cart'', [''networkpolicy'', ''envvar''])])
   \<and> (''web'', ''cart'') \<in> policy_calls sample_arena [sample_policy] \<union> env_calls sample_arena [\<lparr>sv_Name = ''cart'', sv_Selector = [], sv_Ports = []\<rparr>]"
proof
  let ?svcs = "[\<lparr>sv_Name = ''cart'', sv_Selector = [], sv_Ports = []\<rparr>]"
  show g: "dependency_graph sample_arena ?svcs [sample_policy] =
      ([(''web'', [''cart''])], [(''web->cart'', [''networkpolicy'', ''envvar''])])" by code_simp
  have "''web'' \<in> wl_Name ` set sample_arena" by (simp add: sample_arena_def sample_workload_def)
  moreover have "list_all (\<lambda>w. CHR ''>'' \<notin> set (wl_Name w)) sample_arena" by code_simp
  moreover have "''cart'' \<in> set (lookup_list [(''web'', [''cart''])] ''web'')" by (simp add: lookup_list_def)
  ultimately show "(''web'', ''cart'') \<in> policy_calls sample_arena [sample_policy] \<union> env_calls sample_arena ?svcs"
    using dependency_graph_exact [OF _ g, of "''web''" "''cart''"] by blast
qed

end
