(* ===== verification/Plan_Check.thy ===== *)
theory Plan_Check
  imports Plan_Dag Topology_Graph Fault_History
begin

text \<open>
  From a model's answer to a manifest or a plan: \<^verbatim>\<open>src/pkg/planner/generate.go\<close>
  and \<^verbatim>\<open>translate.go\<close>.  The language model, the prompts sent to it, the decoding
  of JSON text into a plan and the source of plan IDs are parameters; what the
  code does with a decoded answer, the corrective retries and the extraction of
  the JSON text from prose are modelled.

  Shown here: whatever the model answers, a plan that is returned passed every
  check; and the JSON object is found between fences and prose.
\<close>

section \<open>Budget and environment\<close>

record loop_budget =
  lb_MaxFaultsPerCycle :: int
  lb_MaxConcurrentFaults :: int
  lb_MinCooldown :: duration
  lb_MaxSeverityPerCycle :: string
  lb_MaxFaultDuration :: duration

datatype gen_error = NoValidPlan string | GenFailed string

fun gen_text :: "gen_error \<Rightarrow> string" where
  "gen_text (NoValidPlan e) = e"
| "gen_text (GenFailed e) = e"

record gen_input =
  gi_Namespace :: string
  gi_Topology :: "target_topology option"
  gi_CatalogSize :: nat
  gi_Budget :: loop_budget

text \<open>\<open>ge_Complete\<close> is the model's answer to a system and a user prompt: an error, or the
  structured output and the text.  \<open>ge_Decode\<close> is \<^verbatim>\<open>json.Unmarshal\<close> into a plan, \<open>ge_Mint\<close>
  a fresh ULID.\<close>

record 'w gen_env =
  ge_Complete :: "string \<Rightarrow> string \<Rightarrow> 'w \<Rightarrow> (string + string \<times> string) \<times> 'w"
  ge_Decode :: "string \<Rightarrow> string + attack_plan"
  ge_Mint :: "'w \<Rightarrow> string \<times> 'w"

section \<open>The JSON in an answer\<close>

fun index_of :: "string \<Rightarrow> string \<Rightarrow> nat option" where
  "index_of pat [] = (if pat = [] then Some 0 else None)"
| "index_of pat (c # s) = (if has_prefix (c # s) pat then Some 0 else map_option Suc (index_of pat s))"

fun last_index_of :: "string \<Rightarrow> string \<Rightarrow> nat option" where
  "last_index_of pat [] = (if pat = [] then Some 0 else None)"
| "last_index_of pat (c # s) =
     (case last_index_of pat s of
        Some i \<Rightarrow> Some (Suc i)
      | None \<Rightarrow> if has_prefix (c # s) pat then Some 0 else None)"

definition fence :: string where [const_defs]: "fence = ''```''"

definition strip_fences :: "string \<Rightarrow> string" where
  "strip_fences t =
     (if has_prefix t fence
      then let t1 = (case index_of [CHR 0x0A] t of Some i \<Rightarrow> drop (i + 1) t | None \<Rightarrow> t);
               t2 = (case last_index_of fence t1 of Some e \<Rightarrow> take e t1 | None \<Rightarrow> t1)
           in trim_space t2
      else t)"

definition extractJSON :: "string \<Rightarrow> string" where
  "extractJSON text =
     (let t = strip_fences (trim_space text)
      in case (index_of ''{'' t, last_index_of ''}'' t) of
           (Some s, Some e) \<Rightarrow> if e \<le> s then t else take (e + 1 - s) (drop s t)
         | _ \<Rightarrow> t)"

section \<open>Targets of a step in the topology\<close>

definition podPlaces :: "target_topology \<Rightarrow> (pod_summary \<Rightarrow> string) \<Rightarrow> string list" where
  "podPlaces topo key = dedup_sorted (map key (concat (map snd (tt_PodStatus topo))))"

definition labelsMatch :: "string gomap \<Rightarrow> string gomap \<Rightarrow> bool" where
  "labelsMatch want have \<longleftrightarrow>
     list_all (\<lambda>p. (case map_of have (fst p) of Some v \<Rightarrow> v | None \<Rightarrow> '''') = snd p) want"

text \<open>The label selectors of the spec, if they are all strings.\<close>

definition spec_labels :: "jobj \<Rightarrow> string gomap option" where
  "spec_labels spec =
     (case as_obj (map_of spec ''selector'') of
        None \<Rightarrow> Some []
      | Some sel \<Rightarrow>
          (case as_obj (map_of sel ''labelSelectors'') of
             None \<Rightarrow> Some []
           | Some ls \<Rightarrow>
               if list_all (\<lambda>p. as_str (Some (snd p)) \<noteq> None) ls
               then Some (map (\<lambda>p. (fst p, str_or_empty (Some (snd p)))) ls) else None))"

definition stepTargets :: "fault_manifest \<Rightarrow> workload \<Rightarrow> bool" where
  "stepTargets m w \<longleftrightarrow>
     list_ex (\<lambda>t. t_Name t = wl_Name w \<or> (t_Labels t \<noteq> [] \<and> labelsMatch (t_Labels t) (wl_Labels w))) (m_Targets m)
     \<or> (case spec_labels (spec_map m) of
          None \<Rightarrow> False
        | Some want \<Rightarrow> want \<noteq> [] \<and> labelsMatch want (wl_Labels w))"

text \<open>The containers of the workloads a step targets, with their workload, in order.\<close>

definition targeted :: "fault_manifest \<Rightarrow> target_topology \<Rightarrow> (workload \<times> container_summary) list" where
  "targeted m topo =
     concat (map (\<lambda>w. map (\<lambda>c. (w, c)) (wl_Containers w)) (filter (stepTargets m) (tt_Workloads topo)))"

section \<open>The checks of a step\<close>

definition checkOutage :: "fault_manifest \<Rightarrow> target_topology option \<Rightarrow> string option" where
  "checkOutage m topo =
     (case CheckOutageManifest m of
        Some e \<Rightarrow> Some e
      | None \<Rightarrow>
          (case topo of
             None \<Rightarrow> None
           | Some t \<Rightarrow>
               let f = fst (OutagePlace m); place = snd (OutagePlace m);
                   known = podPlaces t (if f = ''node'' then pd_NodeName else pd_Zone)
               in if known = [] \<or> place \<in> set known then None
                  else Some (sprintf ''% % % has no arena pods; the topology lists pods in %s: %''
                         [AS (m_ResourceKind m), AS f, AQ place, AS f, AS (join_with '', '' known)])))"

definition checkContainerKill :: "fault_manifest \<Rightarrow> target_topology option \<Rightarrow> string option" where
  "checkContainerKill m topo =
     (if m_Engine m \<noteq> EngineChaosMesh \<or> m_ResourceKind m \<noteq> ''PodChaos''
         \<or> map_of (spec_map m) ''action'' \<noteq> Some (JStr ''container-kill'') then None
      else if as_arr (map_of (spec_map m) ''containerNames'') \<notin> {None, Some []} then None
      else let containers = (case topo of None \<Rightarrow> [] | Some t \<Rightarrow> rev (remdups (rev (map (ct_Name \<circ> snd) (targeted m t)))))
           in if containers = [] then Some (sprintf ''PodChaos container-kill needs %: the containers to kill'' [AQ ''containerNames''])
              else Some (sprintf ''PodChaos container-kill needs %: the containers to kill, from [%]''
                     [AQ ''containerNames'', AS (join_with '' '' containers)]))"

definition http_hit :: "int \<Rightarrow> bool \<Rightarrow> string \<Rightarrow> container_summary \<Rightarrow> (int \<times> string) option" where
  "http_hit port getsProbes glob c =
     find (\<lambda>rp. getsProbes \<and> fst rp = port \<and> ChaosPathMatches glob (snd rp)) (ct_RestartProbes c)"

definition http_step_error :: "rat \<Rightarrow> bool \<Rightarrow> string \<Rightarrow> workload \<times> container_summary \<Rightarrow> string option" where
  "http_step_error r getsProbes glob wc =
     (case wc of (w, c) \<Rightarrow>
        let port = to_signed 64 r in
        if to_signed 32 r \<in> set (ct_GRPCPorts c)
        then Some (sprintf ''HTTPChaos on port %: % container % serves gRPC there (grpc_ports, rule 11); HTTPChaos cannot carry gRPC % use a NetworkChaos''
               [AD port, AS (wl_Name w), AQ (ct_Name c), AS em_dash])
        else (case http_hit port getsProbes glob c of
                None \<Rightarrow> None
              | Some rp \<Rightarrow>
                  Some (sprintf ''HTTPChaos on port % path % covers % container % restart probe %% (rule 11); choose a path the probe does not use''
                    [AD port, AQ glob, AS (wl_Name w), AQ (ct_Name c), AD (fst rp), AS (snd rp)])))"

definition plan_checkHTTPChaosProbes :: "fault_manifest \<Rightarrow> target_topology \<Rightarrow> string option" where
  "plan_checkHTTPChaosProbes m topo =
     (case map_of (spec_map m) ''port'' of
        Some (JNum r) \<Rightarrow>
          let method = str_or_empty (map_of (spec_map m) ''method'');
              getsProbes = (method = '''' \<or> equal_fold method ''GET'');
              glob = str_or_empty (map_of (spec_map m) ''path'')
          in first_some (http_step_error r getsProbes glob) (targeted m topo)
      | _ \<Rightarrow> None)"

definition plan_mountsAt :: "container_summary \<Rightarrow> string \<Rightarrow> bool" where
  "plan_mountsAt c p \<longleftrightarrow> list_ex (\<lambda>mp. path_Clean mp = path_Clean p) (ct_MountPaths c)"

definition rootfs_step_error :: "fault_manifest \<Rightarrow> string list \<Rightarrow> string \<Rightarrow> workload \<times> container_summary \<Rightarrow> string option" where
  "rootfs_step_error m only volumePath wc =
     (case wc of (w, c) \<Rightarrow>
        if only \<noteq> [] \<and> ct_Name c \<notin> set only then None
        else if ct_ReadOnlyRootFS c
        then Some (sprintf ''% cannot inject into %: container % is readonly_rootfs (rule 11); choose another kind or workload''
               [AS (m_ResourceKind m), AS (wl_Name w), AQ (ct_Name c)])
        else if m_ResourceKind m = ''IOChaos'' \<and> volumePath \<noteq> '''' \<and> \<not> plan_mountsAt c volumePath
        then Some (sprintf ''IOChaos volumePath % is not a mount of % container % (mounts: [%]; rule 11)''
               [AQ volumePath, AS (wl_Name w), AQ (ct_Name c), AS (join_with '' '' (ct_MountPaths c))])
        else None)"

definition plan_checkTargetCompat :: "fault_manifest \<Rightarrow> target_topology option \<Rightarrow> string option" where
  "plan_checkTargetCompat m topo =
     (if IsOutageKind (m_Engine m) (m_ResourceKind m) then checkOutage m topo
      else case checkContainerKill m topo of
             Some e \<Rightarrow> Some e
           | None \<Rightarrow>
               (case topo of
                  None \<Rightarrow> None
                | Some t \<Rightarrow>
                    if m_Engine m = EngineChaosMesh \<and> m_ResourceKind m = ''HTTPChaos'' then plan_checkHTTPChaosProbes m t
                    else if \<not> WritesRootFS (m_Engine m) (m_ResourceKind m) then None
                    else first_some (rootfs_step_error m (specStrings (spec_map m) ''containerNames'')
                           (str_or_empty (map_of (spec_map m) ''volumePath''))) (targeted m t)))"

section \<open>What the prompt says\<close>

definition countBy :: "pod_summary list \<Rightarrow> (pod_summary \<Rightarrow> string) \<Rightarrow> string" where
  "countBy pods key =
     (let ks = map key pods
      in join_with '','' (sort (map (\<lambda>k. sprintf ''%:%'' [AS k, AD (int (count_list ks k))]) (remdups (filter (\<lambda>k. k \<noteq> '''') ks)))))"

definition refusalErrorLimit :: nat where "refusalErrorLimit = 240"

definition renderLabels :: "string gomap \<Rightarrow> string" where
  "renderLabels labels = join_with '','' (sort (map (\<lambda>p. fst p @ ''='' @ snd p) labels))"

definition describe_target :: "target_ref \<Rightarrow> string" where
  "describe_target t =
     (if t_Name t \<noteq> '''' then t_Namespace t @ ''/'' @ t_Name t
      else if t_Labels t \<noteq> [] then t_Namespace t @ ''/'' @ renderLabels (t_Labels t)
      else t_Namespace t)"

definition describeTargets :: "target_ref list \<Rightarrow> string" where
  "describeTargets targets = (if targets = [] then ''(no target)'' else join_with '', '' (map describe_target targets))"

definition refusal_line :: "refused_fault \<Rightarrow> string" where
  "refusal_line rf =
     (let msg = (if length (rx_Error rf) > refusalErrorLimit then take refusalErrorLimit (rx_Error rf) @ ellipsis else rx_Error rf);
          reason = (if rx_Reason rf = '''' then ''refused'' else rx_Reason rf)
      in sprintf ''% on %: %: %'' [AS (m_ResourceKind (rx_Manifest rf)), AS (describeTargets (m_Targets (rx_Manifest rf))), AS reason, AS msg])"

text \<open>The groups in the order of their first refusal: the line, how many, the latest.\<close>

fun add_to_group :: "string \<Rightarrow> gotime \<Rightarrow> (string \<times> int \<times> gotime) list \<Rightarrow> (string \<times> int \<times> gotime) list" where
  "add_to_group line t [] = [(line, 1, t)]"
| "add_to_group line t ((l, n, latest) # gs) =
     (if l = line then (l, n + 1, max latest t) # gs else (l, n, latest) # add_to_group line t gs)"

definition refusal_groups :: "refused_fault list \<Rightarrow> (string \<times> int \<times> gotime) list" where
  "refusal_groups refusals = fold (\<lambda>rf. add_to_group (refusal_line rf) (rx_RefusedAt rf)) refusals []"

definition summarizeRefusals :: "refused_fault list \<Rightarrow> string" where
  "summarizeRefusals refusals =
     concat (map (\<lambda>(line, n, latest). sprintf ''  % (x%, last %)'' [AS line, AD n, AS (format_rfc3339 latest)] @ [CHR 0x0A])
       (refusal_groups refusals))"

lemma add_to_group:
  "map fst (add_to_group line t gs) = (if line \<in> set (map fst gs) then map fst gs else map fst gs @ [line])"
  "sum_list (map (fst \<circ> snd) (add_to_group line t gs)) = sum_list (map (fst \<circ> snd) gs) + 1"
  by (induction line t gs rule: add_to_group.induct) auto

text \<open>Every refusal is counted once, and no line is said twice.\<close>

lemma refusal_groups_count:
  "distinct (map fst (refusal_groups rs)) \<and> sum_list (map (fst \<circ> snd) (refusal_groups rs)) = int (length rs)
   \<and> set (map fst (refusal_groups rs)) = refusal_line ` set rs"
proof (induction rs rule: rev_induct)
  case (snoc rf rs)
  have "refusal_groups (rs @ [rf]) = add_to_group (refusal_line rf) (rx_RefusedAt rf) (refusal_groups rs)"
    by (simp add: refusal_groups_def)
  then show ?case using snoc.IH by (simp only: add_to_group) auto
qed (simp add: refusal_groups_def)

section \<open>Parsing a plan\<close>

definition default_step_duration :: duration where "default_step_duration = 2 * minute"

definition default_namespace :: "string \<Rightarrow> target_ref \<Rightarrow> target_ref" where
  "default_namespace ns t = (if t_Namespace t = '''' then t\<lparr>t_Namespace := ns\<rparr> else t)"

definition step_duration :: "duration \<Rightarrow> duration \<Rightarrow> duration" where
  "step_duration limit d =
     (if d \<le> 0 then (if limit > 0 \<and> default_step_duration > limit then limit else default_step_duration) else d)"

definition normalize_step :: "gen_input \<Rightarrow> nat \<Rightarrow> plan_step \<Rightarrow> plan_step" where
  "normalize_step inp i s =
     s\<lparr>ps_Order := (if ps_Order s = 0 then int i + 1 else ps_Order s),
       ps_Manifest := (ps_Manifest s)\<lparr>m_Source := SourceAutonomous,
         m_Targets := map (default_namespace (gi_Namespace inp)) (m_Targets (ps_Manifest s)),
         m_Duration := step_duration (lb_MaxFaultDuration (gi_Budget inp)) (m_Duration (ps_Manifest s))\<rparr>\<rparr>"

definition step_error :: "plan_step \<Rightarrow> string \<Rightarrow> string" where
  "step_error s e = sprintf ''step %: %'' [AD (ps_Order s), AS e]"

text \<open>The first complaint about a normalized step, if any.\<close>

definition check_step :: "gen_input \<Rightarrow> plan_step \<Rightarrow> string option" where
  "check_step inp s =
     (let m = ps_Manifest s; limit = lb_MaxFaultDuration (gi_Budget inp); say = (\<lambda>e. Some (step_error s e))
      in if limit > 0 \<and> m_Duration m > limit
         then say (sprintf ''duration % exceeds max_fault_duration %'' [AS (duration_string (m_Duration m)), AS (duration_string limit)])
         else if m_Engine m = '''' then say ''engine is required''
         else if m_ResourceKind m = '''' then say ''resource_kind is required''
         else if m_APIVersion m = '''' then say ''api_version is required''
         else if m_Targets m = [] then say ''at least one target is required''
         else if m_Spec m = None then say ''spec is required''
         else if trim_space (ps_DurationRationale s) = ''''
         then say (sprintf ''duration_rationale is required (rule 10): say what the % duration lets the hypothesis observe''
                [AS (duration_string (m_Duration m))])
         else map_option (step_error s) (plan_checkTargetCompat m (gi_Topology inp)))"

text \<open>Each step is normalized and checked before the next is looked at.\<close>

fun normalize_steps :: "gen_input \<Rightarrow> nat \<Rightarrow> plan_step list \<Rightarrow> string + plan_step list" where
  "normalize_steps inp i [] = Inr []"
| "normalize_steps inp i (s # ss) =
     (case check_step inp (normalize_step inp i s) of
        Some e \<Rightarrow> Inl e
      | None \<Rightarrow> map_sum id (\<lambda>rest. normalize_step inp i s # rest) (normalize_steps inp (Suc i) ss))"

definition stamp_plan :: "string \<Rightarrow> plan_step \<Rightarrow> plan_step" where
  "stamp_plan pid s = s\<lparr>ps_Manifest := (ps_Manifest s)\<lparr>m_PlanID := pid\<rparr>\<rparr>"

definition mint_plan :: "'w gen_env \<Rightarrow> attack_plan \<Rightarrow> plan_step list \<Rightarrow> 'w \<Rightarrow> attack_plan \<times> 'w" where
  "mint_plan x plan steps w =
     (let (pid, w') = (if ap_PlanID plan = '''' then (case ge_Mint x w of (u, w') \<Rightarrow> (''plan-'' @ u, w')) else (ap_PlanID plan, w))
      in (plan\<lparr>ap_PlanID := pid, ap_Steps := map (stamp_plan pid) steps\<rparr>, w'))"

definition parseAttackPlan :: "'w gen_env \<Rightarrow> gen_input \<Rightarrow> string \<Rightarrow> 'w \<Rightarrow> (string + attack_plan) \<times> 'w" where
  "parseAttackPlan x inp raw w =
     (if raw = '''' then (Inl ''empty plan response'', w)
      else case ge_Decode x raw of
             Inl err \<Rightarrow> (Inl (''decode: '' @ err), w)
           | Inr plan \<Rightarrow>
               if ap_Steps plan = [] then (Inl ''plan must include at least one step'', w)
               else if ap_Hypothesis plan = '''' then (Inl ''plan must include a hypothesis'', w)
               else case normalize_steps inp 0 (ap_Steps plan) of
                      Inl err \<Rightarrow> (Inl err, w)
                    | Inr steps \<Rightarrow>
                        (case validateStepDAG steps of
                           Some err \<Rightarrow> (Inl err, w)
                         | None \<Rightarrow> map_prod Inr id (mint_plan x plan steps w)))"

section \<open>Asking the model\<close>

text \<open>The log is what \<^verbatim>\<open>LogResponses\<close> is told: the attempt and the raw answer.\<close>

definition raw_answer :: "string \<times> string \<Rightarrow> string" where
  "raw_answer resp = (if fst resp \<noteq> '''' then fst resp else extractJSON (snd resp))"

definition corrective :: "string \<Rightarrow> string \<Rightarrow> string" where
  "corrective user err =
     user @ [CHR 0x0A, CHR 0x0A] @ ''Your previous response failed validation: '' @ err @ [CHR 0x0A]
     @ ''Return a JSON object that conforms to the AttackPlan schema described above.''"

fun gen_attempts ::
  "'w gen_env \<Rightarrow> gen_input \<Rightarrow> string \<Rightarrow> nat \<Rightarrow> nat \<Rightarrow> string \<Rightarrow> string \<Rightarrow> (nat \<times> string) list \<Rightarrow> 'w
     \<Rightarrow> ((gen_error + attack_plan) \<times> (nat \<times> string) list) \<times> 'w" where
  "gen_attempts x inp system attempt 0 user lastErr told w =
     ((Inl (NoValidPlan (''generator: exhausted retries: no valid plan: '' @ lastErr)), told), w)"
| "gen_attempts x inp system attempt (Suc left) user lastErr told w =
     (case ge_Complete x system user w of
        (Inl err, w1) \<Rightarrow> ((Inl (GenFailed (''generator: LLM call failed: '' @ err)), told), w1)
      | (Inr resp, w1) \<Rightarrow>
          let raw = raw_answer resp; told' = told @ [(attempt, raw)]
          in case parseAttackPlan x inp raw w1 of
               (Inr plan, w2) \<Rightarrow> ((Inr plan, told'), w2)
             | (Inl err, w2) \<Rightarrow> gen_attempts x inp system (Suc attempt) left (corrective user err) err told' w2)"

text \<open>The prompts are what \<^verbatim>\<open>buildPlanSystemPrompt\<close> and \<^verbatim>\<open>buildPlanUserPrompt\<close> return.\<close>

definition Generate ::
  "'w gen_env \<Rightarrow> int \<Rightarrow> string \<Rightarrow> string \<Rightarrow> gen_input \<Rightarrow> 'w \<Rightarrow> ((gen_error + attack_plan) \<times> (nat \<times> string) list) \<times> 'w" where
  "Generate x retries system user inp w =
     (if gi_Namespace inp = '''' then ((Inl (GenFailed ''generator: namespace is required''), []), w)
      else if gi_CatalogSize inp = 0 then ((Inl (GenFailed (sprintf ''generator: catalog is empty % no faults are installed or permitted'' [AS em_dash])), []), w)
      else gen_attempts x inp system 0 (nat (max 0 retries) + 1) user '''' [] w)"

section \<open>Directed mode\<close>

text \<open>The intermediate value an intent's answer is decoded into.\<close>

record intent_answer =
  ia_Engine :: string
  ia_APIVersion :: string
  ia_ResourceKind :: string
  ia_Kind :: string
  ia_Spec :: "jobj option"
  ia_Targets :: "target_ref list"
  ia_Duration :: string
  ia_BlastRadiusTier :: string
  ia_Rationale :: string

definition parseManifest :: "(string \<Rightarrow> string + intent_answer) \<Rightarrow> string \<Rightarrow> duration \<Rightarrow> string + fault_manifest" where
  "parseManifest decode raw defaultDuration =
     (if raw = '''' then Inl ''empty structured response''
      else bindR (map_sum (\<lambda>e. ''decode: '' @ e) id (decode raw)) (\<lambda>tmp.
        let kind = (if ia_ResourceKind tmp = '''' then ia_Kind tmp else ia_ResourceKind tmp)
        in if ia_Engine tmp = '''' \<or> kind = '''' \<or> ia_APIVersion tmp = ''''
           then Inl ''engine, api_version, and resource_kind (or kind) are all required''
           else if ia_Targets tmp = [] then Inl ''at least one target is required''
           else if ia_Spec tmp = None then Inl ''spec is required''
           else bindR (if ia_Duration tmp = '''' then Inr defaultDuration
                       else case parse_duration (ia_Duration tmp) of
                              None \<Rightarrow> Inl (sprintf ''invalid duration %'' [AQ (ia_Duration tmp)])
                            | Some d \<Rightarrow> Inr d) (\<lambda>dur.
             Inr \<lparr>m_UID = '''', m_Source = SourceDirected, m_Engine = ia_Engine tmp, m_APIVersion = ia_APIVersion tmp,
                  m_ResourceKind = kind, m_Spec = ia_Spec tmp, m_Targets = ia_Targets tmp,
                  m_Duration = (if dur \<le> 0 then default_step_duration else dur), m_BlastRadiusTier = ia_BlastRadiusTier tmp,
                  m_Probes = [], m_Rationale = ia_Rationale tmp, m_PlanID = '''', m_Annotations = []\<rparr>)))"

definition buildUserPrompt :: "string \<Rightarrow> duration \<Rightarrow> string \<Rightarrow> string" where
  "buildUserPrompt intent defaultDuration defaultNamespace =
     sprintf ''User intent: %'' [AQ intent] @ [CHR 0x0A, CHR 0x0A]
     @ sprintf ''If the user did not specify a duration, default to %.''
         [AS (if defaultDuration > 0 then duration_string defaultDuration else ''2m'')]
     @ (if defaultNamespace \<noteq> ''''
        then [CHR 0x0A] @ sprintf ''If the user did not name a namespace, default to % (NOT %).'' [AQ defaultNamespace, AQ ''default'']
        else '''')"

definition corrective_intent :: "string \<Rightarrow> string \<Rightarrow> string" where
  "corrective_intent user err =
     user @ [CHR 0x0A, CHR 0x0A] @ ''Your previous response failed validation: '' @ err @ [CHR 0x0A]
     @ ''Return a JSON object that conforms to the schema.''"

text \<open>\<^verbatim>\<open>MaxRetries\<close> below zero asks the model nothing; the error it wraps is nil then.\<close>

fun intent_attempts ::
  "(string \<Rightarrow> string + intent_answer) \<Rightarrow> (string \<Rightarrow> string \<Rightarrow> 'w \<Rightarrow> (string + string \<times> string) \<times> 'w) \<Rightarrow> duration
     \<Rightarrow> string \<Rightarrow> nat \<Rightarrow> string \<Rightarrow> string \<Rightarrow> 'w \<Rightarrow> (string + fault_manifest) \<times> 'w" where
  "intent_attempts decode ask dur system 0 user lastErr w = (Inl (''translator: exhausted retries: '' @ lastErr), w)"
| "intent_attempts decode ask dur system (Suc left) user lastErr w =
     (case ask system user w of
        (Inl err, w1) \<Rightarrow> (Inl (''translator: LLM call failed: '' @ err), w1)
      | (Inr resp, w1) \<Rightarrow>
          (case parseManifest decode (raw_answer resp) dur of
             Inr m \<Rightarrow> (Inr m, w1)
           | Inl err \<Rightarrow> intent_attempts decode ask dur system left (corrective_intent user err) err w1))"

definition Translate ::
  "(string \<Rightarrow> string + intent_answer) \<Rightarrow> (string \<Rightarrow> string \<Rightarrow> 'w \<Rightarrow> (string + string \<times> string) \<times> 'w) \<Rightarrow> int \<Rightarrow> string
     \<Rightarrow> string \<Rightarrow> nat \<Rightarrow> duration \<Rightarrow> string \<Rightarrow> 'w \<Rightarrow> (string + fault_manifest) \<times> 'w" where
  "Translate decode ask retries system intent catalogSize dur ns w =
     (if intent = '''' then (Inl ''translator: intent is empty'', w)
      else if catalogSize = 0 then (Inl (sprintf ''translator: empty catalog % no faults are installed or permitted'' [AS em_dash]), w)
      else intent_attempts decode ask dur system (nat (retries + 1)) (buildUserPrompt intent dur ns) ''%!w(<nil>)'' w)"

section \<open>What a returned plan satisfies\<close>

definition step_ready :: "gen_input \<Rightarrow> string \<Rightarrow> plan_step \<Rightarrow> bool" where
  "step_ready inp pid s \<longleftrightarrow>
     (let m = ps_Manifest s; limit = lb_MaxFaultDuration (gi_Budget inp)
      in m_Source m = SourceAutonomous \<and> m_PlanID m = pid
       \<and> m_Engine m \<noteq> '''' \<and> m_ResourceKind m \<noteq> '''' \<and> m_APIVersion m \<noteq> '''' \<and> m_Spec m \<noteq> None
       \<and> m_Targets m \<noteq> [] \<and> list_all (\<lambda>t. t_Namespace t \<noteq> '''') (m_Targets m)
       \<and> 0 < m_Duration m \<and> (0 < limit \<longrightarrow> m_Duration m \<le> limit)
       \<and> trim_space (ps_DurationRationale s) \<noteq> '''' \<and> plan_checkTargetCompat m (gi_Topology inp) = None)"

definition plan_ready :: "gen_input \<Rightarrow> attack_plan \<Rightarrow> bool" where
  "plan_ready inp plan \<longleftrightarrow>
     ap_PlanID plan \<noteq> '''' \<and> ap_Hypothesis plan \<noteq> '''' \<and> ap_Steps plan \<noteq> [] \<and> plan_wf (ap_Steps plan)
     \<and> list_all (step_ready inp (ap_PlanID plan)) (ap_Steps plan)"

lemma normalize_steps_Cons:
  assumes "normalize_steps inp i (s # ss) = Inr ss'"
  obtains rest where "normalize_steps inp (Suc i) ss = Inr rest" "ss' = normalize_step inp i s # rest"
    "check_step inp (normalize_step inp i s) = None"
  using assms by (cases "normalize_steps inp (Suc i) ss") (auto split: option.splits)

lemma normalize_steps_ok: "normalize_steps inp i ss = Inr ss' \<Longrightarrow> list_all (\<lambda>s. check_step inp s = None) ss'"
proof (induction ss arbitrary: i ss')
  case (Cons s ss)
  from Cons.prems show ?case by (rule normalize_steps_Cons) (use Cons.IH in simp)
qed simp

lemma normalize_steps_of:
  "normalize_steps inp i ss = Inr ss' \<Longrightarrow> s' \<in> set ss' \<Longrightarrow> \<exists>k s. s \<in> set ss \<and> s' = normalize_step inp k s"
proof (induction ss arbitrary: i ss')
  case (Cons s ss)
  from Cons.prems(1) show ?case
  proof (rule normalize_steps_Cons)
    fix rest assume "normalize_steps inp (Suc i) ss = Inr rest" "ss' = normalize_step inp i s # rest"
    then show ?thesis using Cons.IH [of "Suc i" rest] Cons.prems(2) by auto
  qed
qed simp

lemma step_duration_pos: "0 < step_duration limit d"
  by (simp add: step_duration_def default_step_duration_def minute_def sec_def)

lemma step_compat_plan:
  "plan_checkTargetCompat (m\<lparr>m_PlanID := p\<rparr>) topo = plan_checkTargetCompat m topo"
proof -
  let ?m = "m\<lparr>m_PlanID := p\<rparr>"
  have s: "spec_map ?m = spec_map m" by (simp add: spec_map_def)
  have t: "targeted ?m = targeted m" by (intro ext) (simp add: targeted_def stepTargets_def [abs_def] s)
  have o1: "OutagePlace ?m = OutagePlace m" by (simp add: OutagePlace_def s)
  have o2: "CheckOutageManifest ?m = CheckOutageManifest m" by (simp add: CheckOutageManifest_def o1 TargetNamespaces_def s)
  have k: "m_ResourceKind ?m = m_ResourceKind m" "m_Engine ?m = m_Engine m" by simp_all
  have a: "checkOutage ?m = checkOutage m" by (intro ext) (simp only: checkOutage_def o1 o2 k)
  have b: "checkContainerKill ?m = checkContainerKill m" by (intro ext) (simp only: checkContainerKill_def s t k)
  have c: "plan_checkHTTPChaosProbes ?m = plan_checkHTTPChaosProbes m"
    by (intro ext) (simp only: plan_checkHTTPChaosProbes_def s t)
  have d: "rootfs_step_error ?m = rootfs_step_error m" by (intro ext) (simp only: rootfs_step_error_def k)
  show ?thesis by (simp only: plan_checkTargetCompat_def a b c d s t k)
qed

lemma normalized_ready:
  assumes "check_step inp (normalize_step inp i s) = None" "gi_Namespace inp \<noteq> ''''"
  shows "step_ready inp pid (stamp_plan pid (normalize_step inp i s))"
proof -
  have "list_all (\<lambda>t. t_Namespace t \<noteq> '''') (map (default_namespace (gi_Namespace inp)) ts)" for ts
    using assms(2) by (induction ts) (simp_all add: default_namespace_def)
  then show ?thesis
    using assms(1) step_duration_pos
    by (auto simp: step_ready_def check_step_def stamp_plan_def normalize_step_def Let_def step_compat_plan split: if_splits)
qed

lemma plan_wf_stamp: "plan_wf (map (stamp_plan pid) steps) \<longleftrightarrow> plan_wf steps"
proof -
  have same: "ps_Order (stamp_plan pid s) = ps_Order s" "ps_DependsOn (stamp_plan pid s) = ps_DependsOn s" for s
    by (simp_all add: stamp_plan_def)
  then have "ps_Order \<circ> stamp_plan pid = ps_Order" by (simp add: fun_eq_iff)
  moreover have "depends (map (stamp_plan pid) steps) = depends steps"
  proof -
    have "depends ss = (\<Union>s \<in> set ss. {ps_Order s} \<times> set (ps_DependsOn s))" for ss by (auto simp: depends_def)
    then show ?thesis using same by simp
  qed
  ultimately show ?thesis using same by (simp add: plan_wf_def image_image)
qed

lemma map_prod_Inr [simp]: "map_prod Inr id p = (Inr a, b) \<longleftrightarrow> p = (a, b)" "map_prod Inr id p \<noteq> (Inl e, b)"
  by (cases p; simp)+

lemma parseAttackPlan_ready:
  assumes "parseAttackPlan x inp raw w = (Inr plan, w')" "gi_Namespace inp \<noteq> ''''"
  shows "plan_ready inp plan"
proof -
  obtain plan0 steps where p: "ge_Decode x raw = Inr plan0" "ap_Hypothesis plan0 \<noteq> ''''"
    "normalize_steps inp 0 (ap_Steps plan0) = Inr steps" "validateStepDAG steps = None"
    "mint_plan x plan0 steps w = (plan, w')"
    using assms(1) by (auto simp: parseAttackPlan_def split: if_splits sum.splits option.splits)
  let ?pid = "ap_PlanID plan"
  have plan: "?pid \<noteq> '''' \<and> ap_Steps plan = map (stamp_plan ?pid) steps \<and> ap_Hypothesis plan = ap_Hypothesis plan0"
    using p(5) by (auto simp: mint_plan_def split: prod.splits if_splits)
  have wf: "steps \<noteq> [] \<and> plan_wf steps" using p(4) validateStepDAG_None by blast
  note n = normalize_steps_ok [OF p(3)]
  have ready: "step_ready inp ?pid (stamp_plan ?pid s)" if mem: "s \<in> set steps" for s
  proof -
    obtain i t where "s = normalize_step inp i t" using normalize_steps_of [OF p(3) mem] by blast
    moreover have "check_step inp s = None" using n mem by (simp add: list_all_iff)
    ultimately show ?thesis using normalized_ready assms(2) by blast
  qed
  then show ?thesis using p(2) plan wf by (simp add: plan_ready_def plan_wf_stamp list_all_iff)
qed

lemma gen_attempts_ready:
  assumes "gen_attempts x inp system k left user err told w = ((Inr plan, told'), w')"
  shows "\<exists>tries. told' = told @ tries \<and> tries \<noteq> [] \<and> length tries \<le> left \<and> map fst tries = [k..<k + length tries]
    \<and> (\<exists>w1. parseAttackPlan x inp (snd (last tries)) w1 = (Inr plan, w'))
    \<and> list_all (\<lambda>t. \<exists>e w1 w2. parseAttackPlan x inp (snd t) w1 = (Inl e, w2)) (butlast tries)"
  using assms
proof (induction x inp system k left user err told w rule: gen_attempts.induct)
  case (2 x inp system k left user err told w)
  obtain r w1 where r: "ge_Complete x system user w = (r, w1)" by force
  then obtain resp where resp: "r = Inr resp" using "2.prems" by (cases r) auto
  let ?raw = "raw_answer resp"
  obtain p w2 where p: "parseAttackPlan x inp ?raw w1 = (p, w2)" by force
  show ?case
  proof (cases p)
    case (Inr plan')
    then have "told' = told @ [(k, ?raw)]" "plan' = plan" "w2 = w'" using "2.prems" r resp p by simp_all
    then show ?thesis using p Inr by (intro exI [of _ "[(k, ?raw)]"]) auto
  next
    case (Inl e)
    have "gen_attempts x inp system (Suc k) left (corrective user e) e (told @ [(k, ?raw)]) w2 = ((Inr plan, told'), w')"
      using "2.prems" r resp p Inl by simp
    from "2.IH" [OF r [symmetric] resp refl refl p [symmetric] Inl this]
    obtain tries where t: "told' = (told @ [(k, ?raw)]) @ tries" "tries \<noteq> []" "length tries \<le> left"
      "map fst tries = [Suc k..<Suc k + length tries]" "\<exists>w1. parseAttackPlan x inp (snd (last tries)) w1 = (Inr plan, w')"
      "list_all (\<lambda>t. \<exists>e w1 w2. parseAttackPlan x inp (snd t) w1 = (Inl e, w2)) (butlast tries)" by blast
    have "map fst ((k, ?raw) # tries) = [k..<k + length ((k, ?raw) # tries)]"
      using t(4) by (simp add: upt_conv_Cons del: upt_Suc)
    then show ?thesis using t p Inl by (intro exI [of _ "(k, ?raw) # tries"]) auto
  qed
qed simp

lemma Generate_ready:
  assumes "Generate x retries system user inp w = ((Inr plan, told), w')"
  shows "plan_ready inp plan" "\<exists>w1. parseAttackPlan x inp (snd (last told)) w1 = (Inr plan, w')"
    "gen_attempts x inp system 0 (nat (max 0 retries) + 1) user '''' [] w = ((Inr plan, told), w')"
proof -
  have ns: "gi_Namespace inp \<noteq> ''''"
    and g: "gen_attempts x inp system 0 (nat (max 0 retries) + 1) user '''' [] w = ((Inr plan, told), w')"
    using assms by (auto simp: Generate_def split: if_splits)
  show "gen_attempts x inp system 0 (nat (max 0 retries) + 1) user '''' [] w = ((Inr plan, told), w')" by (rule g)
  show last': "\<exists>w1. parseAttackPlan x inp (snd (last told)) w1 = (Inr plan, w')" using gen_attempts_ready [OF g] by auto
  then obtain w1 where "parseAttackPlan x inp (snd (last told)) w1 = (Inr plan, w')" by blast
  from parseAttackPlan_ready [OF this ns] show "plan_ready inp plan" .
qed

section \<open>Guarantees\<close>

text \<open>
  C24.  Whatever the model answers, a plan that is returned is ready to run: it
  has an ID, a hypothesis and steps that form a DAG, and every step is marked
  autonomous, carries the plan's ID, names engine, kind, version, spec and
  targets in a namespace, lasts no longer than the ceiling and fits the
  topology.  It is the first answer that passed: at most one more than the
  retries are asked for, and each before it failed.
\<close>

theorem Generate_plan_ready:
  assumes "Generate x retries system user inp w = ((Inr plan, told), w')"
  shows "plan_ready inp plan
    \<and> told \<noteq> [] \<and> length told \<le> nat (max 0 retries) + 1 \<and> map fst told = [0..<length told]
    \<and> (\<exists>w1. parseAttackPlan x inp (snd (last told)) w1 = (Inr plan, w'))
    \<and> list_all (\<lambda>t. \<exists>e w1 w2. parseAttackPlan x inp (snd t) w1 = (Inl e, w2)) (butlast told)"
  using Generate_ready [OF assms] gen_attempts_ready [OF Generate_ready(3) [OF assms]] by auto

definition sample_input :: gen_input where
  "sample_input =
     \<lparr>gi_Namespace = ''shop'', gi_Topology = None, gi_CatalogSize = 1,
      gi_Budget = \<lparr>lb_MaxFaultsPerCycle = 2, lb_MaxConcurrentFaults = 1, lb_MinCooldown = 0,
        lb_MaxSeverityPerCycle = '''', lb_MaxFaultDuration = minute\<rparr>\<rparr>"

definition sample_answer :: attack_plan where
  "sample_answer =
     \<lparr>ap_PlanID = '''', ap_Hypothesis = ''it recovers'',
      ap_Steps = [\<lparr>ps_Order = 0, ps_Manifest = empty_manifest\<lparr>m_Engine := EngineNetworkPolicy, m_APIVersion := ''v1'',
         m_ResourceKind := ''NetworkPolicy'', m_Spec := Some [],
         m_Targets := [\<lparr>t_Namespace = '''', t_Kind = '''', t_Name = ''web'', t_Labels = []\<rparr>]\<rparr>,
         ps_Rationale = '''', ps_DurationRationale = ''time to notice'', ps_DependsOn = []\<rparr>],
      ap_Budget = \<lparr>pb_MaxConcurrentFaults = 0, pb_MinCooldown = 0, pb_MaxSeverityTier = ''''\<rparr>\<rparr>"

text \<open>The model answers in prose first, and with a plan when asked again.\<close>

definition sample_gen_env :: "nat gen_env" where
  "sample_gen_env =
     \<lparr>ge_Complete = (\<lambda>s u w. (Inr ('''', if w = 0 then ''Sure!'' else ''Here: {plan} Enjoy.''), w + 1)),
      ge_Decode = (\<lambda>raw. if raw = ''{plan}'' then Inr sample_answer else Inl ''invalid character''),
      ge_Mint = (\<lambda>w. (''01'', w + 1))\<rparr>"

theorem Generate_plan_ready_witness:
  "\<exists>plan told w'. Generate sample_gen_env 1 ''s'' ''u'' sample_input 0 = ((Inr plan, told), w')
     \<and> told = [(0, ''Sure!''), (1, ''{plan}'')] \<and> ap_PlanID plan = ''plan-01''
     \<and> plan_ready sample_input plan"
proof -
  have told: "(case Generate sample_gen_env 1 ''s'' ''u'' sample_input 0 of
      ((Inr plan, told), w') \<Rightarrow> told = [(0, ''Sure!''), (1, ''{plan}'')] \<and> ap_PlanID plan = ''plan-01'' | _ \<Rightarrow> False)"
    by code_simp
  obtain r told w' where g: "Generate sample_gen_env 1 ''s'' ''u'' sample_input 0 = ((r, told), w')" by (metis prod.collapse)
  then obtain plan where r: "r = Inr plan" using told by (cases r) auto
  then show ?thesis using g told Generate_plan_ready [of sample_gen_env 1 "''s''" "''u''" sample_input 0 plan told w'] by auto
qed

section \<open>Finding the object\<close>

lemma index_of_char: "c \<notin> set a \<Longrightarrow> index_of [c] (a @ c # r) = Some (length a)"
  by (induction a) (auto simp: has_prefix_def)

lemma last_index_of_char: "c \<notin> set b \<Longrightarrow> last_index_of [c] (a @ c # b) = Some (length a)"
proof (induction a)
  case Nil
  have "last_index_of [c] b = None" using Nil by (induction b) (auto simp: has_prefix_def)
  then show ?case by (simp add: has_prefix_def)
qed simp

lemma last_index_of_fence: "last_index_of fence (a @ fence) = Some (length a)"
proof (induction a)
  case Nil
  show ?case by code_simp
qed simp

lemma trim_space_around:
  assumes "\<not> is_space c" "\<not> is_space d"
  shows "trim_space (a @ (c # m @ [d]) @ b) = dropWhile is_space a @ (c # m @ [d]) @ rev (dropWhile is_space (rev b))"
proof -
  have "dropWhile is_space (xs @ y # ys) = dropWhile is_space xs @ y # ys" if "\<not> is_space y" for xs ys y
    using that by (induction xs) auto
  note this [of c a "m @ d # b"] this [of d "rev b" "rev m @ c # rev (dropWhile is_space a)"]
  then show ?thesis using assms by (simp add: trim_space_def)
qed

lemma extract_braces:
  assumes "CHR ''{'' \<notin> set a" "CHR ''}'' \<notin> set b" and t: "strip_fences (trim_space text) = a @ (CHR ''{'' # m @ [CHR ''}'']) @ b"
  shows "extractJSON text = CHR ''{'' # m @ [CHR ''}'']"
proof -
  have "index_of ''{'' (strip_fences (trim_space text)) = Some (length a)" unfolding t using index_of_char [OF assms(1)] by simp
  moreover have "last_index_of ''}'' (strip_fences (trim_space text)) = Some (length a + length m + 1)"
    using last_index_of_char [OF assms(2), of "a @ CHR ''{'' # m"] by (simp add: t)
  ultimately show ?thesis by (simp add: extractJSON_def t)
qed

text \<open>
  The JSON object of an answer is found in surrounding prose and inside a
  Markdown code fence, with or without a language, up to white space.
\<close>

theorem extractJSON_finds_object:
  assumes "CHR ''{'' \<notin> set before" "CHR ''}'' \<notin> set after" "CHR ''`'' \<notin> set before" "CHR 0x0A \<notin> set lang"
  shows "extractJSON (before @ (''{'' @ body @ ''}'') @ after) = ''{'' @ body @ ''}''
    \<and> extractJSON (fence @ lang @ [CHR 0x0A] @ before @ (''{'' @ body @ ''}'') @ after @ fence) = ''{'' @ body @ ''}''"
proof
  let ?obj = "CHR ''{'' # body @ [CHR ''}'']"
  have sp: "\<not> is_space (CHR ''{'')" "\<not> is_space (CHR ''}'')" "\<not> is_space (CHR ''`'')" by code_simp+
  have trim: "trim_space (before @ ?obj @ after) = dropWhile is_space before @ ?obj @ rev (dropWhile is_space (rev after))"
    by (rule trim_space_around [OF sp(1,2)])
  have a: "CHR ''{'' \<notin> set (dropWhile is_space before)" "CHR ''`'' \<notin> set (dropWhile is_space before)"
    and b: "CHR ''}'' \<notin> set (rev (dropWhile is_space (rev after)))"
    using assms(1-3) by (auto dest: set_dropWhileD)
  have "\<not> has_prefix (p @ ?obj @ r) fence" if "CHR ''`'' \<notin> set p" for p r
    using that by (cases p) (auto simp: has_prefix_def fence_def)
  note this [OF a(2)]
  then have "strip_fences (trim_space (before @ ?obj @ after)) = trim_space (before @ ?obj @ after)"
    unfolding trim by (simp add: strip_fences_def)
  then show "extractJSON (before @ (''{'' @ body @ ''}'') @ after) = ''{'' @ body @ ''}''"
    using extract_braces [OF a(1) b, of _ body] trim by simp
  let ?in = "lang @ [CHR 0x0A] @ before @ ?obj @ after"
  have "trim_space (CHR ''`'' # m @ [CHR ''`'']) = CHR ''`'' # m @ [CHR ''`'']" for m
    using trim_space_around [OF sp(3,3), of "[]" m "[]"] by simp
  note this [of "''``'' @ ?in @ ''``''"]
  then have t: "trim_space (fence @ ?in @ fence) = fence @ ?in @ fence" by (simp add: fence_def)
  have "index_of [CHR 0x0A] (fence @ ?in @ fence) = Some (3 + length lang)"
    using index_of_char [of "CHR 0x0A" "fence @ lang" "before @ ?obj @ after @ fence"] assms(4) by (simp add: fence_def)
  then have "strip_fences (fence @ ?in @ fence) = trim_space (before @ ?obj @ after)"
    using last_index_of_fence [of "before @ ?obj @ after"]
    by (simp add: strip_fences_def has_prefix_def) (simp add: fence_def)
  then show "extractJSON (fence @ lang @ [CHR 0x0A] @ before @ (''{'' @ body @ ''}'') @ after @ fence) = ''{'' @ body @ ''}''"
    using extract_braces [OF a(1) b, of _ body] trim t by simp
qed

theorem extractJSON_finds_object_witness:
  "extractJSON (fence @ ''json'' @ [CHR 0x0A] @ [] @ (''{'' @ ''x'' @ ''}'') @ [CHR 0x0A] @ fence) = ''{x}''"
  using extractJSON_finds_object [of "[]" "[CHR 0x0A]" "''json''" "''x''"] by simp

end
