(* ===== verification/Autonomous_Loop.thy ===== *)
theory Autonomous_Loop
  imports Plan_Check Loop_Control
begin

text \<open>
  Autonomous mode: \<^verbatim>\<open>src/pkg/loop/loop.go\<close>.  A cycle waits for a slot, passes the
  health gate, asks the planner for a plan and executes it layer by layer.
  The executor, the planner, the catalog, the topology and the clock are
  parameters over a state \<open>'w\<close> of the world.

  The goroutines of one layer are modelled as an interleaving: each is a list
  of atomic steps (the check of its recent refusals, the apply, the note of its
  outcome, the event or the entry in the list of applied faults), and a step
  relation picks any that can run.

  Shown here: a cycle stays within its budget and its severity cap, a step is
  submitted at most once and only after the steps it depends on are finished,
  and every execution of a plan ends.
\<close>

section \<open>State and environment\<close>

text \<open>A step key: what \<^verbatim>\<open>stepKey\<close> encodes as a JSON string, with the keys of every object
  in order and an integer written as the number it is.  The code compares keys for
  equality only; encoding a decoded JSON value does not fail, so no key is empty.\<close>

fun json_canon :: "json \<Rightarrow> json" where
  "json_canon (JArr xs) = JArr (map json_canon xs)"
| "json_canon (JObj m) = JObj (sort_key fst (map (\<lambda>p. (fst p, json_canon (snd p))) m))"
| "json_canon (JInt i) = (if \<bar>i\<bar> \<le> 2 ^ 53 then JNum (of_int i) else JInt i)"
| "json_canon v = v"

definition stepKey :: "fault_manifest \<Rightarrow> json" where
  "stepKey m = json_canon (JObj [(''k'', JStr (m_ResourceKind m)),
     (''t'', JArr (map target_record (m_Targets m))),
     (''s'', case m_Spec m of None \<Rightarrow> JNull | Some sp \<Rightarrow> JObj sp)])"

record 'w loop =
  lo_Namespaces :: "string list"
  lo_Interval :: duration
  lo_Budget :: loop_budget
  lo_Hypothesis :: string
  lo_Control :: "control option"
  lo_pausedNS :: "string list"
  lo_refusals :: "(json \<times> gotime list) list"
  lo_slotPoll :: duration
  lo_audit :: "audit_event list"
  lo_world :: 'w

record 'w loop_env =
  le_Apply :: "fault_manifest \<Rightarrow> 'w \<Rightarrow> (exec_error + string) \<times> 'w"
  le_ListActive :: "'w \<Rightarrow> (string + active_fault list) \<times> 'w"
  le_hasExecutor :: bool
  le_hasAuditor :: bool
  le_now :: "'w \<Rightarrow> gotime \<times> 'w"
  le_after :: "duration \<Rightarrow> 'w \<Rightarrow> bool \<times> 'w"
  le_cancelled :: "'w \<Rightarrow> bool"
  le_Health :: "(string \<Rightarrow> 'w \<Rightarrow> string option \<times> 'w) option"
  le_Catalog :: "'w \<Rightarrow> string option \<times> 'w"
  le_Generate :: "string \<Rightarrow> loop_budget \<Rightarrow> string \<Rightarrow> 'w \<Rightarrow> (gen_error + attack_plan) \<times> 'w"

definition repeatedRefusalLimit :: int where "repeatedRefusalLimit = 3"
definition repeatedRefusalWindow :: duration where "repeatedRefusalWindow = 60 * minute"
definition defaultSlotPoll :: duration where "defaultSlotPoll = 5 * sec"
definition ReasonPaused :: string where [const_defs]: "ReasonPaused = ''paused''"

definition loop_event :: "string \<Rightarrow> string \<Rightarrow> string \<Rightarrow> jobj \<Rightarrow> audit_event" where
  "loop_event ev plan reason payload =
     \<lparr>ae_Event = ev, ae_FaultUID = '''', ae_PlanID = plan, ae_ScenarioID = '''', ae_Mode = SourceAutonomous,
      ae_Reason = reason, ae_Payload = payload\<rparr>"

definition loop_emit :: "'w loop_env \<Rightarrow> audit_event \<Rightarrow> 'w loop \<Rightarrow> 'w loop" where
  "loop_emit x ev l = (if le_hasAuditor x then l\<lparr>lo_audit := lo_audit l @ [ev]\<rparr> else l)"


section \<open>Settings and turns\<close>

definition sync :: "'w loop \<Rightarrow> bool \<times> 'w loop" where
  "sync l =
     (case lo_Control l of
        None \<Rightarrow> (lo_Namespaces l \<noteq> [], l)
      | Some c \<Rightarrow>
          let s = fst (Control_Get c)
          in (se_Enabled s \<and> se_Namespaces s \<noteq> [] \<and> se_Interval s > 0,
              l\<lparr>lo_Namespaces := se_Namespaces s, lo_Interval := se_Interval s,
                lo_Budget := (lo_Budget l)\<lparr>lb_MaxFaultsPerCycle := se_MaxFaultsPerCycle s,
                               lb_MaxSeverityPerCycle := se_MaxSeverityPerCycle s\<rparr>,
                lo_Hypothesis := se_Hypothesis s, lo_pausedNS := se_Paused s\<rparr>))"

definition paused :: "'w loop \<Rightarrow> string \<Rightarrow> bool" where
  "paused l ns \<longleftrightarrow> PauseAll \<in> set (lo_pausedNS l) \<or> ns \<in> set (lo_pausedNS l)"

definition ns_payload :: "string \<Rightarrow> jobj" where
  "ns_payload ns = [(''namespace'', JStr ns)]"

definition skipPaused :: "'w loop_env \<Rightarrow> string \<Rightarrow> 'w loop \<Rightarrow> 'w loop" where
  "skipPaused x ns l =
     loop_emit x (loop_event EventCycleSkipped '''' ReasonPaused (ns_payload ns))
       (loop_emit x (loop_event EventCycleStarted '''' '''' (ns_payload ns)) l)"

definition cycleOrder :: "string list \<Rightarrow> nat \<Rightarrow> string list" where
  "cycleOrder nss cycle = map (\<lambda>i. nss ! ((cycle + i) mod length nss)) [0..<length nss]"

section \<open>Refusals of a step\<close>

definition recentRefusals :: "gotime \<Rightarrow> json \<Rightarrow> (json \<times> gotime list) list \<Rightarrow> int \<times> (json \<times> gotime list) list" where
  "recentRefusals now key refusals =
     (let cutoff = now - repeatedRefusalWindow;
          times = (case map_of refusals key of Some ts \<Rightarrow> ts | None \<Rightarrow> []);
          rest = dropWhile (\<lambda>t. t < cutoff) times
      in if rest = [] then (0, AList.delete key refusals)
         else (int (length rest), AList.update key rest refusals))"

definition add_refusal :: "json \<Rightarrow> gotime \<Rightarrow> (json \<times> gotime list) list \<Rightarrow> (json \<times> gotime list) list" where
  "add_refusal key t refusals =
     AList.update key ((case map_of refusals key of Some ts \<Rightarrow> ts | None \<Rightarrow> []) @ [t]) refusals"

definition noteOutcome ::
  "gotime \<Rightarrow> json \<Rightarrow> exec_error option \<Rightarrow> (json \<times> gotime list) list \<Rightarrow> (json \<times> gotime list) list" where
  "noteOutcome now key err refusals =
     (case err of
        None \<Rightarrow> AList.delete key refusals
      | Some e \<Rightarrow> if RefusalWorthRemembering (Some e) then add_refusal key now refusals else refusals)"

definition seedRefusals :: "refused_fault list \<Rightarrow> (json \<times> gotime list) list \<Rightarrow> (json \<times> gotime list) list" where
  "seedRefusals refused refusals =
     fold (\<lambda>rf rs. if rx_Reason rf = ReasonBudgetExceeded then rs
                   else add_refusal (stepKey (rx_Manifest rf)) (rx_RefusedAt rf) rs) (rev refused) refusals"

section \<open>Tiers\<close>

definition tierOrdinal :: "string \<Rightarrow> int \<times> bool" where
  "tierOrdinal t =
     (if t = TierNamespace then (1, True) else if t = TierNode then (2, True)
      else if t = TierExternal then (3, True) else (0, False))"

definition tierExceeds :: "string \<Rightarrow> string \<Rightarrow> bool" where
  "tierExceeds have' max' =
     (case (tierOrdinal have', tierOrdinal max') of
        ((h, okHave), (m, okMax)) \<Rightarrow> if \<not> okHave \<or> \<not> okMax then True else h > m)"

section \<open>Executing a plan\<close>

text \<open>A goroutine of a layer: it has just started, it is about to submit its manifest,
  the executor has answered, or the answer has been noted.\<close>

datatype task_phase = Starting | Submitting fault_manifest json | Returned json "exec_error + string" | Noted "exec_error + string"

record 'w exec_state =
  xs_loop :: "'w loop"
  xs_layers :: "int list list"
  xs_layer :: "int list"
  xs_running :: "(plan_step \<times> task_phase) list"
  xs_scheduled :: int
  xs_applied :: "string list"

definition cycle_cap :: "loop_budget \<Rightarrow> attack_plan \<Rightarrow> int" where
  "cycle_cap b plan =
     (if lb_MaxFaultsPerCycle b \<le> 0 then int (length (ap_Steps plan)) else lb_MaxFaultsPerCycle b)"

definition conc_cap :: "loop_budget \<Rightarrow> int" where
  "conc_cap b = (if lb_MaxConcurrentFaults b \<le> 0 then 1 else lb_MaxConcurrentFaults b)"

definition step_by_order :: "plan_step list \<Rightarrow> int \<Rightarrow> plan_step" where
  "step_by_order steps order =
     (case find (\<lambda>s. ps_Order s = order) (rev steps) of
        Some s \<Rightarrow> s
      | None \<Rightarrow> \<lparr>ps_Order = 0, ps_Manifest = empty_manifest, ps_Rationale = '''', ps_DurationRationale = '''',
                  ps_DependsOn = []\<rparr>)"

definition skip_event :: "attack_plan \<Rightarrow> string \<Rightarrow> string \<Rightarrow> int \<Rightarrow> jobj \<Rightarrow> audit_event" where
  "skip_event plan reason ns order extra =
     loop_event EventStepSkipped (ap_PlanID plan) reason (ns_payload ns @ [(''order'', JInt order)] @ extra)"

text \<open>The scheduler's turn on the next step of the layer; \<^const>\<open>None\<close> while the semaphore is full.\<close>

definition look_at ::
  "'w loop_env \<Rightarrow> loop_budget \<Rightarrow> string \<Rightarrow> attack_plan \<Rightarrow> int \<Rightarrow> int list \<Rightarrow> 'w exec_state \<Rightarrow> 'w exec_state option" where
  "look_at x b ns plan order rest s =
     (let step = step_by_order (ap_Steps plan) order;
          tier = m_BlastRadiusTier (ps_Manifest step)
      in if lb_MaxSeverityPerCycle b \<noteq> '''' \<and> tierExceeds tier (lb_MaxSeverityPerCycle b)
         then Some (s\<lparr>xs_layer := rest, xs_loop := loop_emit x
                (skip_event plan ''severity-cap'' ns (ps_Order step) [(''tier'', JStr tier)]) (xs_loop s)\<rparr>)
         else if xs_scheduled s \<ge> cycle_cap b plan
         then Some (s\<lparr>xs_layer := rest, xs_loop := loop_emit x
                (skip_event plan ''cycle-budget-exhausted'' ns (ps_Order step) []) (xs_loop s)\<rparr>)
         else if int (length (xs_running s)) < conc_cap b
         then Some (s\<lparr>xs_layer := rest, xs_scheduled := xs_scheduled s + 1,
                xs_running := xs_running s @ [(step, Starting)]\<rparr>)
         else None)"

text \<open>The next step of a goroutine: its phase afterwards (\<^const>\<open>None\<close> when it is done), the UID
  it reports, and the loop.\<close>

definition start_task ::
  "'w loop_env \<Rightarrow> string \<Rightarrow> attack_plan \<Rightarrow> plan_step \<Rightarrow> 'w loop \<Rightarrow> task_phase option \<times> string list \<times> 'w loop" where
  "start_task x ns plan step l =
     (let m = (ps_Manifest step)\<lparr>m_PlanID := ap_PlanID plan, m_Source := SourceAutonomous\<rparr>;
          key = stepKey m
      in case le_now x (lo_world l) of
           (now, w) \<Rightarrow>
             (case recentRefusals now key (lo_refusals l) of
                (n, refusals) \<Rightarrow>
                  let l' = l\<lparr>lo_world := w, lo_refusals := refusals\<rparr>
                  in if n \<ge> repeatedRefusalLimit
                     then (None, [], loop_emit x (skip_event plan ''repeated-refusal'' ns (ps_Order step)
                            [(''refusals'', JInt n), (''window'', JStr (duration_string repeatedRefusalWindow))]) l')
                     else (Some (Submitting m key), [], l')))"

definition submit_task ::
  "'w loop_env \<Rightarrow> fault_manifest \<Rightarrow> json \<Rightarrow> 'w loop \<Rightarrow> task_phase option \<times> string list \<times> 'w loop" where
  "submit_task x m key l =
     (case le_Apply x m (lo_world l) of (r, w) \<Rightarrow> (Some (Returned key r), [], l\<lparr>lo_world := w\<rparr>))"

definition note_err :: "'w loop_env \<Rightarrow> json \<Rightarrow> exec_error option \<Rightarrow> 'w loop \<Rightarrow> 'w loop" where
  "note_err x key err l =
     (if RefusalWorthRemembering err
      then (case le_now x (lo_world l) of
              (now, w) \<Rightarrow> l\<lparr>lo_world := w, lo_refusals := noteOutcome now key err (lo_refusals l)\<rparr>)
      else l\<lparr>lo_refusals := noteOutcome 0 key err (lo_refusals l)\<rparr>)"

definition note_task :: "'w loop_env \<Rightarrow> json \<Rightarrow> exec_error + string \<Rightarrow> 'w loop \<Rightarrow> task_phase option \<times> string list \<times> 'w loop" where
  "note_task x key r l =
     (Some (Noted r), [], note_err x key (case r of Inl err \<Rightarrow> Some err | Inr _ \<Rightarrow> None) l)"

definition finish_task ::
  "'w loop_env \<Rightarrow> string \<Rightarrow> attack_plan \<Rightarrow> plan_step \<Rightarrow> exec_error + string \<Rightarrow> 'w loop
     \<Rightarrow> task_phase option \<times> string list \<times> 'w loop" where
  "finish_task x ns plan step r l =
     (case r of
        Inl err \<Rightarrow> (None, [], loop_emit x (skip_event plan ''executor-rejected'' ns (ps_Order step)
                      [(''error'', JStr (ExecutorError_Error err))]) l)
      | Inr uid \<Rightarrow> (None, [uid], l))"

fun task_step ::
  "'w loop_env \<Rightarrow> string \<Rightarrow> attack_plan \<Rightarrow> plan_step \<Rightarrow> task_phase \<Rightarrow> 'w loop
     \<Rightarrow> task_phase option \<times> string list \<times> 'w loop" where
  "task_step x ns plan step Starting l = start_task x ns plan step l"
| "task_step x ns plan step (Submitting m key) l = submit_task x m key l"
| "task_step x ns plan step (Returned key r) l = note_task x key r l"
| "task_step x ns plan step (Noted r) l = finish_task x ns plan step r l"

inductive exec_step :: "'w loop_env \<Rightarrow> loop_budget \<Rightarrow> string \<Rightarrow> attack_plan \<Rightarrow> 'w exec_state \<Rightarrow> 'w exec_state \<Rightarrow> bool"
  for x b ns plan where
  next_layer: "xs_layer s = [] \<Longrightarrow> xs_running s = [] \<Longrightarrow> xs_layers s = l # ls \<Longrightarrow> xs_scheduled s < cycle_cap b plan \<Longrightarrow>
     exec_step x b ns plan s (s\<lparr>xs_layer := l, xs_layers := ls\<rparr>)"
| stop_layers: "xs_layer s = [] \<Longrightarrow> xs_running s = [] \<Longrightarrow> xs_layers s \<noteq> [] \<Longrightarrow> xs_scheduled s \<ge> cycle_cap b plan \<Longrightarrow>
     exec_step x b ns plan s (s\<lparr>xs_layers := []\<rparr>)"
| schedule: "xs_layer s = order # rest \<Longrightarrow> look_at x b ns plan order rest s = Some t \<Longrightarrow> exec_step x b ns plan s t"
| run_task: "xs_running s = before @ (step, ph) # after \<Longrightarrow>
     task_step x ns plan step ph (xs_loop s) = (ph', uids, l) \<Longrightarrow>
     exec_step x b ns plan s (s\<lparr>xs_loop := l, xs_applied := xs_applied s @ uids,
       xs_running := before @ (case ph' of None \<Rightarrow> [] | Some p \<Rightarrow> [(step, p)]) @ after\<rparr>)"

inductive_cases exec_stepE: "exec_step x b ns plan s t"

definition exec_start :: "int list list \<Rightarrow> 'w loop \<Rightarrow> 'w exec_state" where
  "exec_start layers l = \<lparr>xs_loop = l, xs_layers = layers, xs_layer = [], xs_running = [], xs_scheduled = 0, xs_applied = []\<rparr>"

definition exec_done :: "'w exec_state \<Rightarrow> bool" where
  "exec_done s \<longleftrightarrow> xs_layers s = [] \<and> xs_layer s = [] \<and> xs_running s = []"

inductive executePlan ::
  "'w loop_env \<Rightarrow> string \<Rightarrow> attack_plan \<Rightarrow> 'w loop \<Rightarrow> string list \<Rightarrow> 'w loop \<Rightarrow> bool" for x ns plan l where
  layering_failed: "PlanLayers (ap_Steps plan) = Inl err \<Longrightarrow>
     executePlan x ns plan l [] (loop_emit x (loop_event EventCycleSkipped (ap_PlanID plan) ''plan-layering-failed''
       (ns_payload ns @ [(''error'', JStr err)])) l)"
| executed: "PlanLayers (ap_Steps plan) = Inr layers \<Longrightarrow>
     (exec_step x (lo_Budget l) ns plan)\<^sup>*\<^sup>* (exec_start layers l) s \<Longrightarrow> exec_done s \<Longrightarrow>
     executePlan x ns plan l (xs_applied s) (xs_loop s)"

section \<open>Waiting for a slot\<close>

definition frees_in_time :: "gotime \<Rightarrow> active_fault list \<Rightarrow> bool" where
  "frees_in_time until faults \<longleftrightarrow> list_ex (\<lambda>f. af_Deadline f = 0 \<or> af_Deadline f < until) faults"

text \<open>The verdict with the active count and the time waited; each return reads the clock.\<close>

definition slot_verdict ::
  "'w loop_env \<Rightarrow> gotime \<Rightarrow> bool \<Rightarrow> int \<Rightarrow> 'w \<Rightarrow> ((bool \<times> int \<times> duration) \<times> 'w) option" where
  "slot_verdict x start ok active w =
     (case le_now x w of (now, w') \<Rightarrow> Some ((ok, active, time_sub now start), w'))"

partial_function (option) slot_loop ::
  "'w loop_env \<Rightarrow> int \<Rightarrow> duration \<Rightarrow> gotime \<Rightarrow> gotime \<Rightarrow> 'w \<Rightarrow> ((bool \<times> int \<times> duration) \<times> 'w) option" where
  "slot_loop x limit poll start until w =
     (case le_ListActive x w of
        (Inl _, w1) \<Rightarrow> slot_verdict x start True 0 w1
      | (Inr faults, w1) \<Rightarrow>
          (if int (length faults) < limit then slot_verdict x start True (int (length faults)) w1
           else if \<not> frees_in_time until faults then slot_verdict x start False (int (length faults)) w1
           else case le_now x w1 of
                  (now, w2) \<Rightarrow>
                    (if \<not> now + poll < until then slot_verdict x start False (int (length faults)) w2
                     else case le_after x poll w2 of
                            (cancelled, w3) \<Rightarrow>
                              if cancelled then slot_verdict x start False (int (length faults)) w3
                              else slot_loop x limit poll start until w3)))"

definition slot_window :: "'w loop \<Rightarrow> duration" where
  "slot_window l =
     (if lo_Interval l > 0 \<and> lo_Namespaces l \<noteq> [] then lo_Interval l div int (length (lo_Namespaces l)) else 0)"

definition waitForSlot :: "'w loop_env \<Rightarrow> 'w loop \<Rightarrow> ((bool \<times> int \<times> duration) \<times> 'w) option" where
  "waitForSlot x l =
     (let limit = lb_MaxConcurrentFaults (lo_Budget l);
          poll = (if lo_slotPoll l \<le> 0 then defaultSlotPoll else lo_slotPoll l)
      in if limit \<le> 0 \<or> \<not> le_hasExecutor x then Some ((True, 0, 0), lo_world l)
         else case le_now x (lo_world l) of
                (start, w) \<Rightarrow> slot_loop x limit poll start (start + slot_window l) w)"

section \<open>A cycle\<close>

definition plan_step_record :: "plan_step \<Rightarrow> json" where
  "plan_step_record s = JObj (
     [(''order'', JInt (ps_Order s)), (''rationale'', JStr (ps_Rationale s)), (''fault'', JObj (AuditRecord (ps_Manifest s)))]
     @ (if ps_DurationRationale s \<noteq> '''' then [(''duration_rationale'', JStr (ps_DurationRationale s))] else [])
     @ (if ps_DependsOn s \<noteq> [] then [(''depends_on'', JArr (map JInt (ps_DependsOn s)))] else []))"

definition planStepRecords :: "plan_step list \<Rightarrow> json" where
  "planStepRecords steps = JArr (map plan_step_record steps)"

text \<open>\<^verbatim>\<open>Duration.Truncate\<close>, towards zero.\<close>

definition truncate_duration :: "duration \<Rightarrow> duration \<Rightarrow> duration" where
  "truncate_duration d m = sgn d * (\<bar>d\<bar> div m * m)"

definition skip_cycle :: "'w loop_env \<Rightarrow> string \<Rightarrow> string \<Rightarrow> jobj \<Rightarrow> 'w loop \<Rightarrow> 'w loop" where
  "skip_cycle x ns reason extra l =
     loop_emit x (loop_event EventCycleSkipped '''' reason (ns_payload ns @ extra)) l"

text \<open>The health gate and the catalog; \<open>Inl\<close> ends the cycle, with an error or without.\<close>

definition cycle_gate :: "'w loop_env \<Rightarrow> string \<Rightarrow> 'w loop \<Rightarrow> (string option + unit) \<times> 'w loop" where
  "cycle_gate x ns l =
     (case (case le_Health x of None \<Rightarrow> (None, lo_world l) | Some check \<Rightarrow> check ns (lo_world l)) of
        (Some err, w) \<Rightarrow>
          (Inl None, skip_cycle x ns ''health-gate'' []
             (loop_emit x (loop_event EventHealthGateFailed '''' err (ns_payload ns)) (l\<lparr>lo_world := w\<rparr>)))
      | (None, w) \<Rightarrow>
          (case le_Catalog x w of
             (Some err, w') \<Rightarrow> (Inl (Some (''catalog: '' @ err)), l\<lparr>lo_world := w'\<rparr>)
           | (None, w') \<Rightarrow> (Inr (), l\<lparr>lo_world := w'\<rparr>)))"

definition generate_plan :: "'w loop_env \<Rightarrow> string \<Rightarrow> 'w loop \<Rightarrow> (string option + attack_plan) \<times> 'w loop" where
  "generate_plan x ns l =
     (case le_Generate x ns (lo_Budget l) (lo_Hypothesis l) (lo_world l) of
        (r, w) \<Rightarrow>
          let l' = l\<lparr>lo_world := w\<rparr>
          in case r of
               Inr plan \<Rightarrow> (Inr plan, l')
             | Inl err \<Rightarrow>
                 if le_cancelled x w then (Inl None, skip_cycle x ns ReasonInterrupted [] l')
                 else (case err of
                         NoValidPlan e \<Rightarrow> (Inl None, skip_cycle x ns ''no-valid-plan'' [(''error'', JStr e)] l')
                       | GenFailed e \<Rightarrow>
                           (Inl None, skip_cycle x ns ''llm-unavailable'' []
                              (loop_emit x (loop_event EventLLMUnavailable '''' e (ns_payload ns)) l'))))"

text \<open>From the start of a cycle to its plan; \<^const>\<open>None\<close> if the wait for a slot never ends.\<close>

definition plan_cycle :: "'w loop_env \<Rightarrow> string \<Rightarrow> 'w loop \<Rightarrow> ((string option + attack_plan) \<times> 'w loop) option" where
  "plan_cycle x ns l0 =
     (let l = loop_emit x (loop_event EventCycleStarted '''' '''' (ns_payload ns)) l0
      in case waitForSlot x l of
           None \<Rightarrow> None
         | Some ((ok, active, waited), w) \<Rightarrow>
             let l1 = l\<lparr>lo_world := w\<rparr>
             in if \<not> ok
                then Some (Inl None, skip_cycle x ns ''budget-full''
                       [(''active_faults'', JInt active),
                        (''max_concurrent_faults'', JInt (lb_MaxConcurrentFaults (lo_Budget l))),
                        (''waited'', JStr (duration_string (truncate_duration waited sec)))] l1)
                else case cycle_gate x ns l1 of
                       (Inl e, l2) \<Rightarrow> Some (Inl e, l2)
                     | (Inr (), l2) \<Rightarrow> Some (generate_plan x ns l2))"

definition announce_plan :: "'w loop_env \<Rightarrow> string \<Rightarrow> attack_plan \<Rightarrow> 'w loop \<Rightarrow> 'w loop" where
  "announce_plan x ns plan l =
     loop_emit x (loop_event EventPlanGenerated (ap_PlanID plan) '''' (ns_payload ns @
       [(''step_count'', JInt (int (length (ap_Steps plan)))), (''hypothesis'', JStr (ap_Hypothesis plan)),
        (''steps'', planStepRecords (ap_Steps plan))])) l"

definition complete_cycle :: "'w loop_env \<Rightarrow> string \<Rightarrow> attack_plan \<Rightarrow> string list \<Rightarrow> 'w loop \<Rightarrow> 'w loop" where
  "complete_cycle x ns plan applied l =
     loop_emit x (loop_event EventCycleCompleted (ap_PlanID plan) '''' (ns_payload ns @
       [(''applied_count'', JInt (int (length applied))), (''applied_uids'', JArr (map JStr applied))])) l"

text \<open>\<^verbatim>\<open>RunOnce\<close>: the plan (\<^const>\<open>None\<close> for the empty one), the UIDs applied and the error.\<close>

inductive RunOnce ::
  "'w loop_env \<Rightarrow> string \<Rightarrow> 'w loop \<Rightarrow> attack_plan option \<Rightarrow> string list \<Rightarrow> string option \<Rightarrow> 'w loop \<Rightarrow> bool"
  for x ns l where
  stopped: "plan_cycle x ns l = Some (Inl err, l') \<Longrightarrow> RunOnce x ns l None [] err l'"
| ran: "plan_cycle x ns l = Some (Inr plan, l1) \<Longrightarrow> executePlan x ns plan (announce_plan x ns plan l1) applied l2 \<Longrightarrow>
     RunOnce x ns l (Some plan) applied None (complete_cycle x ns plan applied l2)"

text \<open>The turns of a pass over the namespaces in \<^verbatim>\<open>Run\<close>: the settings are read again before
  each, and an error of a cycle is only logged.\<close>

inductive run_pass :: "'w loop_env \<Rightarrow> string list \<Rightarrow> 'w loop \<Rightarrow> 'w loop \<Rightarrow> bool" for x where
  over: "run_pass x [] l l"
| cancelled: "le_cancelled x (lo_world l) \<Longrightarrow> run_pass x (ns # nss) l l"
| passed_over: "\<not> le_cancelled x (lo_world l) \<Longrightarrow> sync l = (go, l1) \<Longrightarrow> \<not> go \<or> ns \<notin> set (lo_Namespaces l1) \<Longrightarrow>
     run_pass x nss l1 l2 \<Longrightarrow> run_pass x (ns # nss) l l2"
| paused: "\<not> le_cancelled x (lo_world l) \<Longrightarrow> sync l = (True, l1) \<Longrightarrow> ns \<in> set (lo_Namespaces l1) \<Longrightarrow> paused l1 ns \<Longrightarrow>
     run_pass x nss (skipPaused x ns l1) l2 \<Longrightarrow> run_pass x (ns # nss) l l2"
| ran: "\<not> le_cancelled x (lo_world l) \<Longrightarrow> sync l = (True, l1) \<Longrightarrow> ns \<in> set (lo_Namespaces l1) \<Longrightarrow> \<not> paused l1 ns \<Longrightarrow>
     RunOnce x ns l1 plan applied err l2 \<Longrightarrow> run_pass x nss l2 l3 \<Longrightarrow> run_pass x (ns # nss) l l3"

text \<open>How long \<^verbatim>\<open>Run\<close> waits after a pass begun at \<open>started\<close>.\<close>

definition pass_wait :: "'w loop \<Rightarrow> gotime \<Rightarrow> gotime \<Rightarrow> duration" where
  "pass_wait l started now =
     (let wait = lo_Interval l - time_sub now started in if wait \<le> 0 then lo_Interval l else wait)"

section \<open>What every interleaving keeps\<close>

definition running_orders :: "'w exec_state \<Rightarrow> int list" where
  "running_orders s = map (\<lambda>t. ps_Order (fst t)) (xs_running s)"

text \<open>The orders still to be dealt with, one list per place they can be in.\<close>

definition pending_orders :: "'w exec_state \<Rightarrow> int list" where
  "pending_orders s = running_orders s @ xs_layer s @ concat (xs_layers s)"

definition budget_inv :: "loop_budget \<Rightarrow> attack_plan \<Rightarrow> 'w exec_state \<Rightarrow> bool" where
  "budget_inv b plan s \<longleftrightarrow> 0 \<le> xs_scheduled s \<and> xs_scheduled s \<le> max 0 (cycle_cap b plan)
     \<and> int (length (xs_applied s) + length (xs_running s)) \<le> xs_scheduled s
     \<and> int (length (xs_running s)) \<le> conc_cap b"

lemma conc_cap_pos: "1 \<le> conc_cap b"
  by (simp add: conc_cap_def)

lemma task_step_uids:
  "task_step x ns plan step ph l = (ph', uids, l') \<Longrightarrow> length uids + (case ph' of None \<Rightarrow> 0 | Some _ \<Rightarrow> 1) \<le> 1"
  by (cases ph) (auto simp: start_task_def submit_task_def note_task_def finish_task_def Let_def split: prod.splits if_splits sum.splits)

lemma look_at_cases:
  assumes "look_at x b ns plan order rest s = Some t"
  obtains (skipped) l where "t = s\<lparr>xs_layer := rest, xs_loop := l\<rparr>"
  | (spawned) "t = s\<lparr>xs_layer := rest, xs_scheduled := xs_scheduled s + 1,
        xs_running := xs_running s @ [(step_by_order (ap_Steps plan) order, Starting)]\<rparr>"
    "lb_MaxSeverityPerCycle b \<noteq> '''' \<longrightarrow>
       \<not> tierExceeds (m_BlastRadiusTier (ps_Manifest (step_by_order (ap_Steps plan) order))) (lb_MaxSeverityPerCycle b)"
    "xs_scheduled s < cycle_cap b plan" "int (length (xs_running s)) < conc_cap b"
  using assms unfolding look_at_def Let_def by (auto split: if_splits)

lemma budget_step:
  assumes "budget_inv b plan s" "exec_step x b ns plan s t"
  shows "budget_inv b plan t"
  using assms(2)
proof cases
  case (schedule order rest)
  from look_at_cases [OF schedule(2)] show ?thesis
    by cases (use assms(1) in \<open>auto simp: budget_inv_def\<close>)
next
  case (run_task before step ph after ph' uids l)
  then show ?thesis using assms(1) task_step_uids [OF run_task(3)]
    by (cases ph') (auto simp: budget_inv_def)
qed (use assms(1) in \<open>auto simp: budget_inv_def\<close>)

text \<open>The plan's steps, once layered, and where they are during the execution: an order is in
  one place only, a running step respects the severity cap, and nothing that is
  pending is a dependency of a running step.\<close>

definition place_inv :: "loop_budget \<Rightarrow> attack_plan \<Rightarrow> 'w exec_state \<Rightarrow> bool" where
  "place_inv b plan s \<longleftrightarrow> distinct (pending_orders s) \<and> set (pending_orders s) \<subseteq> orders_of (ap_Steps plan)
     \<and> (\<forall>(step, ph) \<in> set (xs_running s). step \<in> set (ap_Steps plan)
          \<and> (lb_MaxSeverityPerCycle b \<noteq> '''' \<longrightarrow>
               \<not> tierExceeds (m_BlastRadiusTier (ps_Manifest step)) (lb_MaxSeverityPerCycle b)))"

lemma step_by_order_in:
  assumes "order \<in> orders_of steps"
  shows "step_by_order steps order \<in> set steps" "ps_Order (step_by_order steps order) = order"
proof -
  have "find (\<lambda>s. ps_Order s = order) (rev steps) \<noteq> None" using assms by (auto simp: find_None_iff)
  then obtain s where s: "find (\<lambda>s. ps_Order s = order) (rev steps) = Some s" by blast
  then obtain i where "i < length (rev steps)" "s = rev steps ! i" "ps_Order s = order" unfolding find_Some_iff by blast
  then have "s \<in> set steps \<and> ps_Order s = order" by (metis nth_mem set_rev)
  with s show "step_by_order steps order \<in> set steps" "ps_Order (step_by_order steps order) = order"
    by (simp_all add: step_by_order_def)
qed

lemma place_step:
  assumes inv: "place_inv b plan s" and "exec_step x b ns plan s t"
  shows "place_inv b plan t"
  using assms(2)
proof cases
  case (schedule order rest)
  have "order \<in> orders_of (ap_Steps plan)" using inv schedule(1) by (auto simp: place_inv_def pending_orders_def)
  note st = step_by_order_in [OF this]
  from schedule(2) show ?thesis
  proof (cases rule: look_at_cases)
    case (skipped l)
    then show ?thesis using inv schedule(1) by (simp add: place_inv_def pending_orders_def running_orders_def)
  next
    case spawned
    then have "mset (pending_orders t) = mset (pending_orders s)"
      using schedule(1) st(2) by (simp add: pending_orders_def running_orders_def)
    then have "distinct (pending_orders t)" "set (pending_orders t) = set (pending_orders s)"
      using inv by (metis place_inv_def mset_eq_imp_distinct_iff, metis mset_eq_setD)
    then show ?thesis using inv st(1) spawned by (simp add: place_inv_def)
  qed
next
  case (run_task before step ph after ph' uids l)
  then show ?thesis using inv
    by (cases ph') (auto simp: place_inv_def pending_orders_def running_orders_def)
qed (use inv in \<open>auto simp: place_inv_def pending_orders_def running_orders_def\<close>)

lemma place_start: "PlanLayers (ap_Steps plan) = Inr layers \<Longrightarrow> place_inv b plan (exec_start layers l)"
  using PlanLayers_cover [of "ap_Steps plan" layers]
  by (auto simp: place_inv_def exec_start_def pending_orders_def running_orders_def)

text \<open>Which layer the execution is in: what is running or about to be is in one layer, and the
  layers left are the later ones.\<close>

definition current :: "int list list \<Rightarrow> nat \<Rightarrow> int set" where
  "current layers k = (if k = 0 then {} else set (layers ! (k - 1)))"

definition layer_inv :: "int list list \<Rightarrow> 'w exec_state \<Rightarrow> bool" where
  "layer_inv layers s \<longleftrightarrow> (\<exists>k \<le> length layers. (xs_layers s = drop k layers \<or> xs_layers s = [])
     \<and> set (running_orders s @ xs_layer s) \<subseteq> current layers k)"

lemma exec_layer_step:
  assumes inv: "layer_inv layers s" and place: "place_inv b plan s" and "exec_step x b ns plan s t"
  shows "layer_inv layers t"
proof -
  obtain k where k: "k \<le> length layers" "xs_layers s = drop k layers \<or> xs_layers s = []"
    "set (running_orders s @ xs_layer s) \<subseteq> current layers k"
    using inv unfolding layer_inv_def by blast
  from assms(3) show ?thesis
  proof cases
    case (next_layer l ls)
    then have "k < length layers" using k(1,2) by (cases "k = length layers") auto
    moreover have "layers ! k = l" "drop (Suc k) layers = ls"
      using next_layer(4) k(2) \<open>k < length layers\<close> by (simp_all add: Cons_nth_drop_Suc [symmetric])
    ultimately show ?thesis using next_layer
      unfolding layer_inv_def by (intro exI [of _ "Suc k"]) (simp add: running_orders_def current_def)
  next
    case stop_layers
    then show ?thesis using k unfolding layer_inv_def by (intro exI [of _ k]) (simp add: running_orders_def)
  next
    case (schedule order rest)
    have "order \<in> orders_of (ap_Steps plan)" using place schedule(1) by (auto simp: place_inv_def pending_orders_def)
    then have "ps_Order (step_by_order (ap_Steps plan) order) = order" by (rule step_by_order_in)
    from schedule(2) show ?thesis
      by (cases rule: look_at_cases)
        (use k schedule(1) \<open>ps_Order _ = order\<close> in \<open>auto simp: layer_inv_def running_orders_def intro!: exI [of _ k]\<close>)
  next
    case (run_task before step ph after ph' uids l)
    then have "set (running_orders t) \<subseteq> set (running_orders s)" by (cases ph') (auto simp: running_orders_def)
    then show ?thesis using k run_task(1) by (auto simp: layer_inv_def intro!: exI [of _ k])
  qed
qed

lemma distinct_concat_disjoint:
  assumes "distinct (concat ls)" "j < i" "i < length ls"
  shows "set (ls ! i) \<inter> set (ls ! j) = {}"
proof -
  have ls: "ls = take i ls @ ls ! i # drop (Suc i) ls" using assms(3) by (rule id_take_nth_drop)
  have "distinct (concat (take i ls @ ls ! i # drop (Suc i) ls))" using assms(1) ls by simp
  then have "set (concat (take i ls)) \<inter> set (ls ! i) = {}" by auto
  moreover have "ls ! j \<in> set (take i ls)" using assms(2,3) by (auto simp: in_set_conv_nth intro!: exI [of _ j])
  ultimately show ?thesis by auto
qed

lemma dependencies_done:
  assumes layers: "PlanLayers (ap_Steps plan) = Inr layers" and inv: "layer_inv layers s" and place: "place_inv b plan s"
    and run: "(step, ph) \<in> set (xs_running s)" and dep: "d \<in> set (ps_DependsOn step)"
  shows "d \<notin> set (pending_orders s)"
proof -
  obtain k where k: "k \<le> length layers" "xs_layers s = drop k layers \<or> xs_layers s = []"
    "set (running_orders s @ xs_layer s) \<subseteq> current layers k"
    using inv unfolding layer_inv_def by blast
  have "ps_Order step \<in> set (running_orders s)" using run by (force simp: running_orders_def)
  then have "k > 0" and o: "ps_Order step \<in> set (layers ! (k - 1))" using k(3) by (auto simp: current_def split: if_splits)
  have k1: "k - 1 < length layers" using k(1) \<open>k > 0\<close> by simp
  have "step \<in> set (ap_Steps plan)" using place run by (auto simp: place_inv_def)
  then obtain j where j: "j < k - 1" "d \<in> set (layers ! j)"
    using PlanLayers_depth(1) [OF layers _ k1 o] dep by blast
  have disj: "set (layers ! i) \<inter> set (layers ! j) = {}" if "i < length layers" "j < i" for i
    using distinct_concat_disjoint [OF PlanLayers_cover(2) [OF layers]] that by blast
  have "d \<notin> set (layers ! i)" if "k - 1 \<le> i" "i < length layers" for i
    using disj [of i] j that by auto
  moreover have "set (pending_orders s) \<subseteq> set (layers ! (k - 1)) \<union> (\<Union>l \<in> set (drop k layers). set l)"
    using k(2,3) \<open>k > 0\<close> by (auto simp: pending_orders_def current_def)
  moreover have "\<exists>i < length layers. k \<le> i \<and> l = layers ! i" if l: "l \<in> set (drop k layers)" for l
  proof -
    obtain i where "i < length layers - k" "l = layers ! (k + i)" using l k(1) by (auto simp: in_set_conv_nth)
    then show ?thesis by (intro exI [of _ "k + i"]) simp
  qed
  ultimately show ?thesis using k1 by fastforce
qed

section \<open>Every execution ends\<close>

fun phase_weight :: "task_phase \<Rightarrow> nat" where
  "phase_weight Starting = 4"
| "phase_weight (Submitting m key) = 3"
| "phase_weight (Returned key r) = 2"
| "phase_weight (Noted r) = 1"

definition work_left :: "'w exec_state \<Rightarrow> nat" where
  "work_left s = (\<Sum>l \<leftarrow> xs_layers s. 1 + 5 * length l) + 5 * length (xs_layer s)
     + (\<Sum>t \<leftarrow> xs_running s. phase_weight (snd t))"

lemma task_step_weight:
  "task_step x ns plan step ph l = (ph', uids, l') \<Longrightarrow> (case ph' of None \<Rightarrow> 0 | Some p \<Rightarrow> phase_weight p) < phase_weight ph"
  by (cases ph) (auto simp: start_task_def submit_task_def note_task_def finish_task_def Let_def split: prod.splits if_splits sum.splits)

lemma work_decreases: "exec_step x b ns plan s t \<Longrightarrow> work_left t < work_left s"
proof (induction rule: exec_step.induct)
  case (stop_layers s)
  then show ?case by (cases "xs_layers s") (simp_all add: work_left_def)
next
  case (schedule s order rest t)
  from schedule(2) show ?case
    by (cases rule: look_at_cases) (use schedule(1) in \<open>simp_all add: work_left_def\<close>)
next
  case (run_task s before step ph after ph' uids l)
  then show ?case using task_step_weight [OF run_task(2)]
    by (cases ph') (simp_all add: work_left_def)
qed (simp add: work_left_def)

lemma exec_progress:
  assumes "budget_inv b plan s" "\<not> exec_done s"
  shows "\<exists>t. exec_step x b ns plan s t"
proof (cases "xs_running s")
  case Nil
  show ?thesis
  proof (cases "xs_layer s")
    case empty: Nil
    then obtain l ls where "xs_layers s = l # ls" using assms(2) Nil by (auto simp: exec_done_def neq_Nil_conv)
    then show ?thesis using exec_step.next_layer exec_step.stop_layers Nil empty
      by (metis linorder_not_less list.distinct(1))
  next
    case (Cons order rest)
    have "int (length (xs_running s)) < conc_cap b" using Nil conc_cap_pos [of b] by simp
    then have "\<exists>t. look_at x b ns plan order rest s = Some t" by (simp add: look_at_def Let_def)
    then show ?thesis using exec_step.schedule [OF Cons] by blast
  qed
next
  case (Cons t ts)
  obtain step ph where t: "t = (step, ph)" by force
  obtain ph' uids l where ts: "task_step x ns plan step ph (xs_loop s) = (ph', uids, l)" by (metis prod_cases3)
  have "xs_running s = [] @ (step, ph) # ts" by (simp add: Cons t)
  from exec_step.run_task [OF this ts] show ?thesis by blast
qed

section \<open>Reachable states of an execution\<close>

definition exec_init :: "attack_plan \<Rightarrow> 'w exec_state \<Rightarrow> bool" where
  "exec_init plan s \<longleftrightarrow> (\<exists>layers l. PlanLayers (ap_Steps plan) = Inr layers \<and> s = exec_start layers l)"

definition exec_inv :: "loop_budget \<Rightarrow> attack_plan \<Rightarrow> 'w exec_state \<Rightarrow> bool" where
  "exec_inv b plan s \<longleftrightarrow> budget_inv b plan s \<and> place_inv b plan s
     \<and> (\<exists>layers. PlanLayers (ap_Steps plan) = Inr layers \<and> layer_inv layers s)"

interpretation px: invariant_system "exec_init plan" "exec_step x b ns plan" "exec_inv b plan" for x b ns plan
proof unfold_locales
  show "exec_inv b plan s" if init: "exec_init plan s" for s :: "'a exec_state"
  proof -
    obtain layers l where l: "PlanLayers (ap_Steps plan) = Inr layers" "s = exec_start layers l"
      using init by (auto simp: exec_init_def)
    have "budget_inv b plan s" using conc_cap_pos [of b] by (simp add: l(2) budget_inv_def exec_start_def)
    moreover have "layer_inv layers s" by (auto simp: l(2) layer_inv_def exec_start_def running_orders_def)
    ultimately show ?thesis using l place_start [OF l(1)] by (auto simp: exec_inv_def)
  qed
  show "exec_inv b plan t" if "exec_inv b plan s" "exec_step x b ns plan s t" for s t :: "'a exec_state"
    using that budget_step place_step exec_layer_step unfolding exec_inv_def by metis
qed

text \<open>
  C8.  Whatever the interleaving of a layer's goroutines, the execution of a plan
  stays within its limits: at most the cycle's number of steps is scheduled and
  so applied, and at most the concurrency limit run at once; every step under
  way is a step of the plan within the severity cap; no step is pending twice;
  and while a step is under way no step it depends on is pending.
\<close>

theorem executePlan_within_limits:
  assumes "PlanLayers (ap_Steps plan) = Inr layers" and "(exec_step x b ns plan)\<^sup>*\<^sup>* (exec_start layers l) s"
  shows "int (length (xs_applied s) + length (xs_running s)) \<le> max 0 (cycle_cap b plan)
    \<and> int (length (xs_running s)) \<le> conc_cap b
    \<and> distinct (pending_orders s)
    \<and> (\<forall>(step, ph) \<in> set (xs_running s).
         step \<in> set (ap_Steps plan)
         \<and> (lb_MaxSeverityPerCycle b \<noteq> '''' \<longrightarrow>
              \<not> tierExceeds (m_BlastRadiusTier (ps_Manifest step)) (lb_MaxSeverityPerCycle b))
         \<and> set (ps_DependsOn step) \<inter> set (pending_orders s) = {})"
proof -
  have "exec_inv b plan s"
    by (rule px.reachable_inv [OF _ assms(2)]) (use assms(1) in \<open>auto simp: exec_init_def\<close>)
  then have inv: "budget_inv b plan s" "place_inv b plan s" "layer_inv layers s"
    using assms(1) by (auto simp: exec_inv_def)
  have "set (ps_DependsOn step) \<inter> set (pending_orders s) = {}" if "(step, ph) \<in> set (xs_running s)" for step ph
    using dependencies_done [OF assms(1) inv(3,2) that] by blast
  then show ?thesis using inv(1,2) unfolding budget_inv_def place_inv_def by (auto dest: order_trans)
qed

lemma exec_step_wf: "wfp (\<lambda>t s. exec_step x b ns plan s t)"
  by (rule wfp_if_convertible_to_nat [of _ work_left]) (rule work_decreases)

lemma exec_finishes:
  "exec_inv b plan s \<Longrightarrow> \<exists>t. (exec_step x b ns plan)\<^sup>*\<^sup>* s t \<and> exec_done t"
proof (induction s rule: wfp_induct_rule [OF exec_step_wf [of x b ns plan]])
  case (1 s)
  show ?case
  proof (cases "exec_done s")
    case False
    have "budget_inv b plan s" using "1.prems" by (simp add: exec_inv_def)
    from exec_progress [OF this False] obtain t where t: "exec_step x b ns plan s t" by blast
    then show ?thesis using "1.IH" [OF t] px.step_inv [OF "1.prems" t] by (meson converse_rtranclp_into_rtranclp)
  qed blast
qed

lemma executePlan_total: "\<exists>applied l'. executePlan x ns plan l applied l'"
proof (cases "PlanLayers (ap_Steps plan)")
  case (Inl err)
  then show ?thesis using executePlan.layering_failed by blast
next
  case (Inr layers)
  have "exec_inv (lo_Budget l) plan (exec_start layers l)"
    by (rule px.init_inv) (use Inr in \<open>auto simp: exec_init_def\<close>)
  from exec_finishes [OF this] show ?thesis using executePlan.executed [OF Inr] by blast
qed


text \<open>A sample environment over a counter that serves as the clock: the executor accepts every
  fault, and one fault is active until the counter reaches ten seconds.\<close>

definition sample_fault :: active_fault where
  "sample_fault = \<lparr>af_FaultUID = ''f1'', af_EngineUID = '''', af_Manifest = empty_manifest, af_AppliedAt = 0,
     af_Deadline = 10 * sec, af_Holder = '''', af_LastBeat = 0\<rparr>"

definition sample_loop_env :: "int loop_env" where
  "sample_loop_env =
     \<lparr>le_Apply = (\<lambda>m w. (Inr ''uid'', w)),
      le_ListActive = (\<lambda>w. (Inr (if w < 10 * sec then [sample_fault] else []), w)),
      le_hasExecutor = True, le_hasAuditor = True, le_now = (\<lambda>w. (w, w)), le_after = (\<lambda>d w. (False, w + d)),
      le_cancelled = (\<lambda>w. False), le_Health = None, le_Catalog = (\<lambda>w. (None, w)),
      le_Generate = (\<lambda>ns b h w. (Inl (GenFailed ''offline''), w))\<rparr>"

definition sample_budget :: loop_budget where
  "sample_budget = \<lparr>lb_MaxFaultsPerCycle = 2, lb_MaxConcurrentFaults = 1, lb_MinCooldown = 0,
     lb_MaxSeverityPerCycle = '''', lb_MaxFaultDuration = 0\<rparr>"

definition sample_loop :: "int loop" where
  "sample_loop = \<lparr>lo_Namespaces = [''shop''], lo_Interval = 60 * sec, lo_Budget = sample_budget, lo_Hypothesis = '''',
     lo_Control = None, lo_pausedNS = [], lo_refusals = [], lo_slotPoll = 0, lo_audit = [], lo_world = 1\<rparr>"

definition sample_attack :: attack_plan where
  "sample_attack = \<lparr>ap_PlanID = ''p1'', ap_Hypothesis = ''h'', ap_Steps = sample_plan,
     ap_Budget = \<lparr>pb_MaxConcurrentFaults = 0, pb_MinCooldown = 0, pb_MaxSeverityTier = ''''\<rparr>\<rparr>"

lemma sample_exec_runs:
  "\<exists>s. (exec_step sample_loop_env sample_budget ''shop'' sample_attack)\<^sup>*\<^sup>* (exec_start [[1], [2, 3], [4]] sample_loop) s
     \<and> map (\<lambda>t. ps_Order (fst t)) (xs_running s) = [1]"
proof -
  let ?x = sample_loop_env and ?b = sample_budget and ?p = sample_attack
  let ?s0 = "exec_start [[1], [2, 3], [4]] sample_loop"
  let ?s1 = "?s0\<lparr>xs_layer := [1], xs_layers := [[2, 3], [4]]\<rparr>"
  let ?s2 = "?s1\<lparr>xs_layer := [], xs_scheduled := 1, xs_running := [(sample_step 1 [], Starting)]\<rparr>"
  have "exec_step ?x ?b ''shop'' ?p ?s0 ?s1"
    by (rule exec_step.next_layer) (simp_all add: exec_start_def cycle_cap_def sample_budget_def)
  moreover have "exec_step ?x ?b ''shop'' ?p ?s1 ?s2"
    by (rule exec_step.schedule [of _ 1 "[]"])
      (simp_all add: exec_start_def cycle_cap_def conc_cap_def sample_budget_def look_at_def sample_attack_def
         sample_plan_def sample_step_def step_by_order_def)
  ultimately have "(exec_step ?x ?b ''shop'' ?p)\<^sup>*\<^sup>* ?s0 ?s2" by (rule converse_rtranclp_into_rtranclp [OF _ r_into_rtranclp])
  then show ?thesis by (intro exI [of _ ?s2]) (simp add: sample_step_def)
qed

theorem executePlan_within_limits_witness:
  "\<exists>s. (exec_step sample_loop_env sample_budget ''shop'' sample_attack)\<^sup>*\<^sup>* (exec_start [[1], [2, 3], [4]] sample_loop) s
     \<and> map (\<lambda>t. ps_Order (fst t)) (xs_running s) = [1] \<and> length (xs_applied s) \<le> 1 \<and> distinct (pending_orders s)"
proof -
  obtain s where s: "(exec_step sample_loop_env sample_budget ''shop'' sample_attack)\<^sup>*\<^sup>* (exec_start [[1], [2, 3], [4]] sample_loop) s"
    "map (\<lambda>t. ps_Order (fst t)) (xs_running s) = [1]" using sample_exec_runs by (elim exE conjE)
  have "length (xs_running s) = 1" using arg_cong [OF s(2), of length] by simp
  then show ?thesis
    using executePlan_within_limits [OF _ s(1)] s sample_plan_layers
    by (intro exI [of _ s]) (simp add: sample_attack_def cycle_cap_def sample_budget_def)
qed

section \<open>The wait for a slot ends\<close>

text \<open>What the wait needs of the clock: it does not run backwards, reading it and listing the
  faults included, and a timer fires no earlier than asked.\<close>

definition clock_advances :: "'w loop_env \<Rightarrow> ('w \<Rightarrow> gotime) \<Rightarrow> bool" where
  "clock_advances x clock \<longleftrightarrow>
     (\<forall>w. fst (le_now x w) = clock w \<and> clock w \<le> clock (snd (le_now x w)) \<and> clock w \<le> clock (snd (le_ListActive x w)))
   \<and> (\<forall>d w. clock w + d \<le> clock (snd (le_after x d w)))"

lemma slot_verdict_some: "\<exists>t w'. slot_verdict x start ok active w = Some ((ok, active, t), w')"
  by (simp add: slot_verdict_def split: prod.split)

lemma slot_loop_returns:
  assumes "clock_advances x clock" "0 < poll"
  shows "\<exists>ok active waited w'. slot_loop x limit poll start until w = Some ((ok, active, waited), w')
           \<and> (\<not> ok \<longrightarrow> limit \<le> active)"
proof (induction "nat (until - clock w)" arbitrary: w rule: less_induct)
  case less
  obtain r w1 where r: "le_ListActive x w = (r, w1)" by force
  obtain now w2 where w2: "le_now x w1 = (now, w2)" by force
  obtain c w3 where w3: "le_after x poll w2 = (c, w3)" by force
  have clock: "clock w \<le> clock w1" "now = clock w1" "clock w1 \<le> clock w2" "clock w2 + poll \<le> clock w3"
    using assms(1) r w2 w3 unfolding clock_advances_def by (metis fst_conv snd_conv)+
  have verdict: "\<exists>ok active waited w'. slot_verdict x start b n v = Some ((ok, active, waited), w') \<and> (\<not> ok \<longrightarrow> limit \<le> active)"
    if "b \<or> limit \<le> n" for b n v
    using slot_verdict_some [of x start b n v] that by blast
  show ?case
  proof (cases "\<exists>fs. r = Inr fs \<and> limit \<le> int (length fs) \<and> frees_in_time until fs \<and> now + poll < until \<and> \<not> c")
    case True
    then have "slot_loop x limit poll start until w = slot_loop x limit poll start until w3"
      using r w2 w3 by (auto simp: slot_loop.simps [of x limit poll start until w])
    moreover have "nat (until - clock w3) < nat (until - clock w)" using True clock assms(2) by auto
    ultimately show ?thesis using less [of w3] by simp
  next
    case False
    then show ?thesis using r w2 w3 verdict
      by (cases r) (auto simp: slot_loop.simps [of x limit poll start until w])
  qed
qed

text \<open>
  The wait for a slot always ends, on any clock that moves, and it turns a
  cycle away only when the faults it saw active fill the budget.
\<close>

theorem waitForSlot_returns:
  assumes "clock_advances x clock"
  shows "\<exists>ok active waited w'. waitForSlot x l = Some ((ok, active, waited), w')
     \<and> (\<not> ok \<longrightarrow> 0 < lb_MaxConcurrentFaults (lo_Budget l) \<and> lb_MaxConcurrentFaults (lo_Budget l) \<le> active)"
proof -
  define poll where "poll = (if lo_slotPoll l \<le> 0 then defaultSlotPoll else lo_slotPoll l)"
  have "0 < poll" by (simp add: poll_def defaultSlotPoll_def sec_def)
  then show ?thesis
    using slot_loop_returns [OF assms, of poll] by (simp add: waitForSlot_def Let_def flip: poll_def split: prod.split) blast
qed

theorem waitForSlot_returns_witness:
  "clock_advances sample_loop_env id \<and> (\<exists>r. waitForSlot sample_loop_env sample_loop = Some r)"
proof -
  have c: "clock_advances sample_loop_env id" by (simp add: clock_advances_def sample_loop_env_def)
  then show ?thesis using waitForSlot_returns [OF c, of sample_loop] by blast
qed

end
