(* ===== verification/Audit_Cycles.thy ===== *)
theory Audit_Cycles
  imports Audit_Trail
begin

text \<open>
  Reading the cycles of autonomous mode back from the audit trail:
  \<^verbatim>\<open>src/pkg/audit/cycles.go\<close>.  The code folds the records into rows with a map from
  a namespace to the row of its cycle in progress; a pointer to a row is its
  position in the list of rows.

  Shown here: the fold refines the per-namespace reading in which only the last
  row of a namespace can be open, and the in-memory log lists the newest cycles.
\<close>

section \<open>Rows\<close>

definition CycleCompleted :: string where [const_defs]: "CycleCompleted = ''completed''"
definition CycleSkipped :: string where [const_defs]: "CycleSkipped = ''skipped''"
definition CycleUnfinished :: string where [const_defs]: "CycleUnfinished = ''unfinished''"
definition CycleOpen :: string where [const_defs]: "CycleOpen = ''open''"

record cycle_step =
  cs_Order :: int
  cs_Kind :: string
  cs_Target :: string
  cs_Duration :: string
  cs_Rationale :: string
  cs_DurationRationale :: string

record step_refusal =
  sr_Order :: int
  sr_Reason :: string
  sr_Error :: string

record cycle_row =
  cy_Namespace :: string
  cy_StartedAt :: gotime
  cy_EndedAt :: gotime
  cy_Outcome :: string
  cy_Reason :: string
  cy_Detail :: string
  cy_PlanID :: string
  cy_Hypothesis :: string
  cy_Steps :: "cycle_step list"
  cy_Applied :: "string list"
  cy_Refused :: "step_refusal list"

definition cycleEvents :: "string list" where
  "cycleEvents = [EventCycleStarted, EventCycleSkipped, EventCycleCompleted, EventHealthGateFailed,
     EventLLMUnavailable, EventStepSkipped, EventPlanGenerated]"

definition IsCycleEvent :: "string \<Rightarrow> bool" where
  "IsCycleEvent event \<longleftrightarrow> event \<in> set cycleEvents"

text \<open>\<^verbatim>\<open>if o, ok := m["order"].(float64); ok { s.Order = int(o) }\<close>.\<close>

definition order_in :: "jobj \<Rightarrow> int" where
  "order_in m = (case map_of m ''order'' of Some (JNum r) \<Rightarrow> to_signed 64 r | _ \<Rightarrow> 0)"

definition first_target_name :: "jobj \<Rightarrow> string" where
  "first_target_name f =
     (case as_arr (map_of f ''targets'') of
        Some (t # _) \<Rightarrow> (case t of JObj m \<Rightarrow> str_or_empty (map_of m ''name'') | _ \<Rightarrow> '''')
      | _ \<Rightarrow> '''')"

definition cycle_step_of :: "jobj \<Rightarrow> cycle_step" where
  "cycle_step_of m =
     (let f = as_obj (map_of m ''fault'');
          get = (\<lambda>k. case f of Some o' \<Rightarrow> str_or_empty (map_of o' k) | None \<Rightarrow> '''')
      in \<lparr>cs_Order = order_in m, cs_Kind = get ''kind'',
          cs_Target = (case f of Some o' \<Rightarrow> first_target_name o' | None \<Rightarrow> ''''),
          cs_Duration = get ''duration'', cs_Rationale = str_or_empty (map_of m ''rationale''),
          cs_DurationRationale = str_or_empty (map_of m ''duration_rationale'')\<rparr>)"

definition cycleSteps :: "json option \<Rightarrow> cycle_step list" where
  "cycleSteps raw =
     (case as_arr raw of
        None \<Rightarrow> []
      | Some xs \<Rightarrow> List.map_filter (\<lambda>item. map_option cycle_step_of (as_obj (Some item))) xs)"

definition new_cycle :: "string \<Rightarrow> gotime \<Rightarrow> cycle_row" where
  "new_cycle ns ts =
     \<lparr>cy_Namespace = ns, cy_StartedAt = ts, cy_EndedAt = 0, cy_Outcome = CycleOpen, cy_Reason = '''', cy_Detail = '''',
      cy_PlanID = '''', cy_Hypothesis = '''', cy_Steps = [], cy_Applied = [], cy_Refused = []\<rparr>"

definition close_as :: "string \<Rightarrow> gotime \<Rightarrow> cycle_row \<Rightarrow> cycle_row" where
  "close_as outcome ts c = c\<lparr>cy_Outcome := outcome, cy_EndedAt := ts\<rparr>"

text \<open>What a record other than \<^verbatim>\<open>cycle.started\<close> does to the row of the cycle in progress;
  the skip and the completion close it too.\<close>

definition note_record :: "audit_record \<Rightarrow> cycle_row \<Rightarrow> cycle_row" where
  "note_record r c =
     (if ar_Event r = EventHealthGateFailed \<or> ar_Event r = EventLLMUnavailable then c\<lparr>cy_Detail := ar_Reason r\<rparr>
      else if ar_Event r = EventPlanGenerated then
        c\<lparr>cy_PlanID := ar_PlanID r, cy_Hypothesis := str_or_empty (map_of (ar_Payload r) ''hypothesis''),
          cy_Steps := cycleSteps (map_of (ar_Payload r) ''steps'')\<rparr>
      else if ar_Event r = EventStepSkipped then
        c\<lparr>cy_Refused := cy_Refused c @ [\<lparr>sr_Order = order_in (ar_Payload r), sr_Reason = ar_Reason r,
            sr_Error = str_or_empty (map_of (ar_Payload r) ''error'')\<rparr>]\<rparr>
      else if ar_Event r = EventCycleSkipped then
        close_as CycleSkipped (ar_TS r) (c\<lparr>cy_Reason := ar_Reason r,
          cy_Detail := (case as_str (map_of (ar_Payload r) ''error'') of
                          Some e \<Rightarrow> if cy_Detail c = '''' then e else cy_Detail c
                        | None \<Rightarrow> cy_Detail c)\<rparr>)
      else if ar_Event r = EventCycleCompleted then
        close_as CycleCompleted (ar_TS r) (c\<lparr>
          cy_PlanID := (if cy_PlanID c = '''' then ar_PlanID r else cy_PlanID c),
          cy_Applied := cy_Applied c @ (case as_arr (map_of (ar_Payload r) ''applied_uids'') of
                                          Some us \<Rightarrow> strings_in us | None \<Rightarrow> [])\<rparr>)
      else c)"


section \<open>The fold\<close>

type_synonym cycles_state = "cycle_row list \<times> nat gomap"

text \<open>\<^verbatim>\<open>get\<close>: the row in progress, or a new one when the records began mid-cycle.\<close>

definition open_cycle :: "string \<Rightarrow> gotime \<Rightarrow> cycles_state \<Rightarrow> cycles_state" where
  "open_cycle ns ts st =
     (case st of (rows, opn) \<Rightarrow> (rows @ [new_cycle ns ts], AList.update ns (length rows) opn))"

definition get_cycle :: "string \<Rightarrow> gotime \<Rightarrow> cycles_state \<Rightarrow> nat \<times> cycles_state" where
  "get_cycle ns ts st =
     (case map_of (snd st) ns of
        Some i \<Rightarrow> (i, st)
      | None \<Rightarrow> (length (fst st), open_cycle ns ts st))"

definition closing_event :: "string \<Rightarrow> bool" where
  "closing_event ev \<longleftrightarrow> ev = EventCycleSkipped \<or> ev = EventCycleCompleted"

definition cycle_ns :: "audit_record \<Rightarrow> string" where
  "cycle_ns r = str_or_empty (map_of (ar_Payload r) ''namespace'')"

definition cycle_record :: "audit_record \<Rightarrow> cycles_state \<Rightarrow> cycles_state" where
  "cycle_record r st =
     (if \<not> IsCycleEvent (ar_Event r) \<or> cycle_ns r = '''' then st
      else if ar_Event r = EventCycleStarted then
        open_cycle (cycle_ns r) (ar_TS r)
          (case map_of (snd st) (cycle_ns r) of
             Some i \<Rightarrow> ((fst st)[i := close_as CycleUnfinished (ar_TS r) (fst st ! i)], AList.delete (cycle_ns r) (snd st))
           | None \<Rightarrow> st)
      else case get_cycle (cycle_ns r) (ar_TS r) st of
             (i, (rows, opn)) \<Rightarrow>
               (rows[i := note_record r (rows ! i)],
                if closing_event (ar_Event r) then AList.delete (cycle_ns r) opn else opn))"

definition Cycles :: "audit_record list \<Rightarrow> cycle_row list" where
  "Cycles records = fst (fold cycle_record records ([], []))"


section \<open>The log\<close>

definition NewCycleLog :: "int \<Rightarrow> fault_log" where
  "NewCycleLog limit = \<lparr>fl_records = [], fl_max = (if limit \<le> 0 then 5000 else limit)\<rparr>"

definition CycleLog_Add :: "audit_record \<Rightarrow> fault_log \<Rightarrow> fault_log" where
  "CycleLog_Add r l =
     (if \<not> IsCycleEvent (ar_Event r) then l else l\<lparr>fl_records := log_append (fl_max l) r (fl_records l)\<rparr>)"

definition CycleLog_Emit :: "gotime \<Rightarrow> audit_event \<Rightarrow> fault_log \<Rightarrow> fault_log" where
  "CycleLog_Emit now e l = (if \<not> IsCycleEvent (ae_Event e) then l else CycleLog_Add (record_of now e) l)"

definition CycleLog_Recent :: "string \<Rightarrow> int \<Rightarrow> fault_log \<Rightarrow> cycle_row list" where
  "CycleLog_Recent ns limit l =
     collect_newest (\<lambda>c. ns = '''' \<or> cy_Namespace c = ns) limit 0
       (rev (Cycles (sort_key ar_TS (fl_records l))))"

section \<open>The reading of one namespace\<close>

text \<open>Only the last row of a namespace can be open, so the rows alone tell where a record
  goes.\<close>

definition is_open :: "cycle_row list \<Rightarrow> bool" where
  "is_open cs \<longleftrightarrow> cs \<noteq> [] \<and> cy_Outcome (last cs) = CycleOpen"

definition ns_step :: "audit_record \<Rightarrow> cycle_row list \<Rightarrow> cycle_row list" where
  "ns_step r cs =
     (let new = new_cycle (cycle_ns r) (ar_TS r)
      in if ar_Event r = EventCycleStarted
         then (if is_open cs then butlast cs @ [close_as CycleUnfinished (ar_TS r) (last cs)] else cs) @ [new]
         else if is_open cs then butlast cs @ [note_record r (last cs)]
         else cs @ [note_record r new])"

definition ns_rows :: "string \<Rightarrow> cycle_row list \<Rightarrow> cycle_row list" where
  "ns_rows ns rows = filter (\<lambda>c. cy_Namespace c = ns) rows"

text \<open>The map of cycles in progress says which rows are open.\<close>

definition cycles_inv :: "cycles_state \<Rightarrow> bool" where
  "cycles_inv st \<longleftrightarrow> (\<forall>ns.
     case map_of (snd st) ns of
       None \<Rightarrow> \<not> is_open (ns_rows ns (fst st))
     | Some i \<Rightarrow> (\<exists>xs c ys. fst st = xs @ c # ys \<and> length xs = i \<and> cy_Namespace c = ns
                   \<and> cy_Outcome c = CycleOpen \<and> ns_rows ns ys = []))"

lemma ns_rows_simps [simp]:
  "ns_rows ns [] = []" "ns_rows ns (c # cs) = (if cy_Namespace c = ns then c # ns_rows ns cs else ns_rows ns cs)"
  "ns_rows ns (xs @ ys) = ns_rows ns xs @ ns_rows ns ys"
  by (simp_all add: ns_rows_def)

lemma row_ns [simp]:
  "cy_Namespace (new_cycle ns ts) = ns" "cy_Outcome (new_cycle ns ts) = CycleOpen"
  "cy_Namespace (close_as out ts c) = cy_Namespace c" "cy_Outcome (close_as out ts c) = out"
  by (simp_all add: new_cycle_def close_as_def)

lemma note_record_ns [simp]: "cy_Namespace (note_record r c) = cy_Namespace c"
  by (simp add: note_record_def close_as_def)

lemma outcomes_distinct [simp]:
  "CycleSkipped \<noteq> CycleOpen" "CycleCompleted \<noteq> CycleOpen" "CycleUnfinished \<noteq> CycleOpen"
  by (simp_all add: const_defs)

lemma note_record_Outcome:
  "cy_Outcome c = CycleOpen \<Longrightarrow> cy_Outcome (note_record r c) = CycleOpen \<longleftrightarrow> \<not> closing_event (ar_Event r)"
  by (simp add: note_record_def closing_event_def) (simp add: const_defs)

text \<open>The two readings of one record, on the rows of a namespace.\<close>

lemma cycles_inv_Some:
  assumes "cycles_inv st" "map_of (snd st) ns = Some i"
  obtains xs c ys where "fst st = xs @ c # ys" "length xs = i" "cy_Namespace c = ns" "cy_Outcome c = CycleOpen"
    "ns_rows ns ys = []" "is_open (ns_rows ns (fst st))" "last (ns_rows ns (fst st)) = c"
    "butlast (ns_rows ns (fst st)) = ns_rows ns xs"
proof -
  from assms obtain xs c ys where "fst st = xs @ c # ys" "length xs = i" "cy_Namespace c = ns" "cy_Outcome c = CycleOpen"
    "ns_rows ns ys = []"
    unfolding cycles_inv_def by (force split: option.splits dest!: spec [of _ ns])
  then show thesis using that [of xs c ys] by (simp add: is_open_def)
qed

lemma cycles_inv_None: "cycles_inv st \<Longrightarrow> map_of (snd st) ns = None \<Longrightarrow> \<not> is_open (ns_rows ns (fst st))"
  unfolding cycles_inv_def by (force dest!: spec [of _ ns])

lemma ns_rows_update:
  "i < length rows \<Longrightarrow> cy_Namespace (rows ! i) \<noteq> ns \<Longrightarrow> cy_Namespace c \<noteq> ns \<Longrightarrow> ns_rows ns (rows[i := c]) = ns_rows ns rows"
  by (induction rows arbitrary: i) (auto split: nat.split)

lemma inv_open_cycle:
  assumes inv: "cycles_inv st" and none: "map_of (snd st) ns = None"
  shows "cycles_inv (open_cycle ns ts st)"
  unfolding cycles_inv_def
proof
  fix ns'
  obtain rows opn where st: "st = (rows, opn)" by force
  have st': "open_cycle ns ts st = (rows @ [new_cycle ns ts], AList.update ns (length rows) opn)"
    by (simp add: open_cycle_def st)
  show "case map_of (snd (open_cycle ns ts st)) ns' of
       None \<Rightarrow> \<not> is_open (ns_rows ns' (fst (open_cycle ns ts st)))
     | Some i \<Rightarrow> (\<exists>xs c ys. fst (open_cycle ns ts st) = xs @ c # ys \<and> length xs = i \<and> cy_Namespace c = ns'
                   \<and> cy_Outcome c = CycleOpen \<and> ns_rows ns' ys = [])"
  proof (cases "ns' = ns")
    case True
    have "rows @ [new_cycle ns ts] = rows @ new_cycle ns ts # []" by simp
    then show ?thesis using True unfolding st' by (force simp: update_conv')
  next
    case False
    show ?thesis
    proof (cases "map_of opn ns'")
      case None
      then show ?thesis unfolding st' using cycles_inv_None [OF inv, of ns'] False by (simp add: st update_conv')
    next
      case (Some i)
      then obtain xs c ys where "rows = xs @ c # ys" "length xs = i" "cy_Namespace c = ns'" "cy_Outcome c = CycleOpen"
        "ns_rows ns' ys = []" using cycles_inv_Some [OF inv, of ns' i] by (metis fst_conv snd_conv st)
      moreover from this have "rows @ [new_cycle ns ts] = xs @ c # (ys @ [new_cycle ns ts])"
        "ns_rows ns' (ys @ [new_cycle ns ts]) = []" using False by simp_all
      ultimately have "\<exists>xs c ys. rows @ [new_cycle ns ts] = xs @ c # ys \<and> length xs = i \<and> cy_Namespace c = ns'
          \<and> cy_Outcome c = CycleOpen \<and> ns_rows ns' ys = []" by metis
      then show ?thesis unfolding st' using Some False by (simp add: update_conv')
    qed
  qed
qed

lemma inv_update:
  assumes inv: "cycles_inv st" and some: "map_of (snd st) ns = Some i" and c': "cy_Namespace c' = ns"
    and open': "cy_Outcome c' = CycleOpen \<longleftrightarrow> \<not> shut"
  shows "cycles_inv ((fst st)[i := c'], if shut then AList.delete ns (snd st) else snd st)" (is "cycles_inv ?st'")
    and "ns_rows ns ((fst st)[i := c']) = butlast (ns_rows ns (fst st)) @ [c']"
    and "ns' \<noteq> ns \<Longrightarrow> ns_rows ns' ((fst st)[i := c']) = ns_rows ns' (fst st)"
proof -
  obtain xs c ys where st: "fst st = xs @ c # ys" "length xs = i" "cy_Namespace c = ns" "ns_rows ns ys = []"
    "butlast (ns_rows ns (fst st)) = ns_rows ns xs"
    using cycles_inv_Some [OF inv some] by metis
  have upd: "(fst st)[i := c'] = xs @ c' # ys" using st(1) by (simp add: st(2) [symmetric])
  show rows: "ns_rows ns ((fst st)[i := c']) = butlast (ns_rows ns (fst st)) @ [c']"
    unfolding upd st(5) using c' st(4) by simp
  show other: "ns_rows ns' ((fst st)[i := c']) = ns_rows ns' (fst st)" if "ns' \<noteq> ns" for ns'
    unfolding upd using c' st(3) that by (simp add: st(1))
  show "cycles_inv ?st'"
    unfolding cycles_inv_def
  proof
    fix ns'
    show "case map_of (snd ?st') ns' of
       None \<Rightarrow> \<not> is_open (ns_rows ns' (fst ?st'))
     | Some i \<Rightarrow> (\<exists>xs c ys. fst ?st' = xs @ c # ys \<and> length xs = i \<and> cy_Namespace c = ns'
                   \<and> cy_Outcome c = CycleOpen \<and> ns_rows ns' ys = [])"
    proof (cases "ns' = ns")
      case True
      then show ?thesis using rows open' c' st(2,4) some upd
        by (cases shut) (auto simp: delete_conv' is_open_def)
    next
      case False
      show ?thesis
      proof (cases "map_of (snd st) ns'")
        case None
        then show ?thesis using cycles_inv_None [OF inv, of ns'] False other by (simp add: delete_conv')
      next
        case (Some j)
        then obtain xs2 c2 ys2 where j: "fst st = xs2 @ c2 # ys2" "length xs2 = j" "cy_Namespace c2 = ns'" "cy_Outcome c2 = CycleOpen"
          "ns_rows ns' ys2 = []" using cycles_inv_Some [OF inv, of ns' j] by metis
        have "i \<noteq> j" using j(1-3) st(1-3) False by (metis nth_append_length)
        moreover have "\<exists>ys3. (fst st)[i := c'] = xs2[i := c'] @ c2 # ys3 \<and> ns_rows ns' ys3 = []"
        proof (cases "i < j")
          case True
          then show ?thesis using j(1,2,5) by (auto simp: list_update_append1)
        next
          case ge: False
          define k where "k = i - j - 1"
          have "i < length (fst st)" using st(1,2) by simp
          then have k: "i = length xs2 + Suc k" "k < length ys2" using ge \<open>i \<noteq> j\<close> j(1,2) by (auto simp: k_def)
          have "ys2 ! k = c" using st(1,2) j(1) k by (metis nth_Cons_Suc nth_append_length nth_append_length_plus)
          then have "ns_rows ns' (ys2[k := c']) = []" using ns_rows_update [OF k(2), of ns' c'] j(5) st(3) c' False by simp
          moreover have "xs2[i := c'] = xs2" using k(1) by (intro list_update_beyond) simp
          ultimately show ?thesis using j(1) k by (auto simp: list_update_append)
        qed
        ultimately have "\<exists>xs c ys. (fst st)[i := c'] = xs @ c # ys \<and> length xs = j \<and> cy_Namespace c = ns'
            \<and> cy_Outcome c = CycleOpen \<and> ns_rows ns' ys = []" using j(2-4) by (metis length_list_update)
        then show ?thesis using Some False by (simp add: delete_conv')
      qed
    qed
  qed
qed

lemma ns_rows_open_cycle:
  "ns_rows ns' (fst (open_cycle ns ts st)) = ns_rows ns' (fst st) @ (if ns' = ns then [new_cycle ns ts] else [])"
  by (simp add: open_cycle_def split: prod.split)

text \<open>The records the fold reads.\<close>

definition cycle_relevant :: "audit_record \<Rightarrow> bool" where
  "cycle_relevant r \<longleftrightarrow> IsCycleEvent (ar_Event r) \<and> cycle_ns r \<noteq> ''''"

lemma get_cycle_inv:
  assumes inv: "cycles_inv st" and g: "get_cycle ns ts st = (i, st1)"
  shows "cycles_inv st1" "map_of (snd st1) ns = Some i"
    and "ns_rows ns (fst st1) = (if is_open (ns_rows ns (fst st)) then ns_rows ns (fst st) else ns_rows ns (fst st) @ [new_cycle ns ts])"
    and "ns' \<noteq> ns \<Longrightarrow> ns_rows ns' (fst st1) = ns_rows ns' (fst st)"
proof -
  have "cycles_inv st1 \<and> map_of (snd st1) ns = Some i
    \<and> ns_rows ns (fst st1) = (if is_open (ns_rows ns (fst st)) then ns_rows ns (fst st) else ns_rows ns (fst st) @ [new_cycle ns ts])
    \<and> (ns' \<noteq> ns \<longrightarrow> ns_rows ns' (fst st1) = ns_rows ns' (fst st))" for ns'
  proof (cases "map_of (snd st) ns")
    case None
    then have "i = length (fst st)" "st1 = open_cycle ns ts st" using g by (auto simp: get_cycle_def)
    moreover have "map_of (snd (open_cycle ns ts st)) ns = Some (length (fst st))"
      by (simp add: open_cycle_def update_conv' split: prod.split)
    ultimately show ?thesis
      using inv_open_cycle [OF inv None] cycles_inv_None [OF inv None] by (simp add: ns_rows_open_cycle)
  next
    case (Some j)
    then have "i = j" "st1 = st" using g by (auto simp: get_cycle_def)
    moreover have "is_open (ns_rows ns (fst st))" using cycles_inv_Some [OF inv Some] by blast
    ultimately show ?thesis using inv Some by simp
  qed
  then show "cycles_inv st1" "map_of (snd st1) ns = Some i"
    "ns_rows ns (fst st1) = (if is_open (ns_rows ns (fst st)) then ns_rows ns (fst st) else ns_rows ns (fst st) @ [new_cycle ns ts])"
    "ns' \<noteq> ns \<Longrightarrow> ns_rows ns' (fst st1) = ns_rows ns' (fst st)" for ns'
    by blast+
qed

lemma started_step:
  assumes inv: "cycles_inv st" and r: "cycle_relevant r" "ar_Event r = EventCycleStarted"
  shows "cycles_inv (cycle_record r st)"
    and "ns_rows ns (fst (cycle_record r st)) =
      (if cycle_ns r = ns then ns_step r (ns_rows ns (fst st)) else ns_rows ns (fst st))"
proof -
  let ?ns = "cycle_ns r"
  define st1 where "st1 = (case map_of (snd st) ?ns of
      Some i \<Rightarrow> ((fst st)[i := close_as CycleUnfinished (ar_TS r) (fst st ! i)], AList.delete ?ns (snd st))
    | None \<Rightarrow> st)"
  have run: "cycle_record r st = open_cycle ?ns (ar_TS r) st1"
    using r by (simp add: cycle_record_def cycle_relevant_def st1_def)
  have "cycles_inv st1 \<and> map_of (snd st1) ?ns = None
      \<and> ns_rows ?ns (fst st1) = (if is_open (ns_rows ?ns (fst st))
           then butlast (ns_rows ?ns (fst st)) @ [close_as CycleUnfinished (ar_TS r) (last (ns_rows ?ns (fst st)))]
           else ns_rows ?ns (fst st))
      \<and> (ns \<noteq> ?ns \<longrightarrow> ns_rows ns (fst st1) = ns_rows ns (fst st))" for ns
  proof (cases "map_of (snd st) ?ns")
    case None
    then show ?thesis using cycles_inv_None [OF inv None] inv by (simp add: st1_def)
  next
    case (Some i)
    obtain xs c ys where c: "fst st = xs @ c # ys" "length xs = i" "cy_Namespace c = ?ns" "is_open (ns_rows ?ns (fst st))"
      "last (ns_rows ?ns (fst st)) = c" using cycles_inv_Some [OF inv Some] by metis
    then have "fst st ! i = c" by auto
    then show ?thesis
      using inv_update [OF inv Some, of "close_as CycleUnfinished (ar_TS r) c" True] c Some
      by (simp add: st1_def delete_conv')
  qed
  then have st1: "cycles_inv st1" "map_of (snd st1) ?ns = None"
    "ns_rows ?ns (fst st1) = (if is_open (ns_rows ?ns (fst st))
           then butlast (ns_rows ?ns (fst st)) @ [close_as CycleUnfinished (ar_TS r) (last (ns_rows ?ns (fst st)))]
           else ns_rows ?ns (fst st))"
    "\<And>ns. ns \<noteq> ?ns \<Longrightarrow> ns_rows ns (fst st1) = ns_rows ns (fst st)" by blast+
  show "cycles_inv (cycle_record r st)" unfolding run by (rule inv_open_cycle [OF st1(1,2)])
  show "ns_rows ns (fst (cycle_record r st)) =
      (if ?ns = ns then ns_step r (ns_rows ns (fst st)) else ns_rows ns (fst st))"
    unfolding run ns_rows_open_cycle using st1(3,4) r(2) by (auto simp: ns_step_def Let_def)
qed

lemma noted_step:
  assumes inv: "cycles_inv st" and r: "cycle_relevant r" "ar_Event r \<noteq> EventCycleStarted"
  shows "cycles_inv (cycle_record r st)"
    and "ns_rows ns (fst (cycle_record r st)) =
      (if cycle_ns r = ns then ns_step r (ns_rows ns (fst st)) else ns_rows ns (fst st))"
proof -
  let ?ns = "cycle_ns r"
  obtain i st1 where g: "get_cycle ?ns (ar_TS r) st = (i, st1)" by (cases "get_cycle ?ns (ar_TS r) st")
  note st1 = get_cycle_inv [OF inv g]
  obtain xs c ys where c: "fst st1 = xs @ c # ys" "length xs = i" "cy_Namespace c = ?ns" "cy_Outcome c = CycleOpen"
    "last (ns_rows ?ns (fst st1)) = c" using cycles_inv_Some [OF st1(1,2)] by metis
  then have "fst st1 ! i = c" by auto
  then have run: "cycle_record r st = ((fst st1)[i := note_record r c],
      if closing_event (ar_Event r) then AList.delete ?ns (snd st1) else snd st1)"
    using r g by (cases st1) (simp add: cycle_record_def cycle_relevant_def)
  note upd = inv_update [OF st1(1,2), of "note_record r c" "closing_event (ar_Event r)"]
  show "cycles_inv (cycle_record r st)"
    unfolding run by (rule upd(1)) (simp_all add: c note_record_Outcome)
  have "ns_rows ?ns (fst (cycle_record r st)) = ns_step r (ns_rows ?ns (fst st))"
    unfolding run fst_conv using upd(2) c(3-5) st1(3) r(2)
    by (auto simp: note_record_Outcome ns_step_def Let_def split: if_splits)
  moreover have "ns_rows ns (fst (cycle_record r st)) = ns_rows ns (fst st)" if "ns \<noteq> ?ns"
    unfolding run fst_conv using upd(3) [OF _ _ that] c(3,4) st1(4) [OF that] by (simp add: note_record_Outcome)
  ultimately show "ns_rows ns (fst (cycle_record r st)) =
      (if ?ns = ns then ns_step r (ns_rows ns (fst st)) else ns_rows ns (fst st))" by auto
qed

lemma cycle_record_step:
  assumes "cycles_inv st"
  shows "cycles_inv (cycle_record r st)"
    and "ns_rows ns (fst (cycle_record r st)) =
      (if cycle_relevant r \<and> cycle_ns r = ns then ns_step r (ns_rows ns (fst st)) else ns_rows ns (fst st))"
proof -
  consider "\<not> cycle_relevant r" | "cycle_relevant r" "ar_Event r = EventCycleStarted"
    | "cycle_relevant r" "ar_Event r \<noteq> EventCycleStarted" by blast
  then have "cycles_inv (cycle_record r st) \<and> ns_rows ns (fst (cycle_record r st)) =
      (if cycle_relevant r \<and> cycle_ns r = ns then ns_step r (ns_rows ns (fst st)) else ns_rows ns (fst st))"
  proof cases
    case 1
    then have "cycle_record r st = st" by (auto simp: cycle_record_def cycle_relevant_def)
    then show ?thesis using assms 1 by simp
  next
    case 2
    then show ?thesis using started_step [OF assms 2] by auto
  next
    case 3
    then show ?thesis using noted_step [OF assms 3] by auto
  qed
  then show "cycles_inv (cycle_record r st)" and "ns_rows ns (fst (cycle_record r st)) =
      (if cycle_relevant r \<and> cycle_ns r = ns then ns_step r (ns_rows ns (fst st)) else ns_rows ns (fst st))"
    by blast+
qed

lemma fold_cycle_record:
  "cycles_inv st \<Longrightarrow> ns_rows ns (fst (fold cycle_record rs st)) =
     fold ns_step (filter (\<lambda>r. cycle_relevant r \<and> cycle_ns r = ns) rs) (ns_rows ns (fst st))"
proof (induction rs arbitrary: st)
  case (Cons r rs)
  note s = cycle_record_step [OF Cons.prems]
  show ?case using Cons.IH [OF s(1)] s(2) [of ns r] by simp
qed simp

lemma ns_step_closed:
  assumes "list_all (\<lambda>c. cy_Outcome c \<noteq> CycleOpen) (butlast cs)"
  shows "list_all (\<lambda>c. cy_Outcome c \<noteq> CycleOpen) (butlast (ns_step r cs))"
proof -
  have "list_all (\<lambda>c. cy_Outcome c \<noteq> CycleOpen) cs" if "\<not> is_open cs"
    using assms that by (cases cs rule: rev_cases) (simp_all add: is_open_def)
  then show ?thesis using assms by (auto simp: ns_step_def Let_def butlast_append)
qed

lemma fold_ns_step_closed:
  "list_all (\<lambda>c. cy_Outcome c \<noteq> CycleOpen) (butlast cs) \<Longrightarrow>
     list_all (\<lambda>c. cy_Outcome c \<noteq> CycleOpen) (butlast (fold ns_step rs cs))"
  by (induction rs arbitrary: cs) (simp_all add: ns_step_closed)

section \<open>Guarantees\<close>

text \<open>
  C26.  The rows of a namespace depend on its own records alone, in their order,
  and only the last of them can be open: each record goes to the open last row,
  or starts a new one, and a new start marks a cycle left open as unfinished.
\<close>

theorem Cycles_refine_namespaces:
  assumes "ns \<noteq> ''''"
  shows "filter (\<lambda>c. cy_Namespace c = ns) (Cycles rs) =
     fold ns_step (filter (\<lambda>r. IsCycleEvent (ar_Event r) \<and> cycle_ns r = ns) rs) []
   \<and> list_all (\<lambda>c. cy_Outcome c \<noteq> CycleOpen) (butlast (filter (\<lambda>c. cy_Namespace c = ns) (Cycles rs)))"
proof -
  have inv: "cycles_inv ([], [])" by (simp add: cycles_inv_def is_open_def)
  have "filter (\<lambda>r. cycle_relevant r \<and> cycle_ns r = ns) rs = filter (\<lambda>r. IsCycleEvent (ar_Event r) \<and> cycle_ns r = ns) rs"
    using assms by (intro filter_cong) (auto simp: cycle_relevant_def)
  then have "filter (\<lambda>c. cy_Namespace c = ns) (Cycles rs) =
      fold ns_step (filter (\<lambda>r. IsCycleEvent (ar_Event r) \<and> cycle_ns r = ns) rs) []"
    using fold_cycle_record [OF inv, of ns rs] by (simp add: Cycles_def ns_rows_def)
  then show ?thesis using fold_ns_step_closed [of "[]"] by simp
qed

definition sample_cycle_record :: "gotime \<Rightarrow> string \<Rightarrow> string \<Rightarrow> audit_record" where
  "sample_cycle_record ts ev ns =
     \<lparr>ar_TS = ts, ar_Event = ev, ar_FaultUID = '''', ar_PlanID = '''', ar_ScenarioID = '''', ar_Mode = '''',
      ar_Reason = ''paused'', ar_Payload = [(''namespace'', JStr ns)]\<rparr>"

definition sample_cycle_records :: "audit_record list" where
  "sample_cycle_records =
     [sample_cycle_record 1 EventCycleStarted ''shop'', sample_cycle_record 2 EventCycleStarted ''bank'',
      sample_cycle_record 3 EventCycleStarted ''shop'', sample_cycle_record 4 EventCycleSkipped ''shop'']"

theorem Cycles_refine_namespaces_witness:
  "map cy_Outcome (Cycles sample_cycle_records) = [CycleUnfinished, CycleOpen, CycleSkipped]
   \<and> list_all (\<lambda>c. cy_Outcome c \<noteq> CycleOpen) (butlast (filter (\<lambda>c. cy_Namespace c = ''shop'') (Cycles sample_cycle_records)))"
proof
  show "map cy_Outcome (Cycles sample_cycle_records) = [CycleUnfinished, CycleOpen, CycleSkipped]" by code_simp
  show "list_all (\<lambda>c. cy_Outcome c \<noteq> CycleOpen)
      (butlast (filter (\<lambda>c. cy_Namespace c = ''shop'') (Cycles sample_cycle_records)))"
    using Cycles_refine_namespaces [of "''shop''" sample_cycle_records] by blast
qed

end
