(* ===== verification/Cycle_Trail.thy ===== *)
theory Cycle_Trail
  imports Autonomous_Loop Audit_Cycles
begin

text \<open>
  A cycle and its record: what \<^verbatim>\<open>RunOnce\<close> (\<^verbatim>\<open>src/pkg/loop/loop.go\<close>) leaves on the audit
  trail, read back by \<^verbatim>\<open>Cycles\<close> (\<^verbatim>\<open>src/pkg/audit/cycles.go\<close>), and the loop run with the
  planner's \<^verbatim>\<open>Generate\<close> (\<^verbatim>\<open>src/pkg/planner/generate.go\<close>) in place of an arbitrary one.

  Shown here: a cycle is one closed row that says what was planned, applied and
  refused, and a plan the generator returns is never refused for its layers.
\<close>

section \<open>What an execution puts on the trail\<close>

definition is_skip :: "string \<Rightarrow> audit_event \<Rightarrow> bool" where
  "is_skip ns e \<longleftrightarrow> ae_Event e = EventStepSkipped \<and> map_of (ae_Payload e) ''namespace'' = Some (JStr ns)"

lemma is_skip_event [simp]: "is_skip ns (skip_event plan reason ns order extra)"
  by (simp add: is_skip_def skip_event_def loop_event_def ns_payload_def)

lemma loop_emit_audit:
  "le_hasAuditor x \<Longrightarrow> lo_audit (loop_emit x e l) = lo_audit l @ [e]"
  by (simp add: loop_emit_def)

lemma note_err_audit [simp]: "lo_audit (note_err x key err l) = lo_audit l"
  by (simp add: note_err_def split: prod.split)

lemma task_step_trail:
  assumes "task_step x ns plan step ph l = (ph', uids, l')" "le_hasAuditor x"
  shows "\<exists>evs. lo_audit l' = lo_audit l @ evs \<and> list_all (is_skip ns) evs
    \<and> length uids + length evs = (case ph' of None \<Rightarrow> 1 | Some _ \<Rightarrow> 0)"
  using assms by (cases ph)
    (auto simp: start_task_def submit_task_def note_task_def finish_task_def loop_emit_audit Let_def split: prod.splits if_splits sum.splits)

lemma look_at_trail:
  assumes "look_at x b ns plan order rest s = Some t" "le_hasAuditor x"
  shows "\<exists>evs. lo_audit (xs_loop t) = lo_audit (xs_loop s) @ evs \<and> list_all (is_skip ns) evs
    \<and> xs_applied t = xs_applied s \<and> xs_layers t = xs_layers s \<and> xs_layer t = rest
    \<and> length evs + length (xs_running t) = Suc (length (xs_running s))"
  using assms unfolding look_at_def Let_def by (auto simp: loop_emit_audit split: if_splits)

text \<open>Every step is applied, refused or still pending, except those of layers given up.\<close>

definition trail_inv :: "audit_event list \<Rightarrow> string \<Rightarrow> nat \<Rightarrow> 'w exec_state \<Rightarrow> bool" where
  "trail_inv base ns n s \<longleftrightarrow>
     (\<exists>evs. lo_audit (xs_loop s) = base @ evs \<and> list_all (is_skip ns) evs
        \<and> length (xs_applied s) + length evs + length (pending_orders s) \<le> n)"

lemma trail_step:
  assumes inv: "trail_inv base ns n s" and "exec_step x b ns plan s t" and aud: "le_hasAuditor x"
  shows "trail_inv base ns n t"
proof -
  obtain evs where evs: "lo_audit (xs_loop s) = base @ evs" "list_all (is_skip ns) evs"
    "length (xs_applied s) + length evs + length (pending_orders s) \<le> n"
    using inv by (auto simp: trail_inv_def)
  from assms(2) show ?thesis
  proof cases
    case (schedule order rest)
    from look_at_trail [OF schedule(2) aud] obtain more where m: "lo_audit (xs_loop t) = lo_audit (xs_loop s) @ more"
      "list_all (is_skip ns) more" "xs_applied t = xs_applied s" "xs_layers t = xs_layers s" "xs_layer t = rest"
      "length more + length (xs_running t) = Suc (length (xs_running s))" by blast
    then show ?thesis using evs schedule(1)
      unfolding trail_inv_def by (intro exI [of _ "evs @ more"]) (simp add: pending_orders_def running_orders_def)
  next
    case (run_task before step ph after ph' uids l)
    from task_step_trail [OF run_task(3) aud] obtain more where "lo_audit l = lo_audit (xs_loop s) @ more"
      "list_all (is_skip ns) more" "length uids + length more = (case ph' of None \<Rightarrow> 1 | Some _ \<Rightarrow> 0)" by blast
    then show ?thesis using evs run_task(1,2)
      unfolding trail_inv_def by (intro exI [of _ "evs @ more"]) (cases ph'; simp add: pending_orders_def running_orders_def)
  qed (use evs in \<open>auto simp: trail_inv_def pending_orders_def running_orders_def\<close>)
qed

lemma executePlan_trail:
  assumes "executePlan x ns plan l applied l'" "PlanLayers (ap_Steps plan) = Inr layers" "le_hasAuditor x"
  shows "\<exists>evs. lo_audit l' = lo_audit l @ evs \<and> list_all (is_skip ns) evs
    \<and> length applied + length evs \<le> length (ap_Steps plan)"
  using assms(1)
proof cases
  case (executed layers' s)
  have "length (concat layers) = length (ap_Steps plan)"
    using PlanLayers_cover [OF assms(2)] by (metis distinct_card length_map set_map)
  then have "trail_inv (lo_audit l) ns (length (ap_Steps plan)) (exec_start layers l)"
    by (simp add: trail_inv_def exec_start_def pending_orders_def running_orders_def)
  moreover have "trail_inv base ns n t" if "(exec_step x b ns plan)\<^sup>*\<^sup>* s t" "trail_inv base ns n s" for base n s t b
    using that by (induction rule: rtranclp_induct) (blast intro: trail_step [OF _ _ assms(3)])+
  ultimately have "trail_inv (lo_audit l) ns (length (ap_Steps plan)) s"
    using executed(3,4) assms(2) by auto
  then show ?thesis using executed(1,2) by (auto simp: trail_inv_def)
qed (use assms(2) in simp)

section \<open>Reading it back\<close>

text \<open>A record of an event of a namespace's cycle.\<close>

lemma cycle_ns_record:
  assumes "map_of (ae_Payload e) ''namespace'' = Some (JStr ns)"
  shows "cycle_ns (record_of t e) = ns"
  using assms by (simp add: cycle_ns_def record_of_def map_of_payload_norm str_or_empty_def)

lemma record_of_sel [simp]:
  "ar_TS (record_of t e) = t" "ar_Event (record_of t e) = ae_Event e" "ar_PlanID (record_of t e) = ae_PlanID e"
  "ar_Reason (record_of t e) = ae_Reason e" "ar_Payload (record_of t e) = payload_norm (ae_Payload e)"
  by (simp_all add: record_of_def)

text \<open>While one cycle is open, a record of its namespace goes to its row.\<close>

lemma cycle_record_noted:
  assumes "IsCycleEvent (ar_Event r)" "cycle_ns r = ns" "ns \<noteq> ''''" "ar_Event r \<noteq> EventCycleStarted"
  shows "cycle_record r ([c], [(ns, 0)]) =
    ([note_record r c], if closing_event (ar_Event r) then [] else [(ns, 0)])"
  using assms by (simp add: cycle_record_def get_cycle_def)

lemma cycle_event_names:
  "IsCycleEvent EventCycleStarted" "IsCycleEvent EventCycleSkipped" "IsCycleEvent EventCycleCompleted"
  "IsCycleEvent EventHealthGateFailed" "IsCycleEvent EventLLMUnavailable" "IsCycleEvent EventStepSkipped"
  "IsCycleEvent EventPlanGenerated"
  by (simp_all add: IsCycleEvent_def cycleEvents_def)

lemma cycle_events_differ:
  "EventCycleSkipped \<noteq> EventCycleStarted" "EventCycleCompleted \<noteq> EventCycleStarted"
  "EventHealthGateFailed \<noteq> EventCycleStarted" "EventLLMUnavailable \<noteq> EventCycleStarted"
  "EventStepSkipped \<noteq> EventCycleStarted" "EventPlanGenerated \<noteq> EventCycleStarted"
  "\<not> closing_event EventHealthGateFailed" "\<not> closing_event EventLLMUnavailable" "\<not> closing_event EventStepSkipped"
  "\<not> closing_event EventPlanGenerated" "closing_event EventCycleSkipped" "closing_event EventCycleCompleted"
  by (simp_all add: closing_event_def const_defs)

lemma fold_skips:
  assumes "list_all (is_skip ns) evs" "ns \<noteq> ''''" "length ts = length evs"
  shows "\<exists>refused. fold cycle_record (map2 record_of ts evs) ([c], [(ns, 0)]) = ([c\<lparr>cy_Refused := cy_Refused c @ refused\<rparr>], [(ns, 0)])
    \<and> length refused = length evs"
  using assms
proof (induction evs arbitrary: ts c)
  case (Cons e evs)
  then obtain t ts' where ts: "ts = t # ts'" "length ts' = length evs" by (cases ts) auto
  have e: "ae_Event e = EventStepSkipped" "map_of (ae_Payload e) ''namespace'' = Some (JStr ns)"
    using Cons.prems(1) by (auto simp: is_skip_def)
  obtain r where r: "note_record (record_of t e) c = c\<lparr>cy_Refused := cy_Refused c @ [r]\<rparr>"
    using e(1) by (simp add: note_record_def) (simp add: const_defs)
  have "cycle_record (record_of t e) ([c], [(ns, 0)]) = ([c\<lparr>cy_Refused := cy_Refused c @ [r]\<rparr>], [(ns, 0)])"
    using cycle_record_noted [of "record_of t e" ns c] cycle_ns_record [OF e(2)] e(1) Cons.prems(2)
    by (simp add: cycle_event_names cycle_events_differ r)
  moreover obtain refused where "fold cycle_record (map2 record_of ts' evs) ([c\<lparr>cy_Refused := cy_Refused c @ [r]\<rparr>], [(ns, 0)]) =
      ([c\<lparr>cy_Refused := (cy_Refused c @ [r]) @ refused\<rparr>], [(ns, 0)])" "length refused = length evs"
    using Cons.IH [of ts' "c\<lparr>cy_Refused := cy_Refused c @ [r]\<rparr>"] Cons.prems ts(2) by auto
  ultimately show ?case by (intro exI [of _ "r # refused"]) (simp add: ts(1))
qed (simp add: exI [of _ "[]"])

section \<open>What a cycle puts on the trail\<close>

definition cycle_start :: "string \<Rightarrow> audit_event" where
  "cycle_start ns = loop_event EventCycleStarted '''' '''' (ns_payload ns)"

definition cycle_skip :: "string \<Rightarrow> audit_event \<Rightarrow> bool" where
  "cycle_skip ns e \<longleftrightarrow> ae_Event e = EventCycleSkipped \<and> map_of (ae_Payload e) ''namespace'' = Some (JStr ns)"

definition cycle_note :: "string \<Rightarrow> audit_event \<Rightarrow> bool" where
  "cycle_note ns e \<longleftrightarrow> (ae_Event e = EventHealthGateFailed \<or> ae_Event e = EventLLMUnavailable)
     \<and> map_of (ae_Payload e) ''namespace'' = Some (JStr ns)"

lemma loop_event_sel [simp]:
  "ae_Event (loop_event ev plan reason p) = ev" "ae_PlanID (loop_event ev plan reason p) = plan"
  "ae_Payload (loop_event ev plan reason p) = p" "ae_Reason (loop_event ev plan reason p) = reason"
  by (simp_all add: loop_event_def)

lemma ns_payload_lookup [simp]: "map_of (ns_payload ns @ p) ''namespace'' = Some (JStr ns)"
  "map_of (ns_payload ns) ''namespace'' = Some (JStr ns)"
  by (simp_all add: ns_payload_def)

lemma skip_cycle_audit:
  assumes "le_hasAuditor x"
  shows "\<exists>e. lo_audit (skip_cycle x ns reason extra l) = lo_audit l @ [e] \<and> cycle_skip ns e"
  using assms by (simp add: skip_cycle_def loop_emit_audit cycle_skip_def)

lemma skip_with_note:
  assumes "le_hasAuditor x" "ev = EventHealthGateFailed \<or> ev = EventLLMUnavailable"
  shows "\<exists>n e. lo_audit (skip_cycle x ns reason extra (loop_emit x (loop_event ev plan why (ns_payload ns)) l)) = lo_audit l @ [n, e]
    \<and> cycle_note ns n \<and> cycle_skip ns e"
  using assms by (simp add: skip_cycle_def loop_emit_audit cycle_skip_def cycle_note_def)

definition stopped_trail :: "string \<Rightarrow> audit_event list \<Rightarrow> bool" where
  "stopped_trail ns evs \<longleftrightarrow> (\<exists>notes e. evs = notes @ [e] \<and> length notes \<le> 1 \<and> list_all (cycle_note ns) notes \<and> cycle_skip ns e)"

lemma stopped_trailI:
  "cycle_skip ns e \<Longrightarrow> stopped_trail ns [e]" "cycle_note ns n \<Longrightarrow> cycle_skip ns e \<Longrightarrow> stopped_trail ns [n, e]"
  unfolding stopped_trail_def by (intro exI [of _ "[]"] exI [of _ e], simp) (intro exI [of _ "[n]"] exI [of _ e], simp)

lemma generate_plan_trail:
  assumes "generate_plan x ns l = (r, l')" "le_hasAuditor x"
  shows "\<exists>evs. lo_audit l' = lo_audit l @ evs \<and> (case r of Inr plan \<Rightarrow> evs = [] | Inl err \<Rightarrow> err = None \<and> stopped_trail ns evs)"
proof -
  obtain g w where g: "le_Generate x ns (lo_Budget l) (lo_Hypothesis l) (lo_world l) = (g, w)" by force
  have skip: "\<exists>evs. lo_audit (skip_cycle x ns reason extra (l\<lparr>lo_world := w\<rparr>)) = lo_audit l @ evs \<and> stopped_trail ns evs" for reason extra
    using skip_cycle_audit [OF assms(2), of ns reason extra "l\<lparr>lo_world := w\<rparr>"] stopped_trailI(1) by force
  have noted: "\<exists>evs. lo_audit (skip_cycle x ns reason extra (loop_emit x (loop_event EventLLMUnavailable plan why (ns_payload ns)) (l\<lparr>lo_world := w\<rparr>)))
      = lo_audit l @ evs \<and> stopped_trail ns evs" for reason extra plan why
    using skip_with_note [OF assms(2), of EventLLMUnavailable ns reason extra plan why "l\<lparr>lo_world := w\<rparr>"] stopped_trailI(2) by force
  show ?thesis
  proof (cases g)
    case (Inl err)
    then show ?thesis using assms(1) g skip noted
      by (cases err) (auto simp: generate_plan_def Let_def split: if_splits)
  next
    case (Inr plan)
    then show ?thesis using assms(1) g by (auto simp: generate_plan_def Let_def)
  qed
qed

lemma plan_cycle_trail:
  assumes "plan_cycle x ns l = Some (r, l')" "le_hasAuditor x"
  shows "\<exists>evs. lo_audit l' = lo_audit l @ cycle_start ns # evs
    \<and> (case r of Inr plan \<Rightarrow> evs = [] | Inl None \<Rightarrow> stopped_trail ns evs | Inl (Some _) \<Rightarrow> evs = [])"
proof -
  define l0 where "l0 = loop_emit x (cycle_start ns) l"
  have l0: "lo_audit l0 = lo_audit l @ [cycle_start ns]" using assms(2) by (simp add: l0_def loop_emit_audit)
  obtain ok active waited w where w: "waitForSlot x l0 = Some ((ok, active, waited), w)"
    using assms(1) by (auto simp: plan_cycle_def l0_def cycle_start_def Let_def split: option.splits)
  let ?l1 = "l0\<lparr>lo_world := w\<rparr>"
  show ?thesis
  proof (cases ok)
    case False
    then obtain reason extra where "r = Inl None" "l' = skip_cycle x ns reason extra ?l1"
      using assms(1) w by (auto simp: plan_cycle_def l0_def cycle_start_def Let_def)
    then show ?thesis using skip_cycle_audit [OF assms(2), of ns reason extra ?l1] l0 stopped_trailI(1) by force
  next
    case True
    obtain g l2 where g: "cycle_gate x ns ?l1 = (g, l2)" by force
    then have run: "Some (r, l') = (case g of Inl e \<Rightarrow> Some (Inl e, l2) | Inr () \<Rightarrow> Some (generate_plan x ns l2))"
      using assms(1) w True by (auto simp: plan_cycle_def l0_def cycle_start_def Let_def split: sum.splits)
    have gate: "\<exists>evs. lo_audit l2 = lo_audit l0 @ evs \<and> (case g of Inl None \<Rightarrow> stopped_trail ns evs | _ \<Rightarrow> evs = [])"
    proof -
      obtain h w1 where h: "(case le_Health x of None \<Rightarrow> (None, lo_world ?l1) | Some check \<Rightarrow> check ns (lo_world ?l1)) = (h, w1)" by force
      show ?thesis
      proof (cases h)
        case None
        then show ?thesis using g h by (auto simp: cycle_gate_def split: prod.splits option.splits)
      next
        case (Some why)
        then have "g = Inl None" "l2 = skip_cycle x ns ''health-gate'' []
             (loop_emit x (loop_event EventHealthGateFailed '''' why (ns_payload ns)) (?l1\<lparr>lo_world := w1\<rparr>))"
          using g h by (auto simp: cycle_gate_def)
        then show ?thesis
          using skip_with_note [OF assms(2), of EventHealthGateFailed ns "''health-gate''" "[]" "''''" why "?l1\<lparr>lo_world := w1\<rparr>"]
            stopped_trailI(2) by force
      qed
    qed
    show ?thesis
    proof (cases g)
      case (Inl e)
      then show ?thesis using run gate l0 by (cases e) auto
    next
      case (Inr u)
      then have "generate_plan x ns l2 = (r, l')" "lo_audit l2 = lo_audit l0" using run gate by (auto split: unit.splits)
      then show ?thesis using generate_plan_trail [OF _ assms(2), of ns l2 r l'] l0 by (cases r) auto
    qed
  qed
qed

lemma fold_start:
  "ns \<noteq> '''' \<Longrightarrow> cycle_record (record_of t (cycle_start ns)) ([], []) = ([new_cycle ns t], [(ns, 0)])"
  using cycle_ns_record [of "cycle_start ns" ns t]
  by (simp add: cycle_start_def cycle_record_def cycle_event_names open_cycle_def)

lemma fold_note:
  assumes "cycle_note ns n" "ns \<noteq> ''''"
  shows "cycle_record (record_of t n) ([c], [(ns, 0)]) = ([c\<lparr>cy_Detail := ae_Reason n\<rparr>], [(ns, 0)])"
  using assms cycle_record_noted [of "record_of t n" ns c] cycle_ns_record [of n ns t]
  by (auto simp: cycle_note_def cycle_event_names cycle_events_differ note_record_def)

lemma fold_notes:
  assumes "list_all (cycle_note ns) ns'" "ns \<noteq> ''''" "length ts = length ns'"
  shows "\<exists>d. fold cycle_record (map2 record_of ts ns') ([c], [(ns, 0)]) = ([c\<lparr>cy_Detail := d\<rparr>], [(ns, 0)])"
  using assms
proof (induction ns' arbitrary: ts c)
  case (Cons n ns')
  then obtain t ts' where ts: "ts = t # ts'" "length ts' = length ns'" by (cases ts) auto
  show ?case using Cons.IH [of ts' "c\<lparr>cy_Detail := ae_Reason n\<rparr>"] Cons.prems ts fold_note [of ns n t c] by auto
next
  case Nil
  then show ?case by (intro exI [of _ "cy_Detail c"]) simp
qed

lemma fold_close:
  assumes "ae_Event e = EventCycleSkipped \<or> ae_Event e = EventCycleCompleted"
    "map_of (ae_Payload e) ''namespace'' = Some (JStr ns)" "ns \<noteq> ''''"
  shows "cycle_record (record_of t e) ([c], [(ns, 0)]) = ([note_record (record_of t e) c], [])"
  using assms cycle_record_noted [of "record_of t e" ns c] cycle_ns_record [of e ns t]
  by (auto simp: cycle_event_names cycle_events_differ)

lemma skipped_row:
  "ae_Event e = EventCycleSkipped \<Longrightarrow> \<exists>why d. note_record (record_of t e) c =
     c\<lparr>cy_Reason := why, cy_Detail := d, cy_Outcome := CycleSkipped, cy_EndedAt := t\<rparr>"
  by (simp add: note_record_def close_as_def) (simp add: const_defs, blast)

lemma fold_stopped:
  assumes "stopped_trail ns evs" "ns \<noteq> ''''" "length ts = length evs"
  shows "\<exists>why d. fold cycle_record (map2 record_of ts evs) ([c], [(ns, 0)]) =
    ([c\<lparr>cy_Reason := why, cy_Detail := d, cy_Outcome := CycleSkipped, cy_EndedAt := last ts\<rparr>], [])"
proof -
  obtain notes' e where evs: "evs = notes' @ [e]" "list_all (cycle_note ns) notes'" "cycle_skip ns e"
    using assms(1) by (auto simp: stopped_trail_def)
  then obtain ts' t where ts: "ts = ts' @ [t]" "length ts' = length notes'"
    using assms(3) by (cases ts rule: rev_cases) auto
  obtain d where d: "fold cycle_record (map2 record_of ts' notes') ([c], [(ns, 0)]) = ([c\<lparr>cy_Detail := d\<rparr>], [(ns, 0)])"
    using fold_notes [OF evs(2) assms(2) ts(2)] by blast
  have e: "ae_Event e = EventCycleSkipped" "map_of (ae_Payload e) ''namespace'' = Some (JStr ns)"
    using evs(3) by (simp_all add: cycle_skip_def)
  obtain why d' where "note_record (record_of t e) (c\<lparr>cy_Detail := d\<rparr>) =
      c\<lparr>cy_Reason := why, cy_Detail := d', cy_Outcome := CycleSkipped, cy_EndedAt := t\<rparr>"
    using skipped_row [OF e(1), of t "c\<lparr>cy_Detail := d\<rparr>"] by auto
  then have "fold cycle_record (map2 record_of ts evs) ([c], [(ns, 0)]) =
      ([c\<lparr>cy_Reason := why, cy_Detail := d', cy_Outcome := CycleSkipped, cy_EndedAt := last ts\<rparr>], [])"
    using fold_close [of e ns t] e assms(2) d ts by (simp add: evs(1))
  then show ?thesis by blast
qed

text \<open>The row of a cycle that ran its plan.\<close>

lemma planned_row:
  "note_record (record_of t (loop_event EventPlanGenerated pid '''' (ns_payload ns @
       [(''step_count'', n), (''hypothesis'', JStr hyp), (''steps'', planStepRecords steps)]))) c =
     c\<lparr>cy_PlanID := pid, cy_Hypothesis := hyp, cy_Steps := cycleSteps (Some (json_norm (planStepRecords steps)))\<rparr>"
  by (simp add: note_record_def map_of_payload_norm ns_payload_def str_or_empty_def) (simp add: const_defs)

lemma length_cycleSteps: "length (cycleSteps (Some (json_norm (planStepRecords steps)))) = length steps"
proof -
  have "as_obj (Some (json_norm (plan_step_record s))) \<noteq> None" for s by (simp add: plan_step_record_def)
  then have "List.map_filter (\<lambda>item. map_option cycle_step_of (as_obj (Some item))) (map (json_norm \<circ> plan_step_record) steps) =
      map (\<lambda>s. cycle_step_of (the (as_obj (Some (json_norm (plan_step_record s)))))) steps"
    by (induction steps) (auto simp: List.map_filter_simps split: option.splits)
  then show ?thesis by (simp add: cycleSteps_def planStepRecords_def)
qed

lemma completed_row:
  "note_record (record_of t (loop_event EventCycleCompleted pid '''' (ns_payload ns @
       [(''applied_count'', n), (''applied_uids'', JArr (map JStr applied))]))) c =
     c\<lparr>cy_PlanID := if cy_PlanID c = '''' then pid else cy_PlanID c, cy_Applied := cy_Applied c @ applied,
       cy_Outcome := CycleCompleted, cy_EndedAt := t\<rparr>"
proof -
  have "strings_in (map (json_norm \<circ> JStr) us) = us" for us by (induction us) (simp_all add: strings_in_def List.map_filter_simps)
  then show ?thesis
    by (simp add: note_record_def close_as_def map_of_payload_norm ns_payload_def) (simp add: const_defs)
qed

section \<open>The cycle as a row\<close>

definition cycle_reads ::
  "string \<Rightarrow> gotime list \<Rightarrow> attack_plan option \<Rightarrow> string list \<Rightarrow> cycle_row \<Rightarrow> bool" where
  "cycle_reads ns ts plan applied c \<longleftrightarrow>
     cy_Namespace c = ns \<and> cy_StartedAt c = hd ts \<and> cy_EndedAt c = last ts \<and> cy_Applied c = applied
     \<and> (case plan of
          None \<Rightarrow> cy_Outcome c = CycleSkipped \<and> cy_Steps c = [] \<and> cy_Refused c = [] \<and> applied = []
        | Some p \<Rightarrow> cy_Outcome c = CycleCompleted \<and> cy_PlanID c = ap_PlanID p \<and> cy_Hypothesis c = ap_Hypothesis p
            \<and> length (cy_Steps c) = length (ap_Steps p)
            \<and> length applied + length (cy_Refused c) \<le> length (ap_Steps p))"

lemma stopped_reads:
  assumes "stopped_trail ns evs" "ns \<noteq> ''''" "length ts = Suc (length evs)"
  shows "\<exists>c. Cycles (map2 record_of ts (cycle_start ns # evs)) = [c] \<and> cycle_reads ns ts None [] c"
proof -
  obtain t ts' where ts: "ts = t # ts'" "length ts' = length evs" using assms(3) by (cases ts) auto
  have ne: "ts' \<noteq> []" using assms(1) ts(2) by (auto simp: stopped_trail_def)
  obtain why d where f: "fold cycle_record (map2 record_of ts' evs) ([new_cycle ns t], [(ns, 0)]) =
    ([(new_cycle ns t)\<lparr>cy_Reason := why, cy_Detail := d, cy_Outcome := CycleSkipped, cy_EndedAt := last ts'\<rparr>], [])"
    using fold_stopped [OF assms(1,2) ts(2)] by blast
  then have "Cycles (map2 record_of ts (cycle_start ns # evs)) =
      [(new_cycle ns t)\<lparr>cy_Reason := why, cy_Detail := d, cy_Outcome := CycleSkipped, cy_EndedAt := last ts'\<rparr>]"
    using fold_start [OF assms(2), of t] by (simp add: Cycles_def ts(1))
  then show ?thesis using ne by (simp add: cycle_reads_def new_cycle_def ts(1))
qed

lemma ran_reads:
  assumes "list_all (is_skip ns) evs" "ns \<noteq> ''''" "length ts = length evs + 3" "length applied + length evs \<le> length (ap_Steps plan)"
    and p: "p = loop_event EventPlanGenerated (ap_PlanID plan) '''' (ns_payload ns @
       [(''step_count'', n), (''hypothesis'', JStr (ap_Hypothesis plan)), (''steps'', planStepRecords (ap_Steps plan))])"
    and d: "d = loop_event EventCycleCompleted (ap_PlanID plan) '''' (ns_payload ns @
       [(''applied_count'', k), (''applied_uids'', JArr (map JStr applied))])"
  shows "\<exists>c. Cycles (map2 record_of ts (cycle_start ns # p # evs @ [d])) = [c] \<and> cycle_reads ns ts (Some plan) applied c"
proof -
  obtain t1 t2 ts2 where "ts = t1 # t2 # ts2" "length ts2 = Suc (length evs)"
    using assms(3) by (cases ts; cases "tl ts") auto
  moreover from this obtain ts' t3 where "ts2 = ts' @ [t3]" "length ts' = length evs" by (cases ts2 rule: rev_cases) auto
  ultimately have ts: "ts = t1 # t2 # ts' @ [t3]" "length ts' = length evs" by simp_all
  let ?c1 = "(new_cycle ns t1)\<lparr>cy_PlanID := ap_PlanID plan, cy_Hypothesis := ap_Hypothesis plan,
     cy_Steps := cycleSteps (Some (json_norm (planStepRecords (ap_Steps plan))))\<rparr>"
  have 1: "cycle_record (record_of t2 p) ([new_cycle ns t1], [(ns, 0)]) = ([?c1], [(ns, 0)])"
    using cycle_record_noted [of "record_of t2 p" ns "new_cycle ns t1"] cycle_ns_record [of p ns t2] assms(2)
    by (simp add: p cycle_event_names cycle_events_differ planned_row)
  obtain refused where 2: "fold cycle_record (map2 record_of ts' evs) ([?c1], [(ns, 0)]) =
      ([?c1\<lparr>cy_Refused := cy_Refused ?c1 @ refused\<rparr>], [(ns, 0)])" "length refused = length evs"
    using fold_skips [OF assms(1,2) ts(2)] by blast
  have 3: "cycle_record (record_of t3 d) ([c], [(ns, 0)]) = ([note_record (record_of t3 d) c], [])" for c
    using fold_close [of d ns t3] assms(2) by (simp add: d)
  define c where "c = note_record (record_of t3 d) (?c1\<lparr>cy_Refused := cy_Refused ?c1 @ refused\<rparr>)"
  have "Cycles (map2 record_of ts (cycle_start ns # p # evs @ [d])) = [c]"
    using fold_start [OF assms(2), of t1] 1 2(1) 3 ts(2) by (simp add: Cycles_def ts(1) c_def)
  moreover have "cycle_reads ns ts (Some plan) applied c"
    unfolding c_def d completed_row using 2(2) assms(4)
    by (simp add: cycle_reads_def new_cycle_def ts(1) length_cycleSteps)
  ultimately show ?thesis by blast
qed

lemma RunOnce_row:
  assumes run: "RunOnce x ns l plan applied None l'" and aud: "le_hasAuditor x" and ns: "ns \<noteq> ''''"
    and wf: "\<And>p. plan = Some p \<Longrightarrow> plan_wf (ap_Steps p)"
    and evs: "lo_audit l' = lo_audit l @ evs" "length ts = length evs"
  shows "\<exists>c. Cycles (map2 record_of ts evs) = [c] \<and> cycle_reads ns ts plan applied c"
  using run
proof cases
  case stopped
  obtain es where es: "lo_audit l' = lo_audit l @ cycle_start ns # es" "stopped_trail ns es"
    using plan_cycle_trail [OF stopped(3) aud] by auto
  then have "evs = cycle_start ns # es" using evs(1) by simp
  then show ?thesis using stopped_reads [OF es(2) ns, of ts] evs(2) stopped(1,2) by simp
next
  case (ran p l1 l2)
  obtain layers where layers: "PlanLayers (ap_Steps p) = Inr layers" using wf [OF ran(1)] plan_wf_layers by blast
  have l1: "lo_audit l1 = lo_audit l @ [cycle_start ns]" using plan_cycle_trail [OF ran(3) aud] by simp
  obtain es where es: "lo_audit l2 = lo_audit (announce_plan x ns p l1) @ es" "list_all (is_skip ns) es"
    "length applied + length es \<le> length (ap_Steps p)"
    using executePlan_trail [OF ran(4) layers aud] by blast
  let ?p = "loop_event EventPlanGenerated (ap_PlanID p) '''' (ns_payload ns @
       [(''step_count'', JInt (int (length (ap_Steps p)))), (''hypothesis'', JStr (ap_Hypothesis p)),
        (''steps'', planStepRecords (ap_Steps p))])"
  let ?d = "loop_event EventCycleCompleted (ap_PlanID p) '''' (ns_payload ns @
       [(''applied_count'', JInt (int (length applied))), (''applied_uids'', JArr (map JStr applied))])"
  have "evs = cycle_start ns # ?p # es @ [?d]"
    using evs(1) ran(2) es(1) l1 aud by (simp add: complete_cycle_def announce_plan_def loop_emit_audit)
  then show ?thesis using ran_reads [OF es(2) ns _ es(3) refl refl, of ts] evs(2) ran(1) by simp
qed

text \<open>The loop with the planner's generator.\<close>

definition with_generator ::
  "'w gen_env \<Rightarrow> int \<Rightarrow> (string \<Rightarrow> loop_budget \<Rightarrow> string \<Rightarrow> 'w \<Rightarrow> gen_input \<times> string \<times> string) \<Rightarrow> 'w loop_env \<Rightarrow> 'w loop_env" where
  "with_generator g retries prompts x = x\<lparr>le_Generate := (\<lambda>ns b h w.
     case prompts ns b h w of (inp, system, user) \<Rightarrow>
       (case Generate g retries system user inp w of ((r, _), w') \<Rightarrow> (r, w')))\<rparr>"

lemma plan_cycle_generated:
  assumes "plan_cycle x ns l = Some (Inr plan, l1)"
  shows "\<exists>b h w w'. le_Generate x ns b h w = (Inr plan, w')"
proof -
  have gen: "\<exists>b h w w'. le_Generate x ns b h w = (Inr plan, w')" if "generate_plan x ns l2 = (Inr plan, l1)" for l2
    using that by (auto simp: generate_plan_def Let_def split: prod.splits sum.splits if_splits gen_error.splits)
  obtain l2 where "generate_plan x ns l2 = (Inr plan, l1)"
    using assms by (auto simp: plan_cycle_def Let_def split: option.splits prod.splits if_splits sum.splits unit.splits)
  then show ?thesis by (rule gen)
qed

lemma generated_ready:
  assumes "le_Generate (with_generator g retries prompts x) ns b h w = (Inr plan, w')"
  shows "\<exists>inp. plan_ready inp plan"
proof -
  obtain inp system user where p: "prompts ns b h w = (inp, system, user)" by (metis prod_cases3)
  obtain r told w1 where r: "Generate g retries system user inp w = ((r, told), w1)" by (metis prod.collapse)
  have "r = Inr plan" using assms p r by (simp add: with_generator_def)
  with r have "Generate g retries system user inp w = ((Inr plan, told), w1)" by simp
  from Generate_ready(1) [OF this] show ?thesis by blast
qed

lemma RunOnce_generated:
  assumes "RunOnce (with_generator g retries prompts x) ns l (Some p) applied err l'"
  shows "\<exists>inp. plan_ready inp p"
  using assms
proof cases
  case (ran l1 l2)
  from plan_cycle_generated [OF ran(3)] obtain b h w w' where
    "le_Generate (with_generator g retries prompts x) ns b h w = (Inr p, w')" by blast
  then show ?thesis by (rule generated_ready)
qed

section \<open>Guarantees\<close>

text \<open>
  C25.  A cycle of the loop with its generator, when the catalog answers, leaves
  one closed row for whoever reads the trail: skipped, or completed with the
  plan's ID, hypothesis and steps and the faults applied, and no more steps
  applied or refused than the plan has.  The plan it ran was ready to run, so
  its layers are never in question.
\<close>

theorem RunOnce_recorded:
  assumes "RunOnce (with_generator g retries prompts x) ns l plan applied None l'"
    and "le_hasAuditor x" and "ns \<noteq> ''''" and "lo_audit l' = lo_audit l @ evs" and "length ts = length evs"
  shows "(\<exists>c. Cycles (map2 record_of ts evs) = [c] \<and> cycle_reads ns ts plan applied c)
    \<and> (\<forall>p. plan = Some p \<longrightarrow> (\<exists>inp layers. plan_ready inp p \<and> PlanLayers (ap_Steps p) = Inr layers))"
proof -
  have ready: "\<exists>inp. plan_ready inp p" if "plan = Some p" for p
    using assms(1) that RunOnce_generated by blast
  then have wf: "plan_wf (ap_Steps p)" if "plan = Some p" for p using that by (auto simp: plan_ready_def)
  have "le_hasAuditor (with_generator g retries prompts x)" using assms(2) by (simp add: with_generator_def)
  from RunOnce_row [OF assms(1) this assms(3) wf assms(4,5)] ready wf plan_wf_layers show ?thesis by blast
qed

definition sample_prompts :: "string \<Rightarrow> loop_budget \<Rightarrow> string \<Rightarrow> nat \<Rightarrow> gen_input \<times> string \<times> string" where
  "sample_prompts ns b h w = (sample_input, ''s'', ''u'')"

definition sample_counter_env :: "nat loop_env" where
  "sample_counter_env =
     \<lparr>le_Apply = (\<lambda>m w. (Inr ''uid'', w)), le_ListActive = (\<lambda>w. (Inr [], w)),
      le_hasExecutor = True, le_hasAuditor = True, le_now = (\<lambda>w. (int w, w)), le_after = (\<lambda>d w. (False, w)),
      le_cancelled = (\<lambda>w. False), le_Health = None, le_Catalog = (\<lambda>w. (None, w)),
      le_Generate = (\<lambda>ns b h w. (Inl (GenFailed ''offline''), w))\<rparr>"

definition sample_counter_loop :: "nat loop" where
  "sample_counter_loop = \<lparr>lo_Namespaces = [''shop''], lo_Interval = 0, lo_Budget = sample_budget, lo_Hypothesis = '''',
     lo_Control = None, lo_pausedNS = [], lo_refusals = [], lo_slotPoll = 0, lo_audit = [], lo_world = 0\<rparr>"

lemma sample_plan_cycle:
  "\<exists>p l1. plan_cycle (with_generator sample_gen_env 1 sample_prompts sample_counter_env) ''shop'' sample_counter_loop = Some (Inr p, l1)"
proof -
  let ?x = "with_generator sample_gen_env 1 sample_prompts sample_counter_env"
  have slot: "waitForSlot ?x l = Some ((True, 0, 0), lo_world l)" if "lb_MaxConcurrentFaults (lo_Budget l) = 1" for l
    using that by (simp add: waitForSlot_def slot_loop.simps slot_verdict_def with_generator_def sample_counter_env_def
        time_sub_def max_duration_def min_duration_def)
  obtain r told w' where g: "Generate sample_gen_env 1 ''s'' ''u'' sample_input 0 = ((r, told), w')" by (metis prod.collapse)
  have "(case fst (fst (Generate sample_gen_env 1 ''s'' ''u'' sample_input 0)) of Inr _ \<Rightarrow> True | _ \<Rightarrow> False)" by code_simp
  then obtain p where p: "r = Inr p" using g by (cases r) auto
  then have "le_Generate ?x ns b h 0 = (Inr p, w')" for ns b h using g by (simp add: with_generator_def sample_prompts_def)
  then have gen: "\<exists>l1. generate_plan ?x ns l = (Inr p, l1)" if "lo_world l = 0" for ns l
    using that by (simp add: generate_plan_def)
  have gate: "cycle_gate ?x ns l = (Inr (), l)" for ns l
    by (simp add: cycle_gate_def with_generator_def sample_counter_env_def)
  define l0 where "l0 = loop_emit ?x (loop_event EventCycleStarted '''' '''' (ns_payload ''shop'')) sample_counter_loop"
  have l0: "lo_world l0 = 0" "lb_MaxConcurrentFaults (lo_Budget l0) = 1"
    by (simp_all add: l0_def loop_emit_def sample_counter_loop_def sample_budget_def)
  obtain l1 where "generate_plan ?x ''shop'' (l0\<lparr>lo_world := lo_world l0\<rparr>) = (Inr p, l1)" using gen [of "l0\<lparr>lo_world := lo_world l0\<rparr>"] l0(1) by auto
  then have "plan_cycle ?x ''shop'' sample_counter_loop = Some (Inr p, l1)"
    unfolding plan_cycle_def Let_def l0_def [symmetric] slot [OF l0(2)] by (simp add: gate split: unit.split)
  then show ?thesis by blast
qed

theorem RunOnce_recorded_witness:
  "\<exists>p applied l'. RunOnce (with_generator sample_gen_env 1 sample_prompts sample_counter_env) ''shop'' sample_counter_loop (Some p) applied None l'
     \<and> (\<exists>c. Cycles (map2 record_of (replicate (length (lo_audit l')) 7) (lo_audit l')) = [c] \<and> cy_Outcome c = CycleCompleted)"
proof -
  let ?x = "with_generator sample_gen_env 1 sample_prompts sample_counter_env"
  obtain p l1 where "plan_cycle ?x ''shop'' sample_counter_loop = Some (Inr p, l1)" using sample_plan_cycle by blast
  moreover obtain applied l2 where "executePlan ?x ''shop'' p (announce_plan ?x ''shop'' p l1) applied l2"
    using executePlan_total by blast
  ultimately have run: "RunOnce ?x ''shop'' sample_counter_loop (Some p) applied None (complete_cycle ?x ''shop'' p applied l2)"
    by (rule RunOnce.ran)
  have "le_hasAuditor sample_counter_env" "lo_audit sample_counter_loop = []"
    by (simp_all add: sample_counter_env_def sample_counter_loop_def)
  with RunOnce_recorded [OF run, of "lo_audit (complete_cycle ?x ''shop'' p applied l2)"
      "replicate (length (lo_audit (complete_cycle ?x ''shop'' p applied l2))) 7"] run
  show ?thesis by (intro exI [of _ p] exI [of _ applied] exI [of _ "complete_cycle ?x ''shop'' p applied l2"])
      (auto simp: cycle_reads_def)
qed

end
