(* ===== verification/Network_Policy.thy ===== *)
theory Network_Policy
  imports Topology_Graph Lease_Registry Go_Time_Facts
begin

text \<open>
  The NetworkPolicy driver, \<^verbatim>\<open>src/pkg/driver/networkpolicy/driver.go\<close>: a partition
  is a policy without rules, and its deadline is written on the object, so that
  a later process can reap it or adopt it.  The Kubernetes API is a parameter
  over a state \<open>'w\<close>; \<open>np_laws\<close> states what its documentation promises of create,
  delete and list.

  Shown here: a reap deletes exactly the expired managed policies, and a policy
  outlives the process that created it until its deadline and not beyond.
\<close>

section \<open>The API\<close>

definition NetworkPolicyKind :: string where "NetworkPolicyKind = ''NetworkPolicy''"
definition ManagedLabel :: string where [const_defs]: "ManagedLabel = ''simian.chaos/managed''"
definition FaultUIDLabel :: string where [const_defs]: "FaultUIDLabel = ''simian.chaos/fault-uid''"
definition ExpiryAnnotation :: string where "ExpiryAnnotation = ''simian.chaos/expires-at''"

datatype k8s_error = KNotFound string | KError string

text \<open>\<open>na_List\<close> lists the policies of a namespace that carry the managed label.\<close>

record 'w np_api =
  na_Create :: "network_policy \<Rightarrow> 'w \<Rightarrow> (string + string \<times> string) \<times> 'w"
  na_Delete :: "string \<Rightarrow> string \<Rightarrow> 'w \<Rightarrow> k8s_error option \<times> 'w"
  na_List :: "string \<Rightarrow> 'w \<Rightarrow> (k8s_error + network_policy list) \<times> 'w"
  na_now :: "'w \<Rightarrow> gotime \<times> 'w"
  na_ulid :: "'w \<Rightarrow> string \<times> 'w"

section \<open>The spec of a partition\<close>

definition extractLabelSelectors :: "jobj \<Rightarrow> string + string gomap" where
  "extractLabelSelectors spec =
     (case map_of spec ''labelSelectors'' of
        None \<Rightarrow> Inl ''spec.labelSelectors is required''
      | Some raw \<Rightarrow>
          (case as_obj (Some raw) of
             None \<Rightarrow> Inl ''spec.labelSelectors must be an object''
           | Some m \<Rightarrow>
               if m = [] then Inl ''spec.labelSelectors must not be empty''
               else case find (\<lambda>p. as_str (Some (snd p)) = None) m of
                      Some p \<Rightarrow> Inl (sprintf ''spec.labelSelectors[%] must be a string'' [AQ (fst p)])
                    | None \<Rightarrow> Inr (map (\<lambda>p. (fst p, str_or_empty (Some (snd p)))) m)))"

fun strings_or_error :: "nat \<Rightarrow> json list \<Rightarrow> string + string list" where
  "strings_or_error i [] = Inr []"
| "strings_or_error i (v # vs) =
     (case as_str (Some v) of
        None \<Rightarrow> Inl (sprintf ''spec.directions[%] must be a string'' [AD (int i)])
      | Some s \<Rightarrow> map_sum id (\<lambda>rest. s # rest) (strings_or_error (Suc i) vs))"

definition both_directions :: "string list" where
  "both_directions = [''ingress'', ''egress'']"

definition extractDirections :: "jobj \<Rightarrow> string + string list" where
  "extractDirections spec =
     (case map_of spec ''directions'' of
        None \<Rightarrow> Inr both_directions
      | Some raw \<Rightarrow>
          (case as_arr (Some raw) of
             None \<Rightarrow> Inl ''spec.directions must be an array of strings''
           | Some arr \<Rightarrow> if arr = [] then Inr both_directions else strings_or_error 0 arr))"

fun policy_types :: "string list \<Rightarrow> string + string list" where
  "policy_types [] = Inr []"
| "policy_types (dir # dirs) =
     (if to_lower dir = ''ingress'' then map_sum id (\<lambda>r. ''Ingress'' # r) (policy_types dirs)
      else if to_lower dir = ''egress'' then map_sum id (\<lambda>r. ''Egress'' # r) (policy_types dirs)
      else Inl (sprintf ''invalid direction % (must be ingress or egress)'' [AQ dir]))"

text \<open>No rules for a direction that is listed, which denies it; nil otherwise.\<close>

definition emptyIfTyped :: "string \<Rightarrow> string list \<Rightarrow> string gomap option list list option" where
  "emptyIfTyped typ types = (if typ \<in> set types then Some [] else None)"

section \<open>The deadline on the object\<close>

definition expiryAnnotation :: "gotime \<Rightarrow> duration \<Rightarrow> string gomap" where
  "expiryAnnotation now d = (if d \<le> 0 then [] else [(ExpiryAnnotation, format_rfc3339 (now + d))])"

definition parseExpiry :: "string gomap \<Rightarrow> gotime option" where
  "parseExpiry ann =
     (case map_of ann ExpiryAnnotation of
        None \<Rightarrow> None
      | Some raw \<Rightarrow> if raw = '''' then None else parse_rfc3339 raw)"

definition engineUID :: "string \<Rightarrow> string \<Rightarrow> string" where
  "engineUID ns name = ns @ ''/'' @ name"

definition decodeEngineUID :: "string \<Rightarrow> string + string \<times> string" where
  "decodeEngineUID s =
     (if CHR ''/'' \<notin> set s then Inl (sprintf ''invalid engineUID %'' [AQ s])
      else Inr (takeWhile (\<lambda>c. c \<noteq> CHR ''/'') s, tl (dropWhile (\<lambda>c. c \<noteq> CHR ''/'') s)))"

lemma decode_engineUID: "CHR ''/'' \<notin> set ns \<Longrightarrow> decodeEngineUID (engineUID ns name) = Inr (ns, name)"
proof -
  assume ns: "CHR ''/'' \<notin> set ns"
  then have "takeWhile (\<lambda>c. c \<noteq> CHR ''/'') (ns @ ''/'' @ name) = ns" "dropWhile (\<lambda>c. c \<noteq> CHR ''/'') (ns @ ''/'' @ name) = ''/'' @ name"
    by (induction ns) auto
  then show ?thesis by (simp add: decodeEngineUID_def engineUID_def)
qed

section \<open>Apply and Clear\<close>

definition policy_for :: "string \<Rightarrow> string \<Rightarrow> fault_manifest \<Rightarrow> string gomap \<Rightarrow> string list \<Rightarrow> gotime \<Rightarrow> network_policy" where
  "policy_for name ns m labels types now =
     \<lparr>np_Namespace = ns, np_Name = name,
      np_Labels = [(ManagedLabel, ''true''), (FaultUIDLabel, m_UID m)],
      np_Annotations = expiryAnnotation now (m_Duration m), np_Created = 0, np_Deleting = False,
      np_PodSelector = labels, np_PolicyTypes = types,
      np_Ingress = emptyIfTyped ''Ingress'' types, np_Egress = emptyIfTyped ''Egress'' types\<rparr>"

definition partition_spec :: "jobj \<Rightarrow> string + string gomap \<times> string list" where
  "partition_spec spec =
     bindR (extractLabelSelectors spec) (\<lambda>labels.
     bindR (extractDirections spec) (\<lambda>dirs.
     bindR (policy_types dirs) (\<lambda>types. Inr (labels, types))))"

definition NP_Apply :: "'w np_api \<Rightarrow> string \<Rightarrow> fault_manifest \<Rightarrow> 'w \<Rightarrow> (goerror + string) \<times> 'w" where
  "NP_Apply api namePrefix m w =
     (case m_Targets m of
        [] \<Rightarrow> (Inl (GoErr ''network-policy apply: manifest has no targets''), w)
      | t # _ \<Rightarrow>
          if t_Namespace t = '''' then (Inl (GoErr ''network-policy apply: manifest target has no namespace''), w)
          else case partition_spec (spec_map m) of
                 Inl e \<Rightarrow> (Inl (GoErr (''network-policy apply: '' @ e)), w)
               | Inr (labels, types) \<Rightarrow>
                   case na_ulid api w of (u, w1) \<Rightarrow>
                   case na_now api w1 of (now, w2) \<Rightarrow>
                   case na_Create api (policy_for (namePrefix @ to_lower u) (t_Namespace t) m labels types now) w2 of
                     (Inl e, w3) \<Rightarrow> (Inl (GoErr (''network-policy apply: create: '' @ e)), w3)
                   | (Inr (ns, name), w3) \<Rightarrow> (Inr (engineUID ns name), w3))"

definition NP_Clear :: "'w np_api \<Rightarrow> string \<Rightarrow> 'w \<Rightarrow> goerror option \<times> 'w" where
  "NP_Clear api uid w =
     (case decodeEngineUID uid of
        Inl e \<Rightarrow> (Some (GoErr e), w)
      | Inr (ns, name) \<Rightarrow>
          (case na_Delete api ns name w of
             (Some (KError e), w') \<Rightarrow> (Some (GoErr (sprintf ''network-policy clear %/%: %'' [AS ns, AS name, AS e])), w')
           | (_, w') \<Rightarrow> (None, w')))"

section \<open>Reaping and adopting\<close>

definition expired_before :: "gotime \<Rightarrow> network_policy \<Rightarrow> bool" where
  "expired_before now np \<longleftrightarrow> (case parseExpiry (np_Annotations np) of None \<Rightarrow> False | Some e \<Rightarrow> e < now)"

text \<open>The engine UIDs cleared, by namespace and name, and the errors.\<close>

type_synonym reaped = "(string \<times> string) list \<times> string list"

fun reap_items :: "'w np_api \<Rightarrow> string \<Rightarrow> gotime \<Rightarrow> network_policy list \<Rightarrow> reaped \<Rightarrow> 'w \<Rightarrow> reaped \<times> 'w" where
  "reap_items api ns now [] acc w = (acc, w)"
| "reap_items api ns now (np # nps) (cleared, errs) w =
     (if \<not> expired_before now np then reap_items api ns now nps (cleared, errs) w
      else case na_Delete api ns (np_Name np) w of
             (Some (KError e), w') \<Rightarrow>
               reap_items api ns now nps (cleared, errs @ [sprintf ''network-policy reap: delete %/%: %'' [AS ns, AS (np_Name np), AS e]]) w'
           | (_, w') \<Rightarrow> reap_items api ns now nps (cleared @ [(ns, np_Name np)], errs) w')"

fun reap_namespaces :: "'w np_api \<Rightarrow> gotime \<Rightarrow> string list \<Rightarrow> reaped \<Rightarrow> 'w \<Rightarrow> reaped \<times> 'w" where
  "reap_namespaces api now [] acc w = (acc, w)"
| "reap_namespaces api now (ns # nss) (cleared, errs) w =
     (case na_List api ns w of
        (Inl (KNotFound _), w') \<Rightarrow> reap_namespaces api now nss (cleared, errs) w'
      | (Inl (KError e), w') \<Rightarrow>
          reap_namespaces api now nss (cleared, errs @ [sprintf ''network-policy reap: list in %: %'' [AS ns, AS e]]) w'
      | (Inr items, w') \<Rightarrow>
          (case reap_items api ns now items (cleared, errs) w' of (acc, w2) \<Rightarrow> reap_namespaces api now nss acc w2))"

definition ReapExpired :: "'w np_api \<Rightarrow> string list \<Rightarrow> gotime \<Rightarrow> 'w \<Rightarrow> (string list \<times> goerror option) \<times> 'w" where
  "ReapExpired api namespaces now w =
     (case reap_namespaces api now namespaces ([], []) w of
        ((cleared, errs), w') \<Rightarrow> ((map (\<lambda>k. engineUID (fst k) (snd k)) cleared, join_errors errs), w'))"

definition live_policy :: "string \<Rightarrow> gotime \<Rightarrow> network_policy \<Rightarrow> active_fault option" where
  "live_policy ns now np =
     (let faultUID = (case map_of (np_Labels np) FaultUIDLabel of Some u \<Rightarrow> u | None \<Rightarrow> '''')
      in case parseExpiry (np_Annotations np) of
           None \<Rightarrow> None
         | Some expiry \<Rightarrow>
             if np_Deleting np \<or> faultUID = '''' \<or> \<not> now < expiry then None
             else Some \<lparr>af_FaultUID = faultUID, af_EngineUID = engineUID ns (np_Name np),
                    af_Manifest = empty_manifest\<lparr>m_UID := faultUID, m_Engine := EngineNetworkPolicy,
                      m_Targets := ObjectTargets (np_Labels np) (np_Annotations np) ns\<rparr>,
                    af_AppliedAt = np_Created np, af_Deadline = expiry, af_Holder = '''', af_LastBeat = 0\<rparr>)"

fun list_live :: "'w np_api \<Rightarrow> gotime \<Rightarrow> string list \<Rightarrow> 'w \<Rightarrow> (active_fault list \<times> string list) \<times> 'w" where
  "list_live api now [] w = (([], []), w)"
| "list_live api now (ns # nss) w =
     (case na_List api ns w of (r, w1) \<Rightarrow>
      case list_live api now nss w1 of ((out, errs), w2) \<Rightarrow>
        (case r of
           Inl (KNotFound _) \<Rightarrow> ((out, errs), w2)
         | Inl (KError e) \<Rightarrow> ((out, sprintf ''network-policy list live: %: %'' [AS ns, AS e] # errs), w2)
         | Inr items \<Rightarrow> ((List.map_filter (live_policy ns now) items @ out, errs), w2)))"

definition ListLive :: "'w np_api \<Rightarrow> string list \<Rightarrow> gotime \<Rightarrow> 'w \<Rightarrow> (active_fault list \<times> goerror option) \<times> 'w" where
  "ListLive api namespaces now w = (case list_live api now namespaces w of ((out, errs), w') \<Rightarrow> ((out, join_errors errs), w'))"

text \<open>The driver as the executor, the reaper and the adoption see it.\<close>

definition network_policy_driver :: "'w np_api \<Rightarrow> string \<Rightarrow> 'w chaos_driver" where
  "network_policy_driver api namePrefix =
     \<lparr>d_Engine = EngineNetworkPolicy,
      d_Apply = (\<lambda>ctx m w. case NP_Apply api (if namePrefix = '''' then ''simian-np-'' else namePrefix) m w of (r, w') \<Rightarrow> (r, [], w')),
      d_Clear = NP_Clear api, d_Confirm = None, d_CheckTargets = None,
      d_ReapExpired = Some (ReapExpired api), d_ListLive = Some (ListLive api)\<rparr>"

section \<open>What the API promises\<close>

text \<open>
  The view of a state is the policies the API server holds.  A created policy has
  the name it was given and a creation time; a deleted one is gone; a failed call may
  or may not have taken effect; a list holds each managed policy of the namespace.
\<close>

type_synonym policies = "string \<times> string \<Rightarrow> network_policy option"

definition managed :: "network_policy \<Rightarrow> bool" where
  "managed np \<longleftrightarrow> map_of (np_Labels np) ManagedLabel = Some ''true''"

definition held :: "policies \<Rightarrow> string \<Rightarrow> network_policy set" where
  "held ps ns = {np. managed np \<and> ps (ns, np_Name np) = Some np}"

definition np_laws :: "'w np_api \<Rightarrow> ('w \<Rightarrow> policies) \<Rightarrow> bool" where
  "np_laws api view \<longleftrightarrow>
     (\<forall>w np. case na_Create api np w of
        (Inl _, _) \<Rightarrow> True
      | (Inr k, w') \<Rightarrow> k = (np_Namespace np, np_Name np) \<and> (\<exists>t. view w' k = Some (np\<lparr>np_Created := t\<rparr>))) \<and>
     (\<forall>w ns name. case na_Delete api ns name w of
        (None, w') \<Rightarrow> view w' = (view w)((ns, name) := None)
      | (Some (KNotFound _), w') \<Rightarrow> view w' = view w \<and> view w (ns, name) = None
      | (Some (KError _), w') \<Rightarrow> view w' = view w \<or> view w' = (view w)((ns, name) := None)) \<and>
     (\<forall>w ns. view (snd (na_List api ns w)) = view w \<and>
        (case fst (na_List api ns w) of
           Inr items \<Rightarrow> set items = held (view w) ns
         | Inl (KNotFound _) \<Rightarrow> held (view w) ns = {}
         | Inl (KError _) \<Rightarrow> True))"

lemma create_law:
  assumes "np_laws api view" "na_Create api np w = (Inr k, w')"
  shows "k = (np_Namespace np, np_Name np) \<and> (\<exists>t. view w' k = Some (np\<lparr>np_Created := t\<rparr>))"
proof -
  have "case na_Create api np w of
        (Inl _, _) \<Rightarrow> True
      | (Inr k, w') \<Rightarrow> k = (np_Namespace np, np_Name np) \<and> (\<exists>t. view w' k = Some (np\<lparr>np_Created := t\<rparr>))"
    by (rule spec [OF spec [OF assms(1) [unfolded np_laws_def, THEN conjunct1]]])
  from this [unfolded assms(2) prod.case sum.case] show ?thesis .
qed

lemma delete_law:
  assumes "np_laws api view" "na_Delete api ns name w = (r, w')"
  shows "view w' = view w \<or> view w' = (view w)((ns, name) := None)"
    and "\<forall>e. r \<noteq> Some (KError e) \<Longrightarrow> view w' (ns, name) = None"
proof -
  have "case na_Delete api ns name w of
        (None, w') \<Rightarrow> view w' = (view w)((ns, name) := None)
      | (Some (KNotFound _), w') \<Rightarrow> view w' = view w \<and> view w (ns, name) = None
      | (Some (KError _), w') \<Rightarrow> view w' = view w \<or> view w' = (view w)((ns, name) := None)"
    by (rule spec [OF spec [OF spec [OF assms(1) [unfolded np_laws_def, THEN conjunct2, THEN conjunct1]]]])
  with assms(2) show "view w' = view w \<or> view w' = (view w)((ns, name) := None)"
    "\<forall>e. r \<noteq> Some (KError e) \<Longrightarrow> view w' (ns, name) = None"
    by (auto split: option.splits k8s_error.splits)
qed

lemma list_law:
  assumes "np_laws api view" "na_List api ns w = (r, w')"
  shows "view w' = view w" "r = Inr items \<Longrightarrow> set items = held (view w) ns"
    "r = Inl (KNotFound e) \<Longrightarrow> held (view w) ns = {}"
proof -
  have "view (snd (na_List api ns w)) = view w \<and>
        (case fst (na_List api ns w) of
           Inr items \<Rightarrow> set items = held (view w) ns
         | Inl (KNotFound _) \<Rightarrow> held (view w) ns = {}
         | Inl (KError _) \<Rightarrow> True)"
    by (rule spec [OF spec [OF assms(1) [unfolded np_laws_def, THEN conjunct2, THEN conjunct2]]])
  with assms(2) show "view w' = view w" "r = Inr items \<Longrightarrow> set items = held (view w) ns"
    "r = Inl (KNotFound e) \<Longrightarrow> held (view w) ns = {}" by auto
qed

section \<open>A reap removes what has expired\<close>

definition expired_keys :: "gotime \<Rightarrow> policies \<Rightarrow> string list \<Rightarrow> (string \<times> string) set" where
  "expired_keys now ps nss = {(ns, np_Name np) |ns np. ns \<in> set nss \<and> np \<in> held ps ns \<and> expired_before now np}"

lemma in_expired:
  "(ns, n) \<in> expired_keys now ps nss \<longleftrightarrow> ns \<in> set nss \<and> (\<exists>np\<in>held ps ns. np_Name np = n \<and> expired_before now np)"
  by (auto simp: expired_keys_def)

lemma expired_keysD:
  assumes "k \<in> expired_keys now ps nss"
  shows "\<exists>np e. ps k = Some np \<and> fst k \<in> set nss \<and> managed np \<and> parseExpiry (np_Annotations np) = Some e \<and> e < now"
proof (cases k)
  case (Pair ns n)
  with assms obtain np where "ns \<in> set nss" "np \<in> held ps ns" "np_Name np = n" "expired_before now np"
    by (auto simp: in_expired)
  with Pair show ?thesis by (intro exI [of _ np]) (auto simp: held_def expired_before_def split: option.splits)
qed

lemma removes_held: "removes E ps ps' \<Longrightarrow> held ps' ns \<subseteq> held ps ns"
  unfolding removes_def held_def by (auto, metis option.distinct(1))

lemma removes_expired: "removes E ps ps' \<Longrightarrow> expired_keys now ps' nss \<subseteq> expired_keys now ps nss"
  using removes_held unfolding expired_keys_def by blast

lemma expired_kept:
  assumes "removes E ps ps'" "k \<in> expired_keys now ps nss" "k \<notin> E"
  shows "k \<in> expired_keys now ps' nss"
proof -
  from assms(1,3) have "ps' k = ps k" unfolding removes_def by metis
  with assms(2) show ?thesis unfolding expired_keys_def held_def by auto
qed

lemma reap_items_removes:
  assumes laws: "np_laws api view"
  shows "reap_items api ns now nps (cleared, errs) w = ((cleared', errs'), w') \<Longrightarrow>
     (let E = {(ns, np_Name np) |np. np \<in> set nps \<and> expired_before now np} in
      \<exists>ks es. cleared' = cleared @ ks \<and> errs' = errs @ es \<and> removes E (view w) (view w') \<and>
        set ks \<subseteq> E \<and> (\<forall>k\<in>set ks. view w' k = None) \<and> (es = [] \<longrightarrow> E = set ks))"
proof (induction nps arbitrary: cleared errs w)
  case Nil
  then show ?case by auto
next
  case (Cons np nps)
  let ?E = "\<lambda>nps. {(ns, np_Name np) |np. np \<in> set nps \<and> expired_before now np}"
  let ?k = "(ns, np_Name np)"
  show ?case
  proof (cases "expired_before now np")
    case False
    then have "?E (np # nps) = ?E nps" by auto
    with Cons.IH [of cleared errs w] Cons.prems False show ?thesis by (simp add: Let_def)
  next
    case True
    then have E: "?E (np # nps) = insert ?k (?E nps)" by auto
    obtain r w1 where del: "na_Delete api ns (np_Name np) w = (r, w1)" by fastforce
    have rm: "removes {?k} (view w) (view w1)" using delete_law(1) [OF laws del] by (metis removes_refl removes_upd)
    show ?thesis
    proof (cases "\<exists>e. r = Some (KError e)")
      case True
      then obtain e where e: "r = Some (KError e)" by blast
      with Cons.prems \<open>expired_before now np\<close> del obtain msg where
        "reap_items api ns now nps (cleared, errs @ [msg]) w1 = ((cleared', errs'), w')" by auto
      from Cons.IH [OF this] obtain ks es where ih: "cleared' = cleared @ ks" "errs' = errs @ msg # es"
        "removes (?E nps) (view w1) (view w')" "set ks \<subseteq> ?E nps" "\<forall>k\<in>set ks. view w' k = None"
        by (auto simp: Let_def)
      have "removes (insert ?k (?E nps)) (view w) (view w')"
        using removes_trans [OF rm ih(3)] by (simp add: insert_is_Un [symmetric])
      with ih show ?thesis unfolding Let_def E by (intro exI [of _ ks] exI [of _ "msg # es"]) auto
    next
      case False
      then have gone: "view w1 ?k = None" using delete_law(2) [OF laws del] by blast
      from False Cons.prems \<open>expired_before now np\<close> del have
        "reap_items api ns now nps (cleared @ [?k], errs) w1 = ((cleared', errs'), w')"
        by (auto split: option.splits k8s_error.splits)
      from Cons.IH [OF this] obtain ks es where ih: "cleared' = cleared @ ?k # ks" "errs' = errs @ es"
        "removes (?E nps) (view w1) (view w')" "set ks \<subseteq> ?E nps" "\<forall>k\<in>set ks. view w' k = None"
        "es = [] \<longrightarrow> ?E nps = set ks" by (auto simp: Let_def)
      have "removes (insert ?k (?E nps)) (view w) (view w')"
        using removes_trans [OF rm ih(3)] by (simp add: insert_is_Un [symmetric])
      with ih removes_None [OF ih(3) gone] show ?thesis
        unfolding Let_def E by (intro exI [of _ "?k # ks"] exI [of _ es]) auto
    qed
  qed
qed

lemma expired_Cons:
  "expired_keys now ps (ns # nss) = {(ns, np_Name np) |np. np \<in> held ps ns \<and> expired_before now np} \<union> expired_keys now ps nss"
  unfolding expired_keys_def by auto

lemma reap_namespaces_removes:
  assumes laws: "np_laws api view"
  shows "reap_namespaces api now nss (cleared, errs) w = ((cleared', errs'), w') \<Longrightarrow>
     \<exists>ks es. cleared' = cleared @ ks \<and> errs' = errs @ es \<and> removes (expired_keys now (view w) nss) (view w) (view w') \<and>
       set ks \<subseteq> expired_keys now (view w) nss \<and> (\<forall>k\<in>set ks. view w' k = None) \<and>
       (es = [] \<longrightarrow> expired_keys now (view w) nss = set ks)"
proof (induction nss arbitrary: cleared errs w)
  case Nil
  then show ?case by (auto simp: expired_keys_def)
next
  case (Cons ns nss)
  let ?E = "expired_keys now (view w)"
  obtain r w1 where ls: "na_List api ns w = (r, w1)" by fastforce
  have v1: "view w1 = view w" by (rule list_law(1) [OF laws ls])
  show ?case
  proof (cases r)
    case (Inr items)
    let ?F = "{(ns, np_Name np) |np. np \<in> held (view w) ns \<and> expired_before now np}"
    obtain c e w2 where it: "reap_items api ns now items (cleared, errs) w1 = ((c, e), w2)" by (metis prod.exhaust)
    from reap_items_removes [OF laws it] list_law(2) [OF laws ls Inr] obtain ks es where
      ks: "c = cleared @ ks" "e = errs @ es" "removes ?F (view w) (view w2)" "set ks \<subseteq> ?F"
      "\<forall>k\<in>set ks. view w2 k = None" "es = [] \<longrightarrow> ?F = set ks"
      by (auto simp: Let_def v1)
    from Cons.prems ls Inr it have "reap_namespaces api now nss (c, e) w2 = ((cleared', errs'), w')" by simp
    from Cons.IH [OF this] obtain ks' es' where
      ks': "cleared' = c @ ks'" "errs' = e @ es'" "removes (expired_keys now (view w2) nss) (view w2) (view w')"
      "set ks' \<subseteq> expired_keys now (view w2) nss" "\<forall>k\<in>set ks'. view w' k = None"
      "es' = [] \<longrightarrow> expired_keys now (view w2) nss = set ks'" by blast
    have sub: "expired_keys now (view w2) nss \<subseteq> ?E nss" by (rule removes_expired [OF ks(3)])
    have sp: "?E nss \<subseteq> ?F \<union> expired_keys now (view w2) nss" using expired_kept [OF ks(3)] by blast
    have "removes (?F \<union> ?E nss) (view w) (view w')"
      by (rule removes_mono [OF removes_trans [OF ks(3) ks'(3)]]) (use sub in blast)
    moreover have "\<forall>k\<in>set (ks @ ks'). view w' k = None" using ks(5) ks'(5) removes_None [OF ks'(3)] by auto
    moreover have "set (ks @ ks') \<subseteq> ?F \<union> ?E nss" using ks(4) ks'(4) sub by auto
    moreover have "es @ es' = [] \<longrightarrow> ?F \<union> ?E nss = set (ks @ ks')" using ks(6) ks'(6) sub sp by auto
    ultimately show ?thesis using ks(1,2) ks'(1,2) unfolding expired_Cons
      by (intro exI [of _ "ks @ ks'"] exI [of _ "es @ es'"]) (simp add: Un_assoc)
  next
    case (Inl err)
    show ?thesis
    proof (cases err)
      case (KNotFound m)
      then have "?E (ns # nss) = ?E nss" using list_law(3) [OF laws ls] Inl unfolding expired_Cons by simp
      moreover from Cons.prems ls Inl KNotFound have "reap_namespaces api now nss (cleared, errs) w1 = ((cleared', errs'), w')" by simp
      note Cons.IH [OF this, unfolded v1]
      ultimately show ?thesis by simp
    next
      case (KError m)
      with Cons.prems ls Inl obtain msg where
        "reap_namespaces api now nss (cleared, errs @ [msg]) w1 = ((cleared', errs'), w')" by auto
      from Cons.IH [OF this, unfolded v1] obtain ks es where
        ks: "cleared' = cleared @ ks" "errs' = errs @ msg # es" "removes (?E nss) (view w) (view w')"
        "set ks \<subseteq> ?E nss" "\<forall>k\<in>set ks. view w' k = None" by auto
      have "removes (?E (ns # nss)) (view w) (view w')" by (rule removes_mono [OF ks(3)]) (simp add: expired_Cons)
      moreover have "set ks \<subseteq> ?E (ns # nss)" using ks(4) by (auto simp: expired_Cons)
      ultimately show ?thesis using ks(1,2,5) by (intro exI [of _ ks] exI [of _ "msg # es"]) simp
    qed
  qed
qed

lemma ReapExpired_removes:
  assumes "np_laws api view" "ReapExpired api nss now w = ((uids, err), w')"
  obtains ks where "uids = map (\<lambda>k. engineUID (fst k) (snd k)) ks"
     "removes (expired_keys now (view w) nss) (view w) (view w')"
     "set ks \<subseteq> expired_keys now (view w) nss" "\<forall>k\<in>set ks. view w' k = None"
     "err = None \<longrightarrow> set ks = expired_keys now (view w) nss"
proof -
  obtain c e w2 where r: "reap_namespaces api now nss ([], []) w = ((c, e), w2)" by (metis prod.exhaust)
  with assms(2) have u: "uids = map (\<lambda>k. engineUID (fst k) (snd k)) c" "err = join_errors e" "w2 = w'"
    by (auto simp: ReapExpired_def)
  have "join_errors e = None \<Longrightarrow> e = []" by (simp add: join_errors_def split: if_splits)
  with u reap_namespaces_removes [OF assms(1) r] show thesis by (intro that [of c]) auto
qed

section \<open>What the cluster remembers\<close>

text \<open>A listing without errors has exactly the live policies, read off their objects.\<close>

definition live_faults :: "gotime \<Rightarrow> policies \<Rightarrow> string list \<Rightarrow> active_fault set" where
  "live_faults now ps nss = {af. \<exists>ns\<in>set nss. \<exists>np\<in>held ps ns. live_policy ns now np = Some af}"

lemma list_live_faults:
  assumes laws: "np_laws api view"
  shows "list_live api now nss w = ((out, []), w') \<Longrightarrow> view w' = view w \<and> set out = live_faults now (view w) nss"
proof (induction nss arbitrary: w out)
  case Nil
  then show ?case by (simp add: live_faults_def)
next
  case (Cons ns nss)
  obtain r w1 where ls: "na_List api ns w = (r, w1)" by fastforce
  have v1: "view w1 = view w" by (rule list_law(1) [OF laws ls])
  obtain o2 e2 w2 where rest: "list_live api now nss w1 = ((o2, e2), w2)" by (metis prod.exhaust)
  with Cons.prems ls have e2: "e2 = []" "w2 = w'" by (auto split: sum.splits k8s_error.splits)
  with Cons.IH rest have ih: "view w' = view w" "set o2 = live_faults now (view w) nss" by (auto simp: v1)
  show ?case
  proof (cases r)
    case (Inr items)
    with Cons.prems ls rest e2 have "out = List.map_filter (live_policy ns now) items @ o2" by simp
    moreover have "set (List.map_filter f xs) = {y. \<exists>x\<in>set xs. f x = Some y}" for f :: "network_policy \<Rightarrow> active_fault option" and xs
      by (force simp: List.map_filter_def)
    ultimately show ?thesis using ih list_law(2) [OF laws ls Inr] by (auto simp: live_faults_def)
  next
    case (Inl err)
    with Cons.prems ls rest e2 obtain m where "err = KNotFound m" "out = o2" by (auto split: k8s_error.splits)
    with ih list_law(3) [OF laws ls] Inl show ?thesis by (auto simp: live_faults_def)
  qed
qed

lemma ListLive_faults:
  assumes "np_laws api view" "ListLive api nss now w = ((out, None), w')"
  shows "view w' = view w" "set out = live_faults now (view w) nss"
proof -
  obtain o2 e2 w2 where r: "list_live api now nss w = ((o2, e2), w2)" by (metis prod.exhaust)
  with assms(2) have "o2 = out" "w2 = w'" "e2 = []" by (auto simp: ListLive_def join_errors_def split: if_splits)
  with list_live_faults [OF assms(1)] r show "view w' = view w" "set out = live_faults now (view w) nss" by auto
qed

text \<open>What a successful apply leaves on the cluster.\<close>

lemma rfc3339_Nil: "parse_rfc3339 '''' = None"
  by code_simp

lemma NP_Apply_creates:
  assumes laws: "np_laws api view" and ap: "NP_Apply api namePrefix m w = (Inr uid, w')"
    and at: "fst (na_now api (snd (na_ulid api w))) = t"
    and d: "0 < m_Duration m" "0 \<le> t + m_Duration m" "(t + m_Duration m) div sec < days_before_year 10000 * 86400"
  shows "\<exists>ns name np. uid = engineUID ns name \<and> ns = t_Namespace (hd (m_Targets m)) \<and> ns \<noteq> '''' \<and>
     view w' (ns, name) = Some np \<and> np_Name np = name \<and> managed np \<and> \<not> np_Deleting np \<and>
     map_of (np_Labels np) FaultUIDLabel = Some (m_UID m) \<and>
     parseExpiry (np_Annotations np) = Some (trunc_sec (t + m_Duration m))"
proof -
  obtain tg ts where tg: "m_Targets m = tg # ts" "t_Namespace tg \<noteq> ''''"
    using ap by (cases "m_Targets m") (auto simp: NP_Apply_def split: if_splits)
  obtain labels types where sp: "partition_spec (spec_map m) = Inr (labels, types)"
    using ap tg by (cases "partition_spec (spec_map m)") (auto simp: NP_Apply_def)
  obtain u w1 where u: "na_ulid api w = (u, w1)" by fastforce
  obtain w2 where n: "na_now api w1 = (t, w2)" using at u by (cases "na_now api w1") auto
  define np where "np = policy_for (namePrefix @ to_lower u) (t_Namespace tg) m labels types t"
  obtain k where cr: "na_Create api np w2 = (Inr k, w')" and uid: "uid = engineUID (fst k) (snd k)"
    using ap tg sp u n by (fastforce simp: NP_Apply_def np_def [symmetric] split: sum.splits prod.splits)
  from create_law [OF laws cr] obtain c where k: "k = (t_Namespace tg, np_Name np)"
    "view w' k = Some (np\<lparr>np_Created := c\<rparr>)" by (auto simp: np_def policy_for_def)
  have "format_rfc3339 (t + m_Duration m) \<noteq> ''''"
    using parse_format_rfc3339 [OF d(2,3)] rfc3339_Nil by (metis option.distinct(1))
  with parse_format_rfc3339 [OF d(2,3)] d(1) have "parseExpiry (np_Annotations np) = Some (trunc_sec (t + m_Duration m))"
    by (simp add: np_def policy_for_def parseExpiry_def expiryAnnotation_def)
  with k uid tg show ?thesis
    by (intro exI [of _ "t_Namespace tg"] exI [of _ "np_Name np"] exI [of _ "np\<lparr>np_Created := c\<rparr>"])
      (simp add: np_def policy_for_def managed_def const_defs)
qed

lemma engineUID_inject:
  assumes "CHR ''/'' \<notin> set ns" "CHR ''/'' \<notin> set ns'" "engineUID ns n = engineUID ns' n'"
  shows "ns = ns' \<and> n = n'"
  using decode_engineUID [OF assms(1), of n] decode_engineUID [OF assms(2), of n'] unfolding assms(3)
  by (simp only: sum.inject prod.inject simp_thms)

section \<open>The API on a store\<close>

text \<open>A store that keeps its policies in a list, on which the properties are tried.\<close>

definition store_view :: "network_policy list \<Rightarrow> policies" where
  "store_view w k = find (\<lambda>np. (np_Namespace np, np_Name np) = k) w"

definition policy_store :: "gotime \<Rightarrow> network_policy list np_api" where
  "policy_store t =
     \<lparr>na_Create = (\<lambda>np w. let k = (np_Namespace np, np_Name np) in
        if store_view w k \<noteq> None then (Inl ''already exists'', w) else (Inr k, np\<lparr>np_Created := t\<rparr> # w)),
      na_Delete = (\<lambda>ns name w. if store_view w (ns, name) = None then (Some (KNotFound ''not found''), w)
        else (None, filter (\<lambda>np. (np_Namespace np, np_Name np) \<noteq> (ns, name)) w)),
      na_List = (\<lambda>ns w. (Inr (filter (\<lambda>np. managed np \<and> store_view w (ns, np_Name np) = Some np) w), w)),
      na_now = (\<lambda>w. (t, w)), na_ulid = (\<lambda>w. (''01J'', w))\<rparr>"

lemma store_view_Cons: "store_view (np # w) = (store_view w)((np_Namespace np, np_Name np) \<mapsto> np)"
  by (auto simp: store_view_def)

lemma store_view_filter:
  "store_view (filter (\<lambda>np. (np_Namespace np, np_Name np) \<noteq> k) w) = (store_view w)(k := None)"
proof (induction w)
  case Nil
  then show ?case by (auto simp: store_view_def)
next
  case (Cons np w)
  then show ?case by (cases "(np_Namespace np, np_Name np) = k") (auto simp: store_view_Cons fun_upd_twist simp del: prod.inject)
qed

lemma store_view_in: "store_view w k = Some np \<Longrightarrow> np \<in> set w"
  by (auto simp: store_view_def find_Some_iff)

lemma policy_store_laws: "np_laws (policy_store t) store_view"
  unfolding np_laws_def
proof (intro conjI allI)
  fix w np
  show "case na_Create (policy_store t) np w of (Inl _, _) \<Rightarrow> True
      | (Inr k, w') \<Rightarrow> k = (np_Namespace np, np_Name np) \<and> (\<exists>t. store_view w' k = Some (np\<lparr>np_Created := t\<rparr>))"
    by (auto simp: policy_store_def Let_def store_view_Cons)
next
  fix w ns name
  show "case na_Delete (policy_store t) ns name w of
        (None, w') \<Rightarrow> store_view w' = (store_view w)((ns, name) := None)
      | (Some (KNotFound _), w') \<Rightarrow> store_view w' = store_view w \<and> store_view w (ns, name) = None
      | (Some (KError _), w') \<Rightarrow> store_view w' = store_view w \<or> store_view w' = (store_view w)((ns, name) := None)"
    by (cases "store_view w (ns, name) = None") (simp_all add: policy_store_def store_view_filter del: prod.inject)
next
  fix w ns
  show "store_view (snd (na_List (policy_store t) ns w)) = store_view w" by (simp add: policy_store_def)
  show "case fst (na_List (policy_store t) ns w) of
           Inr items \<Rightarrow> set items = held (store_view w) ns
         | Inl (KNotFound _) \<Rightarrow> held (store_view w) ns = {}
         | Inl (KError _) \<Rightarrow> True"
    by (auto simp: policy_store_def held_def store_view_in)
qed

text \<open>A store with a partition past its deadline, one that is not, and a policy that is
  not managed.\<close>

definition sample_policies :: "network_policy list" where
  "sample_policies =
     (let np = (\<lambda>name labels dl. \<lparr>np_Namespace = ''arena'', np_Name = name, np_Labels = labels, np_Annotations = expiryAnnotation 0 dl,
           np_Created = 0, np_Deleting = False, np_PodSelector = [], np_PolicyTypes = [], np_Ingress = None, np_Egress = None\<rparr>);
          ours = [(ManagedLabel, ''true''), (FaultUIDLabel, ''f'')]
      in [np ''old'' ours (60 * sec), np ''new'' ours (180 * sec), np ''other'' [] (60 * sec)])"

definition sample_partition :: fault_manifest where
  "sample_partition = empty_manifest\<lparr>m_UID := ''f'', m_Targets := [target_in ''arena''], m_Duration := 60 * sec,
     m_Spec := Some [(''labelSelectors'', JObj [(''app'', JStr ''frontend'')])]\<rparr>"

lemma reap_sample:
  "case ReapExpired (policy_store 0) [''arena''] (120 * sec) sample_policies of
     ((uids, err), w') \<Rightarrow> uids = [''arena/old''] \<and> err = None \<and> map np_Name w' = [''new'', ''other'']"
  by code_simp

lemma apply_sample:
  "case NP_Apply (policy_store (60 * sec)) ''simian-np-'' sample_partition [] of (r, w') \<Rightarrow> r = Inr ''arena/simian-np-01j''"
  by code_simp

section \<open>Properties\<close>

lemma ReapExpired_spec:
  assumes "np_laws api view" "ReapExpired api nss now w = ((uids, err), w')"
  shows "\<forall>k. view w' k \<noteq> view w k \<longrightarrow> view w' k = None \<and>
      (\<exists>np e. view w k = Some np \<and> fst k \<in> set nss \<and> managed np \<and> parseExpiry (np_Annotations np) = Some e \<and> e < now)"
    and "\<forall>uid\<in>set uids. \<exists>ns np. uid = engineUID ns (np_Name np) \<and> np \<in> held (view w) ns \<and> view w' (ns, np_Name np) = None"
    and "err = None \<longrightarrow> (\<forall>ns\<in>set nss. \<forall>np\<in>held (view w') ns. \<not> expired_before now np)"
proof -
  obtain ks where ks: "uids = map (\<lambda>k. engineUID (fst k) (snd k)) ks"
      "removes (expired_keys now (view w) nss) (view w) (view w')"
      "set ks \<subseteq> expired_keys now (view w) nss" "\<forall>k\<in>set ks. view w' k = None"
      "err = None \<longrightarrow> set ks = expired_keys now (view w) nss"
    by (rule ReapExpired_removes [OF assms(1,2)])
  have exp: "\<exists>np e. view w k = Some np \<and> fst k \<in> set nss \<and> managed np \<and> parseExpiry (np_Annotations np) = Some e \<and> e < now"
    if "k \<in> expired_keys now (view w) nss" for k
    by (rule expired_keysD [OF that])
  show "\<forall>k. view w' k \<noteq> view w k \<longrightarrow> view w' k = None \<and>
      (\<exists>np e. view w k = Some np \<and> fst k \<in> set nss \<and> managed np \<and> parseExpiry (np_Annotations np) = Some e \<and> e < now)"
  proof (intro allI impI)
    fix k assume "view w' k \<noteq> view w k"
    with removes_cases [OF ks(2), of k] have "k \<in> expired_keys now (view w) nss" "view w' k = None" by simp_all
    then show "view w' k = None \<and> (\<exists>np e. view w k = Some np \<and> fst k \<in> set nss \<and> managed np \<and>
        parseExpiry (np_Annotations np) = Some e \<and> e < now)" by (intro conjI exp)
  qed
  show "\<forall>uid\<in>set uids. \<exists>ns np. uid = engineUID ns (np_Name np) \<and> np \<in> held (view w) ns \<and> view w' (ns, np_Name np) = None"
  proof
    fix uid assume "uid \<in> set uids"
    with ks(1) obtain ns n where k: "(ns, n) \<in> set ks" "uid = engineUID ns n" by auto
    with ks(3) have "(ns, n) \<in> expired_keys now (view w) nss" by blast
    then obtain np where "np \<in> held (view w) ns" "np_Name np = n" unfolding in_expired by (elim conjE bexE)
    moreover have "view w' (ns, n) = None" using ks(4) k(1) by (rule bspec)
    ultimately show "\<exists>ns np. uid = engineUID ns (np_Name np) \<and> np \<in> held (view w) ns \<and> view w' (ns, np_Name np) = None"
      using k(2) by (intro exI [of _ ns] exI [of _ np]) simp
  qed
  show "err = None \<longrightarrow> (\<forall>ns\<in>set nss. \<forall>np\<in>held (view w') ns. \<not> expired_before now np)"
  proof (intro impI ballI notI)
    fix ns np
    assume a: "err = None" "ns \<in> set nss" "np \<in> held (view w') ns" "expired_before now np"
    then have "(ns, np_Name np) \<in> expired_keys now (view w) nss"
      using removes_held [OF ks(2)] by (auto simp: in_expired)
    with ks(5) a(1) have "(ns, np_Name np) \<in> set ks" by simp
    with ks(4) have "view w' (ns, np_Name np) = None" by (rule bspec)
    with a(3) show False by (simp add: held_def)
  qed
qed

text \<open>
  C14.  A sweep of the cluster deletes exactly the partitions that are past the
  deadline written on them.  Whatever errors the API gives, the only policies that a
  sweep removes carry the managed label, lie in a swept namespace and have a readable
  deadline before now; a policy without a readable deadline stays.  Every engine UID it
  reports is such a policy, gone afterwards; and when it reports no error, none is left.
\<close>

theorem ReapExpired_exact:
  assumes "np_laws api view" "ReapExpired api nss now w = ((uids, err), w')"
  shows "(\<forall>k. view w' k \<noteq> view w k \<longrightarrow> view w' k = None \<and>
        (\<exists>np e. view w k = Some np \<and> fst k \<in> set nss \<and> managed np \<and> parseExpiry (np_Annotations np) = Some e \<and> e < now)) \<and>
     (\<forall>uid\<in>set uids. \<exists>ns np. uid = engineUID ns (np_Name np) \<and> np \<in> held (view w) ns \<and> view w' (ns, np_Name np) = None) \<and>
     (err = None \<longrightarrow> (\<forall>ns\<in>set nss. \<forall>np\<in>held (view w') ns. \<not> expired_before now np))"
  by (intro conjI ReapExpired_spec [OF assms])

theorem ReapExpired_exact_witness:
  "\<exists>uids w'. ReapExpired (policy_store 0) [''arena''] (120 * sec) sample_policies = ((uids, None), w') \<and>
     uids = [''arena/old''] \<and> (\<forall>np\<in>held (store_view w') ''arena''. \<not> expired_before (120 * sec) np)"
proof -
  obtain uids w' where r: "ReapExpired (policy_store 0) [''arena''] (120 * sec) sample_policies = ((uids, None), w')"
    "uids = [''arena/old'']"
    using reap_sample by (auto split: prod.splits)
  from ReapExpired_exact [OF policy_store_laws r(1)]
  have "\<forall>np\<in>held (store_view w') ''arena''. \<not> expired_before (120 * sec) np" by simp
  with r show ?thesis by (intro exI conjI)
qed

lemma applied_policy_reaped:
  assumes "np_laws api view" "ReapExpired api nss now v = ((uids, None), v')" "ns \<in> set nss"
    and "view v (ns, name) = Some np" "np_Name np = name" "managed np" "parseExpiry (np_Annotations np) = Some dl"
  shows "view v' (ns, name) = (if dl < now then None else Some np)"
proof -
  obtain ks where ks: "removes (expired_keys now (view v) nss) (view v) (view v')" "\<forall>k\<in>set ks. view v' k = None"
      "set ks = expired_keys now (view v) nss"
    by (rule ReapExpired_removes [OF assms(1,2)]) iprover
  have "(ns, name) \<in> expired_keys now (view v) nss \<longleftrightarrow> np \<in> held (view v) ns \<and> expired_before now np"
    using assms(3-5) by (auto simp: in_expired held_def)
  then have "(ns, name) \<in> expired_keys now (view v) nss \<longleftrightarrow> dl < now"
    using assms(4-7) by (simp add: held_def expired_before_def)
  with ks(2,3) removes_cases [OF ks(1), of "(ns, name)"] assms(4) show ?thesis by (cases "dl < now") simp_all
qed

text \<open>
  C15.  A partition outlives the process that made it, until its deadline and no
  longer.  After a successful apply with a positive duration, the policy on the cluster
  is enough for any later process: while it is there, a listing has a live fault with its
  engine UID just when its deadline, to the second, is after now, and that fault has the
  UID of the manifest and this deadline; a sweep without errors removes it just when the
  deadline is before now; and its engine UID leads back to its namespace and name.
\<close>

theorem policy_outlives_process:
  assumes "np_laws api view" "NP_Apply api namePrefix m w = (Inr uid, w')"
    and "fst (na_now api (snd (na_ulid api w))) = t" and "m_UID m \<noteq> ''''"
    and "0 < m_Duration m" "0 \<le> t + m_Duration m" "(t + m_Duration m) div sec < days_before_year 10000 * 86400"
    and ns: "ns = t_Namespace (hd (m_Targets m))" "ns \<in> set nss" "\<forall>n\<in>set nss. CHR ''/'' \<notin> set n"
    and dl: "dl = trunc_sec (t + m_Duration m)"
  shows "\<exists>name np. decodeEngineUID uid = Inr (ns, name) \<and> view w' (ns, name) = Some np \<and>
     (\<forall>v out v' now. view v (ns, name) = Some np \<and> ListLive api nss now v = ((out, None), v') \<longrightarrow>
        ((\<exists>af\<in>set out. af_EngineUID af = uid) \<longleftrightarrow> now < dl) \<and>
        (\<forall>af\<in>set out. af_EngineUID af = uid \<longrightarrow> af_FaultUID af = m_UID m \<and> af_Deadline af = dl)) \<and>
     (\<forall>v uids v' now. view v (ns, name) = Some np \<and> ReapExpired api nss now v = ((uids, None), v') \<longrightarrow>
        view v' (ns, name) = (if dl < now then None else Some np))"
proof -
  obtain name np where ap: "uid = engineUID ns name" "view w' (ns, name) = Some np" "np_Name np = name" "managed np"
      "\<not> np_Deleting np" "map_of (np_Labels np) FaultUIDLabel = Some (m_UID m)" "parseExpiry (np_Annotations np) = Some dl"
    using NP_Apply_creates [OF assms(1-3,5-7)] by (auto simp: ns(1) dl)
  have mine: "((\<exists>af\<in>set out. af_EngineUID af = uid) \<longleftrightarrow> now < dl) \<and>
      (\<forall>af\<in>set out. af_EngineUID af = uid \<longrightarrow> af_FaultUID af = m_UID m \<and> af_Deadline af = dl)"
    if v: "view v (ns, name) = Some np" "ListLive api nss now v = ((out, None), v')" for v out v' now
  proof -
    have so: "set out = live_faults now (view v) nss" by (rule ListLive_faults(2) [OF assms(1) v(2)])
    have one: "af \<in> set out \<and> af_EngineUID af = uid \<longleftrightarrow> live_policy ns now np = Some af" for af
    proof
      assume "live_policy ns now np = Some af"
      with v(1) ap ns(2) show "af \<in> set out \<and> af_EngineUID af = uid"
        unfolding so by (auto simp: live_faults_def held_def live_policy_def Let_def split: if_splits intro!: bexI [of _ ns])
    next
      assume a: "af \<in> set out \<and> af_EngineUID af = uid"
      then obtain ns' q where q: "ns' \<in> set nss" "q \<in> held (view v) ns'" "live_policy ns' now q = Some af"
        unfolding so by (auto simp: live_faults_def)
      then have "af_EngineUID af = engineUID ns' (np_Name q)"
        by (auto simp: live_policy_def Let_def split: option.splits if_splits)
      with a ap(1) engineUID_inject ns(2,3) q(1) have "ns' = ns" "np_Name q = name" by (metis, metis)
      with q v(1) show "live_policy ns now np = Some af" by (simp add: held_def)
    qed
    show ?thesis
    proof (cases "now < dl")
      case True
      with ap(5-7) assms(4) obtain af0 where "live_policy ns now np = Some af0" "af_FaultUID af0 = m_UID m" "af_Deadline af0 = dl"
        by (simp add: live_policy_def Let_def)
      with one True show ?thesis by (metis option.inject)
    next
      case False
      with ap(7) have "live_policy ns now np = None" by (simp add: live_policy_def Let_def)
      with one False show ?thesis by auto
    qed
  qed
  have "CHR ''/'' \<notin> set ns" using ns(2,3) by blast
  then have "decodeEngineUID uid = Inr (ns, name)" by (simp add: decode_engineUID ap(1))
  moreover have reap: "view v' (ns, name) = (if dl < now then None else Some np)"
    if "view v (ns, name) = Some np" "ReapExpired api nss now v = ((uids, None), v')" for v uids v' now
    by (rule applied_policy_reaped [OF assms(1) that(2) ns(2) that(1) ap(3,4,7)])
  ultimately show ?thesis
    by (intro exI [of _ name] exI [of _ np] conjI ap(2) allI impI; (elim conjE)?)
      (assumption | rule mine [THEN conjunct1] mine [THEN conjunct2] reap, assumption, assumption)+
qed

theorem policy_outlives_process_witness:
  "\<exists>uid w' name np. NP_Apply (policy_store (60 * sec)) ''simian-np-'' sample_partition [] = (Inr uid, w') \<and>
     decodeEngineUID uid = Inr (''arena'', name) \<and> store_view w' (''arena'', name) = Some np"
proof -
  obtain uid w' where ap: "NP_Apply (policy_store (60 * sec)) ''simian-np-'' sample_partition [] = (Inr uid, w')"
    using apply_sample by (auto split: prod.splits)
  have "fst (na_now (policy_store (60 * sec)) (snd (na_ulid (policy_store (60 * sec)) []))) = 60 * sec"
    by (simp add: policy_store_def)
  note rule = policy_outlives_process [OF policy_store_laws ap this, of "''arena''" "[''arena'']" "120 * sec"]
  have "m_UID sample_partition \<noteq> ''''" "0 < m_Duration sample_partition" "0 \<le> 60 * sec + m_Duration sample_partition"
    "(60 * sec + m_Duration sample_partition) div sec < days_before_year 10000 * 86400"
    "''arena'' = t_Namespace (hd (m_Targets sample_partition))" "''arena'' \<in> set [''arena'']"
    "\<forall>n\<in>set [''arena'']. CHR ''/'' \<notin> set n" "120 * sec = trunc_sec (60 * sec + m_Duration sample_partition)"
    by code_simp+
  from rule [OF this] ap show ?thesis by blast
qed

end
