(* ===== verification/Kube_Catalog.thy ===== *)
theory Kube_Catalog
  imports Simian_Types "HOL-Library.Sublist"
begin

text \<open>
  The catalog's knowledge of the kube-state engine and of efficacy gates:
  \<^verbatim>\<open>src/pkg/catalog/kubestate.go\<close> (names, replicas and messages on which the driver
  and the gates have to agree before an object exists) and
  \<^verbatim>\<open>src/pkg/catalog/probes.go\<close> (the probes attached to a fault by default).

  An integer in a spec is what JSON decoding or Go code left there; a conversion
  of a float64 outside the int64 range gives no whole number, as on amd64.
\<close>

section \<open>Readers of a spec\<close>

definition stringField :: "jobj \<Rightarrow> string \<Rightarrow> string" where
  "stringField spec key = str_or_empty (map_of spec key)"

definition nestedMap :: "jobj \<Rightarrow> string \<Rightarrow> jobj" where
  "nestedMap spec key = (case as_obj (map_of spec key) of None \<Rightarrow> [] | Some m \<Rightarrow> m)"

definition durationField :: "jobj \<Rightarrow> string \<Rightarrow> duration option" where
  "durationField spec key = (let raw = stringField spec key in if raw = '''' then None else parse_duration raw)"

definition intField :: "jobj \<Rightarrow> string \<Rightarrow> int option" where
  "intField spec key =
     (case map_of spec key of
        Some (JInt n) \<Rightarrow> Some n
      | Some (JNum r) \<Rightarrow> float_int r
      | _ \<Rightarrow> None)"

definition labelSelectorOf :: "jobj \<Rightarrow> string \<Rightarrow> string gomap" where
  "labelSelectorOf spec key =
     (let raw = nestedMap spec key
      in if \<exists>p \<in> set raw. as_str (Some (snd p)) = None then []
         else map (\<lambda>p. (fst p, str_or_empty (Some (snd p)))) raw)"

definition directionsInclude :: "jobj \<Rightarrow> string \<Rightarrow> bool" where
  "directionsInclude spec want =
     (case map_of spec ''directions'' of
        None \<Rightarrow> True
      | Some JNull \<Rightarrow> True
      | Some raw \<Rightarrow>
          (case as_arr (Some raw) of
             None \<Rightarrow> True
           | Some l \<Rightarrow> l = [] \<or> (\<exists>v \<in> set l. as_str (Some v) = Some want)))"

section \<open>The kube-state kinds\<close>

definition KubeStateImageUnresolvable :: string where [const_defs]: "KubeStateImageUnresolvable = ''ImageUnresolvable''"
definition KubeStateContainerExitLoop :: string where [const_defs]: "KubeStateContainerExitLoop = ''ContainerExitLoop''"
definition KubeStateMemoryLimitSqueeze :: string where [const_defs]: "KubeStateMemoryLimitSqueeze = ''MemoryLimitSqueeze''"
definition KubeStateUnschedulable :: string where [const_defs]: "KubeStateUnschedulable = ''Unschedulable''"
definition KubeStateJobFailure :: string where [const_defs]: "KubeStateJobFailure = ''JobFailure''"
definition KubeStateSelectorDrift :: string where [const_defs]: "KubeStateSelectorDrift = ''SelectorDrift''"
definition KubeStateBackendCrashLoop :: string where [const_defs]: "KubeStateBackendCrashLoop = ''BackendCrashLoop''"
definition KubeStateUnboundClaim :: string where [const_defs]: "KubeStateUnboundClaim = ''UnboundClaim''"
definition KubeStateDependencyStall :: string where [const_defs]: "KubeStateDependencyStall = ''DependencyStall''"
definition KubeStatePDBGridlock :: string where [const_defs]: "KubeStatePDBGridlock = ''PDBGridlock''"
definition KubeStateRolloutStuck :: string where [const_defs]: "KubeStateRolloutStuck = ''RolloutStuck''"
definition KubeStateCertExpiry :: string where [const_defs]: "KubeStateCertExpiry = ''CertExpiry''"
definition KubeStateNoOp :: string where [const_defs]: "KubeStateNoOp = ''NoOp''"

definition kubeStateDefaultNames :: "string gomap" where
  "kubeStateDefaultNames =
     [(KubeStateImageUnresolvable, ''catalog-sync''),
      (KubeStateContainerExitLoop, ''report-worker''),
      (KubeStateMemoryLimitSqueeze, ''session-cache''),
      (KubeStateUnschedulable, ''batch-runner''),
      (KubeStateJobFailure, ''schema-migrate''),
      (KubeStateSelectorDrift, ''storefront''),
      (KubeStateBackendCrashLoop, ''orders-api''),
      (KubeStateUnboundClaim, ''media-store''),
      (KubeStateDependencyStall, ''checkout-api''),
      (KubeStatePDBGridlock, ''ledger-api''),
      (KubeStateRolloutStuck, ''web-frontend''),
      (KubeStateCertExpiry, ''edge-gateway''),
      (KubeStateNoOp, ''inventory-api'')]"

definition kubeStateDefaultReplicas :: "int gomap" where
  "kubeStateDefaultReplicas = [(KubeStateRolloutStuck, 2), (KubeStateBackendCrashLoop, 2)]"

definition KubeStateDefaultReplicas :: "string \<Rightarrow> int" where
  "KubeStateDefaultReplicas kind = (case map_of kubeStateDefaultReplicas kind of Some n \<Rightarrow> n | None \<Rightarrow> 1)"

definition KubeStateDefaultStallMessage :: string where
  "KubeStateDefaultStallMessage =
     ''level=error msg=\"upstream request failed\" upstream=payments-api addr=10.0.0.31:8443 err=\"context deadline exceeded after 30s\"''"

definition KubeStateStallMessage :: "string \<Rightarrow> string" where
  "KubeStateStallMessage requested =
     (let s = trim_space requested in if s \<noteq> '''' then s else KubeStateDefaultStallMessage)"

definition KubeStateCrashLoopRestarts :: int where "KubeStateCrashLoopRestarts = 5"

definition KubeStateDefaultPendingDwell :: duration where "KubeStateDefaultPendingDwell = 90 * sec"

definition KubeStatePendingDwellCeiling :: duration where "KubeStatePendingDwellCeiling = 10 * 60 * sec"

definition KubeStatePendingDwell :: "fault_manifest \<Rightarrow> duration" where
  "KubeStatePendingDwell m =
     (case durationField (spec_map m) ''pending_dwell'' of
        None \<Rightarrow> KubeStateDefaultPendingDwell
      | Some d \<Rightarrow> if d < 0 then 0 else min d KubeStatePendingDwellCeiling)"

definition KubeStateDefaultCertHours :: int where "KubeStateDefaultCertHours = 48"
definition KubeStateMinCertHours :: int where "KubeStateMinCertHours = -168"
definition KubeStateMaxCertHours :: int where "KubeStateMaxCertHours = 8760"

text \<open>\<^verbatim>\<open>base64.StdEncoding\<close>, on groups of three bytes and the padded rest.\<close>

definition base64_alphabet :: string where
  "base64_alphabet = ''ABCDEFGHIJKLMNOPQRSTUVWXYZabcdefghijklmnopqrstuvwxyz0123456789+/''"

definition base64_char :: "nat \<Rightarrow> char" where
  "base64_char n = base64_alphabet ! (n mod 64)"

fun base64 :: "string \<Rightarrow> string" where
  "base64 (a # b # c # s) =
     (let n = of_char a * 65536 + of_char b * 256 + of_char c :: nat
      in [base64_char (n div 262144), base64_char (n div 4096), base64_char (n div 64), base64_char n] @ base64 s)"
| "base64 [a, b] =
     (let n = of_char a * 65536 + of_char b * 256 :: nat
      in [base64_char (n div 262144), base64_char (n div 4096), base64_char (n div 64), CHR ''=''])"
| "base64 [a] =
     (let n = of_char a * 65536 :: nat
      in [base64_char (n div 262144), base64_char (n div 4096), CHR ''='', CHR ''=''])"
| "base64 [] = []"

definition KubeStateCertPEMPrefix :: string where
  "KubeStateCertPEMPrefix = base64 ''-----BEGIN CERTIFICATE--''"

definition alnum :: "char \<Rightarrow> bool" where
  "alnum c \<longleftrightarrow> (let n = of_char c :: nat in (97 \<le> n \<and> n \<le> 122) \<or> (48 \<le> n \<and> n \<le> 57))"

definition kubeStateNameSuffix :: "string \<Rightarrow> string" where
  "kubeStateNameSuffix faultUID =
     (let b = filter alnum (to_lower faultUID)
      in if b = [] then ''0'' else drop (length b - 8) b)"

definition KubeStateWorkloadName :: "string \<Rightarrow> string \<Rightarrow> string \<Rightarrow> string" where
  "KubeStateWorkloadName kind requested faultUID =
     (let base = (if requested = '''' then (case map_of kubeStateDefaultNames kind of None \<Rightarrow> '''' | Some n \<Rightarrow> n) else requested)
      in if base = '''' then '''' else base @ ''-'' @ kubeStateNameSuffix faultUID)"

section \<open>Names of the default probes\<close>

definition ProbeReachableBefore :: string where [const_defs]: "ProbeReachableBefore = ''simian-reachable-before''"
definition ProbePartitioned :: string where [const_defs]: "ProbePartitioned = ''simian-partitioned''"
definition ProbeFastBefore :: string where [const_defs]: "ProbeFastBefore = ''simian-fast-before''"
definition ProbeDelayed :: string where [const_defs]: "ProbeDelayed = ''simian-delayed''"
definition ProbeEnvoyRuntime :: string where [const_defs]: "ProbeEnvoyRuntime = ''simian-envoy-runtime''"
definition ProbeImagePullFailed :: string where [const_defs]: "ProbeImagePullFailed = ''simian-image-pull-failed''"
definition ProbeCrashLooping :: string where [const_defs]: "ProbeCrashLooping = ''simian-crash-looping''"
definition ProbeOOMKilled :: string where [const_defs]: "ProbeOOMKilled = ''simian-oom-killed''"
definition ProbeUnschedulable :: string where [const_defs]: "ProbeUnschedulable = ''simian-unschedulable''"
definition ProbeJobFailed :: string where [const_defs]: "ProbeJobFailed = ''simian-job-failed''"
definition ProbeWorkloadReady :: string where [const_defs]: "ProbeWorkloadReady = ''simian-workload-ready''"
definition ProbeWorkloadRolledOut :: string where [const_defs]: "ProbeWorkloadRolledOut = ''simian-workload-rolled-out''"
definition ProbeNoEndpoints :: string where [const_defs]: "ProbeNoEndpoints = ''simian-no-endpoints''"
definition ProbeClaimPending :: string where [const_defs]: "ProbeClaimPending = ''simian-claim-pending''"
definition ProbeEndpointsReady :: string where [const_defs]: "ProbeEndpointsReady = ''simian-endpoints-ready''"
definition ProbeEndpointsNotReady :: string where [const_defs]: "ProbeEndpointsNotReady = ''simian-endpoints-not-ready''"
definition ProbeDependencyStall :: string where [const_defs]: "ProbeDependencyStall = ''simian-dependency-stalled''"
definition ProbePDBGridlocked :: string where [const_defs]: "ProbePDBGridlocked = ''simian-pdb-gridlocked''"
definition ProbeRolloutStuck :: string where [const_defs]: "ProbeRolloutStuck = ''simian-rollout-stuck''"
definition ProbeRolloutServing :: string where [const_defs]: "ProbeRolloutServing = ''simian-rollout-serving''"
definition ProbeCertPresent :: string where [const_defs]: "ProbeCertPresent = ''simian-cert-present''"
definition ProbeRestartsClimbing :: string where [const_defs]: "ProbeRestartsClimbing = ''simian-restarts-climbing''"
definition ProbeCrashLoopVisible :: string where [const_defs]: "ProbeCrashLoopVisible = ''simian-crash-loop-visible''"

definition ProbeTypeK8s :: string where [const_defs]: "ProbeTypeK8s = ''k8s''"
definition ProbeTypeLogs :: string where [const_defs]: "ProbeTypeLogs = ''logs''"
definition ProbeTypeHTTP :: string where [const_defs]: "ProbeTypeHTTP = ''http''"
definition ProbeTypeTCP :: string where [const_defs]: "ProbeTypeTCP = ''tcp''"

definition envoyDelayPercentKey :: string where "envoyDelayPercentKey = ''fault.http.delay.fixed_delay_percent''"
definition envoyAbortPercentKey :: string where "envoyAbortPercentKey = ''fault.http.abort.abort_percent''"
definition envoyAdminPort :: int where "envoyAdminPort = 15000"

section \<open>Gates of the dataplane engines\<close>

definition renderSelector :: "string gomap \<Rightarrow> string" where
  "renderSelector labels = join_with '','' (sort (map (\<lambda>p. fst p @ ''='' @ snd p) labels))"

definition withSelector :: "string gomap \<Rightarrow> jobj \<Rightarrow> jobj" where
  "withSelector selector spec =
     (if selector = [] then spec else AList.update ''label_selector'' (JStr (renderSelector selector)) spec)"

definition reachabilityPair :: "string gomap \<Rightarrow> probe_spec list" where
  "reachabilityPair selector =
     [\<lparr>p_Name = ProbeReachableBefore, p_Type = ProbeTypeTCP, p_Mode = ProbeModeSOT,
       p_Spec = withSelector selector [(''expect_reachable'', JBool True), (''timeout'', JStr ''30s''), (''interval'', JStr ''2s'')]\<rparr>,
      \<lparr>p_Name = ProbePartitioned, p_Type = ProbeTypeTCP, p_Mode = ProbeModeSettle,
       p_Spec = withSelector selector [(''expect_unreachable'', JBool True), (''timeout'', JStr ''60s''), (''interval'', JStr ''2s'')]\<rparr>]"

definition networkPolicyProbes :: "fault_manifest \<Rightarrow> probe_spec list" where
  "networkPolicyProbes m =
     (if \<not> directionsInclude (spec_map m) ''ingress'' then []
      else reachabilityPair (labelSelectorOf (spec_map m) ''labelSelectors''))"

definition minGatedDelay :: duration where "minGatedDelay = 100 * 1000000"

definition delayPair :: "string gomap \<Rightarrow> jobj \<Rightarrow> probe_spec list" where
  "delayPair selector delay =
     (case parse_duration (stringField delay ''latency'') of
        None \<Rightarrow> []
      | Some latency \<Rightarrow>
          if latency < minGatedDelay then []
          else
            [\<lparr>p_Name = ProbeFastBefore, p_Type = ProbeTypeTCP, p_Mode = ProbeModeSOT,
              p_Spec = withSelector selector [(''expect_reachable'', JBool True), (''max_latency'', JStr (duration_string (latency div 4))),
                (''timeout'', JStr ''30s''), (''interval'', JStr ''2s'')]\<rparr>,
             \<lparr>p_Name = ProbeDelayed, p_Type = ProbeTypeTCP, p_Mode = ProbeModeSettle,
              p_Spec = withSelector selector [(''min_latency'', JStr (duration_string (latency div 2))),
                (''request_timeout'', JStr (duration_string (wrap64 (latency * 4)))),
                (''timeout'', JStr ''60s''), (''interval'', JStr ''2s'')]\<rparr>])"

definition networkChaosProbes :: "fault_manifest \<Rightarrow> probe_spec list" where
  "networkChaosProbes m =
     (let spec = spec_map m;
          selector = labelSelectorOf (nestedMap spec ''selector'') ''labelSelectors'';
          action = stringField spec ''action''
      in if map_of spec ''target'' \<noteq> None then []
         else if map_of spec ''externalTargets'' \<noteq> None then []
         else if action = ''partition'' then reachabilityPair selector
         else if action = ''delay'' then delayPair selector (nestedMap spec ''delay'')
         else [])"

definition escapeJSONPathKey :: "string \<Rightarrow> string" where
  "escapeJSONPathKey key = concat (map (\<lambda>c. if c = CHR ''.'' then [CHR 0x5C, c] else [c]) key)"

definition envoyRuntimeProbes :: "fault_manifest \<Rightarrow> string \<Rightarrow> probe_spec list" where
  "envoyRuntimeProbes m key =
     (case intField (spec_map m) ''percentage'' of
        None \<Rightarrow> []
      | Some pct \<Rightarrow>
          [\<lparr>p_Name = ProbeEnvoyRuntime, p_Type = ProbeTypeHTTP, p_Mode = ProbeModeSettle,
            p_Spec = withSelector (labelSelectorOf (spec_map m) ''labelSelectors'')
              [(''port'', JInt envoyAdminPort), (''path'', JStr ''/runtime''),
               (''jsonpath'', JStr (''{.entries['' @ [CHR 0x27] @ escapeJSONPathKey key @ [CHR 0x27] @ ''].final_value}'')),
               (''expect_equals'', JStr (int_dec pct)), (''timeout'', JStr ''30s''), (''interval'', JStr ''2s'')]\<rparr>])"

definition envoyDelayProbes :: "fault_manifest \<Rightarrow> probe_spec list" where
  "envoyDelayProbes m = envoyRuntimeProbes m envoyDelayPercentKey"

definition envoyAbortProbes :: "fault_manifest \<Rightarrow> probe_spec list" where
  "envoyAbortProbes m = envoyRuntimeProbes m envoyAbortPercentKey"

section \<open>Gates of the kube-state engine\<close>

text \<open>A field that is a function in the source is an option: \<^const>\<open>None\<close> is nil.\<close>

record kube_gate =
  kg_probeName :: string
  kg_probeType :: string
  kg_resource :: string
  kg_selectorKey :: string
  kg_jsonPath :: string
  kg_expect :: string
  kg_expectFrom :: "(fault_manifest \<Rightarrow> string) option"
  kg_expectEmpty :: bool
  kg_expectAtLeast :: int
  kg_expectAtLeastFrom :: "(fault_manifest \<Rightarrow> int) option"
  kg_dwellFrom :: "(fault_manifest \<Rightarrow> duration) option"
  kg_timeoutFrom :: "(fault_manifest \<Rightarrow> duration) option"
  kg_timeout :: string

definition zero_gate :: "string \<Rightarrow> string \<Rightarrow> string \<Rightarrow> kube_gate" where
  "zero_gate name path timeout =
     \<lparr>kg_probeName = name, kg_probeType = '''', kg_resource = '''', kg_selectorKey = '''', kg_jsonPath = path,
      kg_expect = '''', kg_expectFrom = None, kg_expectEmpty = False, kg_expectAtLeast = 0, kg_expectAtLeastFrom = None,
      kg_dwellFrom = None, kg_timeoutFrom = None, kg_timeout = timeout\<rparr>"

definition kubeStatePendingTimeout :: "fault_manifest \<Rightarrow> duration" where
  "kubeStatePendingTimeout m = KubeStatePendingDwell m + 2 * 60 * sec"

definition kubeStateReplicas :: "fault_manifest \<Rightarrow> int" where
  "kubeStateReplicas m =
     (case intField (spec_map m) ''replicas'' of Some n \<Rightarrow> n | None \<Rightarrow> KubeStateDefaultReplicas (m_ResourceKind m))"

definition gate_stall_message :: "fault_manifest \<Rightarrow> string" where
  "gate_stall_message m = KubeStateStallMessage (stringField (spec_map m) ''message'')"

definition gate_workload_name :: "fault_manifest \<Rightarrow> string" where
  "gate_workload_name m = KubeStateWorkloadName (m_ResourceKind m) (stringField (spec_map m) ''name'') (m_UID m)"

definition gate_replica_text :: "fault_manifest \<Rightarrow> string" where
  "gate_replica_text m = int_dec (kubeStateReplicas m)"

definition waitingReasonJSONPath :: string where
  "waitingReasonJSONPath = ''{.items[*].status.containerStatuses[*].state.waiting.reason}''"
definition lastReasonJSONPath :: string where
  "lastReasonJSONPath = ''{.items[*].status.containerStatuses[*].lastState.terminated.reason}''"
definition restartCountJSONPath :: string where
  "restartCountJSONPath = ''{.items[*].status.containerStatuses[*].restartCount}''"
definition conditionReasonJSONPath :: string where
  "conditionReasonJSONPath = ''{.items[*].status.conditions[*].reason}''"
definition podReadyJSONPath :: string where
  "podReadyJSONPath = ''{.items[*].status.conditions[?(@.type==\"Ready\")].status}''"
definition endpointReadyJSONPath :: string where
  "endpointReadyJSONPath = ''{.items[*].endpoints[*].conditions.ready}''"
definition serviceNameKey :: string where
  "serviceNameKey = ''kubernetes.io/service-name''"

definition crashLoopVisibleGate :: kube_gate where
  "crashLoopVisibleGate = (zero_gate ProbeCrashLoopVisible waitingReasonJSONPath ''3m'')\<lparr>kg_expect := ''CrashLoopBackOff''\<rparr>"

definition workloadRolledOutGate :: kube_gate where
  "workloadRolledOutGate =
     (zero_gate ProbeWorkloadRolledOut ''{.items[*].status.readyReplicas}'' ''60s'')
       \<lparr>kg_resource := ''deployments'', kg_expectAtLeastFrom := Some kubeStateReplicas\<rparr>"

definition crashLoopingGate :: kube_gate where
  "crashLoopingGate = (zero_gate ProbeCrashLooping lastReasonJSONPath ''90s'')\<lparr>kg_expect := ''Error''\<rparr>"

definition restartsClimbingGate :: kube_gate where
  "restartsClimbingGate =
     (zero_gate ProbeRestartsClimbing restartCountJSONPath ''5m'')\<lparr>kg_expectAtLeast := KubeStateCrashLoopRestarts\<rparr>"

definition workloadReadyGate :: kube_gate where
  "workloadReadyGate = (zero_gate ProbeWorkloadReady podReadyJSONPath ''120s'')\<lparr>kg_expect := ''True''\<rparr>"

definition kubeStateGates :: "kube_gate list gomap" where
  "kubeStateGates =
     [(KubeStateImageUnresolvable,
        [(zero_gate ProbeImagePullFailed waitingReasonJSONPath ''90s'')\<lparr>kg_expect := ''ImagePullBackOff''\<rparr>]),
      (KubeStateContainerExitLoop, [crashLoopingGate, restartsClimbingGate, crashLoopVisibleGate]),
      (KubeStateMemoryLimitSqueeze,
        [(zero_gate ProbeOOMKilled lastReasonJSONPath ''120s'')\<lparr>kg_expect := ''OOMKilled''\<rparr>]),
      (KubeStateUnschedulable,
        [(zero_gate ProbeUnschedulable conditionReasonJSONPath '''')
           \<lparr>kg_expect := ''Unschedulable'', kg_dwellFrom := Some KubeStatePendingDwell, kg_timeoutFrom := Some kubeStatePendingTimeout\<rparr>]),
      (KubeStateJobFailure,
        [(zero_gate ProbeJobFailed conditionReasonJSONPath ''180s'')
           \<lparr>kg_resource := ''jobs'', kg_expect := ''BackoffLimitExceeded''\<rparr>]),
      (KubeStateSelectorDrift,
        [workloadReadyGate,
         (zero_gate ProbeNoEndpoints ''{.items[*].endpoints[*].addresses[*]}'' ''30s'')
           \<lparr>kg_resource := ''endpointslices'', kg_selectorKey := serviceNameKey, kg_expectEmpty := True\<rparr>]),
      (KubeStateBackendCrashLoop,
        [crashLoopingGate, restartsClimbingGate, crashLoopVisibleGate,
         (zero_gate ProbeEndpointsNotReady endpointReadyJSONPath ''90s'')
           \<lparr>kg_resource := ''endpointslices'', kg_selectorKey := serviceNameKey, kg_expect := ''false''\<rparr>]),
      (KubeStateUnboundClaim,
        [(zero_gate ProbeClaimPending ''{.items[*].status.phase}'' ''60s'')
           \<lparr>kg_resource := ''persistentvolumeclaims'', kg_expect := ''Pending''\<rparr>,
         (zero_gate ProbeUnschedulable conditionReasonJSONPath ''120s'')\<lparr>kg_expect := ''Unschedulable''\<rparr>]),
      (KubeStateDependencyStall,
        [workloadReadyGate, workloadRolledOutGate,
         (zero_gate ProbeEndpointsReady endpointReadyJSONPath ''60s'')
           \<lparr>kg_resource := ''endpointslices'', kg_selectorKey := serviceNameKey, kg_expect := ''true''\<rparr>,
         (zero_gate ProbeDependencyStall '''' ''60s'')
           \<lparr>kg_probeType := ProbeTypeLogs, kg_expectFrom := Some gate_stall_message\<rparr>]),
      (KubeStatePDBGridlock,
        [workloadReadyGate, workloadRolledOutGate,
         (zero_gate ProbePDBGridlocked ''{.items[?(@.status.disruptionsAllowed==0)].metadata.name}'' ''90s'')
           \<lparr>kg_resource := ''poddisruptionbudgets'', kg_expectFrom := Some gate_workload_name\<rparr>]),
      (KubeStateRolloutStuck,
        [(zero_gate ProbeRolloutStuck ''{.items[*].status.conditions[?(@.type==\"Progressing\")].reason}'' ''240s'')
           \<lparr>kg_resource := ''deployments'', kg_expect := ''ProgressDeadlineExceeded''\<rparr>,
         (zero_gate ProbeRolloutServing ''{.items[*].status.availableReplicas}'' ''60s'')
           \<lparr>kg_resource := ''deployments'', kg_expectFrom := Some gate_replica_text\<rparr>]),
      (KubeStateCertExpiry,
        [workloadReadyGate, workloadRolledOutGate,
         (zero_gate ProbeCertPresent (''{.items[*].data.tls'' @ [CHR 0x5C] @ ''.crt}'') ''30s'')
           \<lparr>kg_resource := ''secrets'', kg_expect := KubeStateCertPEMPrefix\<rparr>]),
      (KubeStateNoOp, [workloadReadyGate, workloadRolledOutGate])]"

definition gate_or :: "string \<Rightarrow> string \<Rightarrow> string" where
  "gate_or s dflt = (if s = '''' then dflt else s)"

definition gate_want :: "fault_manifest \<Rightarrow> kube_gate \<Rightarrow> string" where
  "gate_want m g = (case kg_expectFrom g of None \<Rightarrow> kg_expect g | Some f \<Rightarrow> f m)"

definition gate_condition :: "fault_manifest \<Rightarrow> kube_gate \<Rightarrow> string \<times> json" where
  "gate_condition m g =
     (if kg_expectEmpty g then (''expect_empty'', JBool True)
      else case kg_expectAtLeastFrom g of
             Some f \<Rightarrow> (''expect_at_least'', JInt (f m))
           | None \<Rightarrow> if kg_expectAtLeast g > 0 then (''expect_at_least'', JInt (kg_expectAtLeast g))
                    else (''expect_contains'', JStr (gate_want m g)))"

definition gate_probe :: "fault_manifest \<Rightarrow> string \<Rightarrow> kube_gate \<Rightarrow> probe_spec" where
  "gate_probe m name g =
     (let timeout = (case kg_timeoutFrom g of None \<Rightarrow> kg_timeout g | Some f \<Rightarrow> duration_string (f m));
          dwell = (case kg_dwellFrom g of None \<Rightarrow> [] | Some f \<Rightarrow> if f m > 0 then [(''dwell'', JStr (duration_string (f m)))] else []);
          typ = gate_or (kg_probeType g) ProbeTypeK8s;
          base = [(''label_selector'', JStr (gate_or (kg_selectorKey g) ''app'' @ ''='' @ name)),
                  (''timeout'', JStr timeout), (''interval'', JStr ''2s'')] @ dwell
      in \<lparr>p_Name = kg_probeName g, p_Type = typ, p_Mode = ProbeModeSettle,
          p_Spec = base @ (if typ = ProbeTypeLogs then [(''expect_contains'', JStr (gate_want m g))]
            else [(''resource'', JStr (gate_or (kg_resource g) ''pods'')), (''jsonpath'', JStr (kg_jsonPath g)), gate_condition m g])\<rparr>)"

definition kubeStateProbes :: "fault_manifest \<Rightarrow> probe_spec list" where
  "kubeStateProbes m =
     (case map_of kubeStateGates (m_ResourceKind m) of
        None \<Rightarrow> []
      | Some gs \<Rightarrow>
          let mode = stringField (spec_map m) ''mode''; name = gate_workload_name m
          in if mode \<noteq> '''' \<and> mode \<noteq> ''synthesize'' then []
             else if name = '''' then []
             else map (gate_probe m name) gs)"

section \<open>The gate of a kind\<close>

definition apostrophe_s :: string where "apostrophe_s = [CHR 0x27, CHR ''s'']"

type_synonym gate = "string \<times> (fault_manifest \<Rightarrow> probe_spec list)"

definition dataplane_gates :: "((string \<times> string) \<times> gate) list" where
  "dataplane_gates =
     [((EngineNetworkPolicy, ''NetworkPolicy''),
        (''reachability: the target must accept a TCP connection on its port before the fault, and stop accepting one after it'', networkPolicyProbes)),
      ((EngineChaosMesh, ''NetworkChaos''),
        (''reachability or latency, depending on spec.action: partition must stop the target answering; delay must slow it measurably'', networkChaosProbes)),
      ((EngineEnvoyFault, ''EnvoyHttpDelay''),
        (sprintf ''the sidecar% admin API must report the delay runtime key at the requested percentage'' [AS apostrophe_s], envoyDelayProbes)),
      ((EngineEnvoyFault, ''EnvoyHttpAbort''),
        (sprintf ''the sidecar% admin API must report the abort runtime key at the requested percentage'' [AS apostrophe_s], envoyAbortProbes))]"

definition kube_gate_texts :: "string gomap" where
  "kube_gate_texts =
     [(KubeStateImageUnresolvable, sprintf ''the synthesized workload% pods must report ImagePullBackOff'' [AS apostrophe_s]),
      (KubeStateContainerExitLoop, sprintf ''the synthesized workload% containers must report a last termination of Error, have restarted enough times to be looping rather than merely broken, and be sitting in CrashLoopBackOff when the gate lets go'' [AS apostrophe_s]),
      (KubeStateMemoryLimitSqueeze, sprintf ''the synthesized workload% containers must report a last termination of OOMKilled'' [AS apostrophe_s]),
      (KubeStateUnschedulable, sprintf ''the synthesized workload% pods must report a PodScheduled condition of Unschedulable'' [AS apostrophe_s]),
      (KubeStateJobFailure, ''the synthesized Job must report a Failed condition of reason BackoffLimitExceeded''),
      (KubeStateSelectorDrift, sprintf ''the synthesized workload% pods must be Ready and the Service in front of them must have no endpoint addresses'' [AS apostrophe_s]),
      (KubeStateBackendCrashLoop, sprintf ''the synthesized workload% containers must report a last termination of Error, have restarted enough times to be looping, and be sitting in CrashLoopBackOff, and the Service that selects them must report every endpoint not ready'' [AS apostrophe_s]),
      (KubeStateUnboundClaim, ''the synthesized claim must be Pending and the pod mounting it must report Unschedulable''),
      (KubeStateDependencyStall, sprintf ''the synthesized workload% pods must be Ready, its Deployment must agree they are, its Service endpoints must be ready, and its log must carry the upstream-failure line % healthy everywhere but in what the application says'' [AS apostrophe_s, AS em_dash]),
      (KubeStatePDBGridlock, sprintf ''the synthesized workload% pods must be Ready, its Deployment must agree they are, and its PodDisruptionBudget must report disruptionsAllowed of exactly 0'' [AS apostrophe_s]),
      (KubeStateRolloutStuck, ''the synthesized Deployment must report Progressing reason ProgressDeadlineExceeded while still reporting every replica of the previous revision available''),
      (KubeStateCertExpiry, sprintf ''the synthesized workload% pods must be Ready % which is only possible once the TLS Secret mounted % its Deployment must agree they are, and the Secret must hold a PEM certificate'' [AS apostrophe_s, AS em_dash, AS em_dash]),
      (KubeStateNoOp, sprintf ''the control workload% pods must be Ready and its Deployment must report them ready too % the gate a control passes is the one every other kind fails'' [AS apostrophe_s, AS em_dash])]"

definition gates :: "((string \<times> string) \<times> gate) list" where
  "gates = dataplane_gates @ map (\<lambda>p. ((EngineKubeState, fst p), (snd p, kubeStateProbes))) kube_gate_texts"

definition EfficacyGate :: "string \<Rightarrow> string \<Rightarrow> string" where
  "EfficacyGate engine kind = (case map_of gates (engine, kind) of None \<Rightarrow> '''' | Some g \<Rightarrow> fst g)"

definition DefaultProbes :: "fault_manifest \<Rightarrow> probe_spec list" where
  "DefaultProbes m =
     (case map_of gates (m_Engine m, m_ResourceKind m) of
        None \<Rightarrow> []
      | Some (_, build) \<Rightarrow> filter (\<lambda>p. p_Name p \<notin> set (map p_Name (m_Probes m))) (build m))"

end
