(* ===== verification/Probe_Loop.thy ===== *)
theory Probe_Loop
  imports Probe_Core
begin

text \<open>
  The polling loop that the k8s, logs and http probers of \<^verbatim>\<open>src/pkg/probe\<close> share:
  observe, judge, give up after the deadline, else wait one interval.  The three
  loops in the source differ in the observation and in the hold a k8s probe can
  ask for; both are arguments here.

  Shown here: a loop on a clock that moves ends, and when it passes with a hold,
  every poll over a stretch of at least that length met the condition.
\<close>

section \<open>The loop\<close>

text \<open>The clock, and a wait of the interval that tells the context's error when the
  context ended first.\<close>

record 'w poll_env =
  pl_now :: "'w \<Rightarrow> gotime \<times> 'w"
  pl_wait :: "duration \<Rightarrow> 'w \<Rightarrow> string option \<times> 'w"

datatype verdict = Met | Unmet | Fatal string

type_synonym 'w observation = "'w \<Rightarrow> (string + string \<times> verdict) \<times> 'w"

record poll_end =
  pe_Passed :: bool
  pe_Observed :: string
  pe_Attempts :: int
  pe_Elapsed :: duration
  pe_Err :: "string option"

text \<open>What one observation comes to: the end it calls for, if any, and since when the
  condition has held.  Without a hold the first poll that meets the condition passes.\<close>

definition judge ::
  "'w poll_env \<Rightarrow> duration option \<Rightarrow> string + string \<times> verdict \<Rightarrow> gotime option \<Rightarrow> 'w
     \<Rightarrow> (bool \<times> string option) option \<times> gotime option \<times> 'w" where
  "judge x dwell r held w =
     (case r of
        Inl _ \<Rightarrow> (None, None, w)
      | Inr (_, Unmet) \<Rightarrow> (None, None, w)
      | Inr (_, Fatal e) \<Rightarrow> (Some (False, Some e), None, w)
      | Inr (_, Met) \<Rightarrow>
          (case dwell of
             None \<Rightarrow> (Some (True, None), None, w)
           | Some d \<Rightarrow>
               (case pl_now x w of (t, w') \<Rightarrow>
                  let h = (case held of None \<Rightarrow> t | Some h \<Rightarrow> h)
                  in (if d \<le> time_sub t h then Some (True, None) else None, Some h, w'))))"

definition observed :: "string + string \<times> verdict \<Rightarrow> string" where
  "observed r = (case r of Inl _ \<Rightarrow> '''' | Inr (s, _) \<Rightarrow> s)"

definition read_error :: "string + string \<times> verdict \<Rightarrow> string option" where
  "read_error r = (case r of Inl e \<Rightarrow> Some e | Inr _ \<Rightarrow> None)"

definition poll_ends :: "'w poll_env \<Rightarrow> gotime \<Rightarrow> bool \<Rightarrow> string \<Rightarrow> int \<Rightarrow> string option \<Rightarrow> 'w \<Rightarrow> poll_end \<times> 'w" where
  "poll_ends x start passed obs n err w =
     (case pl_now x w of (t, w') \<Rightarrow>
        (\<lparr>pe_Passed = passed, pe_Observed = obs, pe_Attempts = n, pe_Elapsed = time_sub t start, pe_Err = err\<rparr>, w'))"

partial_function (option) poll_loop ::
  "'w poll_env \<Rightarrow> 'w observation \<Rightarrow> duration option \<Rightarrow> duration \<Rightarrow> gotime \<Rightarrow> gotime \<Rightarrow> int \<Rightarrow> gotime option \<Rightarrow> 'w
     \<Rightarrow> (poll_end \<times> 'w) option" where
  "poll_loop x observe dwell interval start deadline n held w =
     (case observe w of (r, w1) \<Rightarrow>
      case judge x dwell r held w1 of (stop, held', w2) \<Rightarrow>
        (case stop of
           Some (passed, err) \<Rightarrow> Some (poll_ends x start passed (observed r) (n + 1) err w2)
         | None \<Rightarrow>
             (case pl_now x w2 of (t, w3) \<Rightarrow>
                if deadline < t then Some (poll_ends x start False (observed r) (n + 1) (read_error r) w3)
                else case pl_wait x interval w3 of
                       (Some e, w4) \<Rightarrow> Some (poll_ends x start False (observed r) (n + 1) (Some e) w4)
                     | (None, w4) \<Rightarrow> poll_loop x observe dwell interval start deadline (n + 1) held' w4)))"

definition poll_for ::
  "'w poll_env \<Rightarrow> 'w observation \<Rightarrow> duration option \<Rightarrow> duration \<Rightarrow> duration \<Rightarrow> 'w \<Rightarrow> (poll_end \<times> 'w) option" where
  "poll_for x observe dwell interval timeout w =
     (case pl_now x w of (start, w1) \<Rightarrow> poll_loop x observe dwell interval start (start + timeout) 0 None w1)"

text \<open>The result of a probe: an error of the spec, or how its loop ended.\<close>

definition spec_failure :: "probe_spec \<Rightarrow> string \<Rightarrow> string \<Rightarrow> probe_result" where
  "spec_failure p expected e =
     \<lparr>res_Name = p_Name p, res_Type = p_Type p, res_Passed = False, res_Observed = '''', res_Expected = expected,
      res_Attempts = 0, res_Elapsed = 0, res_Err = Some (GoErr (sprintf ''probe %: %'' [AQ (p_Name p), AS e]))\<rparr>"

definition loop_result :: "probe_spec \<Rightarrow> string \<Rightarrow> poll_end \<Rightarrow> probe_result" where
  "loop_result p expected e =
     \<lparr>res_Name = p_Name p, res_Type = p_Type p, res_Passed = pe_Passed e, res_Observed = pe_Observed e, res_Expected = expected,
      res_Attempts = pe_Attempts e, res_Elapsed = pe_Elapsed e,
      res_Err = map_option (\<lambda>t. GoErr (sprintf ''probe %: %'' [AQ (p_Name p), AS t])) (pe_Err e)\<rparr>"


section \<open>The loop ends\<close>

text \<open>A clock that never goes back, and on which a wait takes its time.\<close>

definition poll_clock :: "'w poll_env \<Rightarrow> 'w observation \<Rightarrow> duration \<Rightarrow> ('w \<Rightarrow> gotime) \<Rightarrow> bool" where
  "poll_clock x observe interval clk \<longleftrightarrow>
     (\<forall>w. fst (pl_now x w) = clk w \<and> clk w \<le> clk (snd (pl_now x w))) \<and>
     (\<forall>w. clk w \<le> clk (snd (observe w))) \<and>
     (\<forall>w. fst (pl_wait x interval w) = None \<longrightarrow> clk w + interval \<le> clk (snd (pl_wait x interval w)))"

lemma judge_clock:
  assumes "poll_clock x observe interval clk"
  shows "clk w \<le> clk (snd (snd (judge x dwell r held w)))"
proof -
  have "clk w \<le> clk (snd (pl_now x w))" using assms by (simp add: poll_clock_def)
  then show ?thesis
    by (auto simp: judge_def Let_def split: sum.split verdict.split option.split prod.split)
qed

lemma poll_loop_ends:
  assumes "poll_clock x observe interval clk" "0 < interval"
  shows "\<exists>e w'. poll_loop x observe dwell interval start deadline n held w = Some (e, w')"
proof (induction "nat (deadline + 1 - clk w)" arbitrary: n held w rule: less_induct)
  case less
  obtain r w1 where ob: "observe w = (r, w1)" by fastforce
  obtain stop held' w2 where j: "judge x dwell r held w1 = (stop, held', w2)" by (metis prod.exhaust)
  obtain t w3 where nw: "pl_now x w2 = (t, w3)" by fastforce
  obtain c w4 where wt: "pl_wait x interval w3 = (c, w4)" by fastforce
  show ?case
  proof (cases "stop = None \<and> \<not> deadline < t \<and> c = None")
    case True
    have "clk w \<le> clk w1" using assms(1) ob unfolding poll_clock_def by (metis snd_conv)
    also have "\<dots> \<le> clk w2" using judge_clock [OF assms(1), of w1 dwell r held] j by simp
    also have t: "clk w2 = t" "clk w2 \<le> clk w3" using assms(1) nw unfolding poll_clock_def by (metis fst_conv snd_conv)+
    have "clk w3 + interval \<le> clk w4" using assms(1) wt True unfolding poll_clock_def by (metis fst_conv snd_conv)
    with t True assms(2) calculation have "nat (deadline + 1 - clk w4) < nat (deadline + 1 - clk w)" by linarith
    from less [OF this] obtain e w' where "poll_loop x observe dwell interval start deadline (n + 1) held' w4 = Some (e, w')" by blast
    with ob j nw wt True show ?thesis by (subst poll_loop.simps) simp
  next
    case False
    with ob j nw wt show ?thesis
      by (subst poll_loop.simps) (auto split: option.split intro: surj_pair)
  qed
qed

lemma poll_for_ends:
  assumes "poll_clock x observe interval clk" "0 < interval"
  shows "\<exists>e w'. poll_for x observe dwell interval timeout w = Some (e, w')"
  using poll_loop_ends [OF assms] by (simp add: poll_for_def split: prod.split)


section \<open>What a pass means\<close>

text \<open>\<open>met_since x observe interval h w\<close>: every poll since the clock read \<open>h\<close>, up to the
  next one in state \<open>w\<close>, met the condition.\<close>

inductive met_since :: "'w poll_env \<Rightarrow> 'w observation \<Rightarrow> duration \<Rightarrow> gotime \<Rightarrow> 'w \<Rightarrow> bool" where
  met_first:
    "\<lbrakk>observe w = (Inr (s, Met), w1); pl_now x w1 = (h, w2); pl_now x w2 = (t, w3); pl_wait x interval w3 = (None, w4)\<rbrakk>
       \<Longrightarrow> met_since x observe interval h w4"
| met_next:
    "\<lbrakk>met_since x observe interval h w; observe w = (Inr (s, Met), w1); pl_now x w1 = (t, w2); pl_now x w2 = (t', w3);
      pl_wait x interval w3 = (None, w4)\<rbrakk>
       \<Longrightarrow> met_since x observe interval h w4"

text \<open>The last poll met the condition, and it had then been met for \<open>d\<close>.\<close>

definition held_for :: "'w poll_env \<Rightarrow> 'w observation \<Rightarrow> duration \<Rightarrow> duration \<Rightarrow> string \<Rightarrow> bool" where
  "held_for x observe interval d s \<longleftrightarrow>
     (\<exists>w w1 t w2 h. observe w = (Inr (s, Met), w1) \<and> pl_now x w1 = (t, w2) \<and> d \<le> time_sub t h \<and>
        (h = t \<or> met_since x observe interval h w))"

lemma held_forI:
  "observe w = (Inr (s, Met), w1) \<Longrightarrow> pl_now x w1 = (t, w2) \<Longrightarrow> d \<le> time_sub t h \<Longrightarrow> h = t \<or> met_since x observe interval h w
     \<Longrightarrow> held_for x observe interval d s"
  unfolding held_for_def by blast

lemma poll_loop_pass:
  assumes "poll_loop x observe dwell interval start deadline n held w = Some (e, w')"
    and "\<forall>h. held = Some h \<longrightarrow> met_since x observe interval h w" "pe_Passed e"
  shows "(\<exists>w w1. observe w = (Inr (pe_Observed e, Met), w1)) \<and>
     (\<forall>d. dwell = Some d \<longrightarrow> held_for x observe interval d (pe_Observed e))"
proof -
  define P where "P = (\<lambda>(x :: 'a poll_env) observe dwell interval (start :: gotime) (deadline :: gotime) (n :: int) held w (r :: poll_end \<times> 'a).
     (\<forall>h. held = Some h \<longrightarrow> met_since x observe interval h w) \<longrightarrow> pe_Passed (fst r) \<longrightarrow>
        (\<exists>w w1. observe w = (Inr (pe_Observed (fst r), Met), w1)) \<and>
        (\<forall>d. dwell = Some d \<longrightarrow> held_for x observe interval d (pe_Observed (fst r))))"
  have "P x observe dwell interval start deadline n held w (e, w')"
  proof (rule poll_loop.raw_induct [where P = P and xa = "((((((((x, observe), dwell), interval), start), deadline), n), held), w)" and y = "(e, w')", simplified], goal_cases)
    case (1 loop x observe dwell interval start deadline n held w y)
    obtain r w1 where ob: "observe w = (r, w1)" by fastforce
    obtain stop held' w2 where j: "judge x dwell r held w1 = (stop, held', w2)" by (metis prod.exhaust)
    obtain t w3 where nw: "pl_now x w2 = (t, w3)" by fastforce
    obtain c w4 where wt: "pl_wait x interval w3 = (c, w4)" by fastforce
    note body = 1(2) [unfolded ob j nw wt prod.case]
    show ?case unfolding P_def
    proof (intro impI)
      assume since: "\<forall>h. held = Some h \<longrightarrow> met_since x observe interval h w" and pass: "pe_Passed (fst y)"
      show "(\<exists>w w1. observe w = (Inr (pe_Observed (fst y), Met), w1)) \<and>
          (\<forall>d. dwell = Some d \<longrightarrow> held_for x observe interval d (pe_Observed (fst y)))"
      proof (cases stop)
        case (Some pe)
        with body pass obtain err where st: "stop = Some (True, err)" "fst y = fst (poll_ends x start True (observed r) (n + 1) err w2)"
          by (cases pe) (auto simp: poll_ends_def split: prod.splits)
        then obtain s where s: "r = Inr (s, Met)"
          using j by (auto simp: judge_def Let_def split: sum.splits verdict.splits option.splits prod.splits if_splits)
        have "held_for x observe interval d s" if dw: "dwell = Some d" for d
        proof -
          from j st(1) s dw obtain h t w' where met: "pl_now x w1 = (t, w')" "d \<le> time_sub t h" "h = t \<or> held = Some h"
            by (auto simp: judge_def Let_def split: option.splits prod.splits if_splits)
          then have "h = t \<or> met_since x observe interval h w" using since by blast
          with held_forI [of observe w s w1 x t w' d h interval] ob s met show ?thesis by blast
        qed
        moreover have "pe_Observed (fst y) = s" using st(2) s by (auto simp: poll_ends_def observed_def split: prod.splits)
        ultimately show ?thesis using ob s by blast
      next
        case None
        with body pass have go: "\<not> deadline < t" "c = None" "loop x observe dwell interval start deadline (n + 1) held' w4 = Some y"
          by (auto simp: poll_ends_def split: prod.splits if_splits option.splits)
        have "\<forall>h. held' = Some h \<longrightarrow> met_since x observe interval h w4"
        proof (intro allI impI)
          fix h assume "held' = Some h"
          with None j obtain s t0 where r: "r = Inr (s, Met)" "pl_now x w1 = (t0, w2)" "h = t0 \<and> held = None \<or> held = Some h"
            by (auto simp: judge_def Let_def split: sum.splits verdict.splits option.splits prod.splits if_splits)
          with ob nw wt go(2) since show "met_since x observe interval h w4"
            by (metis met_since.intros)
        qed
        with 1(1) [OF go(3)] pass show ?thesis by (simp add: P_def)
      qed
    qed
  next
    case 2
    show ?case by (rule assms(1))
  qed
  with assms(2,3) show ?thesis by (simp add: P_def)
qed

lemma poll_for_pass:
  assumes "poll_for x observe dwell interval timeout w = Some (e, w')" "pe_Passed e"
  shows "\<exists>w w1. observe w = (Inr (pe_Observed e, Met), w1)"
    and "dwell = Some d \<Longrightarrow> held_for x observe interval d (pe_Observed e)"
  using assms poll_loop_pass by (fastforce simp: poll_for_def split: prod.splits)+

end
