(* ===== verification/Probe_Specs.thy ===== *)
theory Probe_Specs
  imports Probe_Loop Target_Compat
begin

text \<open>
  The k8s, logs, http and tcp probers of \<^verbatim>\<open>src/pkg/probe/k8s.go\<close>, \<^verbatim>\<open>logs.go\<close> and
  \<^verbatim>\<open>http.go\<close>: decoding and validation of a spec, the condition on what one poll
  saw, the rounds over the target pods, and the probers on the loop of
  \<open>Probe_Loop\<close>.  Reading the cluster, a log, a response or a connect is a
  parameter, as is client-go's jsonpath.
\<close>

section \<open>Decoding\<close>

text \<open>An error of a field or of the spec; \<open>say\<close> words it.\<close>

datatype spec_error = FieldError opt_error | SpecError string

definition fieldR :: "opt_error + 'a \<Rightarrow> spec_error + 'a" where
  "fieldR r = map_sum FieldError id r"

definition rejectIf :: "bool \<Rightarrow> string \<Rightarrow> spec_error + unit" where
  "rejectIf b msg = (if b then Inl (SpecError msg) else Inr ())"

lemma fieldR_Inr [simp]: "fieldR r = Inr a \<longleftrightarrow> r = Inr a" "fieldR (Inr b) = Inr b"
  by (cases r; simp add: fieldR_def)+

lemma rejectIf_Inr [simp]: "rejectIf b msg = Inr u \<longleftrightarrow> \<not> b"
  by (simp add: rejectIf_def)

definition DefaultTimeout :: duration where "DefaultTimeout = 90 * sec"
definition DefaultInterval :: duration where "DefaultInterval = 2 * sec"

text \<open>\<^verbatim>\<open>strings.Fields\<close> and \<^verbatim>\<open>strconv.Atoi\<close>.\<close>

definition go_fields :: "string \<Rightarrow> string list" where
  "go_fields s = filter (\<lambda>f. f \<noteq> '''') (split_on (CHR '' '') (map (\<lambda>c. if is_space c then CHR '' '' else c) s))"

definition go_atoi :: "string \<Rightarrow> int option" where
  "go_atoi s =
     (let neg = (s \<noteq> '''' \<and> hd s = CHR ''-'');
          ds = (if s \<noteq> '''' \<and> (hd s = CHR ''-'' \<or> hd s = CHR ''+'') then tl s else s);
          v = (if neg then - digits_val ds else digits_val ds)
      in if ds = '''' \<or> \<not> list_all is_digit ds then None
         else if - (2 ^ 63) \<le> v \<and> v < 2 ^ 63 then Some v else None)"

section \<open>The k8s probe\<close>

record k8s_spec =
  ks_resource :: string
  ks_namespace :: string
  ks_name :: string
  ks_labelSelector :: string
  ks_jsonPath :: string
  ks_expectContain :: string
  ks_expectEmpty :: bool
  ks_expectAtLeast :: int
  ks_dwell :: duration
  ks_timeout :: duration
  ks_interval :: duration

definition k8s_describe :: "k8s_spec \<Rightarrow> string" where
  "k8s_describe s =
     (let cond = (if ks_expectEmpty s then ''empty output''
                  else if ks_expectAtLeast s > 0 then sprintf ''every value at least %'' [AD (ks_expectAtLeast s)]
                  else sprintf ''% in output'' [AQ (ks_expectContain s)])
      in if ks_dwell s > 0 then cond @ sprintf '', held for %'' [AS (duration_string (ks_dwell s))] else cond)"

definition allAtLeast :: "string \<Rightarrow> int \<Rightarrow> bool" where
  "allAtLeast out n \<longleftrightarrow>
     go_fields out \<noteq> [] \<and> (\<forall>f \<in> set (go_fields out). case go_atoi f of None \<Rightarrow> False | Some v \<Rightarrow> n \<le> v)"

definition k8s_satisfied :: "k8s_spec \<Rightarrow> string \<Rightarrow> bool" where
  "k8s_satisfied s out =
     (if ks_expectEmpty s then trim_space out = ''''
      else if ks_expectAtLeast s > 0 then allAtLeast out (ks_expectAtLeast s)
      else sublist (ks_expectContain s) out)"

definition expect_at_least :: "jobj \<Rightarrow> spec_error + int" where
  "expect_at_least raw =
     (case map_of raw ''expect_at_least'' of
        None \<Rightarrow> Inr 0
      | Some _ \<Rightarrow>
          bindR (fieldR (optInt raw ''expect_at_least'')) (\<lambda>n.
          bindR (rejectIf (n < 1) (sprintf ''k8s probe: % must be at least 1, got %: a lower bound of zero passes unconditionally''
                   [AQ ''expect_at_least'', AD n])) (\<lambda>_. Inr n)))"

definition k8s_fields :: "jobj \<Rightarrow> spec_error + k8s_spec" where
  "k8s_fields raw =
     bindR (fieldR (optString raw ''resource'')) (\<lambda>resource.
     bindR (fieldR (optString raw ''namespace'')) (\<lambda>namespace.
     bindR (fieldR (optString raw ''name'')) (\<lambda>name.
     bindR (fieldR (optString raw ''label_selector'')) (\<lambda>selector.
     bindR (fieldR (optString raw ''jsonpath'')) (\<lambda>path.
     bindR (fieldR (optString raw ''expect_contains'')) (\<lambda>contain.
     bindR (fieldR (optBool raw ''expect_empty'')) (\<lambda>empty.
     bindR (expect_at_least raw) (\<lambda>atLeast.
     bindR (fieldR (optDuration raw ''dwell'' 0)) (\<lambda>dwell.
     bindR (fieldR (optDuration raw ''timeout'' DefaultTimeout)) (\<lambda>timeout.
     bindR (fieldR (optDuration raw ''interval'' DefaultInterval)) (\<lambda>interval.
       Inr \<lparr>ks_resource = resource, ks_namespace = namespace, ks_name = name, ks_labelSelector = selector,
            ks_jsonPath = path, ks_expectContain = contain, ks_expectEmpty = empty, ks_expectAtLeast = atLeast,
            ks_dwell = dwell, ks_timeout = timeout, ks_interval = interval\<rparr>)))))))))))"

text \<open>The namespace and the selector the fault's target gives.\<close>

definition k8s_aim :: "probe_target \<Rightarrow> k8s_spec \<Rightarrow> k8s_spec" where
  "k8s_aim target s =
     s\<lparr>ks_namespace := (if ks_namespace s = '''' then pt_Namespace target else ks_namespace s),
       ks_labelSelector := (if ks_name s = '''' \<and> ks_labelSelector s = '''' then Target_Selector target else ks_labelSelector s)\<rparr>"

definition k8s_stated :: "k8s_spec \<Rightarrow> nat" where
  "k8s_stated s = length (filter id [ks_expectEmpty s, ks_expectContain s \<noteq> '''', ks_expectAtLeast s > 0])"

definition parseK8sSpec :: "jobj \<Rightarrow> probe_target \<Rightarrow> spec_error + k8s_spec" where
  "parseK8sSpec raw target =
     bindR (k8s_fields raw) (\<lambda>s0. let s = k8s_aim target s0 in
     bindR (rejectIf (ks_resource s = '''') (sprintf ''k8s probe: % is required'' [AQ ''resource''])) (\<lambda>_.
     bindR (rejectIf (ks_jsonPath s = '''') (sprintf ''k8s probe: % is required'' [AQ ''jsonpath''])) (\<lambda>_.
     bindR (rejectIf (ks_namespace s = '''')
       ''k8s probe: no namespace, and the fault declares no target namespace to fall back to'') (\<lambda>_.
     bindR (rejectIf (ks_name s0 \<noteq> '''' \<and> ks_labelSelector s0 \<noteq> '''')
       (sprintf ''k8s probe: % and % are mutually exclusive'' [AQ ''name'', AQ ''label_selector''])) (\<lambda>_.
     bindR (rejectIf (k8s_stated s > 1)
       (sprintf ''k8s probe: %, % and % are mutually exclusive'' [AQ ''expect_contains'', AQ ''expect_empty'', AQ ''expect_at_least''])) (\<lambda>_.
     bindR (rejectIf (k8s_stated s = 0)
       (sprintf ''k8s probe: needs % (non-empty), % or %: a probe with none of them passes unconditionally''
          [AQ ''expect_contains'', AQ ''expect_empty'', AQ ''expect_at_least''])) (\<lambda>_.
     bindR (rejectIf (ks_timeout s \<le> 0)
       (sprintf ''k8s probe: % must be positive, got %'' [AQ ''timeout'', AS (duration_string (ks_timeout s))])) (\<lambda>_.
     bindR (rejectIf (ks_interval s \<le> 0)
       (sprintf ''k8s probe: % must be positive, got %'' [AQ ''interval'', AS (duration_string (ks_interval s))])) (\<lambda>_.
     bindR (rejectIf (ks_dwell s < 0)
       (sprintf ''k8s probe: % cannot be negative, got %'' [AQ ''dwell'', AS (duration_string (ks_dwell s))])) (\<lambda>_.
     bindR (rejectIf (ks_dwell s \<ge> ks_timeout s)
       (sprintf ''k8s probe: % (%) must be shorter than % (%): the hold starts after the condition first holds, so there has to be room for both''
          [AQ ''dwell'', AS (duration_string (ks_dwell s)), AQ ''timeout'', AS (duration_string (ks_timeout s))])) (\<lambda>_.
       Inr s)))))))))))"

record group_resource =
  gvr_Group :: string
  gvr_Version :: string
  gvr_Resource :: string

text \<open>
  The client: \<open>ka_parseArg\<close> splits a resource argument (the fully specified form, if it
  is one, and the form without a version), \<open>ka_resourceFor\<close> is the REST mapper,
  \<open>ka_execute\<close> renders a parsed expression.
\<close>

record 'w k8s_access =
  ka_parseArg :: "string \<Rightarrow> group_resource option \<times> group_resource"
  ka_resourceFor :: "group_resource \<Rightarrow> string + group_resource"
  ka_jsonpath :: "string \<Rightarrow> string option"
  ka_get :: "group_resource \<Rightarrow> string \<Rightarrow> string \<Rightarrow> 'w \<Rightarrow> (string + json) \<times> 'w"
  ka_list :: "group_resource \<Rightarrow> string \<Rightarrow> string \<Rightarrow> 'w \<Rightarrow> (string + json) \<times> 'w"
  ka_execute :: "string \<Rightarrow> json \<Rightarrow> string + string"

definition k8s_resolve :: "'w k8s_access \<Rightarrow> string \<Rightarrow> string + group_resource" where
  "k8s_resolve k resource =
     (case ka_parseArg k (to_lower (trim_space resource)) of
        (full, gr) \<Rightarrow>
          let short = (case ka_resourceFor k gr of
                         Inl e \<Rightarrow> Inl (sprintf ''unknown resource %: %'' [AQ resource, AS e])
                       | Inr gvr \<Rightarrow> Inr gvr)
          in case full of
               None \<Rightarrow> short
             | Some f \<Rightarrow> (case ka_resourceFor k f of Inr gvr \<Rightarrow> Inr gvr | Inl _ \<Rightarrow> short))"

definition k8s_read :: "'w k8s_access \<Rightarrow> group_resource \<Rightarrow> k8s_spec \<Rightarrow> 'w \<Rightarrow> (string + json) \<times> 'w" where
  "k8s_read k gvr s w =
     (if ks_name s \<noteq> ''''
      then case ka_get k gvr (ks_namespace s) (ks_name s) w of
             (Inl e, w') \<Rightarrow> (Inl (sprintf ''get %/%: %'' [AS (ks_namespace s), AS (ks_name s), AS e]), w')
           | r \<Rightarrow> r
      else case ka_list k gvr (ks_namespace s) (ks_labelSelector s) w of
             (Inl e, w') \<Rightarrow> (Inl (sprintf ''list % in %: %'' [AS (gvr_Resource gvr), AS (ks_namespace s), AS e]), w')
           | r \<Rightarrow> r)"

definition k8s_poll :: "'w k8s_access \<Rightarrow> group_resource \<Rightarrow> k8s_spec \<Rightarrow> 'w \<Rightarrow> (string + string) \<times> 'w" where
  "k8s_poll k gvr s w =
     (case k8s_read k gvr s w of
        (Inl e, w') \<Rightarrow> (Inl e, w')
      | (Inr obj, w') \<Rightarrow>
          (case ka_execute k (ks_jsonPath s) obj of
             Inl e \<Rightarrow> (Inl (sprintf ''evaluate jsonpath: %'' [AS e]), w')
           | Inr out \<Rightarrow> (Inr out, w')))"

definition k8s_observe :: "'w k8s_access \<Rightarrow> group_resource \<Rightarrow> k8s_spec \<Rightarrow> 'w observation" where
  "k8s_observe k gvr s w =
     (case k8s_poll k gvr s w of
        (Inl e, w') \<Rightarrow> (Inl e, w')
      | (Inr out, w') \<Rightarrow> (Inr (out, if k8s_satisfied s out then Met else Unmet), w'))"

definition K8sProber_Run ::
  "'w poll_env \<Rightarrow> 'w k8s_access \<Rightarrow> (spec_error \<Rightarrow> string) \<Rightarrow> probe_spec \<Rightarrow> probe_target \<Rightarrow> 'w \<Rightarrow> (probe_result \<times> 'w) option" where
  "K8sProber_Run x k say p target w =
     (case parseK8sSpec (p_Spec p) target of
        Inl e \<Rightarrow> Some (spec_failure p '''' (say e), w)
      | Inr s \<Rightarrow>
          (case k8s_resolve k (ks_resource s) of
             Inl e \<Rightarrow> Some (spec_failure p (k8s_describe s) e, w)
           | Inr gvr \<Rightarrow>
               (case ka_jsonpath k (ks_jsonPath s) of
                  Some e \<Rightarrow> Some (spec_failure p (k8s_describe s) (sprintf ''parse jsonpath %: %'' [AQ (ks_jsonPath s), AS e]), w)
                | None \<Rightarrow> map_option (map_prod (loop_result p (k8s_describe s)) id)
                            (poll_for x (k8s_observe k gvr s) (Some (ks_dwell s)) (ks_interval s) (ks_timeout s) w))))"

section \<open>The logs probe\<close>

record logs_spec =
  lg_namespace :: string
  lg_labelSelector :: string
  lg_podName :: string
  lg_container :: string
  lg_tailLines :: int
  lg_previous :: bool
  lg_expectContains :: string
  lg_timeout :: duration
  lg_interval :: duration

definition defaultTailLines :: int where "defaultTailLines = 200"
definition maxLogPods :: nat where "maxLogPods = 10"

definition logs_describe :: "logs_spec \<Rightarrow> string" where
  "logs_describe s =
     (let container = (if lg_container s \<noteq> '''' then ''container '' @ quote_str (lg_container s) @ [CHR 0x27] @ ''s logs''
                       else ''the target'' @ [CHR 0x27] @ ''s logs'');
          where_read = (if lg_previous s then ''the previous instance of '' @ container else container)
      in quote_str (lg_expectContains s) @ '' in '' @ where_read)"

definition logs_fields :: "jobj \<Rightarrow> spec_error + logs_spec" where
  "logs_fields raw =
     bindR (fieldR (optString raw ''namespace'')) (\<lambda>namespace.
     bindR (fieldR (optString raw ''label_selector'')) (\<lambda>selector.
     bindR (fieldR (optString raw ''name'')) (\<lambda>name.
     bindR (fieldR (optString raw ''container'')) (\<lambda>container.
     bindR (fieldR (optString raw ''expect_contains'')) (\<lambda>contain.
     bindR (fieldR (optBool raw ''previous'')) (\<lambda>previous.
     bindR (fieldR (optInt raw ''tail_lines'')) (\<lambda>n.
     bindR (fieldR (optDuration raw ''timeout'' DefaultTimeout)) (\<lambda>timeout.
     bindR (fieldR (optDuration raw ''interval'' DefaultInterval)) (\<lambda>interval.
       Inr \<lparr>lg_namespace = namespace, lg_labelSelector = selector, lg_podName = name, lg_container = container,
            lg_tailLines = (if n \<noteq> 0 then n else defaultTailLines), lg_previous = previous, lg_expectContains = contain,
            lg_timeout = timeout, lg_interval = interval\<rparr>)))))))))"

definition logs_aim :: "probe_target \<Rightarrow> logs_spec \<Rightarrow> logs_spec" where
  "logs_aim target s =
     s\<lparr>lg_namespace := (if lg_namespace s = '''' then pt_Namespace target else lg_namespace s),
       lg_labelSelector := (if lg_podName s = '''' \<and> lg_labelSelector s = '''' then Target_Selector target else lg_labelSelector s)\<rparr>"

definition parseLogsSpec :: "jobj \<Rightarrow> probe_target \<Rightarrow> spec_error + logs_spec" where
  "parseLogsSpec raw target =
     bindR (logs_fields raw) (\<lambda>s0. let s = logs_aim target s0 in
     bindR (rejectIf (lg_namespace s = '''')
       ''logs probe: no namespace, and the fault declares no target namespace to fall back to'') (\<lambda>_.
     bindR (rejectIf (lg_podName s0 \<noteq> '''' \<and> lg_labelSelector s0 \<noteq> '''')
       (sprintf ''logs probe: % and % are mutually exclusive'' [AQ ''name'', AQ ''label_selector''])) (\<lambda>_.
     bindR (rejectIf (lg_podName s = '''' \<and> lg_labelSelector s = '''')
       (sprintf ''logs probe: needs % or %, and the fault declares no target labels to fall back to'' [AQ ''name'', AQ ''label_selector''])) (\<lambda>_.
     bindR (rejectIf (trim_space (lg_expectContains s) = '''')
       (sprintf ''logs probe: % must be non-empty and not just whitespace: every log contains % and almost every log contains %''
          [AQ ''expect_contains'', AQ '''', AQ '' ''])) (\<lambda>_.
     bindR (rejectIf (lg_tailLines s \<le> 0)
       (sprintf ''logs probe: % must be positive, got %'' [AQ ''tail_lines'', AD (lg_tailLines s)])) (\<lambda>_.
     bindR (rejectIf (lg_timeout s \<le> 0)
       (sprintf ''logs probe: % must be positive, got %'' [AQ ''timeout'', AS (duration_string (lg_timeout s))])) (\<lambda>_.
     bindR (rejectIf (lg_interval s \<le> 0)
       (sprintf ''logs probe: % must be positive, got %'' [AQ ''interval'', AS (duration_string (lg_interval s))])) (\<lambda>_.
       Inr s))))))))"

definition matchingLine :: "string \<Rightarrow> string \<Rightarrow> string" where
  "matchingLine out want =
     (case find (sublist want) (split_on (CHR 0x0A) out) of Some l \<Rightarrow> truncate_text l 512 | None \<Rightarrow> truncate_text want 512)"

definition lastLine :: "string \<Rightarrow> string" where
  "lastLine out =
     (case find (\<lambda>l. l \<noteq> '''') (map trim_space (rev (split_on (CHR 0x0A) out))) of Some l \<Rightarrow> l | None \<Rightarrow> '''')"

record 'w log_source =
  ls_PodNames :: "string \<Rightarrow> string \<Rightarrow> 'w \<Rightarrow> (string + string list) \<times> 'w"
  ls_PodLog :: "logs_spec \<Rightarrow> string \<Rightarrow> 'w \<Rightarrow> (string + string) \<times> 'w"

definition log_pods :: "'w log_source \<Rightarrow> logs_spec \<Rightarrow> 'w \<Rightarrow> (string + string list) \<times> 'w" where
  "log_pods src s w =
     (if lg_podName s \<noteq> '''' then (Inr [lg_podName s], w)
      else case ls_PodNames src (lg_namespace s) (lg_labelSelector s) w of
             (Inl e, w') \<Rightarrow> (Inl e, w')
           | (Inr pods, w') \<Rightarrow>
               if pods = [] then (Inl (sprintf ''no pods in % matching %'' [AS (lg_namespace s), AQ (lg_labelSelector s)]), w')
               else (Inr (take maxLogPods pods), w'))"

text \<open>What the pods read so far said last, and the first read error.\<close>

fun read_logs ::
  "'w log_source \<Rightarrow> logs_spec \<Rightarrow> string list \<Rightarrow> string list \<Rightarrow> string option \<Rightarrow> nat \<Rightarrow> 'w \<Rightarrow> (string + string \<times> verdict) \<times> 'w" where
  "read_logs src s [] summary firstErr read w =
     (if read = 0 then (Inl (case firstErr of None \<Rightarrow> '''' | Some e \<Rightarrow> e), w)
      else (Inr (truncate_text (join_with ''; '' summary) 512, Unmet), w))"
| "read_logs src s (pod # pods) summary firstErr read w =
     (case ls_PodLog src s pod w of
        (Inl e, w') \<Rightarrow> read_logs src s pods summary (case firstErr of None \<Rightarrow> Some e | Some e' \<Rightarrow> Some e') read w'
      | (Inr out, w') \<Rightarrow>
          if sublist (lg_expectContains s) out
          then (Inr (sprintf ''%: %'' [AS pod, AS (matchingLine out (lg_expectContains s))], Met), w')
          else read_logs src s pods
                 (if lastLine out \<noteq> '''' then summary @ [sprintf ''%: %'' [AS pod, AS (lastLine out)]] else summary)
                 firstErr (Suc read) w')"

definition logs_round :: "'w log_source \<Rightarrow> logs_spec \<Rightarrow> 'w observation" where
  "logs_round src s w =
     (case log_pods src s w of
        (Inl e, w') \<Rightarrow> (Inl e, w')
      | (Inr pods, w') \<Rightarrow> read_logs src s pods [] None 0 w')"

definition LogsProber_Run ::
  "'w poll_env \<Rightarrow> 'w log_source \<Rightarrow> (spec_error \<Rightarrow> string) \<Rightarrow> probe_spec \<Rightarrow> probe_target \<Rightarrow> 'w \<Rightarrow> (probe_result \<times> 'w) option" where
  "LogsProber_Run x src say p target w =
     (case parseLogsSpec (p_Spec p) target of
        Inl e \<Rightarrow> Some (spec_failure p '''' (say e), w)
      | Inr s \<Rightarrow> map_option (map_prod (loop_result p (logs_describe s)) id)
                   (poll_for x (logs_round src s) None (lg_interval s) (lg_timeout s) w))"

section \<open>The http and tcp probes\<close>

record http_pod =
  hp_Name :: string
  hp_IP :: string
  hp_Ports :: "int list"

text \<open>A pod as listed: its phase, labels and declared ports.  A service: its name, selector
  and ports with their target.\<close>

record listed_pod = http_pod +
  hp_Phase :: string
  hp_Labels :: "string gomap"

record probe_service =
  vc_Name :: string
  vc_Selector :: "string gomap"
  vc_Ports :: "(int \<times> int_or_string) list"

text \<open>\<^verbatim>\<open>TargetPort.IntValue\<close> is used for a number only; a port of 0 is the service's own.\<close>

definition target_port :: "int \<times> int_or_string \<Rightarrow> int option" where
  "target_port sp =
     (case snd sp of
        PortStr _ \<Rightarrow> None
      | PortInt n \<Rightarrow> (let port = (if n = 0 then fst sp else n) in if port > 0 then Some port else None))"

text \<open>Each element once, where it first occurs: the \<^verbatim>\<open>seen\<close> map idiom.\<close>

definition seen_once :: "'a list \<Rightarrow> 'a list" where
  "seen_once xs = rev (remdups (rev xs))"

definition servicePortsFor :: "string gomap \<Rightarrow> probe_service list \<Rightarrow> int list" where
  "servicePortsFor podLabels services =
     seen_once (concat (map (\<lambda>svc.
       if vc_Selector svc = [] \<or> \<not> (\<forall>p \<in> set (vc_Selector svc). map_of podLabels (fst p) = Some (snd p)) then []
       else List.map_filter target_port (vc_Ports svc)) services))"

record 'w pod_access =
  pa_pods :: "string \<Rightarrow> string \<Rightarrow> 'w \<Rightarrow> (string + listed_pod list) \<times> 'w"
  pa_services :: "string \<Rightarrow> 'w \<Rightarrow> (string + probe_service list) \<times> 'w"

text \<open>The services are listed once, for the first pod that declares no port.\<close>

fun dial_pods ::
  "'w pod_access \<Rightarrow> string \<Rightarrow> listed_pod list \<Rightarrow> probe_service list option \<Rightarrow> http_pod list \<Rightarrow> 'w
     \<Rightarrow> (string + http_pod list) \<times> 'w" where
  "dial_pods a ns [] svcs out w = (Inr out, w)"
| "dial_pods a ns (p # ps) svcs out w =
     (if hp_Phase p \<noteq> ''Running'' \<or> hp_IP p = '''' then dial_pods a ns ps svcs out w
      else if hp_Ports p \<noteq> [] then dial_pods a ns ps svcs (out @ [http_pod.truncate p]) w
      else case svcs of
             Some ss \<Rightarrow> dial_pods a ns ps svcs (out @ [(http_pod.truncate p)\<lparr>hp_Ports := servicePortsFor (hp_Labels p) ss\<rparr>]) w
           | None \<Rightarrow>
               (case pa_services a ns w of
                  (Inl e, w') \<Rightarrow> (Inl (sprintf ''list services in % to find a port for a pod that declares none: %'' [AS ns, AS e]), w')
                | (Inr items, w') \<Rightarrow>
                    let ss = sort_key vc_Name items
                    in dial_pods a ns ps (Some ss)
                         (out @ [(http_pod.truncate p)\<lparr>hp_Ports := servicePortsFor (hp_Labels p) ss\<rparr>]) w'))"

definition ListPods :: "'w pod_access \<Rightarrow> string \<Rightarrow> string \<Rightarrow> 'w \<Rightarrow> (string + http_pod list) \<times> 'w" where
  "ListPods a ns selector w =
     (case pa_pods a ns selector w of
        (Inl e, w') \<Rightarrow> (Inl (sprintf ''list pods in % (selector=%): %'' [AS ns, AQ selector, AS e]), w')
      | (Inr ps, w') \<Rightarrow> dial_pods a ns ps None [] w')"

record http_spec =
  hs_tcp :: bool
  hs_namespace :: string
  hs_labelSelector :: string
  hs_podName :: string
  hs_port :: int
  hs_path :: string
  hs_scheme :: string
  hs_method :: string
  hs_jsonPath :: string
  hs_expectStatus :: int
  hs_expectContains :: string
  hs_expectEquals :: string
  hs_expectReachable :: bool
  hs_expectUnreachable :: bool
  hs_minLatency :: duration
  hs_maxLatency :: duration
  hs_timeout :: duration
  hs_interval :: duration
  hs_requestTimeout :: duration

text \<open>A transport error: its text and whether it is a timeout.\<close>

record attempt =
  at_pod :: http_pod
  at_endpoint :: string
  at_status :: int
  at_value :: string
  at_latency :: duration
  at_err :: "(string \<times> bool) option"
  at_fatal :: "string option"

definition DefaultRequestTimeout :: duration where "DefaultRequestTimeout = 3 * sec"

definition slowCountsAsTimeout :: "http_spec \<Rightarrow> bool" where
  "slowCountsAsTimeout s \<longleftrightarrow>
     hs_minLatency s > 0 \<and> \<not> hs_expectReachable s \<and> hs_expectStatus s = 0 \<and> hs_expectContains s = '''' \<and>
     hs_expectEquals s = '''' \<and> hs_requestTimeout s \<ge> hs_minLatency s"

definition timedOutSlowly :: "http_spec \<Rightarrow> attempt \<Rightarrow> bool" where
  "timedOutSlowly s a \<longleftrightarrow>
     slowCountsAsTimeout s \<and> at_latency a \<ge> hs_minLatency s \<and> (\<exists>t. at_err a = Some (t, True))"

definition http_satisfied :: "http_spec \<Rightarrow> attempt \<Rightarrow> bool" where
  "http_satisfied s a =
     (if hs_expectUnreachable s then at_err a \<noteq> None
      else if at_err a \<noteq> None then timedOutSlowly s a
      else \<not> (hs_expectStatus s \<noteq> 0 \<and> at_status a \<noteq> hs_expectStatus s) \<and>
           \<not> (hs_expectContains s \<noteq> '''' \<and> \<not> sublist (hs_expectContains s) (at_value a)) \<and>
           \<not> (hs_expectEquals s \<noteq> '''' \<and> trim_space (at_value a) \<noteq> hs_expectEquals s) \<and>
           \<not> (hs_minLatency s > 0 \<and> at_latency a < hs_minLatency s) \<and>
           \<not> (hs_maxLatency s > 0 \<and> at_latency a > hs_maxLatency s))"

definition valueName :: "http_spec \<Rightarrow> string" where
  "valueName s = (if hs_jsonPath s \<noteq> '''' then ''jsonpath '' @ hs_jsonPath s else ''body'')"

definition http_describe :: "http_spec \<Rightarrow> string" where
  "http_describe s =
     (let latency = (if hs_tcp s then ''connect time'' else ''latency'');
          parts =
            (if hs_expectUnreachable s then [''connection to fail''] else []) @
            (if hs_expectReachable s then [''connection to succeed''] else []) @
            (if hs_expectStatus s \<noteq> 0 then [sprintf ''status %'' [AD (hs_expectStatus s)]] else []) @
            (if hs_expectContains s \<noteq> '''' then [sprintf ''% in %'' [AQ (hs_expectContains s), AS (valueName s)]] else []) @
            (if hs_expectEquals s \<noteq> '''' then [sprintf ''% == %'' [AS (valueName s), AQ (hs_expectEquals s)]] else []) @
            (if hs_minLatency s > 0
             then [sprintf ''% >= %'' [AS latency, AS (duration_string (hs_minLatency s))] @
                   (if slowCountsAsTimeout s
                    then sprintf '' (or no response within %)'' [AS (duration_string (hs_requestTimeout s))] else '''')]
             else []) @
            (if hs_maxLatency s > 0 then [sprintf ''% <= %'' [AS latency, AS (duration_string (hs_maxLatency s))]] else [])
      in join_with '' and '' parts @ '', on every target pod'')"

definition attempt_describe :: "attempt \<Rightarrow> string" where
  "attempt_describe a =
     (let lat = duration_string (round_duration (at_latency a) 1000000)
      in case at_fatal a of
           Some e \<Rightarrow> sprintf ''%: %'' [AS (hp_Name (at_pod a)), AS e]
         | None \<Rightarrow>
             (case at_err a of
                Some (e, _) \<Rightarrow> sprintf ''% (%): unreachable after %: %'' [AS (hp_Name (at_pod a)), AS (at_endpoint a), AS lat, AS e]
              | None \<Rightarrow>
                  if has_prefix (at_endpoint a) ''tcp://''
                  then sprintf ''% (%): connected in %'' [AS (hp_Name (at_pod a)), AS (at_endpoint a), AS lat]
                  else sprintf ''% (%): % in %, value=%''
                         [AS (hp_Name (at_pod a)), AS (at_endpoint a), AD (at_status a), AS lat, AQ (truncate_text (at_value a) 120)]))"

text \<open>\<open>ra_do\<close> makes one request: the error, or the status with the body, which may break
  off, and how long it took.  \<open>ra_dial\<close> makes one connect.  \<open>ra_render\<close> evaluates the
  expression on the body.\<close>

record 'w request_access =
  ra_do :: "http_spec \<Rightarrow> string \<Rightarrow> 'w \<Rightarrow> ((string \<times> bool) + int \<times> ((string \<times> bool) + string)) \<times> duration \<times> 'w"
  ra_dial :: "http_spec \<Rightarrow> string \<Rightarrow> 'w \<Rightarrow> (string \<times> bool) option \<times> duration \<times> 'w"
  ra_badRequest :: "http_spec \<Rightarrow> string \<Rightarrow> string option"
  ra_render :: "string \<Rightarrow> string \<Rightarrow> string + string"
  ra_jsonpath :: "string \<Rightarrow> string option"

definition new_attempt :: "http_pod \<Rightarrow> attempt" where
  "new_attempt pod = \<lparr>at_pod = pod, at_endpoint = '''', at_status = 0, at_value = '''', at_latency = 0, at_err = None, at_fatal = None\<rparr>"

definition tcp_connect :: "'w request_access \<Rightarrow> http_spec \<Rightarrow> http_pod \<Rightarrow> int \<Rightarrow> 'w \<Rightarrow> attempt \<times> 'w" where
  "tcp_connect q s pod port w =
     (let ip = (if CHR '':'' \<in> set (hp_IP pod) then ''['' @ hp_IP pod @ '']'' else hp_IP pod);
          addr = ip @ '':'' @ int_dec port
      in case ra_dial q s addr w of
           (err, lat, w') \<Rightarrow> ((new_attempt pod)\<lparr>at_endpoint := ''tcp://'' @ addr, at_latency := lat, at_err := err\<rparr>, w'))"

definition http_request :: "'w request_access \<Rightarrow> http_spec \<Rightarrow> http_pod \<Rightarrow> int \<Rightarrow> 'w \<Rightarrow> attempt \<times> 'w" where
  "http_request q s pod port w =
     (let endpoint = sprintf ''%://%:%%'' [AS (hs_scheme s), AS (hp_IP pod), AD port, AS (hs_path s)];
          a = (new_attempt pod)\<lparr>at_endpoint := endpoint\<rparr>
      in case ra_badRequest q s endpoint of
           Some e \<Rightarrow> (a\<lparr>at_fatal := Some (sprintf ''build request for %: %'' [AS endpoint, AS e])\<rparr>, w)
         | None \<Rightarrow>
             (case ra_do q s endpoint w of
                (Inl err, lat, w') \<Rightarrow> (a\<lparr>at_latency := lat, at_err := Some err\<rparr>, w')
              | (Inr (status, Inl err), lat, w') \<Rightarrow>
                  (a\<lparr>at_latency := lat, at_status := status,
                     at_err := Some (sprintf ''read body from %: %'' [AS endpoint, AS (fst err)], snd err)\<rparr>, w')
              | (Inr (status, Inr body), lat, w') \<Rightarrow>
                  if hs_jsonPath s = '''' then (a\<lparr>at_latency := lat, at_status := status, at_value := body\<rparr>, w')
                  else case ra_render q (hs_jsonPath s) body of
                         Inl e \<Rightarrow> (a\<lparr>at_latency := lat, at_status := status, at_value := body,
                                     at_err := Some (sprintf ''%: %'' [AS endpoint, AS e], False)\<rparr>, w')
                       | Inr v \<Rightarrow> (a\<lparr>at_latency := lat, at_status := status, at_value := v\<rparr>, w')))"

definition hit_pod :: "'w request_access \<Rightarrow> http_spec \<Rightarrow> http_pod \<Rightarrow> 'w \<Rightarrow> attempt \<times> 'w" where
  "hit_pod q s pod w =
     (if hs_port s = 0 \<and> hp_Ports pod = []
      then ((new_attempt pod)\<lparr>at_fatal := Some (sprintf
              ''pod % declares no container port, no Service selecting it names a numeric targetPort, and the probe does not set %''
              [AQ (hp_Name pod), AQ ''port''])\<rparr>, w)
      else let port = (if hs_port s = 0 then hd (hp_Ports pod) else hs_port s)
           in if hs_tcp s then tcp_connect q s pod port w else http_request q s pod port w)"

fun hit_all :: "'w request_access \<Rightarrow> http_spec \<Rightarrow> http_pod list \<Rightarrow> 'w \<Rightarrow> attempt list \<times> 'w" where
  "hit_all q s [] w = ([], w)"
| "hit_all q s (p # ps) w = (case hit_pod q s p w of (a, w1) \<Rightarrow> case hit_all q s ps w1 of (as, w2) \<Rightarrow> (a # as, w2))"

definition http_round :: "'w pod_access \<Rightarrow> 'w request_access \<Rightarrow> http_spec \<Rightarrow> 'w \<Rightarrow> (string + attempt list) \<times> 'w" where
  "http_round a q s w =
     (case ListPods a (hs_namespace s) (hs_labelSelector s) w of
        (Inl e, w') \<Rightarrow> (Inl e, w')
      | (Inr all, w') \<Rightarrow>
          let pods = (if hs_podName s = '''' then all else filter (\<lambda>p. hp_Name p = hs_podName s) all)
          in if pods = []
             then (Inl (sprintf ''no running pods with an IP match namespace=% selector=% name=%''
                          [AQ (hs_namespace s), AQ (hs_labelSelector s), AQ (hs_podName s)]), w')
             else map_prod Inr id (hit_all q s (sort_key hp_Name pods) w'))"

definition allSatisfied :: "http_spec \<Rightarrow> attempt list \<Rightarrow> bool" where
  "allSatisfied s attempts \<longleftrightarrow> list_all (http_satisfied s) attempts \<and> attempts \<noteq> []"

definition firstFatal :: "attempt list \<Rightarrow> string option" where
  "firstFatal attempts = first_some at_fatal attempts"

definition describeAttempts :: "attempt list \<Rightarrow> string" where
  "describeAttempts attempts = join_with ''; '' (map attempt_describe attempts)"

definition http_observe :: "'w pod_access \<Rightarrow> 'w request_access \<Rightarrow> http_spec \<Rightarrow> 'w observation" where
  "http_observe a q s w =
     (case http_round a q s w of
        (Inl e, w') \<Rightarrow> (Inl e, w')
      | (Inr attempts, w') \<Rightarrow>
          (Inr (describeAttempts attempts,
                case firstFatal attempts of Some e \<Rightarrow> Fatal e | None \<Rightarrow> if allSatisfied s attempts then Met else Unmet), w'))"

definition upper_char :: "char \<Rightarrow> char" where
  "upper_char c = (if 97 \<le> (of_char c :: nat) \<and> (of_char c :: nat) \<le> 122 then char_of ((of_char c :: nat) - 32) else c)"

definition or_default :: "string \<Rightarrow> string \<Rightarrow> string" where
  "or_default v dflt = (if v = '''' then dflt else v)"

definition responseKeys :: "string list" where
  "responseKeys = [''path'', ''scheme'', ''method'', ''jsonpath'', ''expect_status'', ''expect_contains'', ''expect_equals'']"

definition http_fields :: "jobj \<Rightarrow> bool \<Rightarrow> spec_error + http_spec" where
  "http_fields raw tcp =
     bindR (fieldR (optString raw ''namespace'')) (\<lambda>namespace.
     bindR (fieldR (optString raw ''label_selector'')) (\<lambda>selector.
     bindR (fieldR (optString raw ''name'')) (\<lambda>name.
     bindR (fieldR (optInt raw ''port'')) (\<lambda>port.
     bindR (fieldR (optString raw ''path'')) (\<lambda>path.
     bindR (fieldR (optString raw ''scheme'')) (\<lambda>scheme.
     bindR (fieldR (optString raw ''method'')) (\<lambda>method.
     bindR (fieldR (optString raw ''jsonpath'')) (\<lambda>jsonpath.
     bindR (fieldR (optInt raw ''expect_status'')) (\<lambda>status.
     bindR (fieldR (optString raw ''expect_contains'')) (\<lambda>contain.
     bindR (fieldR (optString raw ''expect_equals'')) (\<lambda>equals.
     bindR (fieldR (optBool raw ''expect_reachable'')) (\<lambda>reachable.
     bindR (fieldR (optBool raw ''expect_unreachable'')) (\<lambda>unreachable.
     bindR (fieldR (optDuration raw ''min_latency'' 0)) (\<lambda>minLatency.
     bindR (fieldR (optDuration raw ''max_latency'' 0)) (\<lambda>maxLatency.
     bindR (fieldR (optDuration raw ''timeout'' DefaultTimeout)) (\<lambda>timeout.
     bindR (fieldR (optDuration raw ''interval'' DefaultInterval)) (\<lambda>interval.
     bindR (fieldR (optDuration raw ''request_timeout'' DefaultRequestTimeout)) (\<lambda>requestTimeout.
       Inr \<lparr>hs_tcp = tcp, hs_namespace = namespace, hs_labelSelector = selector, hs_podName = name, hs_port = port,
            hs_path = or_default path ''/'', hs_scheme = or_default scheme ''http'',
            hs_method = (if method = '''' then ''GET'' else map upper_char method),
            hs_jsonPath = jsonpath, hs_expectStatus = status, hs_expectContains = contain, hs_expectEquals = equals,
            hs_expectReachable = reachable, hs_expectUnreachable = unreachable, hs_minLatency = minLatency,
            hs_maxLatency = maxLatency, hs_timeout = timeout, hs_interval = interval,
            hs_requestTimeout = requestTimeout\<rparr>))))))))))))))))))"

definition http_aim :: "probe_target \<Rightarrow> http_spec \<Rightarrow> http_spec" where
  "http_aim target s =
     s\<lparr>hs_namespace := (if hs_namespace s = '''' then pt_Namespace target else hs_namespace s),
       hs_labelSelector := (if hs_labelSelector s = '''' \<and> hs_podName s = '''' then Target_Selector target else hs_labelSelector s),
       hs_path := (if has_prefix (hs_path s) ''/'' then hs_path s else ''/'' @ hs_path s)\<rparr>"

definition http_stated :: "http_spec \<Rightarrow> nat" where
  "http_stated s =
     length (filter id [hs_expectUnreachable s, hs_expectReachable s, hs_expectStatus s \<noteq> 0, hs_expectContains s \<noteq> '''',
       hs_expectEquals s \<noteq> '''', hs_minLatency s > 0, hs_maxLatency s > 0])"

definition http_checks :: "http_spec \<Rightarrow> spec_error + unit" where
  "http_checks s =
     bindR (rejectIf (hs_namespace s = '''')
       ''http probe: no namespace, and the fault declares no target namespace to fall back to'') (\<lambda>_.
     bindR (rejectIf (hs_labelSelector s = '''' \<and> hs_podName s = '''')
       (sprintf ''http probe: needs % or %, and the fault declares no target labels to fall back to'' [AQ ''label_selector'', AQ ''name''])) (\<lambda>_.
     bindR (rejectIf (hs_scheme s \<noteq> ''http'' \<and> hs_scheme s \<noteq> ''https'')
       (sprintf ''http probe: % must be http or https, got %'' [AQ ''scheme'', AQ (hs_scheme s)])) (\<lambda>_.
     bindR (rejectIf (hs_port s < 0 \<or> hs_port s > 65535)
       (sprintf ''http probe: % must be 1-65535, got %'' [AQ ''port'', AD (hs_port s)])) (\<lambda>_.
     bindR (rejectIf (hs_expectStatus s \<noteq> 0 \<and> (hs_expectStatus s < 100 \<or> hs_expectStatus s > 599))
       (sprintf ''http probe: % must be 100-599, got %'' [AQ ''expect_status'', AD (hs_expectStatus s)])) (\<lambda>_.
     bindR (rejectIf (http_stated s = 0)
       ''http probe: states no condition; set one of expect_unreachable, expect_reachable, expect_status, expect_contains, expect_equals, min_latency, max_latency: a probe with none passes unconditionally'') (\<lambda>_.
     bindR (rejectIf (hs_expectUnreachable s \<and> http_stated s > 1)
       (sprintf ''http probe: % cannot be combined with any other expectation % there is no response to assert on''
          [AQ ''expect_unreachable'', AS [CHR 0xE2, CHR 0x80, CHR 0x94]])) (\<lambda>_.
     bindR (rejectIf (hs_minLatency s > 0 \<and> hs_maxLatency s > 0 \<and> hs_minLatency s > hs_maxLatency s)
       (sprintf ''http probe: % (%) is above % (%), which nothing can satisfy''
          [AQ ''min_latency'', AS (duration_string (hs_minLatency s)), AQ ''max_latency'', AS (duration_string (hs_maxLatency s))])) (\<lambda>_.
     bindR (rejectIf (hs_timeout s \<le> 0)
       (sprintf ''http probe: % must be positive, got %'' [AQ ''timeout'', AS (duration_string (hs_timeout s))])) (\<lambda>_.
     bindR (rejectIf (hs_interval s \<le> 0)
       (sprintf ''http probe: % must be positive, got %'' [AQ ''interval'', AS (duration_string (hs_interval s))])) (\<lambda>_.
     rejectIf (hs_requestTimeout s \<le> 0)
       (sprintf ''http probe: % must be positive, got %'' [AQ ''request_timeout'', AS (duration_string (hs_requestTimeout s))])))))))))))"

definition parseHTTPSpec :: "jobj \<Rightarrow> probe_target \<Rightarrow> bool \<Rightarrow> spec_error + http_spec" where
  "parseHTTPSpec raw target tcp =
     (case (if tcp then find (\<lambda>k. map_of raw k \<noteq> None) responseKeys else None) of
        Some k \<Rightarrow> Inl (SpecError (sprintf ''tcp probe: % has no meaning for a bare connect; use an http probe to assert on a response'' [AQ k]))
      | None \<Rightarrow>
          bindR (http_fields raw tcp) (\<lambda>s0. let s = http_aim target s0 in
          bindR (http_checks s) (\<lambda>_. Inr s)))"

definition HTTPProber_run ::
  "'w poll_env \<Rightarrow> 'w pod_access \<Rightarrow> 'w request_access \<Rightarrow> (spec_error \<Rightarrow> string) \<Rightarrow> bool \<Rightarrow> probe_spec \<Rightarrow> probe_target \<Rightarrow> 'w
     \<Rightarrow> (probe_result \<times> 'w) option" where
  "HTTPProber_run x a q say tcp p target w =
     (case parseHTTPSpec (p_Spec p) target tcp of
        Inl e \<Rightarrow> Some (spec_failure p '''' (say e), w)
      | Inr s \<Rightarrow>
          (case (if hs_jsonPath s = '''' then None else ra_jsonpath q (hs_jsonPath s)) of
             Some e \<Rightarrow> Some (spec_failure p (http_describe s) (sprintf ''parse jsonpath %: %'' [AQ (hs_jsonPath s), AS e]), w)
           | None \<Rightarrow> map_option (map_prod (loop_result p (http_describe s)) id)
                       (poll_for x (http_observe a q s) None (hs_interval s) (hs_timeout s) w)))"


section \<open>What an accepted spec guarantees\<close>

lemma k8s_accepted:
  assumes "parseK8sSpec raw target = Inr s"
  shows "ks_resource s \<noteq> ''''" "ks_jsonPath s \<noteq> ''''" "ks_namespace s \<noteq> ''''" "k8s_stated s = 1"
    "0 < ks_timeout s" "0 < ks_interval s" "0 \<le> ks_dwell s" "ks_dwell s < ks_timeout s"
  using assms by (auto simp: parseK8sSpec_def Let_def)

lemma logs_accepted:
  assumes "parseLogsSpec raw target = Inr s"
  shows "lg_namespace s \<noteq> ''''" "trim_space (lg_expectContains s) \<noteq> ''''" "0 < lg_tailLines s" "0 < lg_timeout s" "0 < lg_interval s"
  using assms by (auto simp: parseLogsSpec_def Let_def)

lemma http_accepted:
  assumes "parseHTTPSpec raw target tcp = Inr s"
  shows "hs_namespace s \<noteq> ''''" "http_stated s \<noteq> 0" "hs_expectUnreachable s \<Longrightarrow> http_stated s = 1"
    "0 < hs_timeout s" "0 < hs_interval s" "0 < hs_requestTimeout s" "0 \<le> hs_port s" "hs_port s \<le> 65535"
  using assms by (auto simp: parseHTTPSpec_def http_checks_def Let_def split: option.splits if_splits)

text \<open>A result given without a poll: not passed, no attempt, and the error says why.\<close>

definition unprobed :: "probe_spec \<Rightarrow> string \<Rightarrow> probe_result \<Rightarrow> bool" where
  "unprobed p e res \<longleftrightarrow> \<not> res_Passed res \<and> res_Attempts res = 0 \<and> res_Name res = p_Name p \<and> res_Type res = p_Type p \<and>
     res_Err res = Some (GoErr (sprintf ''probe %: %'' [AQ (p_Name p), AS e]))"

lemma unprobed_spec_failure [simp]: "unprobed p e (spec_failure p d e)"
  by (simp add: unprobed_def spec_failure_def)

lemma K8sProber_unprobed:
  assumes "K8sProber_Run x k say p target w = Some (res, w')"
  shows "parseK8sSpec (p_Spec p) target = Inl e \<Longrightarrow> unprobed p (say e) res \<and> w' = w"
    "parseK8sSpec (p_Spec p) target = Inr s \<Longrightarrow> k8s_resolve k (ks_resource s) = Inl t \<Longrightarrow> unprobed p t res \<and> w' = w"
    "parseK8sSpec (p_Spec p) target = Inr s \<Longrightarrow> k8s_resolve k (ks_resource s) = Inr gvr \<Longrightarrow> ka_jsonpath k (ks_jsonPath s) = Some t \<Longrightarrow>
       unprobed p (sprintf ''parse jsonpath %: %'' [AQ (ks_jsonPath s), AS t]) res \<and> w' = w"
  using assms by (auto simp: K8sProber_Run_def)

lemma LogsProber_unprobed:
  "LogsProber_Run x src say p target w = Some (res, w') \<Longrightarrow> parseLogsSpec (p_Spec p) target = Inl e \<Longrightarrow>
     unprobed p (say e) res \<and> w' = w"
  by (auto simp: LogsProber_Run_def)

lemma HTTPProber_unprobed:
  assumes "HTTPProber_run x a q say tcp p target w = Some (res, w')"
  shows "parseHTTPSpec (p_Spec p) target tcp = Inl e \<Longrightarrow> unprobed p (say e) res \<and> w' = w"
    "parseHTTPSpec (p_Spec p) target tcp = Inr s \<Longrightarrow> hs_jsonPath s \<noteq> '''' \<Longrightarrow> ra_jsonpath q (hs_jsonPath s) = Some t \<Longrightarrow>
       unprobed p (sprintf ''parse jsonpath %: %'' [AQ (hs_jsonPath s), AS t]) res \<and> w' = w"
  using assms by (auto simp: HTTPProber_run_def)

text \<open>Nothing rendered, nothing logged and nothing dialled satisfy no spec but one that asks
  for emptiness.\<close>

lemma go_fields_Nil [simp]: "go_fields '''' = []"
  by (simp add: go_fields_def)

lemma k8s_not_vacuous:
  assumes "parseK8sSpec raw target = Inr s" "k8s_satisfied s ''''"
  shows "ks_expectEmpty s"
  using k8s_accepted(4) [OF assms(1)] assms(2)
  by (auto simp: k8s_satisfied_def k8s_stated_def allAtLeast_def split: if_splits)

lemma read_logs_Met:
  "read_logs src s pods summary firstErr n w = (Inr (out, Met), w')
     \<Longrightarrow> \<exists>pod\<in>set pods. \<exists>w1 w2 l. ls_PodLog src s pod w1 = (Inr l, w2) \<and> sublist (lg_expectContains s) l"
  by (induction src s pods summary firstErr n w rule: read_logs.induct)
    (fastforce split: if_splits sum.splits prod.splits)+

lemma http_observe_Met:
  assumes "http_observe a q s w = (Inr (out, Met), w')"
  shows "\<exists>attempts w1. http_round a q s w = (Inr attempts, w1) \<and> attempts \<noteq> [] \<and> list_all (http_satisfied s) attempts
     \<and> out = describeAttempts attempts"
  using assms by (auto simp: http_observe_def allSatisfied_def split: prod.splits sum.splits option.splits if_splits)


section \<open>Properties\<close>

lemma K8s_pass:
  assumes "K8sProber_Run x k say p target w = Some (res, w')" "res_Passed res"
  obtains s gvr where "parseK8sSpec (p_Spec p) target = Inr s" "k8s_satisfied s (res_Observed res)"
    "k8s_resolve k (ks_resource s) = Inr gvr" "held_for x (k8s_observe k gvr s) (ks_interval s) (ks_dwell s) (res_Observed res)"
proof -
  obtain s where s: "parseK8sSpec (p_Spec p) target = Inr s"
    using assms by (cases "parseK8sSpec (p_Spec p) target") (auto simp: K8sProber_Run_def spec_failure_def)
  obtain gvr where gvr: "k8s_resolve k (ks_resource s) = Inr gvr"
    using assms s by (cases "k8s_resolve k (ks_resource s)") (auto simp: K8sProber_Run_def spec_failure_def)
  from assms s gvr obtain e w1 where e: "poll_for x (k8s_observe k gvr s) (Some (ks_dwell s)) (ks_interval s) (ks_timeout s) w = Some (e, w1)"
    "res = loop_result p (k8s_describe s) e"
    by (auto simp: K8sProber_Run_def spec_failure_def split: option.splits)
  with assms(2) have p: "pe_Passed e" "res_Observed res = pe_Observed e" by (simp_all add: loop_result_def)
  from poll_for_pass(1) [OF e(1) p(1)] obtain v v1 where ob: "k8s_observe k gvr s v = (Inr (pe_Observed e, Met), v1)" by blast
  have "k8s_satisfied s (pe_Observed e)"
    using ob by (cases "k8s_poll k gvr s v") (auto simp: k8s_observe_def split: sum.splits if_splits)
  with that s gvr poll_for_pass(2) [OF e(1) p(1)] p(2) show thesis by simp
qed

text \<open>
  C21.  A k8s probe that passes has seen what it asks for, for as long as it asks.
  Its spec states exactly one condition and its resource resolves; what it observed meets it, and is not
  empty unless emptiness is the condition; and every poll over a stretch of at
  least the dwell, up to the last, met the condition.
\<close>

theorem k8s_pass_is_evidence:
  assumes "K8sProber_Run x k say p target w = Some (res, w')" "res_Passed res"
  shows "\<exists>s. parseK8sSpec (p_Spec p) target = Inr s \<and> k8s_stated s = 1 \<and> k8s_satisfied s (res_Observed res) \<and>
     (\<not> ks_expectEmpty s \<longrightarrow> res_Observed res \<noteq> '''') \<and>
     (\<exists>gvr. k8s_resolve k (ks_resource s) = Inr gvr \<and>
        held_for x (k8s_observe k gvr s) (ks_interval s) (ks_dwell s) (res_Observed res))"
proof -
  obtain s gvr where s: "parseK8sSpec (p_Spec p) target = Inr s" "k8s_satisfied s (res_Observed res)"
    "k8s_resolve k (ks_resource s) = Inr gvr" "held_for x (k8s_observe k gvr s) (ks_interval s) (ks_dwell s) (res_Observed res)"
    using K8s_pass [OF assms] .
  with k8s_accepted(4) [OF s(1)] k8s_not_vacuous [OF s(1)] show ?thesis by (intro exI [of _ s]) auto
qed

text \<open>A world that is a clock; the pods render a waiting reason from the third second on.\<close>

definition tick_env :: "int poll_env" where
  "tick_env = \<lparr>pl_now = (\<lambda>w. (w, w)), pl_wait = (\<lambda>d w. (None, w + d))\<rparr>"

definition tick_gvr :: group_resource where
  "tick_gvr = \<lparr>gvr_Group = '''', gvr_Version = ''v1'', gvr_Resource = ''pods''\<rparr>"

definition tick_cluster :: "int k8s_access" where
  "tick_cluster = \<lparr>ka_parseArg = (\<lambda>a. (None, tick_gvr)), ka_resourceFor = Inr, ka_jsonpath = (\<lambda>_. None),
     ka_get = (\<lambda>_ _ _ w. (Inl ''not found'', w)),
     ka_list = (\<lambda>_ _ _ w. (Inr (JStr (if w < 3 * sec then '''' else ''ImagePullBackOff'')), w)),
     ka_execute = (\<lambda>_ v. Inr (str_or_empty (Some v)))\<rparr>"

definition tick_probe :: probe_spec where
  "tick_probe = \<lparr>p_Name = ''p'', p_Type = ''k8s'', p_Mode = ProbeModeSettle,
     p_Spec = [(''resource'', JStr ''pods''), (''jsonpath'', JStr ''{.x}''), (''expect_contains'', JStr ''BackOff''),
               (''dwell'', JStr ''4s''), (''timeout'', JStr ''30s'')]\<rparr>"

definition tick_target :: probe_target where
  "tick_target = \<lparr>pt_Namespace = ''arena'', pt_Labels = [(''app'', ''web'')]\<rparr>"

definition tick_spec :: k8s_spec where
  "tick_spec = \<lparr>ks_resource = ''pods'', ks_namespace = ''arena'', ks_name = '''', ks_labelSelector = ''app=web'', ks_jsonPath = ''{.x}'',
     ks_expectContain = ''BackOff'', ks_expectEmpty = False, ks_expectAtLeast = 0, ks_dwell = 4 * sec, ks_timeout = 30 * sec,
     ks_interval = 2 * sec\<rparr>"

lemma tick_parse: "parseK8sSpec (p_Spec tick_probe) tick_target = Inr tick_spec"
  by code_simp

lemma tick_resolve: "k8s_resolve tick_cluster r = Inr tick_gvr"
  by (simp add: k8s_resolve_def tick_cluster_def)

lemma tick_jsonpath: "ka_jsonpath tick_cluster e = None"
  by (simp add: tick_cluster_def)

lemma tick_observe:
  "k8s_observe tick_cluster tick_gvr tick_spec w =
     (if w < 3 * sec then (Inr ('''', Unmet), w) else (Inr (''ImagePullBackOff'', Met), w))"
proof -
  have "k8s_satisfied tick_spec ''ImagePullBackOff''" "\<not> k8s_satisfied tick_spec ''''" by code_simp+
  moreover have "ks_name tick_spec = ''''" by (simp add: tick_spec_def)
  ultimately show ?thesis
    by (simp add: k8s_observe_def k8s_poll_def k8s_read_def tick_cluster_def str_or_empty_def)
qed

lemma poll_tick:
  "poll_loop tick_env (k8s_observe tick_cluster tick_gvr tick_spec) (Some (4 * sec)) (2 * sec) 0 (30 * sec) n held w =
     (let met = \<not> w < 3 * sec; h = (case held of None \<Rightarrow> w | Some h \<Rightarrow> h); obs = (if met then ''ImagePullBackOff'' else '''')
      in if met \<and> 4 * sec \<le> time_sub w h then Some (poll_ends tick_env 0 True obs (n + 1) None w)
         else if 30 * sec < w then Some (poll_ends tick_env 0 False obs (n + 1) None w)
         else poll_loop tick_env (k8s_observe tick_cluster tick_gvr tick_spec) (Some (4 * sec)) (2 * sec) 0 (30 * sec) (n + 1)
                (if met then Some h else None) (w + 2 * sec))"
  by (subst poll_loop.simps)
    (simp add: tick_observe tick_env_def judge_def observed_def read_error_def Let_def split: option.split)

lemma tick_passes:
  "\<exists>res w'. K8sProber_Run tick_env tick_cluster (\<lambda>_. '''') tick_probe tick_target 0 = Some (res, w') \<and> res_Passed res"
proof -
  note step = poll_tick [unfolded Let_def sec_def, simplified]
  have "poll_loop tick_env (k8s_observe tick_cluster tick_gvr tick_spec) (Some (4 * sec)) (2 * sec) 0 (30 * sec) 0 None 0
      = Some (poll_ends tick_env 0 True ''ImagePullBackOff'' 5 None (8 * sec))"
    by (simp add: step sec_def time_sub_def min_duration_def max_duration_def)
  then show ?thesis
    using tick_resolve [of "ks_resource tick_spec"]
    by (simp add: K8sProber_Run_def tick_parse poll_for_def tick_spec_def [THEN arg_cong, of ks_dwell]
        tick_spec_def [THEN arg_cong, of ks_timeout] tick_spec_def [THEN arg_cong, of ks_interval] tick_jsonpath)
      (simp add: tick_env_def loop_result_def poll_ends_def)
qed

theorem k8s_pass_is_evidence_witness:
  "\<exists>res w'. K8sProber_Run tick_env tick_cluster (\<lambda>_. '''') tick_probe tick_target 0 = Some (res, w') \<and> res_Observed res \<noteq> '''' \<and>
     held_for tick_env (k8s_observe tick_cluster tick_gvr tick_spec) (2 * sec) (4 * sec) (res_Observed res)"
proof -
  obtain res w' where r: "K8sProber_Run tick_env tick_cluster (\<lambda>_. '''') tick_probe tick_target 0 = Some (res, w')" "res_Passed res"
    using tick_passes by blast
  have "\<not> ks_expectEmpty tick_spec" "ks_interval tick_spec = 2 * sec" "ks_dwell tick_spec = 4 * sec" by (simp_all add: tick_spec_def)
  with k8s_pass_is_evidence [OF r] r(1) show ?thesis by (auto simp: tick_parse tick_resolve)
qed

text \<open>
  C40.  Every prober comes back, and a spec it cannot use costs nothing.  On a clock
  that moves, whatever the cluster, the logs and the network answer, a k8s, logs, http
  or tcp probe has a result.  A k8s, logs, http or tcp probe whose spec does not decode
  is answered without a clock read, a poll or an effect, by a result that has not
  passed, counts no attempt and carries the error of the decoding; so is a k8s probe
  of a resource the cluster does not know, and a k8s, http or tcp probe whose JSONPath
  does not parse.
\<close>

theorem probers_return:
  assumes "\<And>gvr s interval. poll_clock x (k8s_observe k gvr s) interval clk" "\<And>s interval. poll_clock x (logs_round src s) interval clk"
    and "\<And>s interval. poll_clock x (http_observe a q s) interval clk"
  shows "\<exists>rk wk rl wl rh wh. K8sProber_Run x k say p target w = Some (rk, wk) \<and>
     LogsProber_Run x src say p target w = Some (rl, wl) \<and>
     HTTPProber_run x a q say tcp p target w = Some (rh, wh) \<and>
     (\<forall>e. parseK8sSpec (p_Spec p) target = Inl e \<longrightarrow> unprobed p (say e) rk \<and> wk = w) \<and>
     (\<forall>e. parseLogsSpec (p_Spec p) target = Inl e \<longrightarrow> unprobed p (say e) rl \<and> wl = w) \<and>
     (\<forall>e. parseHTTPSpec (p_Spec p) target tcp = Inl e \<longrightarrow> unprobed p (say e) rh \<and> wh = w) \<and>
     (\<forall>s e. parseK8sSpec (p_Spec p) target = Inr s \<and> k8s_resolve k (ks_resource s) = Inl e \<longrightarrow>
        unprobed p e rk \<and> wk = w) \<and>
     (\<forall>s gvr e. parseK8sSpec (p_Spec p) target = Inr s \<and> k8s_resolve k (ks_resource s) = Inr gvr \<and>
          ka_jsonpath k (ks_jsonPath s) = Some e \<longrightarrow>
        unprobed p (sprintf ''parse jsonpath %: %'' [AQ (ks_jsonPath s), AS e]) rk \<and> wk = w) \<and>
     (\<forall>s e. parseHTTPSpec (p_Spec p) target tcp = Inr s \<and> hs_jsonPath s \<noteq> '''' \<and> ra_jsonpath q (hs_jsonPath s) = Some e \<longrightarrow>
        unprobed p (sprintf ''parse jsonpath %: %'' [AQ (hs_jsonPath s), AS e]) rh \<and> wh = w)"
proof -
  have "\<exists>res w'. K8sProber_Run x k say p target w = Some (res, w')"
    using k8s_accepted(6) poll_for_ends [OF assms(1)]
    by (fastforce simp: K8sProber_Run_def split: sum.split option.split)
  then obtain rk wk where k: "K8sProber_Run x k say p target w = Some (rk, wk)" by blast
  have "\<exists>res w'. LogsProber_Run x src say p target w = Some (res, w')"
    using logs_accepted(5) poll_for_ends [OF assms(2)]
    by (fastforce simp: LogsProber_Run_def split: sum.split)
  then obtain rl wl where l: "LogsProber_Run x src say p target w = Some (rl, wl)" by blast
  have "\<exists>res w'. HTTPProber_run x a q say tcp p target w = Some (res, w')"
    using http_accepted(5) poll_for_ends [OF assms(3)]
    by (fastforce simp: HTTPProber_run_def split: sum.split option.split)
  then obtain rh wh where h: "HTTPProber_run x a q say tcp p target w = Some (rh, wh)" by blast
  note spec = K8sProber_unprobed [OF k] LogsProber_unprobed [OF l] HTTPProber_unprobed [OF h]
  show ?thesis by (intro exI conjI) (use k l h spec in blast)+
qed

definition tick_logs :: "int log_source" where
  "tick_logs = \<lparr>ls_PodNames = (\<lambda>_ _ w. (Inl ''no api'', w)), ls_PodLog = (\<lambda>_ _ w. (Inr ''ready'', w))\<rparr>"

definition tick_pods :: "int pod_access" where
  "tick_pods = \<lparr>pa_pods = (\<lambda>_ _ w. (Inr [], w)), pa_services = (\<lambda>_ w. (Inr [], w))\<rparr>"

definition tick_requests :: "int request_access" where
  "tick_requests = \<lparr>ra_do = (\<lambda>_ _ w. (Inl (''timeout'', True), 0, w)), ra_dial = (\<lambda>_ _ w. (None, 0, w)),
     ra_badRequest = (\<lambda>_ _. None), ra_render = (\<lambda>_ v. Inr v), ra_jsonpath = (\<lambda>_. None)\<rparr>"

lemma tick_clock:
  "(\<And>w. snd (observe w) = w) \<Longrightarrow> poll_clock tick_env observe interval (\<lambda>w. w)"
  by (simp add: poll_clock_def tick_env_def)

lemma tick_log_state: "snd (logs_round tick_logs s w) = w"
proof -
  have "snd (read_logs tick_logs s pods summary firstErr n w) = w" for pods summary firstErr n
    by (induction pods arbitrary: summary firstErr n) (simp_all add: tick_logs_def)
  then show ?thesis by (auto simp: logs_round_def log_pods_def tick_logs_def)
qed

lemma tick_http_state: "snd (http_observe tick_pods tick_requests s w) = w"
  by (simp add: http_observe_def http_round_def ListPods_def tick_pods_def)

theorem probers_return_witness:
  "\<exists>res w'. HTTPProber_run tick_env tick_pods tick_requests (\<lambda>_. ''bad'') True tick_probe tick_target 0 = Some (res, w')"
proof -
  have k: "poll_clock tick_env (k8s_observe tick_cluster gvr s) interval (\<lambda>w. w)" for gvr s interval
    by (rule tick_clock) (simp add: k8s_observe_def k8s_poll_def k8s_read_def tick_cluster_def)
  have l: "poll_clock tick_env (logs_round tick_logs s) interval (\<lambda>w. w)" for s interval
    by (rule tick_clock) (rule tick_log_state)
  have h: "poll_clock tick_env (http_observe tick_pods tick_requests s) interval (\<lambda>w. w)" for s interval
    by (rule tick_clock) (rule tick_http_state)
  from probers_return [OF k l h, where say = "\<lambda>_. ''bad''" and p = tick_probe and target = tick_target and w = 0 and tcp = True]
  show ?thesis by (elim exE conjE) (intro exI)
qed

end
