(* ===== verification/Gate_Checks.thy ===== *)
theory Gate_Checks
  imports Kube_Catalog Probe_Specs
begin

text \<open>
  The default gates of \<open>Kube_Catalog\<close> against the probers of \<open>Probe_Specs\<close> that run
  them: each gate that is attached decodes, states one condition, and leaves room
  for its hold; and the two halves of a dataplane gate exclude each other, so
  that passing both shows a change.
\<close>

section \<open>Reading back what a gate writes\<close>

lemma parse_short_duration: "0 \<le> d \<Longrightarrow> d \<le> max_duration \<Longrightarrow> parse_duration (duration_string d) = Some d"
  by (rule parse_duration_string) (simp_all add: min_duration_def)

lemma parse_2s: "parse_duration ''2s'' = Some (2 * sec)"
  by code_simp

text \<open>What makes a row of the gate table usable, whatever the manifest.\<close>

definition usable_gate :: "kube_gate \<Rightarrow> bool" where
  "usable_gate g \<longleftrightarrow>
     (if kg_probeType g = ProbeTypeLogs then \<not> Option.is_none (kg_expectFrom g) \<and> Option.is_none (kg_dwellFrom g) \<and> Option.is_none (kg_timeoutFrom g)
      else kg_probeType g = '''' \<and> kg_jsonPath g \<noteq> '''' \<and>
        (kg_expectEmpty g \<or> \<not> Option.is_none (kg_expectAtLeastFrom g) \<or> kg_expectAtLeast g > 0 \<or> \<not> Option.is_none (kg_expectFrom g) \<or> kg_expect g \<noteq> '''')) \<and>
     (case kg_timeoutFrom g of
        None \<Rightarrow> Option.is_none (kg_dwellFrom g) \<and> (case parse_duration (kg_timeout g) of None \<Rightarrow> False | Some d \<Rightarrow> 0 < d)
      | Some _ \<Rightarrow> \<not> Option.is_none (kg_dwellFrom g))"

lemma gate_timeouts:
  "parse_duration ''30s'' = Some (30 * sec)" "parse_duration ''60s'' = Some (60 * sec)"
  "parse_duration ''90s'' = Some (90 * sec)" "parse_duration ''120s'' = Some (120 * sec)"
  "parse_duration ''180s'' = Some (180 * sec)" "parse_duration ''240s'' = Some (240 * sec)"
  "parse_duration ''3m'' = Some (180 * sec)" "parse_duration ''5m'' = Some (300 * sec)"
  by code_simp+

lemmas gate_rows = crashLoopingGate_def restartsClimbingGate_def crashLoopVisibleGate_def workloadReadyGate_def
  workloadRolledOutGate_def zero_gate_def waitingReasonJSONPath_def lastReasonJSONPath_def restartCountJSONPath_def
  conditionReasonJSONPath_def podReadyJSONPath_def endpointReadyJSONPath_def KubeStateCrashLoopRestarts_def

lemma sec_pos: "0 < sec"
  by (simp add: sec_def)

lemma PEM_prefix: "KubeStateCertPEMPrefix \<noteq> ''''"
  by (simp add: KubeStateCertPEMPrefix_def Let_def)

lemma usable_contains:
  "kg_probeType g = '''' \<Longrightarrow> kg_jsonPath g \<noteq> '''' \<Longrightarrow> kg_expect g \<noteq> '''' \<Longrightarrow> Option.is_none (kg_timeoutFrom g)
     \<Longrightarrow> Option.is_none (kg_dwellFrom g) \<Longrightarrow> parse_duration (kg_timeout g) = Some d \<Longrightarrow> 0 < d \<Longrightarrow> usable_gate g"
  by (auto simp: usable_gate_def Option.is_none_def ProbeTypeLogs_def)

lemma gates_usable: "list_all (\<lambda>p. list_all usable_gate (snd p)) kubeStateGates"
  unfolding kubeStateGates_def
  by (simp add: usable_gate_def gate_rows gate_timeouts sec_pos ProbeTypeLogs_def PEM_prefix del: One_nat_def)

section \<open>A usable gate decodes\<close>

definition gate_timeout :: "fault_manifest \<Rightarrow> kube_gate \<Rightarrow> string" where
  "gate_timeout m g = (case kg_timeoutFrom g of None \<Rightarrow> kg_timeout g | Some f \<Rightarrow> duration_string (f m))"

definition gate_dwell :: "fault_manifest \<Rightarrow> kube_gate \<Rightarrow> jobj" where
  "gate_dwell m g = (case kg_dwellFrom g of None \<Rightarrow> [] | Some f \<Rightarrow> if f m > 0 then [(''dwell'', JStr (duration_string (f m)))] else [])"

lemma gate_probe_k8s:
  "kg_probeType g = '''' \<Longrightarrow> gate_probe m name g =
     \<lparr>p_Name = kg_probeName g, p_Type = ProbeTypeK8s, p_Mode = ProbeModeSettle,
      p_Spec = [(''label_selector'', JStr (gate_or (kg_selectorKey g) ''app'' @ ''='' @ name)),
                (''timeout'', JStr (gate_timeout m g)), (''interval'', JStr ''2s'')] @ gate_dwell m g @
         [(''resource'', JStr (gate_or (kg_resource g) ''pods'')), (''jsonpath'', JStr (kg_jsonPath g)), gate_condition m g]\<rparr>"
  by (simp add: gate_probe_def gate_timeout_def gate_dwell_def gate_or_def Let_def ProbeTypeK8s_def ProbeTypeLogs_def)

lemma gate_probe_logs:
  "kg_probeType g = ProbeTypeLogs \<Longrightarrow> gate_probe m name g =
     \<lparr>p_Name = kg_probeName g, p_Type = ProbeTypeLogs, p_Mode = ProbeModeSettle,
      p_Spec = [(''label_selector'', JStr (gate_or (kg_selectorKey g) ''app'' @ ''='' @ name)),
                (''timeout'', JStr (gate_timeout m g)), (''interval'', JStr ''2s'')] @ gate_dwell m g @
         [(''expect_contains'', JStr (gate_want m g))]\<rparr>"
  by (simp add: gate_probe_def gate_timeout_def gate_dwell_def gate_or_def Let_def ProbeTypeLogs_def)

text \<open>The condition a gate writes, read by the prober.\<close>

definition states_one :: "fault_manifest \<Rightarrow> kube_gate \<Rightarrow> bool" where
  "states_one m g \<longleftrightarrow>
     kg_expectEmpty g \<or>
     (case kg_expectAtLeastFrom g of Some f \<Rightarrow> 1 \<le> f m | None \<Rightarrow> kg_expectAtLeast g > 0 \<or> gate_want m g \<noteq> '''')"

definition decoded_gate :: "fault_manifest \<Rightarrow> string \<Rightarrow> kube_gate \<Rightarrow> string \<Rightarrow> duration \<Rightarrow> duration \<Rightarrow> k8s_spec" where
  "decoded_gate m name g ns dwell timeout =
     \<lparr>ks_resource = gate_or (kg_resource g) ''pods'', ks_namespace = ns, ks_name = '''',
      ks_labelSelector = gate_or (kg_selectorKey g) ''app'' @ ''='' @ name, ks_jsonPath = kg_jsonPath g,
      ks_expectContain = (case gate_condition m g of (''expect_contains'', JStr w) \<Rightarrow> w | _ \<Rightarrow> ''''),
      ks_expectEmpty = kg_expectEmpty g,
      ks_expectAtLeast = (case gate_condition m g of (_, JInt n) \<Rightarrow> n | _ \<Rightarrow> 0),
      ks_dwell = dwell, ks_timeout = timeout, ks_interval = 2 * sec\<rparr>"

lemma gate_decodes:
  assumes "kg_probeType g = ''''" "kg_jsonPath g \<noteq> ''''" "pt_Namespace target \<noteq> ''''" "states_one m g"
    and t: "parse_duration (gate_timeout m g) = Some timeout" "dwell < timeout" "0 < timeout"
    and d: "gate_dwell m g = [] \<and> dwell = 0 \<or>
            0 \<le> dwell \<and> (\<exists>txt. gate_dwell m g = [(''dwell'', JStr txt)] \<and> parse_duration txt = Some dwell)"
  shows "parseK8sSpec (p_Spec (gate_probe m name g)) target = Inr (decoded_gate m name g (pt_Namespace target) dwell timeout)"
proof -
  have cond: "gate_condition m g = (''expect_empty'', JBool True) \<and> kg_expectEmpty g \<or>
      (\<exists>n\<ge>1. gate_condition m g = (''expect_at_least'', JInt n)) \<and> \<not> kg_expectEmpty g \<or>
      (\<exists>w. w \<noteq> '''' \<and> gate_condition m g = (''expect_contains'', JStr w)) \<and> \<not> kg_expectEmpty g"
    using assms(4) by (auto simp: gate_condition_def states_one_def split: option.splits)
  have res: "gate_or (kg_resource g) ''pods'' \<noteq> ''''" by (simp add: gate_or_def)
  note eval = gate_probe_k8s [OF assms(1)] parseK8sSpec_def k8s_fields_def k8s_aim_def k8s_stated_def expect_at_least_def
    optString_def optBool_def optInt_def optDuration_def decoded_gate_def parse_2s t(1) Let_def rejectIf_def
  from cond d res assms(2,3) t(2,3) sec_pos show ?thesis
    by (elim disjE conjE exE) (simp_all add: eval)
qed

lemma trim_nonempty: "trim_space r \<noteq> '''' \<Longrightarrow> trim_space (trim_space r) \<noteq> ''''"
proof -
  assume "trim_space r \<noteq> ''''"
  then have "\<not> (\<forall>c \<in> set (dropWhile is_space r). is_space c)"
    by (auto simp: trim_space_def dropWhile_eq_Nil_conv)
  then obtain c where c: "c \<in> set r" "\<not> is_space c" by (metis set_dropWhileD)
  have keep: "\<not> is_space c \<Longrightarrow> c \<in> set xs \<Longrightarrow> c \<in> set (dropWhile is_space xs)" for xs
    by (induction xs) auto
  have "c \<in> set (trim_space xs)" if "c \<in> set xs" for xs
    using keep [OF c(2)] that by (simp add: trim_space_def)
  with c show ?thesis by (metis empty_iff list.set(1))
qed

lemma trim_space_nil: "trim_space '''' = ''''"
  by (simp add: trim_space_def)

lemma stall_message: "trim_space (KubeStateStallMessage r) \<noteq> ''''"
proof -
  have "trim_space KubeStateDefaultStallMessage \<noteq> ''''" by code_simp
  with trim_nonempty show ?thesis by (simp add: KubeStateStallMessage_def Let_def)
qed

lemma int_dec_nonempty: "int_dec i \<noteq> ''''"
  using dec_digits_spec [of i] by (auto simp: int_dec_def)

lemma pending_dwell: "0 \<le> KubeStatePendingDwell m" "KubeStatePendingDwell m \<le> 600 * sec"
  by (auto simp: KubeStatePendingDwell_def KubeStateDefaultPendingDwell_def KubeStatePendingDwellCeiling_def sec_def split: option.split)

text \<open>The functions a row of the table may hold.\<close>

definition table_gate :: "kube_gate \<Rightarrow> bool" where
  "table_gate g \<longleftrightarrow>
     kg_expectAtLeastFrom g \<in> {None, Some kubeStateReplicas} \<and>
     kg_expectFrom g \<in> {None, Some gate_stall_message, Some gate_workload_name, Some gate_replica_text} \<and>
     (kg_probeType g = ProbeTypeLogs \<longrightarrow> kg_expectFrom g = Some gate_stall_message \<and> kg_selectorKey g = '''') \<and>
     (kg_dwellFrom g, kg_timeoutFrom g) \<in> {(None, None), (Some KubeStatePendingDwell, Some kubeStatePendingTimeout)} \<and>
     gate_or (kg_selectorKey g) ''app'' \<in> {''app'', serviceNameKey}"

lemma gates_table: "list_all (\<lambda>p. list_all table_gate (snd p)) kubeStateGates"
  unfolding kubeStateGates_def
  by (simp add: table_gate_def gate_rows ProbeTypeLogs_def gate_or_def serviceNameKey_def)

lemma kubeState_default:
  assumes "m_Engine m = EngineKubeState" "p \<in> set (DefaultProbes m)"
  obtains gs g where "map_of kubeStateGates (m_ResourceKind m) = Some gs" "g \<in> set gs" "usable_gate g" "table_gate g"
    "gate_workload_name m \<noteq> ''''" "p = gate_probe m (gate_workload_name m) g"
proof -
  have "map_of gates (EngineKubeState, k) = map_option (\<lambda>t. (t, kubeStateProbes)) (map_of kube_gate_texts k)" for k
  proof -
    have "map_of dataplane_gates (EngineKubeState, k) = None" by (simp add: dataplane_gates_def const_defs)
    moreover have "map_of (map (\<lambda>p. ((EngineKubeState, fst p), (snd p, kubeStateProbes))) ts) (EngineKubeState, k)
        = map_option (\<lambda>t. (t, kubeStateProbes)) (map_of ts k)" for ts :: "string gomap"
      by (induction ts) auto
    ultimately show ?thesis by (simp add: gates_def map_add_def split: option.split)
  qed
  with assms have "p \<in> set (kubeStateProbes m)" by (auto simp: DefaultProbes_def split: option.splits)
  then obtain gs g where g: "map_of kubeStateGates (m_ResourceKind m) = Some gs" "g \<in> set gs" "gate_workload_name m \<noteq> ''''"
    "p = gate_probe m (gate_workload_name m) g"
    by (cases "map_of kubeStateGates (m_ResourceKind m)") (auto simp: kubeStateProbes_def Let_def split: if_splits)
  from map_of_SomeD [OF g(1)] g(2) have "usable_gate g" "table_gate g"
    using gates_usable gates_table by (auto simp: list_all_iff)
  with that g show thesis by blast
qed

lemma table_gate_times:
  assumes "usable_gate g" "table_gate g"
  obtains timeout dwell where "parse_duration (gate_timeout m g) = Some timeout" "dwell < timeout" "0 < timeout"
    "gate_dwell m g = [] \<and> dwell = 0 \<or>
     0 \<le> dwell \<and> (\<exists>txt. gate_dwell m g = [(''dwell'', JStr txt)] \<and> parse_duration txt = Some dwell)"
proof (cases "kg_timeoutFrom g")
  case None
  with assms have "kg_dwellFrom g = None" by (auto simp: table_gate_def)
  moreover obtain d where "parse_duration (kg_timeout g) = Some d" "0 < d"
    using None assms(1) by (auto simp: usable_gate_def split: option.splits)
  ultimately show thesis by (intro that [of d 0]) (simp_all add: gate_timeout_def gate_dwell_def None)
next
  case (Some f)
  with assms(2) have f: "kg_timeoutFrom g = Some kubeStatePendingTimeout" "kg_dwellFrom g = Some KubeStatePendingDwell"
    by (auto simp: table_gate_def)
  note b = pending_dwell [of m]
  have "parse_duration (duration_string (kubeStatePendingTimeout m)) = Some (kubeStatePendingTimeout m)"
    "parse_duration (duration_string (KubeStatePendingDwell m)) = Some (KubeStatePendingDwell m)"
    using b by (auto intro!: parse_short_duration simp: kubeStatePendingTimeout_def sec_def max_duration_def)
  then show thesis
    using b f by (intro that [of "kubeStatePendingTimeout m" "KubeStatePendingDwell m"])
      (simp_all add: gate_timeout_def gate_dwell_def kubeStatePendingTimeout_def sec_def)
qed

lemma table_gate_states:
  assumes "usable_gate g" "table_gate g" "kg_probeType g \<noteq> ProbeTypeLogs" "1 \<le> kubeStateReplicas m" "gate_workload_name m \<noteq> ''''"
  shows "states_one m g"
proof -
  have "gate_stall_message m \<noteq> ''''" using stall_message [of "stringField (spec_map m) ''message''"]
    by (metis gate_stall_message_def trim_space_nil)
  then have want: "gate_want m g \<noteq> ''''" if "kg_expectFrom g \<noteq> None \<or> kg_expect g \<noteq> ''''"
    using that assms(2,5) int_dec_nonempty by (auto simp: table_gate_def gate_want_def gate_replica_text_def)
  show ?thesis
  proof (cases "kg_expectAtLeastFrom g")
    case None
    with want assms(1,3) show ?thesis by (simp add: states_one_def usable_gate_def Option.is_none_def) metis
  next
    case (Some f)
    with assms(2,4) show ?thesis by (auto simp: states_one_def table_gate_def)
  qed
qed

text \<open>
  C23.  Every gate the catalog attaches to a kube-state fault is one its prober
  accepts, for any spec the driver could take (at least one replica) and any
  target namespace: a k8s gate decodes to a spec that selects the workload of the
  fault by name, states one condition and whose hold is shorter than its budget;
  a logs gate asks for the message the driver puts in the container.
\<close>

theorem kube_state_gates_runnable:
  assumes "m_Engine m = EngineKubeState" "p \<in> set (DefaultProbes m)" "pt_Namespace target \<noteq> ''''" "1 \<le> kubeStateReplicas m"
  shows "p_Mode p = ProbeModeSettle \<and>
     (p_Type p = ProbeTypeK8s \<and>
        (\<exists>s key. parseK8sSpec (p_Spec p) target = Inr s \<and> key \<in> {''app'', serviceNameKey} \<and>
           ks_labelSelector s = key @ ''='' @ gate_workload_name m \<and> k8s_stated s = 1 \<and> ks_dwell s < ks_timeout s) \<or>
      p_Type p = ProbeTypeLogs \<and>
        (\<exists>s. parseLogsSpec (p_Spec p) target = Inr s \<and> lg_labelSelector s = ''app='' @ gate_workload_name m \<and>
           lg_expectContains s = gate_stall_message m))"
proof -
  obtain gs g where g: "usable_gate g" "table_gate g" "gate_workload_name m \<noteq> ''''" "p = gate_probe m (gate_workload_name m) g"
    using kubeState_default [OF assms(1,2)] by metis
  obtain timeout dwell where t: "parse_duration (gate_timeout m g) = Some timeout" "dwell < timeout" "0 < timeout"
    "gate_dwell m g = [] \<and> dwell = 0 \<or>
     0 \<le> dwell \<and> (\<exists>txt. gate_dwell m g = [(''dwell'', JStr txt)] \<and> parse_duration txt = Some dwell)"
    using table_gate_times [OF g(1,2), of m] by metis
  show ?thesis
  proof (cases "kg_probeType g = ProbeTypeLogs")
    case False
    with g(1) have k: "kg_probeType g = ''''" "kg_jsonPath g \<noteq> ''''" by (auto simp: usable_gate_def)
    have "states_one m g" by (rule table_gate_states [OF g(1,2) False assms(4) g(3)])
    from gate_decodes [OF k assms(3) this t] have d: "parseK8sSpec (p_Spec p) target =
        Inr (decoded_gate m (gate_workload_name m) g (pt_Namespace target) dwell timeout)"
      unfolding g(4) by blast
    moreover have "p_Type p = ProbeTypeK8s" "p_Mode p = ProbeModeSettle"
      unfolding g(4) by (simp_all add: gate_probe_k8s [OF k(1)])
    ultimately show ?thesis
      using k8s_accepted(4,8) [OF d] g(2) by (auto simp: decoded_gate_def table_gate_def)
  next
    case True
    with g(1,2) have w: "kg_expectFrom g = Some gate_stall_message" "gate_dwell m g = []"
      by (auto simp: table_gate_def usable_gate_def gate_dwell_def ProbeTypeLogs_def Option.is_none_def split: option.splits)
    have key: "gate_or (kg_selectorKey g) ''app'' = ''app''" using True g(2) by (simp add: table_gate_def gate_or_def)
    show ?thesis
      using assms(3) t(1,3) w stall_message sec_pos
      unfolding g(4) gate_probe_logs [OF True]
      by (simp add: gate_want_def parseLogsSpec_def logs_fields_def logs_aim_def optString_def optBool_def optInt_def
          optDuration_def parse_2s Let_def key defaultTailLines_def gate_stall_message_def)
  qed
qed

text \<open>A control of the gridlock kind.\<close>

definition gridlock :: fault_manifest where
  "gridlock = empty_manifest\<lparr>m_UID := ''01ab'', m_Engine := EngineKubeState, m_ResourceKind := KubeStatePDBGridlock\<rparr>"

lemma gridlock_name: "gate_workload_name gridlock = ''ledger-api-01ab''"
  by code_simp

lemma gridlock_probe: "gate_probe gridlock (gate_workload_name gridlock) workloadRolledOutGate \<in> set (DefaultProbes gridlock)"
proof -
  have k: "m_ResourceKind gridlock = KubeStatePDBGridlock" "m_Engine gridlock = EngineKubeState" "m_Probes gridlock = []"
    by (simp_all add: gridlock_def empty_manifest_def)
  have "\<exists>gs. map_of kubeStateGates KubeStatePDBGridlock = Some gs \<and> workloadRolledOutGate \<in> set gs"
    by (simp add: kubeStateGates_def const_defs)
  moreover have "stringField (spec_map gridlock) ''mode'' = ''''" by code_simp
  moreover have "\<exists>t. map_of gates (EngineKubeState, KubeStatePDBGridlock) = Some (t, kubeStateProbes)"
    by (simp add: gates_def dataplane_gates_def kube_gate_texts_def const_defs map_add_def)
  ultimately show ?thesis
    using gridlock_name by (auto simp: DefaultProbes_def kubeStateProbes_def k Let_def)
qed

theorem kube_state_gates_runnable_witness:
  "\<exists>s key. parseK8sSpec (p_Spec (gate_probe gridlock ''ledger-api-01ab'' workloadRolledOutGate)) tick_target = Inr s \<and>
     key \<in> {''app'', serviceNameKey} \<and> ks_labelSelector s = key @ ''=ledger-api-01ab'' \<and> k8s_stated s = 1"
proof -
  have t: "p_Type (gate_probe gridlock ''ledger-api-01ab'' workloadRolledOutGate) = ''k8s''"
    by (simp add: gate_probe_k8s gate_rows const_defs)
  have "m_Engine gridlock = EngineKubeState" by (simp add: gridlock_def)
  moreover have "pt_Namespace tick_target \<noteq> ''''" "1 \<le> kubeStateReplicas gridlock" by code_simp+
  ultimately show ?thesis
    using kube_state_gates_runnable [OF _ gridlock_probe, of tick_target] t
    by (auto simp: gridlock_name const_defs)
qed

section \<open>The two halves of a dataplane gate\<close>

lemma join_nonempty: "x \<in> set xs \<Longrightarrow> x \<noteq> '''' \<Longrightarrow> join_with sep xs \<noteq> ''''"
  by (induction sep xs rule: join_with.induct) auto

lemma renderSelector_nonempty: "labels \<noteq> [] \<Longrightarrow> renderSelector labels \<noteq> ''''"
  unfolding renderSelector_def
  by (rule join_nonempty [of "fst (hd labels) @ ''='' @ snd (hd labels)"]) (auto intro: imageI)

lemma withSelector_lookup:
  "map_of (withSelector labels spec) k =
     (if k = ''label_selector'' \<and> labels \<noteq> [] then Some (JStr (renderSelector labels)) else map_of spec k)"
  by (simp add: withSelector_def update_conv')

text \<open>What both halves of a gate share: a tcp probe of the target, for thirty or sixty seconds.\<close>

definition gate_aim :: "string gomap \<Rightarrow> probe_target \<Rightarrow> duration \<Rightarrow> http_spec" where
  "gate_aim labels target timeout =
     \<lparr>hs_tcp = True, hs_namespace = pt_Namespace target,
      hs_labelSelector = (if labels = [] then Target_Selector target else renderSelector labels), hs_podName = '''', hs_port = 0,
      hs_path = ''/'', hs_scheme = ''http'', hs_method = ''GET'', hs_jsonPath = '''', hs_expectStatus = 0, hs_expectContains = '''',
      hs_expectEquals = '''', hs_expectReachable = False, hs_expectUnreachable = False, hs_minLatency = 0, hs_maxLatency = 0,
      hs_timeout = timeout, hs_interval = 2 * sec, hs_requestTimeout = DefaultRequestTimeout\<rparr>"

lemmas decode_half = parseHTTPSpec_def http_fields_def http_aim_def http_checks_def http_stated_def responseKeys_def
  withSelector_lookup optString_def optBool_def optInt_def optDuration_def gate_timeouts parse_2s or_default_def
  gate_aim_def Let_def rejectIf_def has_prefix_def

lemma gate_halves:
  assumes "pt_Namespace target \<noteq> ''''" "labels \<noteq> [] \<or> Target_Selector target \<noteq> ''''"
  shows "parseHTTPSpec (withSelector labels [(''expect_reachable'', JBool True), (''timeout'', JStr ''30s''), (''interval'', JStr ''2s'')]) target True
        = Inr ((gate_aim labels target (30 * sec))\<lparr>hs_expectReachable := True\<rparr>)" (is ?reach)
    and "parseHTTPSpec (withSelector labels [(''expect_unreachable'', JBool True), (''timeout'', JStr ''60s''), (''interval'', JStr ''2s'')]) target True
        = Inr ((gate_aim labels target (60 * sec))\<lparr>hs_expectUnreachable := True\<rparr>)" (is ?cut)
    and "0 < a \<Longrightarrow> parse_duration txt = Some a \<Longrightarrow>
      parseHTTPSpec (withSelector labels [(''expect_reachable'', JBool True), (''max_latency'', JStr txt),
                (''timeout'', JStr ''30s''), (''interval'', JStr ''2s'')]) target True
        = Inr ((gate_aim labels target (30 * sec))\<lparr>hs_expectReachable := True, hs_maxLatency := a\<rparr>)" (is "_ \<Longrightarrow> _ \<Longrightarrow> ?fast")
    and "0 < a \<Longrightarrow> 0 < b \<Longrightarrow> parse_duration txt = Some a \<Longrightarrow> parse_duration txt' = Some b \<Longrightarrow>
      parseHTTPSpec (withSelector labels [(''min_latency'', JStr txt), (''request_timeout'', JStr txt'),
                (''timeout'', JStr ''60s''), (''interval'', JStr ''2s'')]) target True
        = Inr ((gate_aim labels target (60 * sec))\<lparr>hs_minLatency := a, hs_requestTimeout := b\<rparr>)" (is "_ \<Longrightarrow> _ \<Longrightarrow> _ \<Longrightarrow> _ \<Longrightarrow> ?slow")
proof -
  have sel: "labels = [] \<Longrightarrow> Target_Selector target \<noteq> ''''" using assms(2) by blast
  have rt: "0 < DefaultRequestTimeout" by (simp add: DefaultRequestTimeout_def sec_def)
  show ?reach using assms(1) sel rt sec_pos by (cases "labels = []") (simp_all add: decode_half renderSelector_nonempty)
  show ?cut using assms(1) sel rt sec_pos by (cases "labels = []") (simp_all add: decode_half renderSelector_nonempty)
  show "0 < a \<Longrightarrow> parse_duration txt = Some a \<Longrightarrow> ?fast"
    using assms(1) sel rt sec_pos by (cases "labels = []") (simp_all add: decode_half renderSelector_nonempty)
  show "0 < a \<Longrightarrow> 0 < b \<Longrightarrow> parse_duration txt = Some a \<Longrightarrow> parse_duration txt' = Some b \<Longrightarrow> ?slow"
    using assms(1) sel sec_pos by (cases "labels = []") (simp_all add: decode_half renderSelector_nonempty)
qed

text \<open>Two specs no answer of a pod satisfies both of.\<close>

definition opposed :: "http_spec \<Rightarrow> http_spec \<Rightarrow> bool" where
  "opposed s t \<longleftrightarrow>
     hs_expectReachable s \<and> \<not> hs_expectUnreachable s \<and>
     (hs_expectUnreachable t \<or> 0 < hs_maxLatency s \<and> hs_maxLatency s < hs_minLatency t)"

lemma opposed_exclude: "opposed s t \<Longrightarrow> \<not> (http_satisfied s a \<and> http_satisfied t a)"
  by (auto simp: opposed_def http_satisfied_def timedOutSlowly_def slowCountsAsTimeout_def split: if_splits)

text \<open>A pair of probes, the first before and the second after the fault, whose specs are opposed.\<close>

definition differential :: "probe_target \<Rightarrow> probe_spec list \<Rightarrow> bool" where
  "differential target ps \<longleftrightarrow>
     (case ps of
        [before, after] \<Rightarrow>
          p_Mode before = ProbeModeSOT \<and> p_Mode after = ProbeModeSettle \<and>
          p_Type before = ProbeTypeTCP \<and> p_Type after = ProbeTypeTCP \<and>
          (case (parseHTTPSpec (p_Spec before) target True, parseHTTPSpec (p_Spec after) target True) of
             (Inr s, Inr t) \<Rightarrow> opposed s t | _ \<Rightarrow> False)
      | _ \<Rightarrow> False)"

lemma reachabilityPair_differential:
  "pt_Namespace target \<noteq> '''' \<Longrightarrow> labels \<noteq> [] \<or> Target_Selector target \<noteq> '''' \<Longrightarrow> differential target (reachabilityPair labels)"
  by (simp add: differential_def reachabilityPair_def gate_halves opposed_def) (simp add: gate_aim_def)

lemma delayPair_differential:
  assumes "pt_Namespace target \<noteq> ''''" "labels \<noteq> [] \<or> Target_Selector target \<noteq> ''''"
    "durationField delay ''latency'' = Some latency" "minGatedDelay \<le> latency" "latency * 4 \<le> max_duration"
  shows "differential target (delayPair labels delay)"
proof -
  have raw: "parse_duration (stringField delay ''latency'') = Some latency"
    using assms(3) by (simp add: durationField_def Let_def split: if_splits)
  have b: "\<not> latency < minGatedDelay" "0 < latency div 4" "latency div 4 < latency div 2" "0 < latency * 4"
    using assms(4) by (simp_all add: minGatedDelay_def)
  have w: "wrap64 (latency * 4) = latency * 4"
    using assms(5) b(4) by (intro wrap64_id) (simp_all add: min_duration_def max_duration_def)
  have p: "parse_duration (duration_string (latency div 4)) = Some (latency div 4)"
    "parse_duration (duration_string (latency div 2)) = Some (latency div 2)"
    "parse_duration (duration_string (latency * 4)) = Some (latency * 4)"
    using assms(5) b by (auto intro!: parse_short_duration)
  note slow = gate_halves(4) [OF assms(1,2) _ b(4) p(2,3)] and fast = gate_halves(3) [OF assms(1,2) b(2) p(1)]
  have "0 < latency div 2" using b(2,3) by simp
  then show ?thesis
    using b by (simp add: differential_def delayPair_def raw w slow fast opposed_def)
      (simp add: gate_aim_def)
qed

lemma dataplane_default:
  assumes "(m_Engine m, m_ResourceKind m) = (EngineNetworkPolicy, ''NetworkPolicy'') \<or>
           (m_Engine m, m_ResourceKind m) = (EngineChaosMesh, ''NetworkChaos'')"
    and "m_Probes m = []"
  shows "DefaultProbes m = (if m_Engine m = EngineNetworkPolicy then networkPolicyProbes m else networkChaosProbes m)"
  using assms by (auto simp: DefaultProbes_def gates_def dataplane_gates_def const_defs map_add_def)

lemma dataplane_differential:
  assumes "DefaultProbes m \<noteq> []" "m_Probes m = []"
    "(m_Engine m, m_ResourceKind m) = (EngineNetworkPolicy, ''NetworkPolicy'') \<or>
     (m_Engine m, m_ResourceKind m) = (EngineChaosMesh, ''NetworkChaos'')"
    "pt_Namespace target \<noteq> ''''" "Target_Selector target \<noteq> ''''"
    "\<And>l. durationField (nestedMap (spec_map m) ''delay'') ''latency'' = Some l \<Longrightarrow> l * 4 \<le> max_duration"
  shows "differential target (DefaultProbes m)"
proof -
  have reach: "differential target (reachabilityPair labels)" for labels
    by (rule reachabilityPair_differential) (use assms in auto)
  have delay: "differential target (delayPair labels delay)"
    if gated: "delayPair labels delay \<noteq> []" and delay: "delay = nestedMap (spec_map m) ''delay''" for labels delay
  proof -
    obtain l where l: "parse_duration (stringField delay ''latency'') = Some l" "minGatedDelay \<le> l"
      using gated by (auto simp: delayPair_def split: option.splits if_splits)
    have "parse_duration '''' = None" by code_simp
    with l(1) have "durationField delay ''latency'' = Some l" by (auto simp: durationField_def Let_def)
    with assms(6) delay l(2) show ?thesis by (intro delayPair_differential) (use assms in auto)
  qed
  show ?thesis
    using assms(1) reach delay unfolding dataplane_default [OF assms(3,2)]
    by (auto simp: networkPolicyProbes_def networkChaosProbes_def Let_def split: if_splits)
qed

text \<open>
  C22.  A gate on the network is two-sided.  Where the catalog gates a network
  policy or a NetworkChaos fault, the gate is a probe that runs before the fault
  and one that runs after it, both specs decode, and no answer of a pod satisfies
  both: a pod that passes the first and then the second has changed.  For a delay
  this needs the fourfold latency to fit a duration.
\<close>

theorem dataplane_gate_two_sided:
  assumes "DefaultProbes m \<noteq> []" "m_Probes m = []"
    "(m_Engine m, m_ResourceKind m) = (EngineNetworkPolicy, ''NetworkPolicy'') \<or>
     (m_Engine m, m_ResourceKind m) = (EngineChaosMesh, ''NetworkChaos'')"
    "pt_Namespace target \<noteq> ''''" "Target_Selector target \<noteq> ''''"
    "\<And>l. durationField (nestedMap (spec_map m) ''delay'') ''latency'' = Some l \<Longrightarrow> l * 4 \<le> max_duration"
  shows "\<exists>before after s t. DefaultProbes m = [before, after] \<and>
     p_Mode before = ProbeModeSOT \<and> p_Type before = ProbeTypeTCP \<and> parseHTTPSpec (p_Spec before) target True = Inr s \<and>
     p_Mode after = ProbeModeSettle \<and> p_Type after = ProbeTypeTCP \<and> parseHTTPSpec (p_Spec after) target True = Inr t \<and>
     (\<forall>a. \<not> (http_satisfied s a \<and> http_satisfied t a))"
proof -
  obtain before after s t where h: "DefaultProbes m = [before, after]" "p_Mode before = ProbeModeSOT"
    "p_Mode after = ProbeModeSettle" "p_Type before = ProbeTypeTCP" "p_Type after = ProbeTypeTCP"
    "parseHTTPSpec (p_Spec before) target True = Inr s" "parseHTTPSpec (p_Spec after) target True = Inr t" "opposed s t"
    using dataplane_differential [OF assms] by (auto simp: differential_def split: list.splits sum.splits)
  from opposed_exclude [OF h(8)] have "\<forall>a. \<not> (http_satisfied s a \<and> http_satisfied t a)" by blast
  with h(1-7) show ?thesis by (intro exI conjI)
qed

definition slow_network :: fault_manifest where
  "slow_network = empty_manifest\<lparr>m_Engine := EngineChaosMesh, m_ResourceKind := ''NetworkChaos'',
     m_Spec := Some [(''action'', JStr ''delay''), (''delay'', JObj [(''latency'', JStr ''500ms'')])]\<rparr>"

theorem dataplane_gate_two_sided_witness:
  "\<exists>before after s t. DefaultProbes slow_network = [before, after] \<and> parseHTTPSpec (p_Spec before) tick_target True = Inr s \<and>
     parseHTTPSpec (p_Spec after) tick_target True = Inr t \<and> (\<forall>a. \<not> (http_satisfied s a \<and> http_satisfied t a))"
proof -
  have k: "m_Probes slow_network = []" "m_Engine slow_network = EngineChaosMesh" "m_ResourceKind slow_network = ''NetworkChaos''"
    by (simp_all add: slow_network_def empty_manifest_def)
  have l: "durationField (nestedMap (spec_map slow_network) ''delay'') ''latency'' = Some (500 * 1000000)" by code_simp
  have "networkChaosProbes slow_network \<noteq> []" by code_simp
  then have "DefaultProbes slow_network \<noteq> []"
    using k by (subst dataplane_default) (simp_all add: const_defs)
  moreover have "pt_Namespace tick_target \<noteq> ''''" "Target_Selector tick_target \<noteq> ''''" by code_simp+
  ultimately show ?thesis
    using dataplane_gate_two_sided [of slow_network tick_target] k l by (simp add: max_duration_def) blast
qed

end
