(* ===== verification/Kube_Objects.thy ===== *)
theory Kube_Objects
  imports Gate_Checks Network_Policy
begin

text \<open>
  What the kube-state engine creates: \<^verbatim>\<open>src/pkg/driver/kubestate/kinds.go\<close> and
  \<^verbatim>\<open>certs.go\<close>.  A builder turns a validated spec into the objects of a bundle.
  Objects have the fields the builders set; a pointer field is an option, a list of
  environment variables or ports a list of pairs.

  Quantities, the name checks of \<^verbatim>\<open>apimachinery\<close> and the cryptographic library are
  parameters (\<open>kube_lib\<close>).
\<close>

section \<open>Objects\<close>

type_synonym quantity = rat

record object_meta =
  om_Name :: string
  om_Namespace :: string
  om_Labels :: "string gomap"
  om_Annotations :: "string gomap"
  om_Created :: gotime
  om_Deleting :: bool

datatype probe_handler = ExecAction "string list" | HTTPGetAction string int

record readiness_probe =
  rp_Handler :: probe_handler
  rp_PeriodSeconds :: int
  rp_TimeoutSeconds :: int
  rp_FailureThreshold :: int

record volume_mount =
  vm_Name :: string
  vm_MountPath :: string
  vm_ReadOnly :: bool

record k_container =
  kc_Name :: string
  kc_Image :: string
  kc_PullPolicy :: string
  kc_Env :: "(string \<times> string) list"
  kc_Command :: "string list"
  kc_Ports :: "(string \<times> int) list"
  kc_Requests :: "quantity gomap"
  kc_Limits :: "quantity gomap"
  kc_Readiness :: "readiness_probe option"
  kc_Mounts :: "volume_mount list"

datatype k_volume = ClaimVolume string string | SecretVolume string string

record k_pod =
  kp_RestartPolicy :: string
  kp_Containers :: "k_container list"
  kp_NodeSelector :: "string gomap"
  kp_Volumes :: "k_volume list"

record deployment_spec =
  dp_Replicas :: "int option"
  dp_Selector :: "string gomap"
  dp_PodLabels :: "string gomap"
  dp_Pod :: k_pod
  dp_ProgressDeadlineSeconds :: "int option"
  dp_MinReadySeconds :: int
  dp_RollingUpdate :: "(int \<times> int) option"

record job_spec =
  jb_BackoffLimit :: "int option"
  jb_PodLabels :: "string gomap"
  jb_Pod :: k_pod

record service_spec =
  kv_Selector :: "string gomap"
  kv_Ports :: "(string \<times> int \<times> int) list"

record claim_spec =
  cl_AccessModes :: "string list"
  cl_StorageClassName :: "string option"
  cl_Requests :: "quantity gomap"

record budget_spec =
  bd_MinAvailable :: "int option"
  bd_Selector :: "string gomap"

record secret_data =
  sc_Type :: string
  sc_Data :: "string gomap"

datatype kube_object =
    Deployment object_meta deployment_spec
  | Job object_meta job_spec
  | Service object_meta service_spec
  | Claim object_meta claim_spec
  | Budget object_meta budget_spec
  | Secret object_meta secret_data

section \<open>Libraries\<close>

record cert_template =
  x_SerialNumber :: int
  x_CommonName :: string
  x_NotBefore :: gotime
  x_NotAfter :: gotime
  x_DNSNames :: "string list"

record kube_lib =
  kl_ParseQuantity :: "string \<Rightarrow> string + quantity"
  kl_Value :: "quantity \<Rightarrow> int"
  kl_IsDNS1123Label :: "string \<Rightarrow> string list"
  kl_IsDNS1123Subdomain :: "string \<Rightarrow> string list"
  kl_IsValidLabelValue :: "string \<Rightarrow> string list"
  kl_GenerateKey :: "string + string"
  kl_Serial :: "string + int"
  kl_CreateCertificate :: "cert_template \<Rightarrow> string \<Rightarrow> string + string"
  kl_MarshalKey :: "string \<Rightarrow> string + string"
  kl_EncodePEM :: "string \<Rightarrow> string \<Rightarrow> string"

datatype kube_error =
    NotWholeNumber string rat
  | NotANumberField string json
  | KubeErr string
  | Wrapped string kube_error
  | AndRollback kube_error string

section \<open>Reading a spec\<close>

definition kube_optString :: "jobj \<Rightarrow> string \<Rightarrow> string \<Rightarrow> string" where
  "kube_optString spec key dflt = (let s = str_or_empty (map_of spec key) in if s = '''' then dflt else s)"

definition kube_optInt :: "jobj \<Rightarrow> string \<Rightarrow> int \<Rightarrow> kube_error + int" where
  "kube_optInt spec key dflt =
     (case map_of spec key of
        None \<Rightarrow> Inr dflt
      | Some JNull \<Rightarrow> Inr dflt
      | Some (JInt n) \<Rightarrow> Inr n
      | Some (JNum r) \<Rightarrow> (case float_int r of None \<Rightarrow> Inl (NotWholeNumber key r) | Some n \<Rightarrow> Inr n)
      | Some v \<Rightarrow> Inl (NotANumberField key v))"

definition kube_optStringMap :: "jobj \<Rightarrow> string \<Rightarrow> kube_error + string gomap" where
  "kube_optStringMap spec key =
     (case map_of spec key of
        None \<Rightarrow> Inr []
      | Some JNull \<Rightarrow> Inr []
      | Some v \<Rightarrow>
          (case as_obj (Some v) of
             None \<Rightarrow> Inl (KubeErr (sprintf ''spec.% must be an object'' [AS key]))
           | Some raw \<Rightarrow>
               (case find (\<lambda>p. as_str (Some (snd p)) = None) raw of
                  Some p \<Rightarrow> Inl (KubeErr (sprintf ''spec.%[%] must be a string'' [AS key, AQ (fst p)]))
                | None \<Rightarrow> Inr (map (\<lambda>p. (fst p, str_or_empty (Some (snd p)))) raw))))"

definition refuseIf :: "bool \<Rightarrow> string \<Rightarrow> kube_error + unit" where
  "refuseIf b msg = (if b then Inl (KubeErr msg) else Inr ())"

lemma refuseIf_simps [simp]: "refuseIf True msg = Inl (KubeErr msg)" "refuseIf False msg = Inr ()"
  by (simp_all add: refuseIf_def)

definition in_error :: "('e \<Rightarrow> 'f) \<Rightarrow> 'e + 'a \<Rightarrow> 'f + 'a" where
  "in_error f r = (case r of Inl e \<Rightarrow> Inl (f e) | Inr x \<Rightarrow> Inr x)"

lemma in_error_Inr [simp]: "in_error f r = Inr x \<longleftrightarrow> r = Inr x"
  by (simp add: in_error_def split: sum.split)

lemma in_error_simps [simp]: "in_error f (Inl e) = Inl (f e)" "in_error f (Inr x) = Inr x"
  by (simp_all add: in_error_def)

definition lib_error :: "string \<Rightarrow> string \<Rightarrow> string" where
  "lib_error what e = what @ '': '' @ e"

definition parse_quantity :: "kube_lib \<Rightarrow> string \<Rightarrow> string \<Rightarrow> kube_error + quantity" where
  "parse_quantity lib what txt =
     in_error (\<lambda>e. KubeErr (sprintf ''spec.% % is not a quantity: %'' [AS what, AQ txt, AS e])) (kl_ParseQuantity lib txt)"

section \<open>Constants\<close>

definition ModeSynthesize :: string where "ModeSynthesize = ''synthesize''"
definition ModeMutate :: string where "ModeMutate = ''mutate''"
definition containerName :: string where "containerName = ''app''"
definition exitMessageEnv :: string where "exitMessageEnv = ''SIMIAN_EXIT_MESSAGE''"
definition defaultRunnerImage :: string where "defaultRunnerImage = ''busybox:1.36''"
definition defaultBadImage :: string where "defaultBadImage = ''registry.k8s.io/simian-no-such-image:v0.0.0''"
definition defaultMemoryLimit :: string where "defaultMemoryLimit = ''32Mi''"
definition defaultMemoryAllocateMB :: int where "defaultMemoryAllocateMB = 64"
definition defaultUnschedulableCPU :: string where "defaultUnschedulableCPU = ''1000''"
definition defaultExitCode :: int where "defaultExitCode = 1"
definition defaultExitMessage :: string where "defaultExitMessage = ''fatal: initialization failed''"
definition defaultJobFailMessage :: string where
  "defaultJobFailMessage = ''fatal: migration step 3 failed: relation \"orders\" does not exist''"
definition defaultBackoffLimit :: int where "defaultBackoffLimit = 2"
definition maxBackoffLimit :: int where "maxBackoffLimit = 6"
definition defaultServicePort :: int where "defaultServicePort = 8080"
definition defaultDriftSuffix :: string where "defaultDriftSuffix = ''-v2''"
definition defaultClaimSize :: string where "defaultClaimSize = ''1Gi''"
definition defaultMissingStorageClass :: string where "defaultMissingStorageClass = ''fast-ssd-retain''"
definition claimVolumeName :: string where "claimVolumeName = ''data''"
definition claimMountPath :: string where "claimMountPath = ''/var/lib/data''"
definition stallMessageEnv :: string where "stallMessageEnv = ''SIMIAN_STALL_MESSAGE''"
definition defaultStallSeconds :: int where "defaultStallSeconds = 10"
definition maxStallSeconds :: int where "maxStallSeconds = 60"
definition stallServeRoot :: string where "stallServeRoot = ''/tmp/www''"
definition defaultBrokenRolloutImage :: string where "defaultBrokenRolloutImage = ''busybox:1.37''"
definition defaultRolloutMessage :: string where
  "defaultRolloutMessage = ''fatal: config: unknown key \"featureFlags.checkoutV2\"''"
definition defaultProgressDeadline :: int where "defaultProgressDeadline = 60"
definition minProgressDeadline :: int where "minProgressDeadline = 30"
definition maxProgressDeadline :: int where "maxProgressDeadline = 600"
definition defaultMinReadySeconds :: int where "defaultMinReadySeconds = 10"
definition rolloutSettleTimeout :: duration where "rolloutSettleTimeout = 120 * sec"
definition rolloutPollInterval :: duration where "rolloutPollInterval = 2 * sec"
definition defaultCommonName :: string where "defaultCommonName = ''api.internal''"
definition certVolumeName :: string where "certVolumeName = ''tls''"
definition certMountPath :: string where "certMountPath = ''/etc/tls''"
definition maxReplicas :: int where "maxReplicas = 20"

section \<open>Workloads\<close>

record synthesis =
  sy_name :: string
  sy_namespace :: string
  sy_replicas :: int
  sy_spec :: jobj
  sy_now :: gotime
  sy_settle :: duration

type_synonym builder = "kube_lib \<Rightarrow> synthesis \<Rightarrow> kube_error + kube_object list"

definition plain_container :: "string \<Rightarrow> string list \<Rightarrow> k_container" where
  "plain_container img cmd =
     \<lparr>kc_Name = containerName, kc_Image = img, kc_PullPolicy = '''', kc_Env = [], kc_Command = cmd, kc_Ports = [],
      kc_Requests = [], kc_Limits = [], kc_Readiness = None, kc_Mounts = []\<rparr>"

definition one_container :: "k_container \<Rightarrow> k_pod" where
  "one_container c = \<lparr>kp_RestartPolicy = '''', kp_Containers = [c], kp_NodeSelector = [], kp_Volumes = []\<rparr>"

text \<open>The metadata a builder writes; the driver stamps the rest.\<close>

definition app_meta :: "synthesis \<Rightarrow> object_meta" where
  "app_meta s =
     \<lparr>om_Name = sy_name s, om_Namespace = sy_namespace s, om_Labels = [(''app'', sy_name s)], om_Annotations = [],
      om_Created = 0, om_Deleting = False\<rparr>"

definition newDeployment :: "synthesis \<Rightarrow> k_pod \<Rightarrow> deployment_spec" where
  "newDeployment s pod =
     \<lparr>dp_Replicas = Some (sy_replicas s), dp_Selector = [(''app'', sy_name s)], dp_PodLabels = [(''app'', sy_name s)],
      dp_Pod = pod, dp_ProgressDeadlineSeconds = None, dp_MinReadySeconds = 0, dp_RollingUpdate = None\<rparr>"

definition newService :: "synthesis \<Rightarrow> int \<Rightarrow> string \<Rightarrow> kube_object" where
  "newService s port selector =
     Service (app_meta s) \<lparr>kv_Selector = [(''app'', selector)], kv_Ports = [(''http'', port, port)]\<rparr>"

definition servicePort :: "jobj \<Rightarrow> kube_error + int" where
  "servicePort spec =
     bindR (kube_optInt spec ''port'' defaultServicePort) (\<lambda>port.
     bindR (refuseIf (port < 1 \<or> port > 65535) (sprintf ''spec.port must be between 1 and 65535, got %'' [AD port])) (\<lambda>_.
       Inr port))"

definition imageUnresolvablePod :: "kube_lib \<Rightarrow> jobj \<Rightarrow> kube_error + k_pod" where
  "imageUnresolvablePod lib spec =
     Inr (one_container ((plain_container (kube_optString spec ''image'' defaultBadImage) [])\<lparr>kc_PullPolicy := ''Always''\<rparr>))"

definition exit_command :: "int \<Rightarrow> string list" where
  "exit_command code = [''/bin/sh'', ''-c'', sprintf ''echo \"$%\" >&2; exit %'' [AS exitMessageEnv, AD code]]"

definition containerExitLoopPod :: "kube_lib \<Rightarrow> jobj \<Rightarrow> kube_error + k_pod" where
  "containerExitLoopPod lib spec =
     bindR (kube_optInt spec ''exit_code'' defaultExitCode) (\<lambda>code.
     bindR (refuseIf (code = 0)
       ''spec.exit_code must be non-zero: a container that exits 0 under restartPolicy Always still restarts into CrashLoopBackOff, but reports lastState reason Completed, which is a different diagnosis than the one this kind exists to pose'') (\<lambda>_.
     bindR (refuseIf (code < 0 \<or> code > 255) (sprintf ''spec.exit_code must be between 1 and 255, got %'' [AD code])) (\<lambda>_.
       Inr (one_container
         ((plain_container (kube_optString spec ''image'' defaultRunnerImage) (exit_command code))
            \<lparr>kc_Env := [(exitMessageEnv, kube_optString spec ''message'' defaultExitMessage)]\<rparr>)))))"

definition memoryLimitSqueezePod :: "kube_lib \<Rightarrow> jobj \<Rightarrow> kube_error + k_pod" where
  "memoryLimitSqueezePod lib spec =
     (let limitStr = kube_optString spec ''limit_memory'' defaultMemoryLimit in
      bindR (parse_quantity lib ''limit_memory'' limitStr) (\<lambda>limit.
      bindR (kube_optInt spec ''allocate_mb'' defaultMemoryAllocateMB) (\<lambda>allocMB.
      bindR (refuseIf (allocMB \<le> 0) (sprintf ''spec.allocate_mb must be positive, got %'' [AD allocMB])) (\<lambda>_.
      let bytes = wrap64 (wrap64 (allocMB * 1024) * 1024) in
      bindR (refuseIf (bytes \<le> kl_Value lib limit)
        (sprintf ''spec.allocate_mb (%Mi) must exceed spec.limit_memory (%): a container that stays inside its cgroup is never OOMKilled, and the fault would apply cleanly and do nothing''
           [AD allocMB, AS limitStr])) (\<lambda>_.
        Inr (one_container
          ((plain_container (kube_optString spec ''image'' defaultRunnerImage)
              [''/bin/sh'', ''-c'', sprintf ''head -c % /dev/zero | tail -c % >/dev/null; sleep 3600'' [AD bytes, AD bytes]])
             \<lparr>kc_Requests := [(''memory'', limit)], kc_Limits := [(''memory'', limit)]\<rparr>)))))))"

definition sleeping_container :: "jobj \<Rightarrow> k_container" where
  "sleeping_container spec =
     plain_container (kube_optString spec ''image'' defaultRunnerImage) [''/bin/sh'', ''-c'', ''sleep 3600'']"

definition unschedulablePod :: "kube_lib \<Rightarrow> jobj \<Rightarrow> kube_error + k_pod" where
  "unschedulablePod lib spec =
     bindR (kube_optStringMap spec ''node_selector'') (\<lambda>sel.
       if sel \<noteq> [] then Inr ((one_container (sleeping_container spec))\<lparr>kp_NodeSelector := sel\<rparr>)
       else
         let cpuStr = kube_optString spec ''request_cpu'' defaultUnschedulableCPU in
         bindR (parse_quantity lib ''request_cpu'' cpuStr) (\<lambda>cpu.
         bindR (refuseIf (cpu \<le> 0) (sprintf ''spec.request_cpu must be positive, got %'' [AQ cpuStr])) (\<lambda>_.
           Inr (one_container ((sleeping_container spec)\<lparr>kc_Requests := [(''cpu'', cpu)]\<rparr>)))))"

definition healthyPod :: "kube_lib \<Rightarrow> jobj \<Rightarrow> kube_error + k_pod" where
  "healthyPod lib spec = Inr (one_container (sleeping_container spec))"

definition deploymentOf :: "(kube_lib \<Rightarrow> jobj \<Rightarrow> kube_error + k_pod) \<Rightarrow> builder" where
  "deploymentOf build lib s =
     bindR (build lib (sy_spec s)) (\<lambda>pod. Inr [Deployment (app_meta s) (newDeployment s pod)])"

text \<open>A change of the first container of a pod.\<close>

definition on_first :: "(k_container \<Rightarrow> k_container) \<Rightarrow> k_pod \<Rightarrow> k_pod" where
  "on_first f pod = pod\<lparr>kp_Containers := (case kp_Containers pod of [] \<Rightarrow> [] | c # cs \<Rightarrow> f c # cs)\<rparr>"

section \<open>Bundles\<close>

definition failing_probe :: readiness_probe where
  "failing_probe = \<lparr>rp_Handler = ExecAction [''/bin/false''], rp_PeriodSeconds = 5, rp_TimeoutSeconds = 0, rp_FailureThreshold = 1\<rparr>"

definition jobFailureBundle :: builder where
  "jobFailureBundle lib s =
     bindR (kube_optInt (sy_spec s) ''exit_code'' defaultExitCode) (\<lambda>code.
     bindR (refuseIf (code \<le> 0 \<or> code > 255) (sprintf ''spec.exit_code must be between 1 and 255, got %'' [AD code])) (\<lambda>_.
     bindR (kube_optInt (sy_spec s) ''backoff_limit'' defaultBackoffLimit) (\<lambda>backoff.
     bindR (refuseIf (backoff < 0 \<or> backoff > maxBackoffLimit)
       (sprintf ''spec.backoff_limit must be between 0 and %, got %'' [AD maxBackoffLimit, AD backoff])) (\<lambda>_.
       Inr [Job (app_meta s)
              \<lparr>jb_BackoffLimit = Some backoff, jb_PodLabels = [(''app'', sy_name s)],
               jb_Pod = (one_container
                 ((plain_container (kube_optString (sy_spec s) ''image'' defaultRunnerImage) (exit_command code))
                    \<lparr>kc_Env := [(exitMessageEnv, kube_optString (sy_spec s) ''message'' defaultJobFailMessage)]\<rparr>))
                 \<lparr>kp_RestartPolicy := ''Never''\<rparr>\<rparr>]))))"

definition selectorDriftBundle :: builder where
  "selectorDriftBundle lib s =
     bindR (healthyPod lib (sy_spec s)) (\<lambda>pod.
     bindR (servicePort (sy_spec s)) (\<lambda>port.
     let drifted = kube_optString (sy_spec s) ''selector_value'' (sy_name s @ defaultDriftSuffix) in
     bindR (refuseIf (drifted = sy_name s)
       (sprintf ''spec.selector_value % is the workload% own label value: the Service would select the pods after all, and the fault would apply cleanly and do nothing''
          [AQ drifted, AS apostrophe_s])) (\<lambda>_.
     bindR (refuseIf (kl_IsValidLabelValue lib drifted \<noteq> [])
       (sprintf ''spec.selector_value % is not a valid label value: %'' [AQ drifted, AS (join_with ''; '' (kl_IsValidLabelValue lib drifted))])) (\<lambda>_.
       Inr [Deployment (app_meta s) (newDeployment s pod), newService s port drifted]))))"

definition backendCrashLoopBundle :: builder where
  "backendCrashLoopBundle lib s =
     bindR (containerExitLoopPod lib (sy_spec s)) (\<lambda>pod.
     bindR (servicePort (sy_spec s)) (\<lambda>port.
     let pod' = on_first (\<lambda>c. c\<lparr>kc_Ports := [(''http'', port)], kc_Readiness := Some failing_probe\<rparr>) pod in
       Inr [Deployment (app_meta s) (newDeployment s pod'), newService s port (sy_name s)]))"

definition unboundClaimBundle :: builder where
  "unboundClaimBundle lib s =
     bindR (healthyPod lib (sy_spec s)) (\<lambda>pod.
     let sizeStr = kube_optString (sy_spec s) ''size'' defaultClaimSize in
     bindR (parse_quantity lib ''size'' sizeStr) (\<lambda>size.
     bindR (refuseIf (size \<le> 0) (sprintf ''spec.size must be positive, got %'' [AQ sizeStr])) (\<lambda>_.
     let klass = kube_optString (sy_spec s) ''storage_class'' defaultMissingStorageClass in
     bindR (refuseIf (kl_IsDNS1123Subdomain lib klass \<noteq> [])
       (sprintf ''spec.storage_class % is not a valid name: %'' [AQ klass, AS (join_with ''; '' (kl_IsDNS1123Subdomain lib klass))])) (\<lambda>_.
     let pvc = Claim (app_meta s)
                 \<lparr>cl_AccessModes = [''ReadWriteOnce''], cl_StorageClassName = Some klass, cl_Requests = [(''storage'', size)]\<rparr>;
         pod' = on_first (\<lambda>c. c\<lparr>kc_Mounts := [\<lparr>vm_Name = claimVolumeName, vm_MountPath = claimMountPath, vm_ReadOnly = False\<rparr>]\<rparr>)
                  (pod\<lparr>kp_Volumes := [ClaimVolume claimVolumeName (sy_name s)]\<rparr>)
     in Inr [pvc, Deployment (app_meta s) (newDeployment s pod')]))))"

definition has_line_break :: "string \<Rightarrow> bool" where
  "has_line_break s \<longleftrightarrow> CHR 0x0A \<in> set s \<or> CHR 0x0D \<in> set s"

definition stall_command :: "int \<Rightarrow> int \<Rightarrow> string list" where
  "stall_command port every =
     [''/bin/sh'', ''-c'',
      sprintf ''mkdir -p % && echo ok > %/index.html && httpd -p % -h % && while :; do echo \"$%\" >&2; sleep %; done''
        [AS stallServeRoot, AS stallServeRoot, AD port, AS stallServeRoot, AS stallMessageEnv, AD every]]"

definition dependencyStallBundle :: builder where
  "dependencyStallBundle lib s =
     bindR (servicePort (sy_spec s)) (\<lambda>port.
     bindR (kube_optInt (sy_spec s) ''interval_seconds'' defaultStallSeconds) (\<lambda>every.
     bindR (refuseIf (every < 1 \<or> every > maxStallSeconds)
       (sprintf ''spec.interval_seconds must be between 1 and %, got %'' [AD maxStallSeconds, AD every])) (\<lambda>_.
     let msg = KubeStateStallMessage (kube_optString (sy_spec s) ''message'' '''') in
     bindR (refuseIf (has_line_break msg)
       ''spec.message must be a single line: the efficacy gate matches it against one line of the log'') (\<lambda>_.
     let pod = one_container
           ((plain_container (kube_optString (sy_spec s) ''image'' defaultRunnerImage) (stall_command port every))
              \<lparr>kc_Ports := [(''http'', port)], kc_Env := [(stallMessageEnv, msg)],
               kc_Readiness := Some \<lparr>rp_Handler = HTTPGetAction ''/'' port, rp_PeriodSeconds = 2, rp_TimeoutSeconds = 2,
                 rp_FailureThreshold = 3\<rparr>\<rparr>)
     in Inr [Deployment (app_meta s) (newDeployment s pod), newService s port (sy_name s)]))))"

definition pdbGridlockBundle :: builder where
  "pdbGridlockBundle lib s =
     bindR (healthyPod lib (sy_spec s)) (\<lambda>pod.
     bindR (kube_optInt (sy_spec s) ''min_available'' (sy_replicas s)) (\<lambda>minAvail.
     bindR (refuseIf (minAvail < 1)
       (sprintf ''spec.min_available must be at least 1, got %: a budget of 0 permits every eviction, and the fault would apply cleanly and block nothing''
          [AD minAvail])) (\<lambda>_.
     bindR (refuseIf (minAvail < sy_replicas s)
       (sprintf ''spec.min_available (%) must be at least spec.replicas (%): with headroom the budget allows % disruption(s), the pods can be evicted, and the fault would apply cleanly and block nothing''
          [AD minAvail, AD (sy_replicas s), AD (sy_replicas s - minAvail)])) (\<lambda>_.
     bindR (refuseIf (minAvail > maxReplicas)
       (sprintf ''spec.min_available must be at most %, got %'' [AD maxReplicas, AD minAvail])) (\<lambda>_.
       Inr [Deployment (app_meta s) (newDeployment s pod),
            Budget (app_meta s) \<lparr>bd_MinAvailable = Some minAvail, bd_Selector = [(''app'', sy_name s)]\<rparr>])))))"

definition brokenRolloutContainer :: "jobj \<Rightarrow> kube_error + k_container" where
  "brokenRolloutContainer spec =
     (let msg = kube_optString spec ''message'' defaultRolloutMessage in
      bindR (refuseIf (has_line_break msg) ''spec.message must be a single line'') (\<lambda>_.
        Inr ((plain_container (kube_optString spec ''broken_image'' defaultBrokenRolloutImage) (exit_command 1))
               \<lparr>kc_Env := [(exitMessageEnv, msg)], kc_Readiness := Some failing_probe\<rparr>)))"

definition rolloutStuckBundle :: builder where
  "rolloutStuckBundle lib s =
     bindR (healthyPod lib (sy_spec s)) (\<lambda>pod.
     bindR (kube_optInt (sy_spec s) ''progress_deadline_seconds'' defaultProgressDeadline) (\<lambda>deadline.
     bindR (refuseIf (deadline < minProgressDeadline \<or> deadline > maxProgressDeadline)
       (sprintf ''spec.progress_deadline_seconds must be between % and %, got %''
          [AD minProgressDeadline, AD maxProgressDeadline, AD deadline])) (\<lambda>_.
     bindR (brokenRolloutContainer (sy_spec s)) (\<lambda>_.
       Inr [Deployment (app_meta s)
              ((newDeployment s pod)\<lparr>dp_ProgressDeadlineSeconds := Some deadline, dp_MinReadySeconds := defaultMinReadySeconds,
                 dp_RollingUpdate := Some (0, 1)\<rparr>)]))))"

section \<open>Certificates\<close>

definition certLifetime :: duration where "certLifetime = 90 * 24 * 3600 * sec"
definition certBackdate :: duration where "certBackdate = 3600 * sec"

record expiring_cert =
  ec_certPEM :: string
  ec_keyPEM :: string
  ec_notBefore :: gotime
  ec_notAfter :: gotime

definition newExpiringCert :: "kube_lib \<Rightarrow> string \<Rightarrow> duration \<Rightarrow> gotime \<Rightarrow> string + expiring_cert" where
  "newExpiringCert lib commonName validFor now =
     bindR (in_error (lib_error ''generate key'') (kl_GenerateKey lib)) (\<lambda>key.
     bindR (in_error (lib_error ''generate serial'') (kl_Serial lib)) (\<lambda>serial.
     let notAfter = now + validFor;
         latest = now - certBackdate;
         notBefore = (if notAfter - certLifetime > latest then latest else notAfter - certLifetime);
         tmpl = \<lparr>x_SerialNumber = serial, x_CommonName = commonName, x_NotBefore = notBefore, x_NotAfter = notAfter,
                  x_DNSNames = [commonName]\<rparr> in
     bindR (in_error (lib_error ''create certificate'') (kl_CreateCertificate lib tmpl key)) (\<lambda>der.
     bindR (in_error (lib_error ''marshal key'') (kl_MarshalKey lib key)) (\<lambda>keyDER.
       Inr \<lparr>ec_certPEM = kl_EncodePEM lib ''CERTIFICATE'' der, ec_keyPEM = kl_EncodePEM lib ''PRIVATE KEY'' keyDER,
            ec_notBefore = notBefore, ec_notAfter = notAfter\<rparr>))))"

definition certExpiryBundle :: builder where
  "certExpiryBundle lib s =
     bindR (healthyPod lib (sy_spec s)) (\<lambda>pod.
     bindR (kube_optInt (sy_spec s) ''expires_in_hours'' KubeStateDefaultCertHours) (\<lambda>hours.
     bindR (refuseIf (hours < KubeStateMinCertHours \<or> hours > KubeStateMaxCertHours)
       (sprintf ''spec.expires_in_hours must be between % and %, got %''
          [AD KubeStateMinCertHours, AD KubeStateMaxCertHours, AD hours])) (\<lambda>_.
     let cn = kube_optString (sy_spec s) ''common_name'' defaultCommonName in
     bindR (refuseIf (kl_IsDNS1123Subdomain lib cn \<noteq> [])
       (sprintf ''spec.common_name % is not a valid DNS name: %'' [AQ cn, AS (join_with ''; '' (kl_IsDNS1123Subdomain lib cn))])) (\<lambda>_.
     bindR (in_error (\<lambda>e. KubeErr (lib_error ''synthesize certificate'' e)) (newExpiringCert lib cn (hours * 3600 * sec) (sy_now s))) (\<lambda>crt.
         let pod' = on_first (\<lambda>c. c\<lparr>kc_Mounts := [\<lparr>vm_Name = certVolumeName, vm_MountPath = certMountPath, vm_ReadOnly = True\<rparr>]\<rparr>)
                      (pod\<lparr>kp_Volumes := [SecretVolume certVolumeName (sy_name s)]\<rparr>)
         in Inr [Secret (app_meta s)
                   \<lparr>sc_Type = ''kubernetes.io/tls'', sc_Data = [(''tls.crt'', ec_certPEM crt), (''tls.key'', ec_keyPEM crt)]\<rparr>,
                 Deployment (app_meta s) (newDeployment s pod')])))))"

section \<open>The kinds\<close>

definition builders :: "builder gomap" where
  "builders =
     [(KubeStateImageUnresolvable, deploymentOf imageUnresolvablePod),
      (KubeStateContainerExitLoop, deploymentOf containerExitLoopPod),
      (KubeStateMemoryLimitSqueeze, deploymentOf memoryLimitSqueezePod),
      (KubeStateUnschedulable, deploymentOf unschedulablePod),
      (KubeStateNoOp, deploymentOf healthyPod),
      (KubeStateJobFailure, jobFailureBundle),
      (KubeStateSelectorDrift, selectorDriftBundle),
      (KubeStateBackendCrashLoop, backendCrashLoopBundle),
      (KubeStateUnboundClaim, unboundClaimBundle),
      (KubeStateDependencyStall, dependencyStallBundle),
      (KubeStatePDBGridlock, pdbGridlockBundle),
      (KubeStateRolloutStuck, rolloutStuckBundle),
      (KubeStateCertExpiry, certExpiryBundle)]"

definition Kinds :: "string list" where
  "Kinds = sort (map fst builders)"

definition Supports :: "string \<Rightarrow> bool" where
  "Supports kind \<longleftrightarrow> (case map_of builders kind of None \<Rightarrow> False | Some _ \<Rightarrow> True)"

end
