(* ===== verification/Kube_Shapes.thy ===== *)
theory Kube_Shapes
  imports Kube_Objects
begin

text \<open>
  The shape of what the builders of \<open>Kube_Objects\<close> create: for each kind, the
  relation between objects or the field that is the fault, and what every bundle has
  in common.
\<close>

section \<open>What every bundle has in common\<close>

definition object_meta_of :: "kube_object \<Rightarrow> object_meta" where
  "object_meta_of obj =
     (case obj of Deployment m _ \<Rightarrow> m | Job m _ \<Rightarrow> m | Service m _ \<Rightarrow> m | Claim m _ \<Rightarrow> m | Budget m _ \<Rightarrow> m | Secret m _ \<Rightarrow> m)"

text \<open>The REST resource an object lives under.\<close>

definition plural_of :: "kube_object \<Rightarrow> string" where
  "plural_of obj =
     (case obj of Deployment _ _ \<Rightarrow> ''deployments'' | Job _ _ \<Rightarrow> ''jobs'' | Service _ _ \<Rightarrow> ''services''
      | Claim _ _ \<Rightarrow> ''persistentvolumeclaims'' | Budget _ _ \<Rightarrow> ''poddisruptionbudgets'' | Secret _ _ \<Rightarrow> ''secrets'')"

definition pods_of :: "kube_object \<Rightarrow> (string gomap \<times> k_pod) list" where
  "pods_of obj =
     (case obj of Deployment _ d \<Rightarrow> [(dp_PodLabels d, dp_Pod d)] | Job _ j \<Rightarrow> [(jb_PodLabels j, jb_Pod j)] | _ \<Rightarrow> [])"

definition selects :: "string gomap \<Rightarrow> string gomap \<Rightarrow> bool" where
  "selects selector labels \<longleftrightarrow> (\<forall>p \<in> set selector. map_of labels (fst p) = Some (snd p))"

lemmas kube_views = object_meta_of_def plural_of_def pods_of_def

text \<open>
  Every object carries the name, namespace and \<^verbatim>\<open>app\<close> label of the bundle, no two are
  of one resource, one object runs pods and they carry the label.
\<close>

definition bundle_ok :: "synthesis \<Rightarrow> kube_object list \<Rightarrow> bool" where
  "bundle_ok s objs \<longleftrightarrow>
     list_all (\<lambda>obj. object_meta_of obj = app_meta s) objs \<and> distinct (map plural_of objs) \<and>
     map fst (concat (map pods_of objs)) = [[(''app'', sy_name s)]]"

lemma refuseIf_Inr [simp]: "refuseIf b msg = Inr u \<longleftrightarrow> \<not> b"
  by (cases u) (simp add: refuseIf_def)

lemmas builder_defs = deploymentOf_def imageUnresolvablePod_def containerExitLoopPod_def memoryLimitSqueezePod_def
  unschedulablePod_def healthyPod_def jobFailureBundle_def selectorDriftBundle_def backendCrashLoopBundle_def
  unboundClaimBundle_def dependencyStallBundle_def pdbGridlockBundle_def rolloutStuckBundle_def certExpiryBundle_def

lemma bundle_one: "bundle_ok s [Deployment (app_meta s) d] \<longleftrightarrow> dp_PodLabels d = [(''app'', sy_name s)]"
  by (simp add: bundle_ok_def kube_views)

lemma bundle_two:
  "plural_of obj \<noteq> ''deployments'' \<Longrightarrow> pods_of obj = [] \<Longrightarrow> object_meta_of obj = app_meta s
     \<Longrightarrow> dp_PodLabels d = [(''app'', sy_name s)]
     \<Longrightarrow> bundle_ok s [Deployment (app_meta s) d, obj] \<and> bundle_ok s [obj, Deployment (app_meta s) d]"
  by (auto simp: bundle_ok_def) (simp_all add: kube_views)

lemma newDeployment_labels [simp]: "dp_PodLabels (newDeployment s pod) = [(''app'', sy_name s)]"
  by (simp add: newDeployment_def)

lemma builders_bundle_ok:
  assumes "map_of builders kind = Some build" "build lib s = Inr objs"
  shows "bundle_ok s objs"
proof -
  have d: "deploymentOf f lib s = Inr objs \<Longrightarrow> bundle_ok s objs" for f
    by (auto simp: deploymentOf_def bindR_Inr bundle_one)
  have "jobFailureBundle lib s = Inr objs \<Longrightarrow> bundle_ok s objs"
    by (auto simp: jobFailureBundle_def bindR_Inr bundle_ok_def kube_views)
  moreover have "selectorDriftBundle lib s = Inr objs \<Longrightarrow> bundle_ok s objs"
    by (auto simp: selectorDriftBundle_def bindR_Inr Let_def newService_def kube_views intro!: bundle_two [THEN conjunct1])
  moreover have "backendCrashLoopBundle lib s = Inr objs \<Longrightarrow> bundle_ok s objs"
    by (auto simp: backendCrashLoopBundle_def bindR_Inr Let_def newService_def kube_views intro!: bundle_two [THEN conjunct1])
  moreover have "unboundClaimBundle lib s = Inr objs \<Longrightarrow> bundle_ok s objs"
    by (auto simp: unboundClaimBundle_def bindR_Inr Let_def kube_views intro!: bundle_two [THEN conjunct2])
  moreover have "dependencyStallBundle lib s = Inr objs \<Longrightarrow> bundle_ok s objs"
    by (auto simp: dependencyStallBundle_def bindR_Inr Let_def newService_def kube_views intro!: bundle_two [THEN conjunct1])
  moreover have "pdbGridlockBundle lib s = Inr objs \<Longrightarrow> bundle_ok s objs"
    by (auto simp: pdbGridlockBundle_def bindR_Inr kube_views intro!: bundle_two [THEN conjunct1])
  moreover have "rolloutStuckBundle lib s = Inr objs \<Longrightarrow> bundle_ok s objs"
    by (auto simp: rolloutStuckBundle_def bindR_Inr bundle_one)
  moreover have "certExpiryBundle lib s = Inr objs \<Longrightarrow> bundle_ok s objs"
    by (auto simp: certExpiryBundle_def bindR_Inr Let_def kube_views intro!: bundle_two [THEN conjunct2])
  ultimately show ?thesis
    using assms d unfolding builders_def by (auto split: if_splits)
qed

section \<open>The fault of each kind\<close>

text \<open>A container that ends with a non-zero status as soon as it starts.\<close>

definition exits_nonzero :: "k_container \<Rightarrow> bool" where
  "exits_nonzero c \<longleftrightarrow> (\<exists>code. kc_Command c = exit_command code \<and> 1 \<le> code \<and> code \<le> 255)"

definition never_ready :: "k_container \<Rightarrow> bool" where
  "never_ready c \<longleftrightarrow> kc_Readiness c = Some failing_probe"

text \<open>Asks for more memory, at startup, than its limit.\<close>

definition over_limit :: "kube_lib \<Rightarrow> k_container \<Rightarrow> bool" where
  "over_limit lib c \<longleftrightarrow>
     (\<exists>limit bytes. kc_Limits c = [(''memory'', limit)] \<and> kc_Requests c = kc_Limits c \<and> kl_Value lib limit < bytes \<and>
        kc_Command c = [''/bin/sh'', ''-c'', sprintf ''head -c % /dev/zero | tail -c % >/dev/null; sleep 3600'' [AD bytes, AD bytes]])"

text \<open>A certificate the library issued for a window that ends at \<open>notAfter\<close> and began
  before that, at least an hour ago.\<close>

definition issued_for :: "kube_lib \<Rightarrow> gotime \<Rightarrow> gotime \<Rightarrow> string \<Rightarrow> bool" where
  "issued_for lib now notAfter pem \<longleftrightarrow>
     (\<exists>tmpl key der. kl_CreateCertificate lib tmpl key = Inr der \<and> pem = kl_EncodePEM lib ''CERTIFICATE'' der \<and>
        x_NotAfter tmpl = notAfter \<and> x_NotBefore tmpl < notAfter \<and> x_NotBefore tmpl \<le> now - certBackdate)"

definition fault_shape :: "kube_lib \<Rightarrow> synthesis \<Rightarrow> string \<Rightarrow> kube_object list \<Rightarrow> bool" where
  "fault_shape lib s kind objs \<longleftrightarrow>
     (case objs of
        [Deployment m d] \<Rightarrow>
          (case kp_Containers (dp_Pod d) of
             [c] \<Rightarrow>
               kind = KubeStateImageUnresolvable \<and> kc_PullPolicy c = ''Always'' \<and> kc_Image c \<noteq> '''' \<or>
               kind = KubeStateContainerExitLoop \<and> exits_nonzero c \<or>
               kind = KubeStateMemoryLimitSqueeze \<and> over_limit lib c \<or>
               kind = KubeStateUnschedulable \<and>
                 (kp_NodeSelector (dp_Pod d) \<noteq> [] \<or> (\<exists>cpu>0. kc_Requests c = [(''cpu'', cpu)])) \<or>
               kind = KubeStateNoOp \<and> kc_Command c = [''/bin/sh'', ''-c'', ''sleep 3600''] \<or>
               kind = KubeStateRolloutStuck \<and> dp_RollingUpdate d = Some (0, 1) \<and> 0 < dp_MinReadySeconds d \<and>
                 (\<exists>n. dp_ProgressDeadlineSeconds d = Some n \<and> dp_MinReadySeconds d < n \<and> n \<le> 600) \<and>
                 (\<exists>c'. brokenRolloutContainer (sy_spec s) = Inr c' \<and> exits_nonzero c' \<and> never_ready c' \<and> kc_Name c' = kc_Name c)
           | _ \<Rightarrow> False)
      | [Job m j] \<Rightarrow>
          (case kp_Containers (jb_Pod j) of
             [c] \<Rightarrow> kind = KubeStateJobFailure \<and> kp_RestartPolicy (jb_Pod j) = ''Never'' \<and> exits_nonzero c \<and>
                    (\<exists>n. jb_BackoffLimit j = Some n \<and> 0 \<le> n \<and> n \<le> 6)
           | _ \<Rightarrow> False)
      | [Deployment m d, Service m' v] \<Rightarrow>
          (case kp_Containers (dp_Pod d) of
             [c] \<Rightarrow>
               kind = KubeStateSelectorDrift \<and> \<not> selects (kv_Selector v) (dp_PodLabels d) \<and> kc_Readiness c = None \<or>
               kind = KubeStateBackendCrashLoop \<and> selects (kv_Selector v) (dp_PodLabels d) \<and> exits_nonzero c \<and> never_ready c \<or>
               kind = KubeStateDependencyStall \<and> selects (kv_Selector v) (dp_PodLabels d) \<and>
                 (\<exists>port r. kv_Ports v = [(''http'', port, port)] \<and> kc_Ports c = [(''http'', port)] \<and>
                    kc_Readiness c = Some r \<and> rp_Handler r = HTTPGetAction ''/'' port) \<and>
                 (\<exists>msg. kc_Env c = [(stallMessageEnv, msg)] \<and> trim_space msg \<noteq> '''' \<and> \<not> has_line_break msg)
           | _ \<Rightarrow> False)
      | [Claim m q, Deployment m' d] \<Rightarrow>
          kind = KubeStateUnboundClaim \<and> (\<exists>k. cl_StorageClassName q = Some k \<and> k \<noteq> '''') \<and>
          kp_Volumes (dp_Pod d) = [ClaimVolume claimVolumeName (om_Name m)]
      | [Deployment m d, Budget m' b] \<Rightarrow>
          kind = KubeStatePDBGridlock \<and> selects (bd_Selector b) (dp_PodLabels d) \<and>
          (\<exists>r n. dp_Replicas d = Some r \<and> bd_MinAvailable b = Some n \<and> r \<le> n)
      | [Secret m t, Deployment m' d] \<Rightarrow>
          kind = KubeStateCertExpiry \<and> sc_Type t = ''kubernetes.io/tls'' \<and>
          kp_Volumes (dp_Pod d) = [SecretVolume certVolumeName (om_Name m)] \<and>
          (\<exists>hours pem. map_of (sc_Data t) ''tls.crt'' = Some pem \<and> -168 \<le> hours \<and> hours \<le> 8760 \<and>
             issued_for lib (sy_now s) (sy_now s + hours * 3600 * sec) pem)
      | _ \<Rightarrow> False)"

lemma exits_ex:
  "1 \<le> a \<Longrightarrow> a \<le> 255 \<Longrightarrow> \<exists>code. exit_command a = exit_command code \<and> 1 \<le> code \<and> code \<le> 255"
  by blast

lemmas container_defs = plain_container_def one_container_def sleeping_container_def newDeployment_def app_meta_def newService_def on_first_def

lemma nonempty_default: "dflt \<noteq> '''' \<Longrightarrow> kube_optString spec k dflt \<noteq> ''''"
  by (simp add: kube_optString_def Let_def)

lemma single_workload_shapes:
  "deploymentOf imageUnresolvablePod lib s = Inr objs \<Longrightarrow> fault_shape lib s KubeStateImageUnresolvable objs"
  "deploymentOf containerExitLoopPod lib s = Inr objs \<Longrightarrow> fault_shape lib s KubeStateContainerExitLoop objs"
  "deploymentOf unschedulablePod lib s = Inr objs \<Longrightarrow> fault_shape lib s KubeStateUnschedulable objs"
  "deploymentOf healthyPod lib s = Inr objs \<Longrightarrow> fault_shape lib s KubeStateNoOp objs"
  by (auto simp: builder_defs fault_shape_def container_defs exits_nonzero_def exits_ex Let_def nonempty_default
      defaultBadImage_def split: if_splits)

lemma memoryLimit_shape:
  "deploymentOf memoryLimitSqueezePod lib s = Inr objs \<Longrightarrow> fault_shape lib s KubeStateMemoryLimitSqueeze objs"
  by (auto simp: builder_defs fault_shape_def container_defs over_limit_def Let_def not_le)

lemma jobFailure_shape: "jobFailureBundle lib s = Inr objs \<Longrightarrow> fault_shape lib s KubeStateJobFailure objs"
  by (auto simp: jobFailureBundle_def fault_shape_def container_defs exits_nonzero_def exits_ex maxBackoffLimit_def)

lemma rolloutStuck_shape: "rolloutStuckBundle lib s = Inr objs \<Longrightarrow> fault_shape lib s KubeStateRolloutStuck objs"
  by (auto simp: rolloutStuckBundle_def fault_shape_def container_defs healthyPod_def minProgressDeadline_def maxProgressDeadline_def
      defaultMinReadySeconds_def brokenRolloutContainer_def Let_def exits_nonzero_def exits_ex never_ready_def)

lemma service_shapes:
  "selectorDriftBundle lib s = Inr objs \<Longrightarrow> fault_shape lib s KubeStateSelectorDrift objs"
  "backendCrashLoopBundle lib s = Inr objs \<Longrightarrow> fault_shape lib s KubeStateBackendCrashLoop objs"
  "dependencyStallBundle lib s = Inr objs \<Longrightarrow> fault_shape lib s KubeStateDependencyStall objs"
  by (auto simp: builder_defs fault_shape_def container_defs exits_nonzero_def exits_ex never_ready_def selects_def Let_def stall_message)

lemma claim_shape: "unboundClaimBundle lib s = Inr objs \<Longrightarrow> fault_shape lib s KubeStateUnboundClaim objs"
  by (auto simp: unboundClaimBundle_def healthyPod_def fault_shape_def container_defs Let_def nonempty_default defaultMissingStorageClass_def)

lemma budget_shape: "pdbGridlockBundle lib s = Inr objs \<Longrightarrow> fault_shape lib s KubeStatePDBGridlock objs"
  by (auto simp: pdbGridlockBundle_def healthyPod_def fault_shape_def container_defs selects_def)

lemma newExpiringCert_issued:
  assumes "newExpiringCert lib cn (hours * 3600 * sec) now = Inr crt" "-168 \<le> hours"
  shows "issued_for lib now (now + hours * 3600 * sec) (ec_certPEM crt)"
proof -
  let ?late = "now - certBackdate"
  let ?until = "now + hours * 3600 * sec"
  let ?since = "if ?until - certLifetime > ?late then ?late else ?until - certLifetime"
  obtain key serial der where "kl_CreateCertificate lib
      \<lparr>x_SerialNumber = serial, x_CommonName = cn, x_NotBefore = ?since, x_NotAfter = ?until, x_DNSNames = [cn]\<rparr> key = Inr der"
    "ec_certPEM crt = kl_EncodePEM lib ''CERTIFICATE'' der"
    using assms(1) by (auto simp: newExpiringCert_def Let_def)
  moreover have "?since \<le> ?late" by simp
  moreover have "?since < ?until" using sec_pos by (simp add: certLifetime_def)
  ultimately show ?thesis
    unfolding issued_for_def by (metis cert_template.select_convs(3,4))
qed

lemma certExpiry_shape:
  assumes "certExpiryBundle lib s = Inr objs"
  shows "fault_shape lib s KubeStateCertExpiry objs"
proof -
  from assms obtain hours crt where h: "newExpiringCert lib (kube_optString (sy_spec s) ''common_name'' defaultCommonName)
      (hours * 3600 * sec) (sy_now s) = Inr crt" "-168 \<le> hours" "hours \<le> 8760"
    and objs: "objs = [Secret (app_meta s)
        \<lparr>sc_Type = ''kubernetes.io/tls'', sc_Data = [(''tls.crt'', ec_certPEM crt), (''tls.key'', ec_keyPEM crt)]\<rparr>,
      Deployment (app_meta s) (newDeployment s
        (on_first (\<lambda>c. c\<lparr>kc_Mounts := [\<lparr>vm_Name = certVolumeName, vm_MountPath = certMountPath, vm_ReadOnly = True\<rparr>]\<rparr>)
          ((one_container (sleeping_container (sy_spec s)))\<lparr>kp_Volumes := [SecretVolume certVolumeName (sy_name s)]\<rparr>)))]"
    by (auto simp: certExpiryBundle_def healthyPod_def Let_def KubeStateMinCertHours_def KubeStateMaxCertHours_def)
  from newExpiringCert_issued [OF h(1,2)] h(2,3) show ?thesis
    unfolding objs by (auto simp: fault_shape_def newDeployment_def on_first_def one_container_def app_meta_def)
qed

lemma builders_fault_shape:
  assumes "map_of builders kind = Some build" "build lib s = Inr objs"
  shows "fault_shape lib s kind objs"
  using assms single_workload_shapes memoryLimit_shape jobFailure_shape rolloutStuck_shape service_shapes claim_shape
    budget_shape certExpiry_shape
  unfolding builders_def by (auto split: if_splits)

text \<open>
  C19.  A bundle is born with its fault.  Whatever spec a builder accepts, the objects
  it returns carry the name, namespace and label of the bundle, one per resource, and
  one of them runs pods; and they have the fault of the kind: a container that exits
  non-zero, an allocation above the memory limit, a Service that does not select
  (drift) or does select (crash loop, stall) the pods, a budget that is no smaller than
  the replica count, a claim of a named storage class that the pods mount, a rollout that
  may not lose a pod and whose next revision fails, a certificate issued for a window
  that began an hour ago or earlier and ends within the bounds.
\<close>

theorem bundle_born_broken:
  assumes "map_of builders kind = Some build" "build lib s = Inr objs"
  shows "bundle_ok s objs \<and> fault_shape lib s kind objs"
  by (intro conjI builders_bundle_ok [OF assms] builders_fault_shape [OF assms])

definition lenient_lib :: kube_lib where
  "lenient_lib =
     \<lparr>kl_ParseQuantity = (\<lambda>t. if t = ''32Mi'' then Inr 33554432 else Inr 1000), kl_Value = ceiling,
      kl_IsDNS1123Label = (\<lambda>_. []), kl_IsDNS1123Subdomain = (\<lambda>_. []), kl_IsValidLabelValue = (\<lambda>_. []),
      kl_GenerateKey = Inr ''key'', kl_Serial = Inr 7, kl_CreateCertificate = (\<lambda>t k. Inr ''der''), kl_MarshalKey = Inr,
      kl_EncodePEM = (\<lambda>t b. ''-----BEGIN '' @ t @ ''-----'' @ b)\<rparr>"

definition sample_synthesis :: "jobj \<Rightarrow> synthesis" where
  "sample_synthesis spec =
     \<lparr>sy_name = ''storefront-01ab'', sy_namespace = ''arena'', sy_replicas = 1, sy_spec = spec, sy_now = 0, sy_settle = 0\<rparr>"

theorem bundle_born_broken_witness:
  "\<exists>d v m m'. selectorDriftBundle lenient_lib (sample_synthesis [(''port'', JInt 80)]) = Inr [Deployment m d, Service m' v] \<and>
     \<not> selects (kv_Selector v) (dp_PodLabels d) \<and>
     bundle_ok (sample_synthesis [(''port'', JInt 80)]) [Deployment m d, Service m' v]"
proof -
  let ?s = "sample_synthesis [(''port'', JInt 80)]"
  have b: "map_of builders KubeStateSelectorDrift = Some selectorDriftBundle"
    by (simp add: builders_def const_defs)
  obtain pod where "selectorDriftBundle lenient_lib ?s =
      Inr [Deployment (app_meta ?s) (newDeployment ?s pod), newService ?s 80 ''storefront-01ab-v2'']"
    by (simp add: selectorDriftBundle_def healthyPod_def servicePort_def kube_optInt_def kube_optString_def sample_synthesis_def
        lenient_lib_def defaultDriftSuffix_def Let_def str_or_empty_def)
  with bundle_born_broken [OF b this] show ?thesis
    by (auto simp: newService_def selects_def sample_synthesis_def)
qed

end
