(* ===== verification/Kube_Driver.thy ===== *)
theory Kube_Driver
  imports Kube_Shapes
begin

text \<open>
  The kube-state driver, \<^verbatim>\<open>src/pkg/driver/kubestate/driver.go\<close> with \<^verbatim>\<open>resources.go\<close> and
  \<^verbatim>\<open>rollout.go\<close>: applying a bundle with rollback, clearing it by its label, sweeping
  expired bundles and listing the live ones.  The functions it shares by copy with the
  NetworkPolicy driver (\<^verbatim>\<open>expiryAnnotation\<close>, \<^verbatim>\<open>parseExpiry\<close>, \<^verbatim>\<open>engineUID\<close>) are those of
  \<open>Network_Policy\<close>.

  A label selector is the list of the labels it asks for.  The wait for a rollout need
  not end, so \<^verbatim>\<open>Apply\<close> has an optional result.
\<close>

section \<open>The client\<close>

record deployment_status =
  ds_Generation :: int
  ds_ObservedGeneration :: int
  ds_Replicas :: "int option"
  ds_AvailableReplicas :: int
  ds_UpdatedReplicas :: int

text \<open>\<open>kb_delete\<close> takes the resource, whether the deletion is foreground, the namespace and
  the name.  \<open>kb_patch\<close> merges containers by name into a Deployment.  \<open>kb_wait\<close> is the
  select over the context and a timer.\<close>

record 'w kube_api =
  kb_list :: "string \<Rightarrow> string \<Rightarrow> string gomap \<Rightarrow> 'w \<Rightarrow> (k8s_error + object_meta list) \<times> 'w"
  kb_delete :: "string \<Rightarrow> bool \<Rightarrow> string \<Rightarrow> string \<Rightarrow> 'w \<Rightarrow> k8s_error option \<times> 'w"
  kb_create :: "string \<Rightarrow> kube_object \<Rightarrow> 'w \<Rightarrow> string option \<times> 'w"
  kb_getDeployment :: "string \<Rightarrow> string \<Rightarrow> 'w \<Rightarrow> (string + deployment_status) \<times> 'w"
  kb_patch :: "string \<Rightarrow> string \<Rightarrow> k_container list \<Rightarrow> 'w \<Rightarrow> string option \<times> 'w"
  kb_time :: "'w \<Rightarrow> gotime \<times> 'w"
  kb_wait :: "duration \<Rightarrow> 'w \<Rightarrow> string option \<times> 'w"

record 'w kube_driver =
  kd_lib :: kube_lib
  kd_api :: "'w kube_api"
  kd_now :: "'w \<Rightarrow> gotime \<times> 'w"
  kd_RolloutSettle :: duration

definition rolloutSettle :: "'w kube_driver \<Rightarrow> duration" where
  "rolloutSettle d = (if kd_RolloutSettle d > 0 then kd_RolloutSettle d else rolloutSettleTimeout)"

text \<open>The resources of the engine, and whether their deletion is foreground.\<close>

definition managedResources :: "(string \<times> bool) list" where
  "managedResources =
     [(''deployments'', False), (''jobs'', True), (''services'', False), (''persistentvolumeclaims'', False),
      (''poddisruptionbudgets'', False), (''secrets'', False)]"

definition createObject :: "'w kube_api \<Rightarrow> string \<Rightarrow> kube_object \<Rightarrow> 'w \<Rightarrow> string option \<times> 'w" where
  "createObject api ns obj = kb_create api ns obj"

definition describeObject :: "kube_object \<Rightarrow> string" where
  "describeObject obj =
     (case obj of Deployment _ _ \<Rightarrow> ''deployment'' | Job _ _ \<Rightarrow> ''job'' | Service _ _ \<Rightarrow> ''service''
      | Claim _ _ \<Rightarrow> ''persistentvolumeclaim'' | Budget _ _ \<Rightarrow> ''poddisruptionbudget'' | Secret _ _ \<Rightarrow> ''secret'')"

section \<open>The labels of a bundle\<close>

definition BundleLabel :: string where [const_defs]: "BundleLabel = ''simian.chaos/bundle''"

definition bundleLabels :: "string \<Rightarrow> string \<Rightarrow> string gomap" where
  "bundleLabels name faultUID = [(ManagedLabel, ''true''), (BundleLabel, name), (FaultUIDLabel, faultUID)]"

definition map_meta :: "(object_meta \<Rightarrow> object_meta) \<Rightarrow> kube_object \<Rightarrow> kube_object" where
  "map_meta f obj =
     (case obj of Deployment m x \<Rightarrow> Deployment (f m) x | Job m x \<Rightarrow> Job (f m) x | Service m x \<Rightarrow> Service (f m) x
      | Claim m x \<Rightarrow> Claim (f m) x | Budget m x \<Rightarrow> Budget (f m) x | Secret m x \<Rightarrow> Secret (f m) x)"

definition merge_into :: "string gomap \<Rightarrow> string gomap \<Rightarrow> string gomap" where
  "merge_into extra base = fold (\<lambda>p. AList.update (fst p) (snd p)) extra base"

definition stamp :: "string gomap \<Rightarrow> string gomap \<Rightarrow> kube_object \<Rightarrow> kube_object" where
  "stamp labels annotations =
     map_meta (\<lambda>m. m\<lparr>om_Labels := merge_into labels (om_Labels m),
                    om_Annotations := (if annotations = [] then om_Annotations m else merge_into annotations (om_Annotations m))\<rparr>)"

definition bundleNameOf :: "object_meta \<Rightarrow> string" where
  "bundleNameOf m = (case map_of (om_Labels m) BundleLabel of Some b \<Rightarrow> if b \<noteq> '''' then b else om_Name m | None \<Rightarrow> om_Name m)"

section \<open>Clearing a bundle\<close>

definition bundle_selector :: "string \<Rightarrow> string gomap" where
  "bundle_selector name = [(ManagedLabel, ''true''), (BundleLabel, name)]"

fun delete_found :: "'w kube_api \<Rightarrow> string \<Rightarrow> string \<times> bool \<Rightarrow> object_meta list \<Rightarrow> 'w \<Rightarrow> string list \<times> 'w" where
  "delete_found api ns r [] w = ([], w)"
| "delete_found api ns r (m # ms) w =
     (case kb_delete api (fst r) (snd r) ns (om_Name m) w of (e, w1) \<Rightarrow>
      case delete_found api ns r ms w1 of (errs, w2) \<Rightarrow>
        ((case e of Some (KError t) \<Rightarrow> sprintf ''delete %/%: %'' [AS (fst r), AS (om_Name m), AS t] # errs | _ \<Rightarrow> errs), w2))"

fun clear_resources :: "'w kube_api \<Rightarrow> string \<Rightarrow> string gomap \<Rightarrow> (string \<times> bool) list \<Rightarrow> 'w \<Rightarrow> string list \<times> 'w" where
  "clear_resources api ns sel [] w = ([], w)"
| "clear_resources api ns sel (r # rs) w =
     (case kb_list api (fst r) ns sel w of
        (Inl (KNotFound _), w1) \<Rightarrow> clear_resources api ns sel rs w1
      | (Inl (KError t), w1) \<Rightarrow>
          (case clear_resources api ns sel rs w1 of (errs, w2) \<Rightarrow> (sprintf ''list %: %'' [AS (fst r), AS t] # errs, w2))
      | (Inr found, w1) \<Rightarrow>
          (case delete_found api ns r found w1 of (errs1, w2) \<Rightarrow>
           case clear_resources api ns sel rs w2 of (errs2, w3) \<Rightarrow> (errs1 @ errs2, w3)))"

definition clearBundle :: "'w kube_api \<Rightarrow> string \<Rightarrow> string \<Rightarrow> 'w \<Rightarrow> string option \<times> 'w" where
  "clearBundle api ns name w =
     (case clear_resources api ns (bundle_selector name) managedResources w of
        (errs, w') \<Rightarrow> (if errs = [] then None else Some (join_with [CHR 0x0A] errs), w'))"

definition KS_Clear :: "'w kube_api \<Rightarrow> string \<Rightarrow> 'w \<Rightarrow> goerror option \<times> 'w" where
  "KS_Clear api uid w =
     (case decodeEngineUID uid of
        Inl e \<Rightarrow> (Some (GoErr e), w)
      | Inr (ns, name) \<Rightarrow>
          (case clearBundle api ns name w of
             (Some e, w') \<Rightarrow> (Some (GoErr (sprintf ''kube-state clear %/%: %'' [AS ns, AS name, AS e])), w')
           | (None, w') \<Rightarrow> (None, w')))"

section \<open>A rollout that gets stuck\<close>

definition rolloutComplete :: "deployment_status \<Rightarrow> bool" where
  "rolloutComplete s \<longleftrightarrow>
     \<not> ds_ObservedGeneration s < ds_Generation s \<and>
     (let want = (case ds_Replicas s of None \<Rightarrow> 1 | Some n \<Rightarrow> n) in ds_AvailableReplicas s \<ge> want \<and> ds_UpdatedReplicas s \<ge> want)"

definition not_available :: "synthesis \<Rightarrow> duration \<Rightarrow> deployment_status \<Rightarrow> string" where
  "not_available s timeout st =
     sprintf ''deployment %/% did not become fully available within % (observedGeneration % of %, %/% replicas available): the healthy revision has to be serving before it can be wedged''
       [AS (sy_namespace s), AS (sy_name s), AS (duration_string timeout), AD (ds_ObservedGeneration st), AD (ds_Generation st),
        AD (ds_AvailableReplicas st), AD (sy_replicas s)]"

partial_function (option) rollout_loop ::
  "'w kube_api \<Rightarrow> synthesis \<Rightarrow> duration \<Rightarrow> gotime \<Rightarrow> 'w \<Rightarrow> (string option \<times> 'w) option" where
  "rollout_loop api s timeout deadline w =
     (case kb_getDeployment api (sy_namespace s) (sy_name s) w of
        (Inl e, w1) \<Rightarrow> Some (Some (sprintf ''get deployment %/%: %'' [AS (sy_namespace s), AS (sy_name s), AS e]), w1)
      | (Inr st, w1) \<Rightarrow>
          if rolloutComplete st then Some (None, w1)
          else case kb_time api w1 of (t, w2) \<Rightarrow>
                 if \<not> t < deadline then Some (Some (not_available s timeout st), w2)
                 else case kb_wait api rolloutPollInterval w2 of
                        (Some e, w3) \<Rightarrow>
                          Some (Some (sprintf ''waiting for deployment %/% to become available: %''
                                        [AS (sy_namespace s), AS (sy_name s), AS e]), w3)
                      | (None, w3) \<Rightarrow> rollout_loop api s timeout deadline w3)"

definition waitRolloutComplete :: "'w kube_api \<Rightarrow> synthesis \<Rightarrow> 'w \<Rightarrow> (string option \<times> 'w) option" where
  "waitRolloutComplete api s w =
     (let timeout = (if sy_settle s \<le> 0 then rolloutSettleTimeout else sy_settle s)
      in case kb_time api w of (t, w1) \<Rightarrow> rollout_loop api s timeout (t + timeout) w1)"

definition wedgeRollout :: "'w kube_api \<Rightarrow> synthesis \<Rightarrow> 'w \<Rightarrow> (kube_error option \<times> 'w) option" where
  "wedgeRollout api s w =
     (case waitRolloutComplete api s w of
        None \<Rightarrow> None
      | Some (Some e, w1) \<Rightarrow> Some (Some (KubeErr e), w1)
      | Some (None, w1) \<Rightarrow>
          (case brokenRolloutContainer (sy_spec s) of
             Inl e \<Rightarrow> Some (Some e, w1)
           | Inr broken \<Rightarrow>
               (case kb_patch api (sy_namespace s) (sy_name s) [broken] w1 of
                  (Some e, w2) \<Rightarrow>
                    Some (Some (KubeErr (sprintf ''patch deployment %/% to the broken revision: %''
                                           [AS (sy_namespace s), AS (sy_name s), AS e])), w2)
                | (None, w2) \<Rightarrow> Some (None, w2))))"

definition finishers :: "('w kube_api \<Rightarrow> synthesis \<Rightarrow> 'w \<Rightarrow> (kube_error option \<times> 'w) option) gomap" where
  "finishers = [(KubeStateRolloutStuck, wedgeRollout)]"

section \<open>Apply\<close>

definition checkMode :: "jobj \<Rightarrow> kube_error + unit" where
  "checkMode spec =
     (let mode = kube_optString spec ''mode'' ModeSynthesize
      in if mode = ModeSynthesize then Inr ()
         else if mode = ModeMutate
         then Inl (KubeErr (sprintf ''spec.mode % is not implemented yet % it patches an existing workload and reverts on clear, which needs the original recorded somewhere that survives a restart; use %, which creates a new broken workload instead''
                     [AQ ModeMutate, AS em_dash, AQ ModeSynthesize]))
         else Inl (KubeErr (sprintf ''spec.mode % is not recognised (want % or %)'' [AQ mode, AQ ModeSynthesize, AQ ModeMutate])))"

definition workloadName :: "kube_lib \<Rightarrow> string \<Rightarrow> jobj \<Rightarrow> string \<Rightarrow> kube_error + string" where
  "workloadName lib kind spec faultUID =
     (let name = KubeStateWorkloadName kind (kube_optString spec ''name'' '''') faultUID in
      bindR (refuseIf (name = '''') (sprintf ''no default workload name for kind %'' [AQ kind])) (\<lambda>_.
      bindR (refuseIf (kl_IsDNS1123Label lib name \<noteq> [])
        (sprintf ''spec.name % does not make a valid workload name: %''
           [AQ (kube_optString spec ''name'' ''''), AS (join_with ''; '' (kl_IsDNS1123Label lib name))])) (\<lambda>_.
        Inr name)))"

text \<open>The checks of \<^verbatim>\<open>Apply\<close> before it reads the clock: the namespace, the builder, the
  name and the replica count.\<close>

definition apply_checks :: "kube_lib \<Rightarrow> fault_manifest \<Rightarrow> kube_error + string \<times> builder \<times> string \<times> int" where
  "apply_checks lib m =
     bindR (refuseIf (m_Targets m = []) ''manifest has no targets'') (\<lambda>_.
     let ns = t_Namespace (hd (m_Targets m)) in
     bindR (refuseIf (ns = '''') ''manifest target has no namespace'') (\<lambda>_.
     bindR (checkMode (spec_map m)) (\<lambda>_.
     case map_of builders (m_ResourceKind m) of
       None \<Rightarrow> Inl (KubeErr (sprintf ''unsupported kind % (want one of %)'' [AQ (m_ResourceKind m), AS (join_with '', '' Kinds)]))
     | Some build \<Rightarrow>
         bindR (workloadName lib (m_ResourceKind m) (spec_map m) (m_UID m)) (\<lambda>name.
         bindR (kube_optInt (spec_map m) ''replicas'' (KubeStateDefaultReplicas (m_ResourceKind m))) (\<lambda>replicas.
         bindR (refuseIf (replicas < 1 \<or> replicas > maxReplicas)
           (sprintf ''spec.replicas must be between 1 and %, got %'' [AD maxReplicas, AD replicas])) (\<lambda>_.
           Inr (ns, build, name, replicas)))))))"

text \<open>Creation of the stamped objects in order; the first failure rolls the bundle back.\<close>

fun create_bundle :: "'w kube_api \<Rightarrow> string \<Rightarrow> string \<Rightarrow> nat \<Rightarrow> kube_object list \<Rightarrow> 'w \<Rightarrow> kube_error option \<times> 'w" where
  "create_bundle api ns name i [] w = (None, w)"
| "create_bundle api ns name i (obj # objs) w =
     (case createObject api ns obj w of
        (None, w1) \<Rightarrow> create_bundle api ns name (Suc i) objs w1
      | (Some e, w1) \<Rightarrow>
          (case clearBundle api ns name w1 of
             (Some ce, w2) \<Rightarrow>
               (Some (KubeErr (sprintf ''create % %/%: % (and rolling back the % object(s) already created: %)''
                  [AS (describeObject obj), AS ns, AS name, AS e, AD (int i), AS ce])), w2)
           | (None, w2) \<Rightarrow> (Some (KubeErr (sprintf ''create % %/%: %'' [AS (describeObject obj), AS ns, AS name, AS e])), w2)))"

text \<open>The second step of a kind that has one, rolled back when it fails.  The text of an
  error joins those it wraps; \<open>AndRollback\<close> keeps the error and that of the rollback.\<close>

definition finish_bundle :: "'w kube_api \<Rightarrow> string \<Rightarrow> synthesis \<Rightarrow> 'w \<Rightarrow> (kube_error option \<times> 'w) option" where
  "finish_bundle api kind s w =
     (case map_of finishers kind of
        None \<Rightarrow> Some (None, w)
      | Some finish \<Rightarrow>
          (case finish api s w of
             None \<Rightarrow> None
           | Some (None, w1) \<Rightarrow> Some (None, w1)
           | Some (Some e, w1) \<Rightarrow>
               (case clearBundle api (sy_namespace s) (sy_name s) w1 of
                  (Some ce, w2) \<Rightarrow> Some (Some (AndRollback e ce), w2)
                | (None, w2) \<Rightarrow> Some (Some e, w2))))"

definition KS_Apply :: "'w kube_driver \<Rightarrow> fault_manifest \<Rightarrow> 'w \<Rightarrow> ((kube_error + string) \<times> 'w) option" where
  "KS_Apply d m w =
     (case apply_checks (kd_lib d) m of
        Inl e \<Rightarrow> Some (Inl (Wrapped ''kube-state apply'' e), w)
      | Inr (ns, build, name, replicas) \<Rightarrow>
          (case kd_now d w of (now, w1) \<Rightarrow>
           let s = \<lparr>sy_name = name, sy_namespace = ns, sy_replicas = replicas, sy_spec = spec_map m, sy_now = now,
                    sy_settle = rolloutSettle d\<rparr>
           in case build (kd_lib d) s of
                Inl e \<Rightarrow> Some (Inl (Wrapped ''kube-state apply'' e), w1)
              | Inr objs \<Rightarrow>
                  (case create_bundle (kd_api d) ns name 0
                          (map (stamp (bundleLabels name (m_UID m)) (expiryAnnotation now (m_Duration m))) objs) w1 of
                     (Some e, w2) \<Rightarrow> Some (Inl (Wrapped ''kube-state apply'' e), w2)
                   | (None, w2) \<Rightarrow>
                       (case finish_bundle (kd_api d) (m_ResourceKind m) s w2 of
                          None \<Rightarrow> None
                        | Some (Some e, w3) \<Rightarrow> Some (Inl (Wrapped ''kube-state apply'' e), w3)
                        | Some (None, w3) \<Rightarrow> Some (Inr (engineUID ns name), w3)))))"

section \<open>Sweeping and adopting\<close>

definition meta_expired :: "gotime \<Rightarrow> object_meta \<Rightarrow> bool" where
  "meta_expired now m \<longleftrightarrow> (case parseExpiry (om_Annotations m) of None \<Rightarrow> False | Some e \<Rightarrow> e < now)"

text \<open>The engine UIDs cleared so far and the errors; \<^verbatim>\<open>seen\<close> is membership in the former.\<close>

fun reap_found ::
  "'w kube_api \<Rightarrow> string \<Rightarrow> string \<times> bool \<Rightarrow> gotime \<Rightarrow> object_meta list \<Rightarrow> string list \<times> string list \<Rightarrow> 'w
     \<Rightarrow> (string list \<times> string list) \<times> 'w" where
  "reap_found api ns r now [] acc w = (acc, w)"
| "reap_found api ns r now (m # ms) (cleared, errs) w =
     (if \<not> meta_expired now m then reap_found api ns r now ms (cleared, errs) w
      else case kb_delete api (fst r) (snd r) ns (om_Name m) w of
             (Some (KError t), w1) \<Rightarrow>
               reap_found api ns r now ms
                 (cleared, errs @ [sprintf ''kube-state reap: delete % %/%: %'' [AS (fst r), AS ns, AS (om_Name m), AS t]]) w1
           | (_, w1) \<Rightarrow>
               let uid = engineUID ns (bundleNameOf m)
               in reap_found api ns r now ms (if uid \<in> set cleared then cleared else cleared @ [uid], errs) w1)"

fun reap_resources ::
  "'w kube_api \<Rightarrow> gotime \<Rightarrow> (string \<times> string \<times> bool) list \<Rightarrow> string list \<times> string list \<Rightarrow> 'w
     \<Rightarrow> (string list \<times> string list) \<times> 'w" where
  "reap_resources api now [] acc w = (acc, w)"
| "reap_resources api now ((ns, r) # rs) (cleared, errs) w =
     (case kb_list api (fst r) ns [(ManagedLabel, ''true'')] w of
        (Inl (KNotFound _), w1) \<Rightarrow> reap_resources api now rs (cleared, errs) w1
      | (Inl (KError t), w1) \<Rightarrow>
          reap_resources api now rs (cleared, errs @ [sprintf ''kube-state reap: list % in %: %'' [AS (fst r), AS ns, AS t]]) w1
      | (Inr found, w1) \<Rightarrow>
          (case reap_found api ns r now found (cleared, errs) w1 of (acc, w2) \<Rightarrow> reap_resources api now rs acc w2))"

definition KS_ReapExpired :: "'w kube_api \<Rightarrow> string list \<Rightarrow> gotime \<Rightarrow> 'w \<Rightarrow> (string list \<times> goerror option) \<times> 'w" where
  "KS_ReapExpired api namespaces now w =
     (case reap_resources api now (List.product namespaces managedResources) ([], []) w of
        ((cleared, errs), w') \<Rightarrow> ((cleared, join_errors errs), w'))"

definition live_object :: "string \<Rightarrow> gotime \<Rightarrow> object_meta \<Rightarrow> active_fault option" where
  "live_object ns now m =
     (let faultUID = (case map_of (om_Labels m) FaultUIDLabel of Some u \<Rightarrow> u | None \<Rightarrow> '''')
      in case parseExpiry (om_Annotations m) of
           None \<Rightarrow> None
         | Some expiry \<Rightarrow>
             if om_Deleting m \<or> faultUID = '''' \<or> \<not> now < expiry then None
             else Some \<lparr>af_FaultUID = faultUID, af_EngineUID = engineUID ns (bundleNameOf m),
                    af_Manifest = empty_manifest\<lparr>m_UID := faultUID, m_Engine := EngineKubeState,
                      m_Targets := ObjectTargets (om_Labels m) (om_Annotations m) ns\<rparr>,
                    af_AppliedAt = om_Created m, af_Deadline = expiry, af_Holder = '''', af_LastBeat = 0\<rparr>)"

definition add_live :: "active_fault option \<Rightarrow> active_fault list \<Rightarrow> active_fault list" where
  "add_live f out =
     (case f of None \<Rightarrow> out | Some af \<Rightarrow> if af_EngineUID af \<in> set (map af_EngineUID out) then out else out @ [af])"

fun live_resources ::
  "'w kube_api \<Rightarrow> gotime \<Rightarrow> (string \<times> string \<times> bool) list \<Rightarrow> active_fault list \<times> string list \<Rightarrow> 'w
     \<Rightarrow> (active_fault list \<times> string list) \<times> 'w" where
  "live_resources api now [] acc w = (acc, w)"
| "live_resources api now ((ns, r) # rs) (out, errs) w =
     (case kb_list api (fst r) ns [(ManagedLabel, ''true'')] w of
        (Inl (KNotFound _), w1) \<Rightarrow> live_resources api now rs (out, errs) w1
      | (Inl (KError t), w1) \<Rightarrow>
          live_resources api now rs (out, errs @ [sprintf ''kube-state list live: % in %: %'' [AS (fst r), AS ns, AS t]]) w1
      | (Inr found, w1) \<Rightarrow> live_resources api now rs (fold (\<lambda>m. add_live (live_object ns now m)) found out, errs) w1)"

definition KS_ListLive :: "'w kube_api \<Rightarrow> string list \<Rightarrow> gotime \<Rightarrow> 'w \<Rightarrow> (active_fault list \<times> goerror option) \<times> 'w" where
  "KS_ListLive api namespaces now w =
     (case live_resources api now (List.product namespaces managedResources) ([], []) w of
        ((out, errs), w') \<Rightarrow> ((out, join_errors errs), w'))"

end
