(* ===== verification/Kube_Cluster.thy ===== *)
theory Kube_Cluster
  imports Kube_Driver
begin

text \<open>
  The kube-state driver on a cluster.  \<open>kube_laws\<close> states what the Kubernetes API
  documents of the calls the driver makes, over a view of the state: the objects that are
  held and not being deleted.  Calls may fail; a failed create or delete may have taken
  effect.  That nobody else changes the objects of these resources while the driver
  waits is one of the laws.
\<close>

section \<open>What the API promises\<close>

type_synonym cluster = "string \<times> string \<times> string \<Rightarrow> kube_object option"

abbreviation labels_of :: "kube_object \<Rightarrow> string gomap" where
  "labels_of obj \<equiv> om_Labels (object_meta_of obj)"

definition object_key :: "string \<Rightarrow> kube_object \<Rightarrow> string \<times> string \<times> string" where
  "object_key ns obj = (plural_of obj, ns, om_Name (object_meta_of obj))"

text \<open>A state after a creation that took effect.\<close>

definition created :: "string \<Rightarrow> kube_object \<Rightarrow> cluster \<Rightarrow> cluster \<Rightarrow> bool" where
  "created ns obj c c' \<longleftrightarrow>
     c (object_key ns obj) = None \<and>
     (\<exists>t. c' = c(object_key ns obj \<mapsto> map_meta (\<lambda>m. m\<lparr>om_Created := t\<rparr>) obj))"

text \<open>The objects of a resource in a namespace that a selector selects.\<close>

definition found_in :: "cluster \<Rightarrow> string \<Rightarrow> string \<Rightarrow> string gomap \<Rightarrow> kube_object set" where
  "found_in c r ns sel = {obj. c (r, ns, om_Name (object_meta_of obj)) = Some obj \<and> selects sel (labels_of obj)}"

definition create_laws :: "'w kube_api \<Rightarrow> ('w \<Rightarrow> cluster) \<Rightarrow> bool" where
  "create_laws api view \<longleftrightarrow>
     (\<forall>w ns obj. case kb_create api ns obj w of
        (None, w') \<Rightarrow> created ns obj (view w) (view w')
      | (Some _, w') \<Rightarrow> view w' = view w \<or> created ns obj (view w) (view w'))"

definition delete_laws :: "'w kube_api \<Rightarrow> ('w \<Rightarrow> cluster) \<Rightarrow> bool" where
  "delete_laws api view \<longleftrightarrow>
     (\<forall>w r fg ns name. case kb_delete api r fg ns name w of
        (None, w') \<Rightarrow> view w' = (view w)((r, ns, name) := None)
      | (Some (KNotFound _), w') \<Rightarrow> view w' = view w \<and> view w (r, ns, name) = None
      | (Some (KError _), w') \<Rightarrow> view w' = view w \<or> view w' = (view w)((r, ns, name) := None))"

text \<open>A listing has every selected object; what else it has is being deleted.\<close>

definition list_laws :: "'w kube_api \<Rightarrow> ('w \<Rightarrow> cluster) \<Rightarrow> bool" where
  "list_laws api view \<longleftrightarrow>
     (\<forall>w r ns sel. view (snd (kb_list api r ns sel w)) = view w \<and>
        (case fst (kb_list api r ns sel w) of
           Inr items \<Rightarrow>
             object_meta_of ` found_in (view w) r ns sel \<subseteq> set items \<and>
             (\<forall>m\<in>set items. m \<in> object_meta_of ` found_in (view w) r ns sel \<or> om_Deleting m \<and> view w (r, ns, om_Name m) = None)
         | Inl (KNotFound _) \<Rightarrow> found_in (view w) r ns sel = {}
         | Inl (KError _) \<Rightarrow> True))"

text \<open>A patch changes one object and not its metadata; reading and waiting change nothing.\<close>

definition quiet_laws :: "'w kube_api \<Rightarrow> ('w \<Rightarrow> cluster) \<Rightarrow> bool" where
  "quiet_laws api view \<longleftrightarrow>
     (\<forall>w ns name cs. let c = view w; c' = view (snd (kb_patch api ns name cs w)) in
        (\<forall>k. k \<noteq> (''deployments'', ns, name) \<longrightarrow> c' k = c k) \<and>
        map_option object_meta_of (c' (''deployments'', ns, name)) = map_option object_meta_of (c (''deployments'', ns, name))) \<and>
     (\<forall>w ns name. view (snd (kb_getDeployment api ns name w)) = view w) \<and>
     (\<forall>w. view (snd (kb_time api w)) = view w) \<and>
     (\<forall>w t. view (snd (kb_wait api t w)) = view w)"

definition kube_laws :: "'w kube_api \<Rightarrow> ('w \<Rightarrow> cluster) \<Rightarrow> bool" where
  "kube_laws api view \<longleftrightarrow>
     create_laws api view \<and> delete_laws api view \<and> list_laws api view \<and> quiet_laws api view \<and>
     (\<forall>w r ns name obj. view w (r, ns, name) = Some obj \<longrightarrow> r = plural_of obj \<and> name = om_Name (object_meta_of obj))"

lemma kube_create:
  assumes "kube_laws api view" "kb_create api ns obj w = (e, w')"
  shows "view w' = view w \<and> e \<noteq> None \<or> created ns obj (view w) (view w')"
proof -
  have "case kb_create api ns obj w of
        (None, w') \<Rightarrow> created ns obj (view w) (view w')
      | (Some _, w') \<Rightarrow> view w' = view w \<or> created ns obj (view w) (view w')"
    by (rule assms(1) [unfolded kube_laws_def, THEN conjunct1, unfolded create_laws_def, rule_format])
  with assms(2) show ?thesis by (cases e) auto
qed

lemma kube_delete:
  assumes "kube_laws api view" "kb_delete api r fg ns name w = (e, w')"
  shows "removes {(r, ns, name)} (view w) (view w')" "\<forall>t. e \<noteq> Some (KError t) \<Longrightarrow> view w' (r, ns, name) = None"
proof -
  have "case kb_delete api r fg ns name w of
        (None, w') \<Rightarrow> view w' = (view w)((r, ns, name) := None)
      | (Some (KNotFound _), w') \<Rightarrow> view w' = view w \<and> view w (r, ns, name) = None
      | (Some (KError _), w') \<Rightarrow> view w' = view w \<or> view w' = (view w)((r, ns, name) := None)"
    by (rule assms(1) [unfolded kube_laws_def, THEN conjunct2, THEN conjunct1, unfolded delete_laws_def, rule_format])
  with assms(2) show "removes {(r, ns, name)} (view w) (view w')" "\<forall>t. e \<noteq> Some (KError t) \<Longrightarrow> view w' (r, ns, name) = None"
    by (auto simp: removes_refl removes_upd split: option.splits k8s_error.splits)
qed

lemma kube_list:
  assumes "kube_laws api view" "kb_list api r ns sel w = (res, w')"
  shows "view w' = view w" "res = Inl (KNotFound e) \<Longrightarrow> found_in (view w) r ns sel = {}"
    "res = Inr items \<Longrightarrow> object_meta_of ` found_in (view w) r ns sel \<subseteq> set items"
    "res = Inr items \<Longrightarrow> m \<in> set items \<Longrightarrow>
       m \<in> object_meta_of ` found_in (view w) r ns sel \<or> om_Deleting m \<and> view w (r, ns, om_Name m) = None"
proof -
  have "view (snd (kb_list api r ns sel w)) = view w \<and>
        (case fst (kb_list api r ns sel w) of
           Inr items \<Rightarrow>
             object_meta_of ` found_in (view w) r ns sel \<subseteq> set items \<and>
             (\<forall>m\<in>set items. m \<in> object_meta_of ` found_in (view w) r ns sel \<or> om_Deleting m \<and> view w (r, ns, om_Name m) = None)
         | Inl (KNotFound _) \<Rightarrow> found_in (view w) r ns sel = {}
         | Inl (KError _) \<Rightarrow> True)"
    by (rule assms(1) [unfolded kube_laws_def, THEN conjunct2, THEN conjunct2, THEN conjunct1, unfolded list_laws_def, THEN spec, THEN spec, THEN spec, THEN spec])
  with assms(2) show "view w' = view w" "res = Inl (KNotFound e) \<Longrightarrow> found_in (view w) r ns sel = {}"
    "res = Inr items \<Longrightarrow> object_meta_of ` found_in (view w) r ns sel \<subseteq> set items"
    "res = Inr items \<Longrightarrow> m \<in> set items \<Longrightarrow>
       m \<in> object_meta_of ` found_in (view w) r ns sel \<or> om_Deleting m \<and> view w (r, ns, om_Name m) = None"
    by auto
qed

lemma kube_key:
  assumes "kube_laws api view" "view w (r, ns, name) = Some obj"
  shows "r = plural_of obj" "name = om_Name (object_meta_of obj)"
proof -
  have "\<forall>w r ns name obj. view w (r, ns, name) = Some obj \<longrightarrow> r = plural_of obj \<and> name = om_Name (object_meta_of obj)"
    using assms(1) unfolding kube_laws_def by (elim conjE)
  with assms(2) show "r = plural_of obj" "name = om_Name (object_meta_of obj)" by blast+
qed

section \<open>Clearing a bundle\<close>

definition selected :: "cluster \<Rightarrow> string \<Rightarrow> string gomap \<Rightarrow> string set \<Rightarrow> (string \<times> string \<times> string) set" where
  "selected c ns sel R = {(r, ns, om_Name (object_meta_of obj)) |r obj. r \<in> R \<and> obj \<in> found_in c r ns sel}"

lemma in_selected:
  "(r, ns', n) \<in> selected c ns sel R \<longleftrightarrow>
     ns' = ns \<and> r \<in> R \<and> (\<exists>obj. c (r, ns, n) = Some obj \<and> om_Name (object_meta_of obj) = n \<and> selects sel (labels_of obj))"
  by (auto simp: selected_def found_in_def)

lemma removes_selected: "removes E c c' \<Longrightarrow> selected c' ns sel R \<subseteq> selected c ns sel R"
  unfolding removes_def by (auto simp: in_selected, metis option.distinct(1))

lemma selected_kept: "removes E c c' \<Longrightarrow> k \<in> selected c ns sel R \<Longrightarrow> k \<in> selected c' ns sel R \<or> c' k = None"
proof -
  assume "removes E c c'" "k \<in> selected c ns sel R"
  moreover obtain r ns' n where "k = (r, ns', n)" by (metis prod.exhaust)
  ultimately show ?thesis using removes_cases [of E c c' k] by (auto simp: in_selected)
qed

lemma selected_Un: "selected c ns sel (R \<union> R') = selected c ns sel R \<union> selected c ns sel R'"
  unfolding selected_def by blast

lemma removes_narrow: "removes E c c' \<Longrightarrow> (\<And>k. k \<in> E \<Longrightarrow> k \<in> B \<or> c k = None) \<Longrightarrow> removes B c c'"
  unfolding removes_def by metis

lemma delete_found_removes:
  assumes laws: "kube_laws api view"
  shows "delete_found api ns r ms w = (errs, w') \<Longrightarrow>
     removes {(fst r, ns, om_Name m) |m. m \<in> set ms} (view w) (view w') \<and>
     (errs = [] \<longrightarrow> (\<forall>m\<in>set ms. view w' (fst r, ns, om_Name m) = None))"
proof (induction ms arbitrary: w w' errs)
  case Nil
  then show ?case by auto
next
  case (Cons m ms)
  let ?k = "(fst r, ns, om_Name m)"
  obtain e w1 where del: "kb_delete api (fst r) (snd r) ns (om_Name m) w = (e, w1)" by fastforce
  obtain es w2 where rest: "delete_found api ns r ms w1 = (es, w2)" by fastforce
  from Cons.prems del rest have w2: "w2 = w'" by simp
  note ih = Cons.IH [OF rest, unfolded w2]
  have "removes ({?k} \<union> {(fst r, ns, om_Name m) |m. m \<in> set ms}) (view w) (view w')"
    by (rule removes_trans [OF kube_delete(1) [OF laws del] conjunct1 [OF ih]])
  then have "removes {(fst r, ns, om_Name m') |m'. m' \<in> set (m # ms)} (view w) (view w')"
    by (rule removes_mono) auto
  moreover have "errs = [] \<longrightarrow> (\<forall>m\<in>set (m # ms). view w' (fst r, ns, om_Name m) = None)"
  proof
    assume "errs = []"
    with Cons.prems del rest have "\<forall>t. e \<noteq> Some (KError t)" "es = []" by (auto split: option.splits k8s_error.splits)
    with kube_delete(2) [OF laws del] ih removes_None [OF conjunct1 [OF ih], of ?k]
    show "\<forall>m\<in>set (m # ms). view w' (fst r, ns, om_Name m) = None" by simp
  qed
  ultimately show ?case ..
qed

lemma clear_resources_removes:
  assumes laws: "kube_laws api view"
  shows "clear_resources api ns sel rs w = (errs, w') \<Longrightarrow>
     removes (selected (view w) ns sel (fst ` set rs)) (view w) (view w') \<and>
     (errs = [] \<longrightarrow> selected (view w') ns sel (fst ` set rs) = {})"
proof (induction rs arbitrary: w w' errs)
  case Nil
  then show ?case by (auto simp: selected_def)
next
  case (Cons r rs)
  let ?S = "\<lambda>w. selected (view w) ns sel"
  obtain res w1 where ls: "kb_list api (fst r) ns sel w = (res, w1)" by fastforce
  note v1 = kube_list(1) [OF laws ls]
  have all: "?S v (fst ` set (r # rs)) = ?S v {fst r} \<union> ?S v (fst ` set rs)" for v
    by (simp add: selected_Un [symmetric])
  show ?case
  proof (cases res)
    case (Inl err)
    obtain es w2 where rest: "clear_resources api ns sel rs w1 = (es, w2)" by fastforce
    from Cons.IH [OF rest] have ih: "removes (?S w (fst ` set rs)) (view w) (view w2)" "es = [] \<Longrightarrow> ?S w2 (fst ` set rs) = {}"
      by (simp_all add: v1)
    show ?thesis
    proof (cases err)
      case (KNotFound t)
      with Cons.prems ls Inl rest have "errs = es" "w' = w2" by auto
      moreover have "?S w {fst r} = {}" using kube_list(2) [OF laws ls] Inl KNotFound by (auto simp: selected_def)
      moreover have "?S w2 {fst r} \<subseteq> ?S w {fst r}" by (rule removes_selected [OF ih(1)])
      ultimately show ?thesis unfolding all using ih by auto
    next
      case (KError t)
      with Cons.prems ls Inl rest have "errs \<noteq> []" "w' = w2" by auto
      with ih show ?thesis unfolding all by (simp add: removes_mono [OF ih(1)])
    qed
  next
    case (Inr found)
    let ?K = "{(fst r, ns, om_Name m) |m. m \<in> set found}"
    obtain e1 w2 where d: "delete_found api ns r found w1 = (e1, w2)" by fastforce
    obtain e2 w3 where rest: "clear_resources api ns sel rs w2 = (e2, w3)" by fastforce
    from Cons.prems ls Inr d rest have e: "errs = e1 @ e2" "w' = w3" by auto
    note dd = delete_found_removes [OF laws d, unfolded v1]
    note ih = Cons.IH [OF rest, folded e(2)]
    have found: "k \<in> ?S w {fst r} \<or> view w k = None" if "k \<in> ?K" for k
    proof -
      from that obtain m where m: "m \<in> set found" "k = (fst r, ns, om_Name m)" by blast
      from kube_list(4) [OF laws ls Inr m(1)] show ?thesis
      proof
        assume "m \<in> object_meta_of ` found_in (view w) (fst r) ns sel"
        then obtain obj where "obj \<in> found_in (view w) (fst r) ns sel" "m = object_meta_of obj" by (rule imageE)
        with m(2) show ?thesis unfolding selected_def by (intro disjI1 CollectI exI conjI) simp_all
      qed (simp add: m(2))
    qed
    have here: "removes (?S w {fst r}) (view w) (view w2)" by (rule removes_narrow [OF conjunct1 [OF dd] found])
    have "?S w2 (fst ` set rs) \<subseteq> ?S w (fst ` set rs)" by (rule removes_selected [OF here])
    then have "removes (?S w {fst r} \<union> ?S w (fst ` set rs)) (view w) (view w')"
      by (intro removes_mono [OF removes_trans [OF here conjunct1 [OF ih]]] Un_mono order_refl)
    moreover have "errs = [] \<longrightarrow> ?S w' {fst r} \<union> ?S w' (fst ` set rs) = {}"
    proof
      assume "errs = []"
      with e have n: "e1 = []" "e2 = []" by simp_all
      have sub: "?S w {fst r} \<subseteq> ?K" using kube_list(3) [OF laws ls Inr] by (auto simp: selected_def)
      have gone: "view w2 k = None" if "k \<in> ?S w {fst r}" for k
      proof -
        from that sub obtain m where "m \<in> set found" "k = (fst r, ns, om_Name m)" by blast
        with dd n(1) show ?thesis by simp
      qed
      have "view w2 k \<noteq> None" if "k \<in> ?S w2 {fst r}" for k
        using that unfolding selected_def found_in_def by force
      with gone subsetD [OF removes_selected [OF here, of ns sel "{fst r}"]] have "?S w2 {fst r} = {}" by (metis ex_in_conv)
      then have "?S w' {fst r} = {}" using removes_selected [OF conjunct1 [OF ih], of ns sel "{fst r}"] by simp
      with ih n(2) show "?S w' {fst r} \<union> ?S w' (fst ` set rs) = {}" by simp
    qed
    ultimately show ?thesis unfolding all by (rule conjI)
  qed
qed

text \<open>The objects that carry the mark of a bundle.\<close>

definition bundle_of :: "cluster \<Rightarrow> string \<Rightarrow> string \<Rightarrow> (string \<times> string \<times> string) set" where
  "bundle_of c ns name = {k. fst (snd k) = ns \<and> (\<exists>obj. c k = Some obj \<and> selects (bundle_selector name) (labels_of obj))}"

lemma plural_managed: "plural_of obj \<in> fst ` set managedResources"
  by (cases obj) (simp_all add: plural_of_def managedResources_def)

lemma bundle_selected:
  assumes "kube_laws api view"
  shows "selected (view w) ns (bundle_selector name) (fst ` set managedResources) = bundle_of (view w) ns name"
proof (intro set_eqI)
  fix k :: "string \<times> string \<times> string"
  obtain r ns' n where k: "k = (r, ns', n)" by (metis prod.exhaust)
  have "r \<in> fst ` set managedResources \<and> om_Name (object_meta_of obj) = n" if "view w (r, ns', n) = Some obj" for obj
    using kube_key [OF assms that] plural_managed [of obj] by simp
  then show "k \<in> selected (view w) ns (bundle_selector name) (fst ` set managedResources) \<longleftrightarrow> k \<in> bundle_of (view w) ns name"
    unfolding k in_selected bundle_of_def by auto
qed

lemma clearBundle_clears:
  assumes "kube_laws api view" "clearBundle api ns name w = (e, w')"
  shows "removes (bundle_of (view w) ns name) (view w) (view w')" "e = None \<Longrightarrow> bundle_of (view w') ns name = {}"
proof -
  obtain errs where c: "clear_resources api ns (bundle_selector name) managedResources w = (errs, w')" "e = None \<longrightarrow> errs = []"
    using assms(2) by (auto simp: clearBundle_def split: prod.splits if_splits)
  from clear_resources_removes [OF assms(1) c(1)] c(2)
  show "removes (bundle_of (view w) ns name) (view w) (view w')" "e = None \<Longrightarrow> bundle_of (view w') ns name = {}"
    by (simp_all add: bundle_selected [OF assms(1)])
qed

section \<open>Growing a cluster by a bundle\<close>

text \<open>From \<open>c\<close> to \<open>c'\<close>, objects of the bundle are added where there were none.\<close>

definition grown :: "string \<Rightarrow> string \<Rightarrow> cluster \<Rightarrow> cluster \<Rightarrow> bool" where
  "grown ns name c c' \<longleftrightarrow> (\<forall>k. c' k = c k \<or> c k = None \<and> k \<in> bundle_of c' ns name)"

lemma bundle_of_cong: "c' k = c k \<Longrightarrow> k \<in> bundle_of c' ns name \<longleftrightarrow> k \<in> bundle_of c ns name"
  by (simp add: bundle_of_def)

lemma grown_refl [intro]: "grown ns name c c"
  by (simp add: grown_def)

lemma grown_trans: "grown ns name c c1 \<Longrightarrow> grown ns name c1 c2 \<Longrightarrow> grown ns name c c2"
  unfolding grown_def by (metis bundle_of_cong)

lemma cleared_again:
  assumes "grown ns name c c'" "bundle_of c ns name = {}" "removes (bundle_of c' ns name) c' c''" "bundle_of c'' ns name = {}"
  shows "c'' = c"
proof
  fix k
  show "c'' k = c k"
  proof (cases "k \<in> bundle_of c' ns name")
    case True
    then have "k \<notin> bundle_of c ns name" "k \<notin> bundle_of c'' ns name" using assms(2,4) by simp_all
    with True bundle_of_cong [of c' k c] bundle_of_cong [of c'' k c'] have "c' k \<noteq> c k" "c'' k \<noteq> c' k" by auto
    with assms(1,3) show ?thesis unfolding grown_def removes_def by metis
  next
    case False
    with assms(1,3) show ?thesis unfolding grown_def removes_def by metis
  qed
qed

lemma map_meta_simps [simp]:
  "object_meta_of (map_meta f obj) = f (object_meta_of obj)" "plural_of (map_meta f obj) = plural_of obj"
  by (cases obj; simp add: object_meta_of_def map_meta_def plural_of_def)+

lemma created_grown:
  assumes "created ns obj c c'" "selects (bundle_selector name) (labels_of obj)"
  shows "grown ns name c c'"
proof -
  obtain t where t: "c (object_key ns obj) = None" "c' = c(object_key ns obj \<mapsto> map_meta (\<lambda>m. m\<lparr>om_Created := t\<rparr>) obj)"
    using assms(1) by (auto simp: created_def)
  have "object_key ns obj \<in> bundle_of c' ns name"
    using assms(2) by (auto simp: t(2) bundle_of_def object_key_def)
  then have "k = object_key ns obj \<Longrightarrow> c k = None \<and> k \<in> bundle_of c' ns name" for k using t(1) by simp
  moreover have "k \<noteq> object_key ns obj \<Longrightarrow> c' k = c k" for k by (simp add: t(2))
  ultimately show ?thesis unfolding grown_def by blast
qed

text \<open>An API whose listings and deletions do not fail: then a rollback succeeds.\<close>

definition reliable :: "'w kube_api \<Rightarrow> bool" where
  "reliable api \<longleftrightarrow>
     (\<forall>r ns sel w t. fst (kb_list api r ns sel w) \<noteq> Inl (KError t)) \<and>
     (\<forall>r fg ns name w t. fst (kb_delete api r fg ns name w) \<noteq> Some (KError t))"

lemma reliable_delete: "reliable api \<Longrightarrow> fst (delete_found api ns r ms w) = []"
proof (induction ms arbitrary: w)
  case (Cons m ms)
  obtain e w1 where del: "kb_delete api (fst r) (snd r) ns (om_Name m) w = (e, w1)" by fastforce
  obtain es w2 where rest: "delete_found api ns r ms w1 = (es, w2)" by fastforce
  have "fst (kb_delete api (fst r) (snd r) ns (om_Name m) w) \<noteq> Some (KError t)" for t
    using Cons.prems by (simp add: reliable_def)
  then have "e = None \<or> (\<exists>t. e = Some (KNotFound t))" unfolding del by (metis fst_conv k8s_error.exhaust option.exhaust)
  moreover have "es = []" using Cons.IH [OF Cons.prems, of w1] rest by simp
  ultimately show ?case by (auto simp: del rest)
qed simp

lemma reliable_resources: "reliable api \<Longrightarrow> fst (clear_resources api ns sel rs w) = []"
proof (induction rs arbitrary: w)
  case (Cons r rs)
  obtain res w1 where ls: "kb_list api (fst r) ns sel w = (res, w1)" by fastforce
  have no: "fst (kb_list api (fst r) ns sel w) \<noteq> Inl (KError t)" for t
    using Cons.prems by (simp add: reliable_def)
  note ih = Cons.IH [OF Cons.prems]
  show ?case
  proof (cases res)
    case (Inl err)
    with no ls obtain t where "err = KNotFound t" by (cases err) auto
    with Inl ih [of w1] show ?thesis by (simp add: ls)
  next
    case (Inr found)
    obtain es w2 where d: "delete_found api ns r found w1 = (es, w2)" by fastforce
    with reliable_delete [OF Cons.prems, of ns r found w1] have "es = []" by simp
    with Inr d ih [of w2] show ?thesis by (simp add: ls split: prod.split)
  qed
qed simp

lemma reliable_clear: "reliable api \<Longrightarrow> fst (clearBundle api ns name w) = None"
  using reliable_resources [of api ns "bundle_selector name" managedResources w]
  by (cases "clear_resources api ns (bundle_selector name) managedResources w") (simp add: clearBundle_def)

text \<open>What a failed step leaves: the cluster of before and some of the bundle, cleared
  as far as the API let it.\<close>

definition rolled_back :: "'w kube_api \<Rightarrow> string \<Rightarrow> string \<Rightarrow> cluster \<Rightarrow> cluster \<Rightarrow> bool" where
  "rolled_back api ns name c c' \<longleftrightarrow>
     (\<exists>c1. grown ns name c c1 \<and> removes (bundle_of c1 ns name) c1 c' \<and> (reliable api \<longrightarrow> bundle_of c' ns name = {}))"

lemma rolled_backI:
  assumes "kube_laws api view" "grown ns name c (view w)" "clearBundle api ns name w = (e, w')"
  shows "rolled_back api ns name c (view w')"
proof -
  have "reliable api \<Longrightarrow> e = None" using reliable_clear [of api ns name w] assms(3) by simp
  with clearBundle_clears [OF assms(1,3)] assms(2) show ?thesis unfolding rolled_back_def by blast
qed

lemma rolled_back_restores:
  "rolled_back api ns name c c' \<Longrightarrow> reliable api \<Longrightarrow> bundle_of c ns name = {} \<Longrightarrow> c' = c"
  unfolding rolled_back_def using cleared_again by metis

lemma grown_rolled_back: "grown ns name c c1 \<Longrightarrow> rolled_back api ns name c1 c' \<Longrightarrow> rolled_back api ns name c c'"
  unfolding rolled_back_def using grown_trans by blast

text \<open>The cluster after all objects were created.\<close>

definition holds_all :: "string \<Rightarrow> kube_object list \<Rightarrow> cluster \<Rightarrow> cluster \<Rightarrow> bool" where
  "holds_all ns objs c c' \<longleftrightarrow>
     (\<forall>k. k \<notin> object_key ns ` set objs \<longrightarrow> c' k = c k) \<and>
     (\<forall>obj \<in> set objs. c (object_key ns obj) = None \<and>
        (\<exists>t. c' (object_key ns obj) = Some (map_meta (\<lambda>m. m\<lparr>om_Created := t\<rparr>) obj)))"

lemma holds_all_Cons:
  assumes "created ns obj c c1" "holds_all ns objs c1 c'"
  shows "holds_all ns (obj # objs) c c'"
proof -
  let ?k = "object_key ns obj"
  obtain t where t: "c ?k = None" "c1 = c(?k \<mapsto> map_meta (\<lambda>m. m\<lparr>om_Created := t\<rparr>) obj)"
    using assms(1) by (auto simp: created_def)
  have off: "c' k = c1 k" if "k \<notin> object_key ns ` set objs" for k using that assms(2) unfolding holds_all_def by blast
  have on: "c1 (object_key ns o') = None" "\<exists>t. c' (object_key ns o') = Some (map_meta (\<lambda>m. m\<lparr>om_Created := t\<rparr>) o')"
    if "o' \<in> set objs" for o' using that assms(2) unfolding holds_all_def by blast+
  have fresh: "?k \<notin> object_key ns ` set objs"
  proof
    assume "?k \<in> object_key ns ` set objs"
    then obtain o' where "o' \<in> set objs" "?k = object_key ns o'" by blast
    with on(1) [of o'] show False by (simp add: t(2))
  qed
  then have c'k: "c' ?k = Some (map_meta (\<lambda>m. m\<lparr>om_Created := t\<rparr>) obj)" using off by (simp add: t(2))
  have old: "c (object_key ns o') = None" if "o' \<in> set objs" for o'
    using on(1) [OF that] by (cases "object_key ns o' = ?k") (simp_all add: t)
  show ?thesis
    unfolding holds_all_def list.set
  proof (intro conjI allI impI ballI)
    fix k assume "k \<notin> object_key ns ` insert obj (set objs)"
    then show "c' k = c k" using off [of k] by (simp add: t(2))
  next
    fix o' assume "o' \<in> insert obj (set objs)"
    then show "c (object_key ns o') = None" "\<exists>t. c' (object_key ns o') = Some (map_meta (\<lambda>m. m\<lparr>om_Created := t\<rparr>) o')"
      using on(2) [of o'] old c'k t(1) by auto
  qed
qed

lemma create_bundle_spec:
  assumes laws: "kube_laws api view"
  shows "create_bundle api ns name i objs w = (e, w') \<Longrightarrow> \<forall>obj\<in>set objs. selects (bundle_selector name) (labels_of obj) \<Longrightarrow>
     (e = None \<longrightarrow> grown ns name (view w) (view w') \<and> holds_all ns objs (view w) (view w')) \<and>
     (e \<noteq> None \<longrightarrow> rolled_back api ns name (view w) (view w'))"
proof (induction objs arbitrary: i w)
  case Nil
  then show ?case by (auto simp: holds_all_def)
next
  case (Cons obj objs)
  obtain c w1 where cr: "kb_create api ns obj w = (c, w1)" by fastforce
  note made = kube_create [OF laws cr]
  have sel: "selects (bundle_selector name) (labels_of obj)" using Cons.prems(2) by simp
  show ?case
  proof (cases c)
    case None
    with made have made: "created ns obj (view w) (view w1)" by simp
    then have g: "grown ns name (view w) (view w1)" by (rule created_grown [OF _ sel])
    from Cons.prems(1) cr None have "create_bundle api ns name (Suc i) objs w1 = (e, w')" by (simp add: createObject_def)
    note ih = Cons.IH [OF this] Cons.prems(2)
    from ih g holds_all_Cons [OF made] show ?thesis
      by (cases e) (simp_all add: grown_trans [of ns name "view w" "view w1"] grown_rolled_back [of ns name "view w" "view w1"])
  next
    case (Some msg)
    have g: "grown ns name (view w) (view w1)" using made created_grown [OF _ sel] by auto
    obtain ce w2 where cl: "clearBundle api ns name w1 = (ce, w2)" by fastforce
    from Cons.prems(1) cr Some cl have "e \<noteq> None" "w' = w2" by (auto simp: createObject_def split: option.splits)
    with rolled_backI [OF laws g cl] show ?thesis by blast
  qed
qed

section \<open>The second step\<close>

text \<open>A step that leaves the metadata of every object alone, and all but one object.\<close>

definition touches :: "string \<times> string \<times> string \<Rightarrow> cluster \<Rightarrow> cluster \<Rightarrow> bool" where
  "touches k0 c c' \<longleftrightarrow> (\<forall>k. k \<noteq> k0 \<longrightarrow> c' k = c k) \<and> map_option object_meta_of (c' k0) = map_option object_meta_of (c k0)"

lemma touches_refl [intro]: "touches k0 c c"
  by (simp add: touches_def)

lemma touchesD: "touches k0 c c' \<Longrightarrow> k \<noteq> k0 \<Longrightarrow> c' k = c k"
  "touches k0 c c' \<Longrightarrow> map_option object_meta_of (c' k0) = map_option object_meta_of (c k0)"
  unfolding touches_def by blast+

lemma touches_bundle: "touches k0 c c' \<Longrightarrow> bundle_of c' ns name = bundle_of c ns name"
proof (intro set_eqI)
  fix k assume "touches k0 c c'"
  then have "map_option object_meta_of (c' k) = map_option object_meta_of (c k)" by (cases "k = k0") (simp_all add: touchesD)
  then show "k \<in> bundle_of c' ns name \<longleftrightarrow> k \<in> bundle_of c ns name"
    unfolding bundle_of_def by (cases "c k"; cases "c' k") auto
qed

lemma touches_grown:
  assumes "grown ns name c c1" "touches k0 c1 c2" "c k0 = None" "c1 k0 \<noteq> None"
  shows "grown ns name c c2"
proof -
  have k0: "k0 \<in> bundle_of c1 ns name" using assms(1,3,4) unfolding grown_def by metis
  then have "k0 \<in> bundle_of c2 ns name" using touches_bundle [OF assms(2)] by simp
  moreover have "k \<noteq> k0 \<Longrightarrow> c2 k = c1 k" for k by (rule touchesD(1) [OF assms(2)])
  ultimately show ?thesis
    using assms(1,3) touches_bundle [OF assms(2), of ns name] unfolding grown_def by (metis (full_types))
qed

lemma kube_quiet:
  assumes "kube_laws api view"
  shows "touches (''deployments'', ns, name) (view w) (view (snd (kb_patch api ns name cs w)))"
    and "view (snd (kb_getDeployment api ns name w)) = view w" "view (snd (kb_time api w)) = view w"
    and "view (snd (kb_wait api d w)) = view w"
proof -
  have q: "quiet_laws api view" using assms unfolding kube_laws_def by (elim conjE)
  show "touches (''deployments'', ns, name) (view w) (view (snd (kb_patch api ns name cs w)))"
    unfolding touches_def using q [unfolded quiet_laws_def Let_def, THEN conjunct1, THEN spec, THEN spec, THEN spec, THEN spec] by blast
  show "view (snd (kb_getDeployment api ns name w)) = view w" "view (snd (kb_time api w)) = view w" "view (snd (kb_wait api d w)) = view w"
    using q unfolding quiet_laws_def by simp_all
qed

lemma rollout_loop_quiet:
  assumes laws: "kube_laws api view"
  shows "rollout_loop api s timeout deadline w = Some (e, w') \<Longrightarrow> view w' = view w"
proof -
  assume run: "rollout_loop api s timeout deadline w = Some (e, w')"
  define P where "P = (\<lambda>(api' :: 'a kube_api) (s :: synthesis) (timeout :: duration) (deadline :: gotime) w (r :: string option \<times> 'a).
     api' = api \<longrightarrow> view (snd r) = view w)"
  have "P api s timeout deadline w (e, w')"
  proof (rule rollout_loop.raw_induct [where P = P, OF _ run], goal_cases)
    case (1 loop api' s timeout deadline w y)
    show ?case unfolding P_def
    proof
      assume api: "api' = api"
      obtain g w1 where g: "kb_getDeployment api (sy_namespace s) (sy_name s) w = (g, w1)" by fastforce
      obtain t w2 where t: "kb_time api w1 = (t, w2)" by fastforce
      obtain c w3 where c: "kb_wait api rolloutPollInterval w2 = (c, w3)" by fastforce
      have v: "view w1 = view w" "view w2 = view w1" "view w3 = view w2"
        using kube_quiet(2) [OF laws, of "sy_namespace s" "sy_name s" w] kube_quiet(3) [OF laws, of w1]
          kube_quiet(4) [OF laws, of rolloutPollInterval w2] by (simp_all add: g t c)
      have "snd y \<in> {w1, w2, w3} \<or> loop api s timeout deadline w3 = Some y"
        using 1(2) unfolding api g
        by (cases g; cases c) (auto simp: t c split: if_splits)
      then show "view (snd y) = view w"
      proof
        assume "loop api s timeout deadline w3 = Some y"
        from 1(1) [OF this] v show ?thesis by (simp add: P_def)
      qed (use v in auto)
    qed
  qed
  then show ?thesis by (simp add: P_def)
qed

lemma wedgeRollout_end:
  assumes "kube_laws api view" "wedgeRollout api s w = Some (e, w')"
  obtains w2 where "view w2 = view w" "w' = w2 \<or> (\<exists>cs. w' = snd (kb_patch api (sy_namespace s) (sy_name s) cs w2))"
proof -
  obtain t w1 where t: "kb_time api w = (t, w1)" by fastforce
  define timeout where "timeout = (if sy_settle s \<le> 0 then rolloutSettleTimeout else sy_settle s)"
  obtain r w2 where l: "rollout_loop api s timeout (t + timeout) w1 = Some (r, w2)"
    using assms(2) by (cases "rollout_loop api s timeout (t + timeout) w1")
      (auto simp: wedgeRollout_def waitRolloutComplete_def t timeout_def Let_def)
  then have wait: "waitRolloutComplete api s w = Some (r, w2)" by (simp add: waitRolloutComplete_def t timeout_def Let_def)
  have v: "view w2 = view w"
    using rollout_loop_quiet [OF assms(1) l] kube_quiet(3) [OF assms(1), of w] by (simp add: t)
  have "w' = w2 \<or> (\<exists>cs. w' = snd (kb_patch api (sy_namespace s) (sy_name s) cs w2))"
  proof (cases r)
    case None
    show ?thesis
    proof (cases "brokenRolloutContainer (sy_spec s)")
      case (Inr broken)
      then show ?thesis
        using assms(2) None by (cases "kb_patch api (sy_namespace s) (sy_name s) [broken] w2")
          (auto simp: wedgeRollout_def wait split: option.splits intro!: exI [of _ "[broken]"])
    qed (use assms(2) None in \<open>simp add: wedgeRollout_def wait\<close>)
  qed (use assms(2) in \<open>simp add: wedgeRollout_def wait\<close>)
  with v show thesis by (rule that)
qed

lemma wedgeRollout_touches:
  assumes "kube_laws api view" "wedgeRollout api s w = Some (e, w')"
  shows "touches (''deployments'', sy_namespace s, sy_name s) (view w) (view w')"
proof -
  from wedgeRollout_end [OF assms] obtain w2 where "view w2 = view w"
    "w' = w2 \<or> (\<exists>cs. w' = snd (kb_patch api (sy_namespace s) (sy_name s) cs w2))" by blast
  with kube_quiet(1) [OF assms(1), of "sy_namespace s" "sy_name s" w2] show ?thesis by auto
qed

lemma finish_bundle_spec:
  assumes laws: "kube_laws api view" and run: "finish_bundle api kind s w = Some (e, w')"
    and c: "grown (sy_namespace s) (sy_name s) c (view w)"
    and k0: "kind = KubeStateRolloutStuck \<Longrightarrow>
      c (''deployments'', sy_namespace s, sy_name s) = None \<and> view w (''deployments'', sy_namespace s, sy_name s) \<noteq> None"
  shows "e = None \<longrightarrow> grown (sy_namespace s) (sy_name s) c (view w') \<and>
      touches (''deployments'', sy_namespace s, sy_name s) (view w) (view w')"
    and "e \<noteq> None \<longrightarrow> rolled_back api (sy_namespace s) (sy_name s) c (view w')"
proof -
  let ?k0 = "(''deployments'', sy_namespace s, sy_name s)"
  have "(e = None \<longrightarrow> grown (sy_namespace s) (sy_name s) c (view w') \<and> touches ?k0 (view w) (view w')) \<and>
    (e \<noteq> None \<longrightarrow> rolled_back api (sy_namespace s) (sy_name s) c (view w'))"
  proof (cases "kind = KubeStateRolloutStuck")
    case False
    with run c show ?thesis by (auto simp: finish_bundle_def finishers_def)
  next
    case True
    obtain fe w1 where f: "wedgeRollout api s w = Some (fe, w1)"
      using run True by (cases "wedgeRollout api s w") (auto simp: finish_bundle_def finishers_def)
    note tch = wedgeRollout_touches [OF laws f]
    from k0 [OF True] have g: "grown (sy_namespace s) (sy_name s) c (view w1)"
      by (intro touches_grown [OF c tch]) simp_all
    show ?thesis
    proof (cases fe)
      case None
      with run True f have "e = None" "w' = w1" by (simp_all add: finish_bundle_def finishers_def)
      with g tch show ?thesis by simp
    next
      case (Some err)
      obtain ce w2 where cl: "clearBundle api (sy_namespace s) (sy_name s) w1 = (ce, w2)" by fastforce
      from run True f Some cl have "e \<noteq> None" "w' = w2"
        by (auto simp: finish_bundle_def finishers_def split: option.splits)
      with rolled_backI [OF laws g cl] show ?thesis by blast
    qed
  qed
  then show "e = None \<longrightarrow> grown (sy_namespace s) (sy_name s) c (view w') \<and> touches ?k0 (view w) (view w')"
    "e \<noteq> None \<longrightarrow> rolled_back api (sy_namespace s) (sy_name s) c (view w')" by blast+
qed

section \<open>Apply\<close>

lemma update_lookup: "map_of (AList.update k v m) = (map_of m)(k \<mapsto> v)"
  by (rule update_conv')

lemma stamp_meta:
  "om_Name (object_meta_of (stamp labels ann obj)) = om_Name (object_meta_of obj)"
  "plural_of (stamp labels ann obj) = plural_of obj"
  by (simp_all add: stamp_def)

lemma stamp_labels:
  "map_of (labels_of (stamp (bundleLabels name uid) ann obj)) =
     (map_of (labels_of obj))(ManagedLabel \<mapsto> ''true'', BundleLabel \<mapsto> name, FaultUIDLabel \<mapsto> uid)"
  by (simp add: stamp_def merge_into_def bundleLabels_def update_lookup)

lemma stamped_selected: "selects (bundle_selector name) (labels_of (stamp (bundleLabels name uid) ann obj))"
  by (simp add: selects_def bundle_selector_def stamp_labels const_defs)

text \<open>What \<^verbatim>\<open>Apply\<close> builds from a manifest at an instant.\<close>

definition apply_synthesis :: "'w kube_driver \<Rightarrow> fault_manifest \<Rightarrow> string \<Rightarrow> string \<Rightarrow> int \<Rightarrow> gotime \<Rightarrow> synthesis" where
  "apply_synthesis d m ns name replicas now =
     \<lparr>sy_name = name, sy_namespace = ns, sy_replicas = replicas, sy_spec = spec_map m, sy_now = now, sy_settle = rolloutSettle d\<rparr>"

lemma rolloutStuck_deployment: "rolloutStuckBundle lib s = Inr objs \<Longrightarrow> \<exists>dep. objs = [Deployment (app_meta s) dep]"
  by (auto simp: rolloutStuckBundle_def)

lemma apply_checks_builder:
  "apply_checks lib m = Inr (ns, build, name, replicas) \<Longrightarrow> map_of builders (m_ResourceKind m) = Some build"
  by (cases "map_of builders (m_ResourceKind m)") (auto simp: apply_checks_def Let_def)

lemma KS_Apply_cases:
  assumes laws: "kube_laws (kd_api d) view" and clock: "\<And>w. view (snd (kd_now d w)) = view w"
    and ap: "KS_Apply d m w = Some (r, w')" and ok: "apply_checks (kd_lib d) m = Inr (ns, build, name, replicas)"
    and now: "fst (kd_now d w) = now"
  defines "s \<equiv> apply_synthesis d m ns name replicas now"
  obtains (unbuilt) e e' where "r = Inl e" "build (kd_lib d) s = Inl e'" "view w' = view w"
  | (failed) e where "r = Inl e" "rolled_back (kd_api d) ns name (view w) (view w')"
  | (applied) objs c where "r = Inr (engineUID ns name)" "build (kd_lib d) s = Inr objs" "bundle_ok s objs"
      "holds_all ns (map (stamp (bundleLabels name (m_UID m)) (expiryAnnotation now (m_Duration m))) objs) (view w) c"
      "touches (''deployments'', ns, name) c (view w')" "grown ns name (view w) (view w')"
      "\<exists>w2. c = view w2 \<and> finish_bundle (kd_api d) (m_ResourceKind m) s w2 = Some (None, w')"
proof -
  obtain w1 where n: "kd_now d w = (now, w1)" using now by (cases "kd_now d w") auto
  have v1: "view w1 = view w" using clock [of w] n by simp
  have s: "s = \<lparr>sy_name = name, sy_namespace = ns, sy_replicas = replicas, sy_spec = spec_map m, sy_now = now,
      sy_settle = rolloutSettle d\<rparr>" by (simp add: s_def apply_synthesis_def)
  show thesis
  proof (cases "build (kd_lib d) s")
    case (Inl e)
    with ap ok n have "r = Inl (Wrapped ''kube-state apply'' e)" "w' = w1" by (simp_all add: KS_Apply_def Let_def s)
    with Inl v1 show thesis by (intro unbuilt) auto
  next
    case (Inr objs)
    let ?objs = "map (stamp (bundleLabels name (m_UID m)) (expiryAnnotation now (m_Duration m))) objs"
    have sel: "\<forall>obj\<in>set ?objs. selects (bundle_selector name) (labels_of obj)" by (auto intro: stamped_selected)
    obtain ce w2 where cb: "create_bundle (kd_api d) ns name 0 ?objs w1 = (ce, w2)" by fastforce
    note made = create_bundle_spec [OF laws cb sel, unfolded v1]
    show thesis
    proof (cases ce)
      case (Some e)
      with ap ok n Inr cb have "r = Inl (Wrapped ''kube-state apply'' e)" "w' = w2" by (simp_all add: KS_Apply_def Let_def s)
      with made Some show thesis by (intro failed) auto
    next
      case None
      obtain fe w3 where f: "finish_bundle (kd_api d) (m_ResourceKind m) s w2 = Some (fe, w3)"
        using ap ok n Inr cb None
        by (cases "finish_bundle (kd_api d) (m_ResourceKind m) s w2") (auto simp: KS_Apply_def Let_def s)
      have sy: "sy_namespace s = ns" "sy_name s = name" by (simp_all add: s)
      have k0: "view w (''deployments'', ns, name) = None \<and> view w2 (''deployments'', ns, name) \<noteq> None"
        if "m_ResourceKind m = KubeStateRolloutStuck"
      proof -
        have "build = rolloutStuckBundle" using apply_checks_builder [OF ok] that by (simp add: builders_def const_defs)
        with Inr rolloutStuck_deployment obtain dep where "objs = [Deployment (app_meta s) dep]" by blast
        moreover have "object_key ns (stamp l a (Deployment (app_meta s) dep)) = (''deployments'', ns, name)" for l a
          by (simp add: object_key_def stamp_meta) (simp add: plural_of_def object_meta_of_def app_meta_def sy)
        ultimately show ?thesis using made None unfolding holds_all_def by auto
      qed
      have g: "grown ns name (view w) (view w2)" and held: "holds_all ns ?objs (view w) (view w2)" using made None by blast+
      note fin = finish_bundle_spec [OF laws f, unfolded sy, of "view w", OF g k0]
      show thesis
      proof (cases fe)
        case None
        with ap ok n Inr cb f \<open>ce = None\<close> have "r = Inr (engineUID ns name)" "w' = w3" by (simp_all add: KS_Apply_def Let_def s)
        moreover have "bundle_ok s objs" by (rule builders_bundle_ok [OF apply_checks_builder [OF ok] Inr])
        moreover from f None have "finish_bundle (kd_api d) (m_ResourceKind m) s w2 = Some (None, w3)" by simp
        ultimately show thesis using held fin None Inr by (intro applied [of objs "view w2"]) auto
      next
        case (Some e)
        with ap ok n Inr cb f \<open>ce = None\<close> have "r = Inl (Wrapped ''kube-state apply'' e)" "w' = w3" by (simp_all add: KS_Apply_def Let_def s)
        then show thesis using fin Some by (intro failed) auto
      qed
    qed
  qed
qed

end
