(* ===== verification/Kube_State.thy ===== *)
theory Kube_State
  imports Kube_Cluster
begin

text \<open>
  What the kube-state driver leaves on a cluster: all of a bundle or nothing of it,
  nothing after it is cleared, nothing past its deadline after a sweep.
\<close>

section \<open>A cluster on a list\<close>

text \<open>A store that holds namespaces and objects, whose Deployments are always rolled out.\<close>

type_synonym kube_store = "(string \<times> kube_object) list"

definition stored :: "kube_store \<Rightarrow> cluster" where
  "stored w k = map_option snd (find (\<lambda>p. object_key (fst p) (snd p) = k) w)"

definition patch_object :: "k_container list \<Rightarrow> kube_object \<Rightarrow> kube_object" where
  "patch_object cs obj =
     (case obj of Deployment m d \<Rightarrow> Deployment m (d\<lparr>dp_Pod := (dp_Pod d)\<lparr>kp_Containers := cs\<rparr>\<rparr>) | _ \<Rightarrow> obj)"

definition store_api :: "gotime \<Rightarrow> kube_store kube_api" where
  "store_api t =
     \<lparr>kb_list = (\<lambda>r ns sel w. (Inr (map (\<lambda>p. object_meta_of (snd p)) (filter (\<lambda>p. fst p = ns \<and> plural_of (snd p) = r \<and>
        selects sel (labels_of (snd p)) \<and> stored w (object_key ns (snd p)) = Some (snd p)) w)), w)),
      kb_delete = (\<lambda>r fg ns name w. if stored w (r, ns, name) = None then (Some (KNotFound ''not found''), w)
        else (None, filter (\<lambda>p. object_key (fst p) (snd p) \<noteq> (r, ns, name)) w)),
      kb_create = (\<lambda>ns obj w. if stored w (object_key ns obj) \<noteq> None then (Some ''already exists'', w)
        else (None, (ns, map_meta (\<lambda>m. m\<lparr>om_Created := t\<rparr>) obj) # w)),
      kb_getDeployment = (\<lambda>ns name w. (Inr \<lparr>ds_Generation = 1, ds_ObservedGeneration = 1, ds_Replicas = Some 1,
        ds_AvailableReplicas = 1, ds_UpdatedReplicas = 1\<rparr>, w)),
      kb_patch = (\<lambda>ns name cs w. (None, map (\<lambda>p. if object_key (fst p) (snd p) = (''deployments'', ns, name)
        then (fst p, patch_object cs (snd p)) else p) w)),
      kb_time = (\<lambda>w. (t, w)), kb_wait = (\<lambda>_ w. (None, w))\<rparr>"

lemma stored_Nil [simp]: "stored [] k = None"
  by (simp add: stored_def)

lemma stored_Cons: "stored (p # w) = (stored w)(object_key (fst p) (snd p) \<mapsto> snd p)"
  by (auto simp: stored_def)

lemma stored_filter: "stored (filter (\<lambda>p. object_key (fst p) (snd p) \<noteq> k) w) = (stored w)(k := None)"
proof (induction w)
  case (Cons p w)
  then show ?case
    by (cases "object_key (fst p) (snd p) = k") (auto simp: stored_Cons fun_upd_twist)
qed (auto simp: stored_def)

lemma stored_key: "stored w k = Some obj \<Longrightarrow> \<exists>ns. (ns, obj) \<in> set w \<and> k = object_key ns obj"
proof -
  assume "stored w k = Some obj"
  then obtain p where "find (\<lambda>p. object_key (fst p) (snd p) = k) w = Some p" "snd p = obj" by (auto simp: stored_def)
  then have "p \<in> set w" "object_key (fst p) (snd p) = k" by (auto simp: find_Some_iff)
  with \<open>snd p = obj\<close> show ?thesis by (intro exI [of _ "fst p"]) auto
qed

lemma patch_object_meta [simp]: "object_meta_of (patch_object cs obj) = object_meta_of obj" "plural_of (patch_object cs obj) = plural_of obj"
  by (cases obj; simp add: patch_object_def object_meta_of_def plural_of_def)+

lemma stored_patch:
  "stored (map (\<lambda>p. if object_key (fst p) (snd p) = k0 then (fst p, patch_object cs (snd p)) else p) w) =
     (\<lambda>k. if k = k0 then map_option (patch_object cs) (stored w k) else stored w k)"
proof (induction w)
  case (Cons p w)
  have "object_key ns (patch_object cs obj) = object_key ns obj" for ns obj by (simp add: object_key_def)
  with Cons show ?case by (auto simp: stored_Cons fun_eq_iff)
qed auto

lemma store_create_laws: "create_laws (store_api t) stored"
  by (auto simp: create_laws_def store_api_def created_def stored_Cons object_key_def intro!: exI [of _ t])

lemma store_delete_laws: "delete_laws (store_api t) stored"
  by (auto simp: delete_laws_def store_api_def stored_filter)

lemma store_list_laws: "list_laws (store_api t) stored"
proof -
  have found: "found_in (stored w) r ns sel = snd ` set (filter (\<lambda>p. fst p = ns \<and> plural_of (snd p) = r \<and>
        selects sel (labels_of (snd p)) \<and> stored w (object_key ns (snd p)) = Some (snd p)) w)" for w r ns sel
  proof (intro set_eqI iffI)
    fix obj assume "obj \<in> found_in (stored w) r ns sel"
    then have o: "stored w (r, ns, om_Name (object_meta_of obj)) = Some obj" "selects sel (labels_of obj)" by (auto simp: found_in_def)
    from stored_key [OF o(1)] obtain ns' where "(ns', obj) \<in> set w" "(r, ns, om_Name (object_meta_of obj)) = object_key ns' obj" by blast
    with o show "obj \<in> snd ` set (filter (\<lambda>p. fst p = ns \<and> plural_of (snd p) = r \<and>
        selects sel (labels_of (snd p)) \<and> stored w (object_key ns (snd p)) = Some (snd p)) w)"
      by (intro image_eqI [of _ _ "(ns, obj)"]) (auto simp: object_key_def)
  next
    fix obj assume "obj \<in> snd ` set (filter (\<lambda>p. fst p = ns \<and> plural_of (snd p) = r \<and>
        selects sel (labels_of (snd p)) \<and> stored w (object_key ns (snd p)) = Some (snd p)) w)"
    then show "obj \<in> found_in (stored w) r ns sel" by (auto simp: found_in_def object_key_def)
  qed
  then show ?thesis unfolding list_laws_def by (simp add: store_api_def found image_image)
qed

lemma store_laws: "kube_laws (store_api t) stored"
proof -
  have "quiet_laws (store_api t) stored"
    by (simp add: quiet_laws_def store_api_def stored_patch option.map_comp comp_def)
  moreover have "stored w (r, ns, name) = Some obj \<Longrightarrow> r = plural_of obj \<and> name = om_Name (object_meta_of obj)" for w r ns name obj
    using stored_key [of w "(r, ns, name)" obj] by (auto simp: object_key_def)
  ultimately show ?thesis
    unfolding kube_laws_def using store_create_laws store_delete_laws store_list_laws by simp
qed

lemma store_reliable: "reliable (store_api t)"
  by (simp add: reliable_def store_api_def)

section \<open>Properties\<close>

text \<open>No object carries the mark of the bundle that a manifest would be given.\<close>

definition bundle_free :: "'w kube_driver \<Rightarrow> fault_manifest \<Rightarrow> cluster \<Rightarrow> bool" where
  "bundle_free d m c \<longleftrightarrow> (case apply_checks (kd_lib d) m of Inl _ \<Rightarrow> True | Inr (ns, _, name, _) \<Rightarrow> bundle_of c ns name = {})"

lemma apply_fails_clean:
  assumes laws: "kube_laws (kd_api d) view" and rel: "reliable (kd_api d)" and clock: "\<And>w. view (snd (kd_now d w)) = view w"
    and free: "bundle_free d m (view w)" and ap: "KS_Apply d m w = Some (Inl e, w')"
  shows "view w' = view w"
proof (cases "apply_checks (kd_lib d) m")
  case (Inl err)
  with ap show ?thesis by (simp add: KS_Apply_def)
next
  case (Inr x)
  obtain ns build name replicas where x: "x = (ns, build, name, replicas)" by (metis prod_cases4)
  have "bundle_of (view w) ns name = {}" using free Inr x by (simp add: bundle_free_def)
  with rolled_back_restores [OF _ rel] show ?thesis
    by (cases rule: KS_Apply_cases [OF laws clock ap Inr [unfolded x] refl]) auto
qed

lemma apply_leaves_bundle:
  assumes laws: "kube_laws (kd_api d) view" and clock: "\<And>w. view (snd (kd_now d w)) = view w"
    and free: "bundle_free d m (view w)" and ap: "KS_Apply d m w = Some (Inr uid, w')"
  obtains ns build name replicas objs where "apply_checks (kd_lib d) m = Inr (ns, build, name, replicas)" "uid = engineUID ns name"
    "build (kd_lib d) (apply_synthesis d m ns name replicas (fst (kd_now d w))) = Inr objs"
    "bundle_of (view w') ns name = object_key ns ` set objs" "grown ns name (view w) (view w')"
    "\<And>k. k \<notin> object_key ns ` set objs \<Longrightarrow> view w' k = view w k"
    "\<And>obj. obj \<in> set objs \<Longrightarrow> \<exists>obj'. view w' (object_key ns obj) = Some obj' \<and>
       om_Annotations (object_meta_of obj') = expiryAnnotation (fst (kd_now d w)) (m_Duration m) \<and>
       map_of (labels_of obj') = [''app'' \<mapsto> name, ManagedLabel \<mapsto> ''true'', BundleLabel \<mapsto> name, FaultUIDLabel \<mapsto> m_UID m]"
proof -
  obtain x where "apply_checks (kd_lib d) m = Inr x"
    using ap by (cases "apply_checks (kd_lib d) m") (simp_all add: KS_Apply_def)
  moreover obtain ns build name replicas where "x = (ns, build, name, replicas)" by (metis prod_cases4)
  ultimately have x: "apply_checks (kd_lib d) m = Inr (ns, build, name, replicas)" by simp
  have fresh: "bundle_of (view w) ns name = {}" using free x by (simp add: bundle_free_def)
  let ?now = "fst (kd_now d w)"
  let ?s = "apply_synthesis d m ns name replicas ?now"
  let ?stamp = "stamp (bundleLabels name (m_UID m)) (expiryAnnotation ?now (m_Duration m))"
  from KS_Apply_cases [OF laws clock ap x refl]
  obtain objs c where a: "uid = engineUID ns name" "build (kd_lib d) ?s = Inr objs" "bundle_ok ?s objs"
    and h: "holds_all ns (map ?stamp objs) (view w) c" and t: "touches (''deployments'', ns, name) c (view w')"
    and g: "grown ns name (view w) (view w')"
    by (cases rule: KS_Apply_cases [OF laws clock ap x refl]) auto
  have sy: "sy_namespace ?s = ns" "sy_name ?s = name" by (simp_all add: apply_synthesis_def)
  have key: "object_key ns (?stamp obj) = object_key ns obj" for obj by (simp add: object_key_def stamp_meta)
  have meta: "object_meta_of obj = app_meta ?s" if "obj \<in> set objs" for obj
    using a(3) that by (auto simp: bundle_ok_def list_all_iff)
  have img: "object_key ns ` set (map ?stamp objs) = object_key ns ` set objs" by (simp add: image_image key)
  have each: "\<exists>obj'. view w' (object_key ns obj) = Some obj' \<and>
       om_Annotations (object_meta_of obj') = expiryAnnotation ?now (m_Duration m) \<and>
       map_of (labels_of obj') = [''app'' \<mapsto> name, ManagedLabel \<mapsto> ''true'', BundleLabel \<mapsto> name, FaultUIDLabel \<mapsto> m_UID m]"
    if "obj \<in> set objs" for obj
  proof -
    from h that obtain ct where c: "c (object_key ns obj) = Some (map_meta (\<lambda>m. m\<lparr>om_Created := ct\<rparr>) (?stamp obj))"
      unfolding holds_all_def by (auto simp: key)
    have "map_option object_meta_of (view w' (object_key ns obj)) = map_option object_meta_of (c (object_key ns obj))"
      using touchesD [OF t] by (cases "object_key ns obj = (''deployments'', ns, name)") simp_all
    with c obtain obj' where o': "view w' (object_key ns obj) = Some obj'"
      "object_meta_of obj' = (object_meta_of (?stamp obj))\<lparr>om_Created := ct\<rparr>" by auto
    have lab: "map_of (labels_of (?stamp obj)) = [''app'' \<mapsto> name, ManagedLabel \<mapsto> ''true'', BundleLabel \<mapsto> name, FaultUIDLabel \<mapsto> m_UID m]"
      unfolding stamp_labels meta [OF that] by (simp add: app_meta_def sy)
    have "om_Annotations (object_meta_of (?stamp obj)) = expiryAnnotation ?now (m_Duration m)"
      using meta [OF that] by (simp add: stamp_def app_meta_def merge_into_def expiryAnnotation_def)
    with o' lab show ?thesis by (intro exI [of _ obj']) simp
  qed
  have off: "view w' k = view w k" if "k \<notin> object_key ns ` set objs" for k
  proof (cases "k = (''deployments'', ns, name)")
    case True
    from that h have c: "c k = view w k" unfolding holds_all_def img by blast
    show ?thesis
    proof (cases "view w k")
      case None
      with c touchesD(2) [OF t] True show ?thesis by simp
    next
      case (Some o')
      with g show ?thesis unfolding grown_def by (metis option.distinct(1))
    qed
  next
    case False
    from that h have "c k = view w k" unfolding holds_all_def img by blast
    with touchesD(1) [OF t False] show ?thesis by simp
  qed
  have "bundle_of (view w') ns name = object_key ns ` set objs"
  proof (intro set_eqI iffI)
    fix k assume k: "k \<in> bundle_of (view w') ns name"
    show "k \<in> object_key ns ` set objs"
    proof (rule ccontr)
      assume "k \<notin> object_key ns ` set objs"
      with off k fresh bundle_of_cong [of "view w'" k "view w"] show False by simp
    qed
  next
    fix k assume "k \<in> object_key ns ` set objs"
    then obtain obj where k: "obj \<in> set objs" "k = object_key ns obj" by blast
    with each [OF k(1)] show "k \<in> bundle_of (view w') ns name"
      by (auto simp: bundle_of_def object_key_def selects_def bundle_selector_def const_defs)
  qed
  then show thesis by (rule that [OF x a(1,2) _ g off each])
qed

section \<open>Sweeping\<close>

text \<open>The managed objects of some resources whose deadline has passed.\<close>

definition due :: "cluster \<Rightarrow> gotime \<Rightarrow> (string \<times> string \<times> bool) list \<Rightarrow> (string \<times> string \<times> string) set" where
  "due c now rs = {(fst r, ns, om_Name (object_meta_of obj)) |ns r obj. (ns, r) \<in> set rs \<and>
     obj \<in> found_in c (fst r) ns [(ManagedLabel, ''true'')] \<and> meta_expired now (object_meta_of obj)}"

lemma in_due:
  "(x, ns, n) \<in> due c now rs \<longleftrightarrow> (\<exists>fg. (ns, x, fg) \<in> set rs) \<and>
     (\<exists>obj. c (x, ns, n) = Some obj \<and> om_Name (object_meta_of obj) = n \<and> selects [(ManagedLabel, ''true'')] (labels_of obj) \<and>
        meta_expired now (object_meta_of obj))"
  by (auto simp: due_def found_in_def)

lemma due_held: "k \<in> due c now rs \<Longrightarrow> c k \<noteq> None"
  by (cases k) (auto simp: in_due)

lemma due_same: "c' k = c k \<Longrightarrow> k \<in> due c' now rs \<longleftrightarrow> k \<in> due c now rs"
  by (cases k) (auto simp: in_due)

lemma removes_due:
  assumes "removes E c c'"
  shows "due c' now rs \<subseteq> due c now rs"
proof
  fix k assume "k \<in> due c' now rs"
  moreover from this have "c' k = c k" using due_held removes_cases [OF assms, of k] by metis
  ultimately show "k \<in> due c now rs" using due_same by metis
qed

lemma due_Cons: "due c now (p # rs) = due c now [p] \<union> due c now rs"
  unfolding due_def by auto

lemma due_gone:
  assumes "removes E c c'" "\<And>k. k \<in> due c now rs \<Longrightarrow> c' k = None"
  shows "due c' now rs = {}"
  using removes_due [OF assms(1), of now rs] due_held assms(2) by blast

lemma reap_found_removes:
  assumes laws: "kube_laws api view"
  shows "reap_found api ns r now ms (cleared, errs) w = ((cleared', errs'), w') \<Longrightarrow>
     \<exists>es. errs' = errs @ es \<and> (distinct cleared \<longrightarrow> distinct cleared') \<and>
       removes {(fst r, ns, om_Name m) |m. m \<in> set ms \<and> meta_expired now m} (view w) (view w') \<and>
       (es = [] \<longrightarrow> (\<forall>m\<in>set ms. meta_expired now m \<longrightarrow> view w' (fst r, ns, om_Name m) = None))"
proof (induction ms arbitrary: cleared errs w)
  case Nil
  then show ?case by auto
next
  case (Cons m ms)
  let ?E = "\<lambda>ms. {(fst r, ns, om_Name m) |m. m \<in> set ms \<and> meta_expired now m}"
  let ?k = "(fst r, ns, om_Name m)"
  show ?case
  proof (cases "meta_expired now m")
    case False
    then have "?E (m # ms) = ?E ms" by auto
    with Cons.IH [of cleared errs w] Cons.prems False show ?thesis by simp
  next
    case True
    then have E: "?E (m # ms) = {?k} \<union> ?E ms" by auto
    obtain e w1 where del: "kb_delete api (fst r) (snd r) ns (om_Name m) w = (e, w1)" by fastforce
    note rm = kube_delete(1) [OF laws del]
    show ?thesis
    proof (cases "\<exists>t. e = Some (KError t)")
      case True
      with Cons.prems \<open>meta_expired now m\<close> del obtain msg where
        "reap_found api ns r now ms (cleared, errs @ [msg]) w1 = ((cleared', errs'), w')" by auto
      from Cons.IH [OF this] obtain es where ih: "errs' = errs @ msg # es" "distinct cleared \<longrightarrow> distinct cleared'"
        "removes (?E ms) (view w1) (view w')" by auto
      with removes_trans [OF rm ih(3)] show ?thesis unfolding E by (intro exI [of _ "msg # es"]) simp
    next
      case False
      then have gone: "view w1 ?k = None" using kube_delete(2) [OF laws del] by blast
      define c1 where "c1 = (if engineUID ns (bundleNameOf m) \<in> set cleared then cleared else cleared @ [engineUID ns (bundleNameOf m)])"
      have d: "distinct cleared \<longrightarrow> distinct c1" by (simp add: c1_def)
      from False Cons.prems \<open>meta_expired now m\<close> del have
        "reap_found api ns r now ms (c1, errs) w1 = ((cleared', errs'), w')"
        by (auto simp: c1_def Let_def split: option.splits k8s_error.splits)
      from Cons.IH [OF this] obtain es where ih: "errs' = errs @ es" "distinct c1 \<longrightarrow> distinct cleared'"
        "removes (?E ms) (view w1) (view w')"
        "es = [] \<longrightarrow> (\<forall>m\<in>set ms. meta_expired now m \<longrightarrow> view w' (fst r, ns, om_Name m) = None)" by blast
      with removes_trans [OF rm ih(3)] removes_None [OF ih(3) gone] d show ?thesis
        unfolding E by (intro exI [of _ es]) simp
    qed
  qed
qed

lemma reap_resources_removes:
  assumes laws: "kube_laws api view"
  shows "reap_resources api now rs (cleared, errs) w = ((cleared', errs'), w') \<Longrightarrow>
     \<exists>es. errs' = errs @ es \<and> (distinct cleared \<longrightarrow> distinct cleared') \<and>
       removes (due (view w) now rs) (view w) (view w') \<and> (es = [] \<longrightarrow> due (view w') now rs = {})"
proof (induction rs arbitrary: cleared errs w)
  case Nil
  then show ?case by (auto simp: due_def)
next
  case (Cons p rs)
  obtain ns r where p: "p = (ns, r)" by (metis prod.exhaust)
  let ?sel = "[(ManagedLabel, ''true'')]"
  obtain res w1 where ls: "kb_list api (fst r) ns ?sel w = (res, w1)" by (metis prod.exhaust)
  note v1 = kube_list(1) [OF laws ls]
  have none: "due v now [(ns, r)] = {}" if "found_in v (fst r) ns ?sel = {}" for v using that by (auto simp: due_def)
  show ?case
  proof (cases res)
    case (Inl err)
    obtain c2 e2 w2 where rest: "reap_resources api now rs (cleared, case err of KNotFound _ \<Rightarrow> errs | KError t \<Rightarrow>
        errs @ [sprintf ''kube-state reap: list % in %: %'' [AS (fst r), AS ns, AS t]]) w1 = ((c2, e2), w2)" by (metis prod.exhaust)
    with Cons.prems ls Inl have same: "c2 = cleared'" "e2 = errs'" "w2 = w'" by (auto simp: p split: k8s_error.splits)
    from Cons.IH [OF rest [unfolded same], unfolded v1] obtain es where
      ih: "errs' = (case err of KNotFound _ \<Rightarrow> errs | KError t \<Rightarrow>
        errs @ [sprintf ''kube-state reap: list % in %: %'' [AS (fst r), AS ns, AS t]]) @ es"
      "distinct cleared \<longrightarrow> distinct cleared'" "removes (due (view w) now rs) (view w) (view w')"
      "es = [] \<longrightarrow> due (view w') now rs = {}" by blast
    have rm: "removes (due (view w) now (p # rs)) (view w) (view w')"
      by (rule removes_mono [OF ih(3)]) (simp add: due_Cons [of _ _ p rs])
    show ?thesis
    proof (cases err)
      case (KNotFound t)
      then have "found_in (view w) (fst r) ns ?sel = {}" using kube_list(2) [OF laws ls] Inl by simp
      then have "due (view w') now [(ns, r)] = {}" using none removes_due [OF ih(3), of now "[(ns, r)]"] by blast
      with ih rm KNotFound show ?thesis by (intro exI [of _ es]) (simp add: due_Cons [of _ _ "(ns, r)" rs] p)
    next
      case (KError t)
      with ih rm show ?thesis by (intro exI [of _ "sprintf ''kube-state reap: list % in %: %'' [AS (fst r), AS ns, AS t] # es"]) simp
    qed
  next
    case (Inr found)
    let ?K = "{(fst r, ns, om_Name m) |m. m \<in> set found \<and> meta_expired now m}"
    obtain c1 e1 w2 where f: "reap_found api ns r now found (cleared, errs) w1 = ((c1, e1), w2)" by (metis prod.exhaust)
    from reap_found_removes [OF laws f, unfolded v1] obtain es1 where
      a: "e1 = errs @ es1" "distinct cleared \<longrightarrow> distinct c1" "removes ?K (view w) (view w2)"
      "es1 = [] \<longrightarrow> (\<forall>m\<in>set found. meta_expired now m \<longrightarrow> view w2 (fst r, ns, om_Name m) = None)" by blast
    from Cons.prems ls Inr f have "reap_resources api now rs (c1, e1) w2 = ((cleared', errs'), w')" by (simp add: p)
    from Cons.IH [OF this] obtain es2 where
      b: "errs' = e1 @ es2" "distinct c1 \<longrightarrow> distinct cleared'" "removes (due (view w2) now rs) (view w2) (view w')"
      "es2 = [] \<longrightarrow> due (view w') now rs = {}" by blast
    have dueK: "k \<in> due (view w) now [(ns, r)] \<or> view w k = None" if "k \<in> ?K" for k
    proof -
      from that obtain m where m: "m \<in> set found" "meta_expired now m" "k = (fst r, ns, om_Name m)" by blast
      from kube_list(4) [OF laws ls Inr m(1)] show ?thesis
      proof
        assume "m \<in> object_meta_of ` found_in (view w) (fst r) ns ?sel"
        then obtain obj where "obj \<in> found_in (view w) (fst r) ns ?sel" "m = object_meta_of obj" by (rule imageE)
        with m(2,3) show ?thesis unfolding due_def by (intro disjI1 CollectI exI conjI) simp_all
      qed (simp add: m(3))
    qed
    have here: "removes (due (view w) now [(ns, r)]) (view w) (view w2)" by (rule removes_narrow [OF a(3) dueK])
    have rm: "removes (due (view w) now (p # rs)) (view w) (view w')"
      unfolding p due_Cons [of _ _ "(ns, r)" rs]
      by (intro removes_mono [OF removes_trans [OF here b(3)]] Un_mono order_refl removes_due [OF here])
    have "due (view w') now (p # rs) = {}" if n: "es1 @ es2 = []"
    proof -
      have inK: "k \<in> ?K" if "k \<in> due (view w) now [(ns, r)]" for k
        using that kube_list(3) [OF laws ls Inr] by (fastforce simp: due_def image_subset_iff)
      have "view w2 k = None" if "k \<in> due (view w) now [(ns, r)]" for k
        using inK [OF that] a(4) n unfolding mem_Collect_eq by force
      from due_gone [OF here this] have "due (view w2) now [(ns, r)] = {}" .
      with removes_due [OF b(3), of now "[(ns, r)]"] b(4) n show ?thesis unfolding p due_Cons [of _ _ "(ns, r)" rs] by auto
    qed
    with a b rm show ?thesis by (intro exI [of _ "es1 @ es2"]) simp
  qed
qed

lemma due_all:
  assumes "kube_laws api view"
  shows "k \<in> due (view w) now (List.product nss managedResources) \<longleftrightarrow>
     fst (snd k) \<in> set nss \<and> (\<exists>obj. view w k = Some obj \<and> selects [(ManagedLabel, ''true'')] (labels_of obj) \<and>
       meta_expired now (object_meta_of obj))"
proof -
  obtain x ns n where k: "k = (x, ns, n)" by (metis prod.exhaust)
  have "(\<exists>fg. (x, fg) \<in> set managedResources) \<and> om_Name (object_meta_of obj) = n" if "view w (x, ns, n) = Some obj" for obj
    using kube_key [OF assms that] plural_managed [of obj] by (auto simp: image_iff)
  then show ?thesis unfolding k in_due by auto
qed

lemma KS_ReapExpired_removes:
  assumes "kube_laws api view" "KS_ReapExpired api nss now w = ((uids, err), w')"
  defines "rs \<equiv> List.product nss managedResources"
  shows "removes (due (view w) now rs) (view w) (view w')" "distinct uids" "err = None \<Longrightarrow> due (view w') now rs = {}"
proof -
  obtain c e w2 where r: "reap_resources api now rs ([], []) w = ((c, e), w2)" by (metis prod.exhaust)
  with assms(2) have u: "uids = c" "err = join_errors e" "w2 = w'" by (auto simp: KS_ReapExpired_def rs_def)
  have "join_errors e = None \<Longrightarrow> e = []" by (simp add: join_errors_def split: if_splits)
  with u reap_resources_removes [OF assms(1) r]
  show "removes (due (view w) now rs) (view w) (view w')" "distinct uids" "err = None \<Longrightarrow> due (view w') now rs = {}" by auto
qed

section \<open>What the driver promises\<close>

lemma apply_checks_namespace:
  "apply_checks lib m = Inr (ns, build, name, replicas) \<Longrightarrow> ns = t_Namespace (hd (m_Targets m))"
  by (auto simp: apply_checks_def Let_def bindR_def split: sum.splits option.splits)

lemma applied_outcome:
  assumes "kube_laws (kd_api d) view" "reliable (kd_api d)" "\<And>w. view (snd (kd_now d w)) = view w"
    "bundle_free d m (view w)" "KS_Apply d m w = Some (r, w')"
  shows "case r of
      Inl _ \<Rightarrow> view w' = view w
    | Inr uid \<Rightarrow> \<exists>ns build name replicas objs. apply_checks (kd_lib d) m = Inr (ns, build, name, replicas) \<and> uid = engineUID ns name \<and>
        build (kd_lib d) (apply_synthesis d m ns name replicas (fst (kd_now d w))) = Inr objs \<and>
        (\<forall>k. k \<notin> object_key ns ` set objs \<longrightarrow> view w' k = view w k) \<and>
        (\<forall>obj\<in>set objs. view w (object_key ns obj) = None \<and> (\<exists>obj'. view w' (object_key ns obj) = Some obj' \<and>
           om_Annotations (object_meta_of obj') = expiryAnnotation (fst (kd_now d w)) (m_Duration m) \<and>
           map_of (labels_of obj') = [''app'' \<mapsto> name, ManagedLabel \<mapsto> ''true'', BundleLabel \<mapsto> name, FaultUIDLabel \<mapsto> m_UID m]))"
proof (cases r)
  case (Inl e)
  with apply_fails_clean [OF assms(1-4)] assms(5) show ?thesis by simp
next
  case (Inr uid)
  obtain ns build name replicas objs where a: "apply_checks (kd_lib d) m = Inr (ns, build, name, replicas)" "uid = engineUID ns name"
    "build (kd_lib d) (apply_synthesis d m ns name replicas (fst (kd_now d w))) = Inr objs"
    "bundle_of (view w') ns name = object_key ns ` set objs" "grown ns name (view w) (view w')"
    "\<And>k. k \<notin> object_key ns ` set objs \<Longrightarrow> view w' k = view w k"
    "\<And>obj. obj \<in> set objs \<Longrightarrow> \<exists>obj'. view w' (object_key ns obj) = Some obj' \<and>
       om_Annotations (object_meta_of obj') = expiryAnnotation (fst (kd_now d w)) (m_Duration m) \<and>
       map_of (labels_of obj') = [''app'' \<mapsto> name, ManagedLabel \<mapsto> ''true'', BundleLabel \<mapsto> name, FaultUIDLabel \<mapsto> m_UID m]"
    using apply_leaves_bundle [OF assms(1,3,4) assms(5) [unfolded Inr]] by blast
  have "view w (object_key ns obj) = None" if "obj \<in> set objs" for obj
  proof -
    have "object_key ns obj \<in> bundle_of (view w') ns name" using a(4) that by simp
    moreover have "object_key ns obj \<notin> bundle_of (view w) ns name" using assms(4) a(1) by (simp add: bundle_free_def)
    ultimately have "view w' (object_key ns obj) \<noteq> view w (object_key ns obj)" using bundle_of_cong by blast
    with a(5) show ?thesis unfolding grown_def by blast
  qed
  with a show ?thesis unfolding Inr sum.case by blast
qed

lemma applied_cleared:
  assumes "kube_laws (kd_api d) view" "reliable (kd_api d)" "\<And>w. view (snd (kd_now d w)) = view w"
    "bundle_free d m (view w)" "KS_Apply d m w = Some (Inr uid, w')" "CHR ''/'' \<notin> set (t_Namespace (hd (m_Targets m)))"
  shows "\<exists>w''. KS_Clear (kd_api d) uid w' = (None, w'') \<and> view w'' = view w"
proof -
  obtain ns build name replicas where a: "apply_checks (kd_lib d) m = Inr (ns, build, name, replicas)" "uid = engineUID ns name"
    and g: "grown ns name (view w) (view w')"
    using apply_leaves_bundle [OF assms(1,3,4,5)] by metis
  have "ns = t_Namespace (hd (m_Targets m))" by (rule apply_checks_namespace [OF a(1)])
  then have d: "decodeEngineUID uid = Inr (ns, name)" using assms(6) a(2) by (simp add: decode_engineUID)
  obtain w'' where c: "clearBundle (kd_api d) ns name w' = (None, w'')"
    using reliable_clear [OF assms(2), of ns name w'] by (metis prod.collapse)
  have "view w'' = view w"
    using cleared_again [OF g _ clearBundle_clears [OF assms(1) c]] assms(4) a(1) by (simp add: bundle_free_def)
  with c d show ?thesis by (simp add: KS_Clear_def)
qed

text \<open>
  The rollback goes by the label, not by what this call created: an apply that fails because
  an object of its bundle is there already, from an earlier apply of the same manifest, takes that
  earlier bundle off the cluster.
\<close>

lemma reapply_clears_live_bundle:
  assumes "kube_laws (kd_api d) view" "reliable (kd_api d)" "\<And>w. view (snd (kd_now d w)) = view w"
    "apply_checks (kd_lib d) m = Inr (ns, build, name, replicas)"
    "build (kd_lib d) (apply_synthesis d m ns name replicas (fst (kd_now d w))) = Inr objs"
    "obj \<in> set objs" "view w (object_key ns obj) \<noteq> None" "KS_Apply d m w = Some (r, w')"
  shows "(\<exists>e. r = Inl e) \<and> bundle_of (view w') ns name = {}"
proof (cases rule: KS_Apply_cases [OF assms(1,3,8,4) refl])
  case (1 e e')
  with assms(5) show ?thesis by simp
next
  case (2 e)
  with assms(2) show ?thesis by (auto simp: rolled_back_def)
next
  case (3 objs' c)
  let ?stamp = "stamp (bundleLabels name (m_UID m)) (expiryAnnotation (fst (kd_now d w)) (m_Duration m))"
  have "object_key ns (?stamp obj) = object_key ns obj" by (simp add: object_key_def stamp_meta)
  moreover have "?stamp obj \<in> set (map ?stamp objs')" using 3(2) assms(5,6) by simp
  ultimately have "view w (object_key ns obj) = None" using 3(4) unfolding holds_all_def by metis
  with assms(7) show ?thesis by simp
qed

text \<open>A gridlock on an empty store.\<close>

definition store_driver :: "gotime \<Rightarrow> kube_store kube_driver" where
  "store_driver t = \<lparr>kd_lib = lenient_lib, kd_api = store_api t, kd_now = (\<lambda>w. (t, w)), kd_RolloutSettle = 0\<rparr>"

definition arena_gridlock :: fault_manifest where
  "arena_gridlock = gridlock\<lparr>m_Targets := [\<lparr>t_Namespace = ''arena'', t_Kind = '''', t_Name = '''', t_Labels = []\<rparr>], m_Duration := 60 * sec\<rparr>"

lemma store_driver_laws:
  "kube_laws (kd_api (store_driver t)) stored" "reliable (kd_api (store_driver t))"
  "stored (snd (kd_now (store_driver t) w)) = stored w"
  by (simp_all add: store_driver_def store_laws store_reliable)

lemma gridlock_checks: "apply_checks lenient_lib arena_gridlock = Inr (''arena'', pdbGridlockBundle, ''ledger-api-01ab'', 1)"
proof -
  have n: "KubeStateWorkloadName KubeStatePDBGridlock '''' ''01ab'' = ''ledger-api-01ab''"
    "KubeStateDefaultReplicas KubeStatePDBGridlock = 1" by code_simp+
  have b: "map_of builders KubeStatePDBGridlock = Some pdbGridlockBundle" by (simp add: builders_def const_defs)
  show ?thesis
    by (simp add: apply_checks_def arena_gridlock_def gridlock_def empty_manifest_def spec_map_def checkMode_def kube_optString_def
        workloadName_def kube_optInt_def str_or_empty_def Let_def n b lenient_lib_def maxReplicas_def)
qed

lemma store_creates:
  "distinct (map (object_key ns) objs) \<Longrightarrow> (\<And>obj. obj \<in> set objs \<Longrightarrow> stored w (object_key ns obj) = None) \<Longrightarrow>
     fst (create_bundle (store_api t) ns name i objs w) = None"
proof (induction objs arbitrary: i w)
  case (Cons obj objs)
  let ?w = "(ns, map_meta (\<lambda>m. m\<lparr>om_Created := t\<rparr>) obj) # w"
  have k: "object_key ns (map_meta (\<lambda>m. m\<lparr>om_Created := t\<rparr>) obj) = object_key ns obj" by (simp add: object_key_def)
  have "createObject (store_api t) ns obj w = (None, ?w)"
    using Cons.prems(2) [of obj] by (simp add: createObject_def store_api_def)
  moreover have "stored ?w (object_key ns x) = None" if "x \<in> set objs" for x
  proof -
    have "object_key ns x \<in> object_key ns ` set objs" using that by simp
    then have "object_key ns x \<noteq> object_key ns obj" using Cons.prems(1) by auto
    then show ?thesis using Cons.prems(2) [of x] that by (simp add: stored_Cons k)
  qed
  ultimately show ?case using Cons.IH [of ?w "Suc i"] Cons.prems(1) by simp
qed simp

lemma KS_Apply_ok:
  assumes "apply_checks (kd_lib d) m = Inr (ns, build, name, replicas)" "kd_now d w = (now, w1)"
    "build (kd_lib d) (apply_synthesis d m ns name replicas now) = Inr objs"
    "create_bundle (kd_api d) ns name 0 (map (stamp (bundleLabels name (m_UID m)) (expiryAnnotation now (m_Duration m))) objs) w1 = (None, w2)"
    "m_ResourceKind m \<noteq> KubeStateRolloutStuck"
  shows "KS_Apply d m w = Some (Inr (engineUID ns name), w2)"
  using assms by (simp add: KS_Apply_def apply_synthesis_def Let_def finish_bundle_def finishers_def)

lemma store_free: "bundle_free d m (stored [])"
  by (simp add: bundle_free_def bundle_of_def split: sum.splits)

lemma gridlock_built:
  "\<exists>pod bd. pdbGridlockBundle lenient_lib s = Inr [Deployment (app_meta s) (newDeployment s pod), Budget (app_meta s) bd]"
  if "sy_spec s = []" "sy_replicas s = 1"
  using that by (simp add: pdbGridlockBundle_def healthyPod_def servicePort_def kube_optInt_def kube_optString_def
        lenient_lib_def str_or_empty_def maxReplicas_def Let_def) blast?

lemma gridlock_applied: "\<exists>w. KS_Apply (store_driver 0) arena_gridlock [] = Some (Inr (engineUID ''arena'' ''ledger-api-01ab''), w)"
proof -
  let ?s = "apply_synthesis (store_driver 0) arena_gridlock ''arena'' ''ledger-api-01ab'' 1 0"
  let ?st = "stamp (bundleLabels ''ledger-api-01ab'' (m_UID arena_gridlock)) (expiryAnnotation 0 (m_Duration arena_gridlock))"
  have spec: "spec_map arena_gridlock = []" and kind: "m_ResourceKind arena_gridlock = KubeStatePDBGridlock"
    by (simp_all add: arena_gridlock_def gridlock_def empty_manifest_def spec_map_def)
  obtain pod bd where b: "pdbGridlockBundle lenient_lib ?s = Inr [Deployment (app_meta ?s) (newDeployment ?s pod), Budget (app_meta ?s) bd]"
    using gridlock_built [of ?s] by (auto simp: apply_synthesis_def spec)
  have other: "plural_of (Deployment a x) \<noteq> plural_of (Budget a' y)" for a x a' y by (simp add: plural_of_def)
  obtain ce w where c: "create_bundle (store_api 0) ''arena'' ''ledger-api-01ab'' 0
      (map ?st [Deployment (app_meta ?s) (newDeployment ?s pod), Budget (app_meta ?s) bd]) [] = (ce, w)" by (metis prod.exhaust)
  have "fst (create_bundle (store_api 0) ''arena'' ''ledger-api-01ab'' 0
      (map ?st [Deployment (app_meta ?s) (newDeployment ?s pod), Budget (app_meta ?s) bd]) []) = None"
    by (rule store_creates) (simp_all add: object_key_def stamp_meta other)
  with c have done_: "create_bundle (kd_api (store_driver 0)) ''arena'' ''ledger-api-01ab'' 0
      (map ?st [Deployment (app_meta ?s) (newDeployment ?s pod), Budget (app_meta ?s) bd]) [] = (None, w)"
    by (simp add: store_driver_def)
  have none: "m_ResourceKind arena_gridlock \<noteq> KubeStateRolloutStuck" unfolding kind by (simp add: const_defs)
  have lib: "kd_lib (store_driver 0) = lenient_lib" and now: "kd_now (store_driver 0) [] = (0, [])" by (simp_all add: store_driver_def)
  show ?thesis
    using KS_Apply_ok [OF _ now _ done_ none, of pdbGridlockBundle 1] b by (simp add: lib gridlock_checks del: list.map) blast?
qed

text \<open>
  C16.  An apply of the kube-state driver leaves all of its bundle or nothing of it: on an API
  that reports no errors while listing and deleting, from a cluster without objects of the bundle,
  a failed \<^verbatim>\<open>Apply\<close> leaves the cluster as it was, at whichever check, object or second step
  it failed; a successful one added exactly the objects the kind's builder makes, where there were
  none, each with the marks that own it and the deadline, and changed nothing else.  Both conditions
  matter: where objects of the bundle are there already, as when a manifest is applied again, the
  rollback of the failed apply removes them (\<^verbatim>\<open>reapply_clears_live_bundle\<close>).
\<close>

theorem kube_apply_all_or_nothing:
  assumes "kube_laws (kd_api d) view" "reliable (kd_api d)" "\<And>w. view (snd (kd_now d w)) = view w"
    "bundle_free d m (view w)" "KS_Apply d m w = Some (r, w')"
  shows "case r of
      Inl _ \<Rightarrow> view w' = view w
    | Inr uid \<Rightarrow> \<exists>ns build name replicas objs. apply_checks (kd_lib d) m = Inr (ns, build, name, replicas) \<and> uid = engineUID ns name \<and>
        build (kd_lib d) (apply_synthesis d m ns name replicas (fst (kd_now d w))) = Inr objs \<and>
        (\<forall>k. k \<notin> object_key ns ` set objs \<longrightarrow> view w' k = view w k) \<and>
        (\<forall>obj\<in>set objs. view w (object_key ns obj) = None \<and> (\<exists>obj'. view w' (object_key ns obj) = Some obj' \<and>
           om_Annotations (object_meta_of obj') = expiryAnnotation (fst (kd_now d w)) (m_Duration m) \<and>
           map_of (labels_of obj') = [''app'' \<mapsto> name, ManagedLabel \<mapsto> ''true'', BundleLabel \<mapsto> name, FaultUIDLabel \<mapsto> m_UID m]))"
  using assms by (rule applied_outcome)

theorem kube_apply_all_or_nothing_witness:
  "\<exists>w'. KS_Apply (store_driver 0) arena_gridlock [] = Some (Inr (engineUID ''arena'' ''ledger-api-01ab''), w') \<and>
     stored w' (''deployments'', ''arena'', ''ledger-api-01ab'') \<noteq> None"
proof -
  obtain w' where w': "KS_Apply (store_driver 0) arena_gridlock [] = Some (Inr (engineUID ''arena'' ''ledger-api-01ab''), w')"
    using gridlock_applied by blast
  have lib: "kd_lib (store_driver 0) = lenient_lib" by (simp add: store_driver_def)
  let ?s = "apply_synthesis (store_driver 0) arena_gridlock ''arena'' ''ledger-api-01ab'' 1 (fst (kd_now (store_driver 0) []))"
  obtain objs where o: "pdbGridlockBundle lenient_lib ?s = Inr objs" "\<forall>obj\<in>set objs. \<exists>obj'. stored w' (object_key ''arena'' obj) = Some obj'"
    using kube_apply_all_or_nothing [OF store_driver_laws store_free w'] unfolding sum.case lib gridlock_checks sum.inject prod.inject
    by blast
  have "sy_spec ?s = []" "sy_replicas ?s = 1"
    by (simp_all add: apply_synthesis_def arena_gridlock_def gridlock_def empty_manifest_def spec_map_def)
  from gridlock_built [OF this] o(1) obtain d where "Deployment (app_meta ?s) d \<in> set objs" by auto
  with o(2) have "stored w' (object_key ''arena'' (Deployment (app_meta ?s) d)) \<noteq> None" by fastforce
  moreover have "object_key ''arena'' (Deployment (app_meta ?s) d) = (''deployments'', ''arena'', ''ledger-api-01ab'')"
    by (simp add: object_key_def plural_of_def object_meta_of_def app_meta_def apply_synthesis_def)
  ultimately show ?thesis using w' by simp
qed

text \<open>
  C17.  Clearing undoes an apply: on an API that reports no errors while listing and deleting,
  from a cluster without objects of the bundle and in a namespace whose name has no slash, clearing
  the engine UID that \<^verbatim>\<open>Apply\<close> returned succeeds and leaves the cluster exactly as it was
  before the apply, whichever kind was injected.
\<close>

theorem kube_clear_restores:
  assumes "kube_laws (kd_api d) view" "reliable (kd_api d)" "\<And>w. view (snd (kd_now d w)) = view w"
    "bundle_free d m (view w)" "KS_Apply d m w = Some (Inr uid, w')" "CHR ''/'' \<notin> set (t_Namespace (hd (m_Targets m)))"
  shows "\<exists>w''. KS_Clear (kd_api d) uid w' = (None, w'') \<and> view w'' = view w"
  using assms by (rule applied_cleared)

theorem kube_clear_restores_witness:
  "\<exists>w' w''. KS_Apply (store_driver 0) arena_gridlock [] = Some (Inr (engineUID ''arena'' ''ledger-api-01ab''), w') \<and>
     KS_Clear (store_api 0) (engineUID ''arena'' ''ledger-api-01ab'') w' = (None, w'') \<and> stored w'' = (\<lambda>_. None)"
proof -
  obtain w' where w': "KS_Apply (store_driver 0) arena_gridlock [] = Some (Inr (engineUID ''arena'' ''ledger-api-01ab''), w')"
    using gridlock_applied by blast
  have "CHR ''/'' \<notin> set (t_Namespace (hd (m_Targets arena_gridlock)))" by (simp add: arena_gridlock_def)
  from kube_clear_restores [OF store_driver_laws store_free w' this] w' show ?thesis
    by (auto simp: store_driver_def fun_eq_iff)
qed

text \<open>A store with one object past its deadline and one before it.\<close>

definition swept_secret :: "string \<Rightarrow> string gomap \<Rightarrow> kube_object" where
  "swept_secret name ann = Secret \<lparr>om_Name = name, om_Namespace = ''arena'',
     om_Labels = [(ManagedLabel, ''true''), (BundleLabel, name)], om_Annotations = ann, om_Created = 0, om_Deleting = False\<rparr>
     \<lparr>sc_Type = ''Opaque'', sc_Data = []\<rparr>"

definition swept_store :: kube_store where
  "swept_store = [(''arena'', swept_secret ''old'' [(ExpiryAnnotation, format_rfc3339 0)]),
     (''arena'', swept_secret ''fresh'' [(ExpiryAnnotation, format_rfc3339 (10 * sec))])]"
lemma swept: "fst (KS_ReapExpired (store_api 0) [''arena''] sec swept_store) = ([engineUID ''arena'' ''old''], None)"
  by code_simp

text \<open>
  C18.  A sweep of the kube-state driver deletes what is overdue and nothing else: every object
  it removed is managed, in a swept namespace, and past its recorded deadline, no other object
  changes, no engine UID is reported twice, and when no error is reported every such object is gone.
\<close>

theorem kube_reap_exact:
  assumes "kube_laws api view" "KS_ReapExpired api nss now w = ((uids, err), w')"
  defines "overdue \<equiv> \<lambda>c k. fst (snd k) \<in> set nss \<and> (\<exists>obj. c k = Some obj \<and> selects [(ManagedLabel, ''true'')] (labels_of obj) \<and>
       meta_expired now (object_meta_of obj))"
  shows "distinct uids \<and> (\<forall>k. \<not> overdue (view w) k \<longrightarrow> view w' k = view w k) \<and>
     (\<forall>k. view w' k = view w k \<or> view w' k = None) \<and> (err = None \<longrightarrow> (\<forall>k. \<not> overdue (view w') k))"
proof -
  note r = KS_ReapExpired_removes [OF assms(1,2)]
  have od: "overdue (view v) k \<longleftrightarrow> k \<in> due (view v) now (List.product nss managedResources)" for v k
    unfolding overdue_def by (rule due_all [OF assms(1), symmetric])
  have kept: "view w' k = view w k" if "\<not> overdue (view w) k" for k
    using removes_cases [OF r(1), of k] that unfolding od by blast
  have gone: "view w' k = view w k \<or> view w' k = None" for k using removes_cases [OF r(1), of k] by (elim disjE conjE) simp_all
  have left: "\<not> overdue (view w') k" if "err = None" for k using r(3) [OF that] unfolding od by blast
  show ?thesis by (intro conjI allI impI r(2) kept gone left)
qed

theorem kube_reap_exact_witness:
  "\<exists>w'. KS_ReapExpired (store_api 0) [''arena''] sec swept_store = (([engineUID ''arena'' ''old''], None), w') \<and>
     (\<forall>k obj. stored w' k = Some obj \<longrightarrow> fst (snd k) = ''arena'' \<longrightarrow> selects [(ManagedLabel, ''true'')] (labels_of obj) \<longrightarrow>
        \<not> meta_expired sec (object_meta_of obj))"
proof -
  obtain w' where w': "KS_ReapExpired (store_api 0) [''arena''] sec swept_store = (([engineUID ''arena'' ''old''], None), w')"
    using swept by (metis prod.collapse)
  note left = kube_reap_exact [OF store_laws this, THEN conjunct2, THEN conjunct2, THEN conjunct2, THEN mp, OF refl, THEN spec]
  have "\<not> meta_expired sec (object_meta_of obj)"
    if "stored w' k = Some obj" "fst (snd k) = ''arena''" "selects [(ManagedLabel, ''true'')] (labels_of obj)" for k obj
    using left [of k] that by simp
  then show ?thesis using w' by blast
qed

end
