(* ===== verification/Kube_Contract.thy ===== *)
theory Kube_Contract
  imports Kube_State
begin

text \<open>
  The contract between the catalog and the kube-state driver: the gates of a fault
  look for the names, labels, replica counts and messages that the driver gives its
  objects, although both compute them from the manifest on their own.
\<close>

section \<open>What both read off a manifest\<close>

lemma optString_field: "kube_optString spec key '''' = stringField spec key"
  by (simp add: kube_optString_def stringField_def Let_def)

lemma optInt_field:
  "kube_optInt (spec_map m) ''replicas'' (KubeStateDefaultReplicas (m_ResourceKind m)) = Inr n \<Longrightarrow> kubeStateReplicas m = n"
  by (auto simp: kube_optInt_def kubeStateReplicas_def intField_def split: option.splits json.splits)

lemma apply_checks_agree:
  assumes "apply_checks lib m = Inr (ns, build, name, replicas)"
  shows "gate_workload_name m = name" "kubeStateReplicas m = replicas" "1 \<le> replicas"
proof -
  have "workloadName lib (m_ResourceKind m) (spec_map m) (m_UID m) = Inr name \<and>
      kube_optInt (spec_map m) ''replicas'' (KubeStateDefaultReplicas (m_ResourceKind m)) = Inr replicas \<and> 1 \<le> replicas"
    using assms by (auto simp: apply_checks_def Let_def bindR_def refuseIf_def split: sum.splits option.splits if_splits)
  then show "gate_workload_name m = name" "kubeStateReplicas m = replicas" "1 \<le> replicas"
    by (auto simp: workloadName_def Let_def gate_workload_name_def optString_field optInt_field bindR_def split: sum.splits)
qed

lemma builders_replicas:
  assumes "map_of builders kind = Some build" "build lib s = Inr objs" "Deployment mt dep \<in> set objs"
  shows "dp_Replicas dep = Some (sy_replicas s)"
  using assms unfolding builders_def
  by (auto simp: builder_defs newDeployment_def newService_def bindR_Inr Let_def split: if_splits)

lemma stall_message_built:
  assumes "dependencyStallBundle lib s = Inr objs" "obj \<in> set objs" "(labels, pod) \<in> set (pods_of obj)"
  shows "\<exists>c\<in>set (kp_Containers pod). map_of (kc_Env c) stallMessageEnv = Some (KubeStateStallMessage (stringField (sy_spec s) ''message''))"
  using assms by (auto simp: dependencyStallBundle_def bindR_def Let_def newDeployment_def one_container_def plain_container_def
      newService_def pods_of_def optString_field split: sum.splits)

lemma apply_synthesis_parts:
  "sy_name (apply_synthesis d m ns name replicas now) = name" "sy_replicas (apply_synthesis d m ns name replicas now) = replicas"
  "sy_spec (apply_synthesis d m ns name replicas now) = spec_map m" "sy_namespace (apply_synthesis d m ns name replicas now) = ns"
  by (simp_all add: apply_synthesis_def)

lemma bundle_ok_pods:
  assumes "bundle_ok s objs"
  shows "\<exists>obj\<in>set objs. pods_of obj \<noteq> []"
    "obj \<in> set objs \<Longrightarrow> (labels, pod) \<in> set (pods_of obj) \<Longrightarrow> labels = [(''app'', sy_name s)]"
    "obj \<in> set objs \<Longrightarrow> object_meta_of obj = app_meta s"
proof -
  have one: "map fst (concat (map pods_of objs)) = [[(''app'', sy_name s)]]" using assms by (simp add: bundle_ok_def)
  then have "concat (map pods_of objs) \<noteq> []" by (metis list.distinct(1) list.map_disc_iff)
  then show "\<exists>obj\<in>set objs. pods_of obj \<noteq> []" by auto
  have all: "set (map fst (concat (map pods_of objs))) = {[(''app'', sy_name s)]}" unfolding one by simp
  show "labels = [(''app'', sy_name s)]" if "obj \<in> set objs" "(labels, pod) \<in> set (pods_of obj)"
  proof -
    from that have "labels \<in> set (map fst (concat (map pods_of objs)))" by force
    then show ?thesis unfolding all by simp
  qed
  show "object_meta_of obj = app_meta s" if "obj \<in> set objs" using that assms by (simp add: bundle_ok_def list_all_iff)
qed

section \<open>What the cluster holds after an apply\<close>

text \<open>
  The merge patch of the driver lists containers only: of the object it names it may
  replace the containers of the pod template, and of no object anything else.
\<close>

definition patch_laws :: "'w kube_api \<Rightarrow> ('w \<Rightarrow> cluster) \<Rightarrow> bool" where
  "patch_laws api view \<longleftrightarrow>
     (\<forall>w ns name cs k. let c = view w; c' = view (snd (kb_patch api ns name cs w)) in
        c' k = c k \<or> (\<exists>cs'. c' k = map_option (patch_object cs') (c k)))"

lemma store_patch_laws: "patch_laws (store_api t) stored"
  by (auto simp: patch_laws_def store_api_def stored_patch Let_def)

lemma finish_bundle_patches:
  assumes laws: "kube_laws api view" "patch_laws api view" and run: "finish_bundle api kind s w = Some (None, w')"
  shows "kind \<noteq> KubeStateRolloutStuck \<Longrightarrow> view w' = view w"
    and "view w' k = view w k \<or> (\<exists>cs. view w' k = map_option (patch_object cs) (view w k))"
proof -
  show "view w' = view w" if "kind \<noteq> KubeStateRolloutStuck"
    using run that by (simp add: finish_bundle_def finishers_def)
  show "view w' k = view w k \<or> (\<exists>cs. view w' k = map_option (patch_object cs) (view w k))"
  proof (cases "kind = KubeStateRolloutStuck")
    case True
    with run have "wedgeRollout api s w = Some (None, w')"
      by (auto simp: finish_bundle_def finishers_def split: option.splits prod.splits)
    from wedgeRollout_end [OF laws(1) this] obtain w2 where v: "view w2 = view w"
      and e: "w' = w2 \<or> (\<exists>cs. w' = snd (kb_patch api (sy_namespace s) (sy_name s) cs w2))" by blast
    from e show ?thesis
    proof (elim disjE exE)
      fix cs assume "w' = snd (kb_patch api (sy_namespace s) (sy_name s) cs w2)"
      with laws(2) v show ?thesis unfolding patch_laws_def Let_def by metis
    qed (simp add: v)
  qed (use run in \<open>simp add: finish_bundle_def finishers_def\<close>)
qed

text \<open>What the marks, the creation time and the patch leave of an object.\<close>

lemma pods_of_meta [simp]: "pods_of (map_meta f obj) = pods_of obj"
  by (cases obj; simp add: pods_of_def map_meta_def)

lemma pods_of_stamp [simp]: "pods_of (stamp l a obj) = pods_of obj"
  by (simp add: stamp_def)

lemma pods_of_patch: "map fst (pods_of (patch_object cs obj)) = map fst (pods_of obj)"
  by (cases obj; simp add: pods_of_def patch_object_def)

lemma deployment_meta: "map_meta f obj = Deployment mt dep \<Longrightarrow> \<exists>mt'. obj = Deployment mt' dep"
  by (cases obj; simp add: map_meta_def)

lemma deployment_patch: "patch_object cs obj = Deployment mt dep \<Longrightarrow> \<exists>dep'. obj = Deployment mt dep' \<and> dp_Replicas dep' = dp_Replicas dep"
  by (cases obj; auto simp: patch_object_def)

text \<open>The object stored for one the kind's builder made.\<close>

definition stored_for :: "kube_object \<Rightarrow> kube_object \<Rightarrow> bool" where
  "stored_for obj obj' \<longleftrightarrow>
     om_Name (object_meta_of obj') = om_Name (object_meta_of obj) \<and> map fst (pods_of obj') = map fst (pods_of obj) \<and>
     (\<forall>mt dep. obj' = Deployment mt dep \<longrightarrow> (\<exists>mt' dep'. obj = Deployment mt' dep' \<and> dp_Replicas dep' = dp_Replicas dep))"

lemma stored_for_stamp: "stored_for obj (map_meta (\<lambda>m. m\<lparr>om_Created := t\<rparr>) (stamp l a obj))"
  by (auto simp: stored_for_def stamp_def dest!: deployment_meta)

lemma stored_for_patch: "stored_for obj obj' \<Longrightarrow> stored_for obj (patch_object cs obj')"
  by (auto simp: stored_for_def pods_of_patch dest!: deployment_patch)

lemma applied_objects:
  assumes laws: "kube_laws (kd_api d) view" "patch_laws (kd_api d) view" and clock: "\<And>w. view (snd (kd_now d w)) = view w"
    and ap: "KS_Apply d m w = Some (Inr uid, w')" and x: "apply_checks (kd_lib d) m = Inr (ns, build, name, replicas)"
    and b: "build (kd_lib d) (apply_synthesis d m ns name replicas (fst (kd_now d w))) = Inr objs" and obj: "obj \<in> set objs"
  obtains obj' where "view w' (object_key ns obj) = Some obj'" "stored_for obj obj'"
    "m_ResourceKind m \<noteq> KubeStateRolloutStuck \<longrightarrow> pods_of obj' = pods_of obj"
proof -
  let ?now = "fst (kd_now d w)"
  let ?s = "apply_synthesis d m ns name replicas ?now"
  let ?stamp = "stamp (bundleLabels name (m_UID m)) (expiryAnnotation ?now (m_Duration m))"
  from KS_Apply_cases [OF laws(1) clock ap x refl] b obtain w2 where
      h: "holds_all ns (map ?stamp objs) (view w) (view w2)"
    and f: "finish_bundle (kd_api d) (m_ResourceKind m) ?s w2 = Some (None, w')"
    by (cases rule: KS_Apply_cases [OF laws(1) clock ap x refl]) auto
  have "object_key ns (?stamp obj) = object_key ns obj" by (simp add: object_key_def stamp_meta)
  with h obj obtain t where c: "view w2 (object_key ns obj) = Some (map_meta (\<lambda>m. m\<lparr>om_Created := t\<rparr>) (?stamp obj))"
    unfolding holds_all_def by auto
  let ?made = "map_meta (\<lambda>m. m\<lparr>om_Created := t\<rparr>) (?stamp obj)"
  note fin = finish_bundle_patches [OF laws f]
  show thesis
  proof (cases "m_ResourceKind m = KubeStateRolloutStuck")
    case False
    with fin(1) c have "view w' (object_key ns obj) = Some ?made" by simp
    then show thesis by (rule that) (simp_all add: stored_for_stamp)
  next
    case True
    from fin(2) [of "object_key ns obj"] c consider "view w' (object_key ns obj) = Some ?made"
      | cs where "view w' (object_key ns obj) = Some (patch_object cs ?made)" by auto
    then show thesis
    proof cases
      case 1
      then show thesis by (rule that) (simp_all add: stored_for_stamp)
    next
      case 2
      then show thesis by (rule that) (simp_all add: stored_for_stamp stored_for_patch True)
    qed
  qed
qed

lemma watched_object:
  assumes laws: "kube_laws (kd_api d) view" "patch_laws (kd_api d) view" and clock: "\<And>w. view (snd (kd_now d w)) = view w"
    and ap: "KS_Apply d m w = Some (Inr uid, w')" and x: "apply_checks (kd_lib d) m = Inr (ns, build, name, replicas)"
    and built: "build (kd_lib d) (apply_synthesis d m ns name replicas (fst (kd_now d w))) = Inr objs" and obj: "obj \<in> set objs"
  shows "\<exists>obj'. view w' (object_key ns obj) = Some obj' \<and> om_Name (object_meta_of obj') = gate_workload_name m \<and>
     (\<forall>(labels, pod)\<in>set (pods_of obj'). labels = [(''app'', gate_workload_name m)] \<and>
        (m_ResourceKind m = KubeStateDependencyStall \<longrightarrow>
           (\<exists>c\<in>set (kp_Containers pod). map_of (kc_Env c) stallMessageEnv = Some (gate_stall_message m)))) \<and>
     (\<forall>mt dep. obj' = Deployment mt dep \<longrightarrow> dp_Replicas dep = Some (kubeStateReplicas m))"
proof -
  note agree = apply_checks_agree [OF x] and b = apply_checks_builder [OF x]
  note ok = bundle_ok_pods [OF builders_bundle_ok [OF b built], unfolded apply_synthesis_parts]
  obtain obj' where o': "view w' (object_key ns obj) = Some obj'" "stored_for obj obj'"
    "m_ResourceKind m \<noteq> KubeStateRolloutStuck \<longrightarrow> pods_of obj' = pods_of obj"
    by (rule applied_objects [OF laws clock ap x built obj])
  have "om_Name (object_meta_of obj') = gate_workload_name m"
    using o'(2) ok(3) [OF obj] agree(1) by (simp add: stored_for_def app_meta_def apply_synthesis_parts)
  moreover have "labels = [(''app'', gate_workload_name m)]" if "(labels, pod) \<in> set (pods_of obj')" for labels pod
  proof -
    from that have "labels \<in> set (map fst (pods_of obj'))" by force
    then have "labels \<in> set (map fst (pods_of obj))" using o'(2) by (simp only: stored_for_def)
    then show ?thesis using ok(2) [OF obj] agree(1) by auto
  qed
  moreover have "\<exists>c\<in>set (kp_Containers pod). map_of (kc_Env c) stallMessageEnv = Some (gate_stall_message m)"
    if "m_ResourceKind m = KubeStateDependencyStall" "(labels, pod) \<in> set (pods_of obj')" for labels pod
  proof -
    have "build = dependencyStallBundle" using b that(1) by (simp add: builders_def const_defs)
    moreover have "(labels, pod) \<in> set (pods_of obj)" using o'(3) that by (simp add: const_defs)
    ultimately show ?thesis
      using stall_message_built [of "kd_lib d" _ objs obj labels pod] built obj
      by (simp add: apply_synthesis_parts gate_stall_message_def) (metis apply_synthesis_parts(3))
  qed
  moreover have "dp_Replicas dep = Some (kubeStateReplicas m)" if dep: "obj' = Deployment mt dep" for mt dep
  proof -
    from o'(2) dep obtain mt' dep' where "obj = Deployment mt' dep'" "dp_Replicas dep' = dp_Replicas dep"
      by (auto simp: stored_for_def)
    with builders_replicas [OF b built, of mt' dep'] obj agree(2) show ?thesis by (simp add: apply_synthesis_parts)
  qed
  ultimately show ?thesis using o'(1) by (intro exI [of _ obj']) auto
qed

text \<open>
  C20.  The gates of a kube-state fault watch the objects the cluster holds for it.  The catalog
  and the driver read the manifest apart from each other; after a successful apply on a cluster
  without objects of the bundle, whose patches change containers only, every object the cluster
  holds for the bundle has the name the gates look for, some of them run pods, all their pods carry
  the label the gates select by, every Deployment among them has the replica count the gates wait
  for, which is at least one, and a stalled container logs the very message the logs gate expects.
\<close>

theorem gates_watch_applied_bundle:
  assumes "kube_laws (kd_api d) view" "patch_laws (kd_api d) view" "\<And>w. view (snd (kd_now d w)) = view w"
    "bundle_free d m (view w)" "KS_Apply d m w = Some (Inr uid, w')"
  defines "ns \<equiv> t_Namespace (hd (m_Targets m))"
  shows "uid = engineUID ns (gate_workload_name m) \<and> 1 \<le> kubeStateReplicas m \<and>
     (\<exists>k\<in>bundle_of (view w') ns (gate_workload_name m). \<exists>obj. view w' k = Some obj \<and> pods_of obj \<noteq> []) \<and>
     (\<forall>k\<in>bundle_of (view w') ns (gate_workload_name m). \<exists>obj. view w' k = Some obj \<and>
        om_Name (object_meta_of obj) = gate_workload_name m \<and>
        (\<forall>(labels, pod)\<in>set (pods_of obj). labels = [(''app'', gate_workload_name m)] \<and>
           (m_ResourceKind m = KubeStateDependencyStall \<longrightarrow>
              (\<exists>c\<in>set (kp_Containers pod). map_of (kc_Env c) stallMessageEnv = Some (gate_stall_message m)))) \<and>
        (\<forall>mt dep. obj = Deployment mt dep \<longrightarrow> dp_Replicas dep = Some (kubeStateReplicas m)))"
proof -
  obtain ns' build name replicas objs where a: "apply_checks (kd_lib d) m = Inr (ns', build, name, replicas)" "uid = engineUID ns' name"
    "build (kd_lib d) (apply_synthesis d m ns' name replicas (fst (kd_now d w))) = Inr objs"
    "bundle_of (view w') ns' name = object_key ns' ` set objs"
    using apply_leaves_bundle [OF assms(1,3,4,5)] by metis
  have ns: "ns' = ns" unfolding ns_def by (rule apply_checks_namespace [OF a(1)])
  note agree = apply_checks_agree [OF a(1)] and b = apply_checks_builder [OF a(1)]
  note ok = bundle_ok_pods [OF builders_bundle_ok [OF b a(3)], unfolded apply_synthesis_parts]
  note watched = watched_object [OF assms(1,2,3,5) a(1,3)]
  obtain obj where obj: "obj \<in> set objs" "pods_of obj \<noteq> []" using ok(1) by blast
  obtain obj' where "view w' (object_key ns' obj) = Some obj'" "stored_for obj obj'"
    by (rule applied_objects [OF assms(1,2,3,5) a(1,3) obj(1)])
  moreover from this(2) obj(2) have "pods_of obj' \<noteq> []" by (auto simp: stored_for_def)
  ultimately have "\<exists>k\<in>bundle_of (view w') ns' name. \<exists>obj. view w' k = Some obj \<and> pods_of obj \<noteq> []"
    using obj(1) unfolding a(4) by blast
  then show ?thesis
    using watched a(2) agree(3) unfolding ns [symmetric] agree(1,2) a(4) by simp
qed

theorem gates_watch_applied_bundle_witness:
  "\<exists>w' mt dep. KS_Apply (store_driver 0) arena_gridlock [] = Some (Inr (engineUID ''arena'' ''ledger-api-01ab''), w') \<and>
     stored w' (''deployments'', ''arena'', ''ledger-api-01ab'') = Some (Deployment mt dep) \<and>
     dp_PodLabels dep = [(''app'', ''ledger-api-01ab'')] \<and> dp_Replicas dep = Some 1"
proof -
  let ?key = "(''deployments'', ''arena'', ''ledger-api-01ab'')"
  obtain w' where w': "KS_Apply (store_driver 0) arena_gridlock [] = Some (Inr (engineUID ''arena'' ''ledger-api-01ab''), w')"
    using gridlock_applied by blast
  have lib: "kd_lib (store_driver 0) = lenient_lib" by (simp add: store_driver_def)
  let ?s = "apply_synthesis (store_driver 0) arena_gridlock ''arena'' ''ledger-api-01ab'' 1 (fst (kd_now (store_driver 0) []))"
  obtain ns build name replicas objs where e: "apply_checks (kd_lib (store_driver 0)) arena_gridlock = Inr (ns, build, name, replicas)"
    and o': "build (kd_lib (store_driver 0))
        (apply_synthesis (store_driver 0) arena_gridlock ns name replicas (fst (kd_now (store_driver 0) []))) = Inr objs"
      "bundle_of (stored w') ns name = object_key ns ` set objs"
    using apply_leaves_bundle [OF store_driver_laws(1,3) store_free w'] by metis
  from e have eqs: "ns = ''arena''" "build = pdbGridlockBundle" "name = ''ledger-api-01ab''" "replicas = 1"
    unfolding lib gridlock_checks by simp_all
  note o = o' [unfolded eqs lib]
  have "sy_spec ?s = []" "sy_replicas ?s = 1"
    by (simp_all add: apply_synthesis_def arena_gridlock_def gridlock_def empty_manifest_def spec_map_def)
  from gridlock_built [OF this] o(1) obtain d where "Deployment (app_meta ?s) d \<in> set objs" by auto
  moreover have "object_key ''arena'' (Deployment (app_meta ?s) d) = ?key"
    by (simp add: object_key_def plural_of_def object_meta_of_def app_meta_def apply_synthesis_def)
  ultimately have k: "?key \<in> bundle_of (stored w') ''arena'' ''ledger-api-01ab''" unfolding o(2) by force
  have p: "patch_laws (kd_api (store_driver 0)) stored" by (simp add: store_driver_def store_patch_laws)
  have n: "gate_workload_name arena_gridlock = ''ledger-api-01ab''" "kubeStateReplicas arena_gridlock = 1"
    "t_Namespace (hd (m_Targets arena_gridlock)) = ''arena''"
    using apply_checks_agree [OF gridlock_checks] apply_checks_namespace [OF gridlock_checks] by simp_all
  note g = gates_watch_applied_bundle [OF store_driver_laws(1) p store_driver_laws(3) store_free w', unfolded n]
  from bspec [OF g [THEN conjunct2, THEN conjunct2, THEN conjunct2] k] obtain obj where obj: "stored w' ?key = Some obj"
    "\<forall>(labels, pod)\<in>set (pods_of obj). labels = [(''app'', ''ledger-api-01ab'')]"
    "\<forall>mt dep. obj = Deployment mt dep \<longrightarrow> dp_Replicas dep = Some 1"
    by (elim exE conjE) (rule that, assumption, auto)
  have "plural_of obj = ''deployments''" by (rule kube_key(1) [OF store_laws, OF obj(1), symmetric])
  then obtain mt dep where "obj = Deployment mt dep" by (cases obj) (auto simp: plural_of_def)
  with obj w' show ?thesis by (auto simp: pods_of_def)
qed

end
