(* ===== verification/Spec2Isabelle.thy ===== *)
theory Spec2Isabelle
  imports Restart_Recovery Cycle_Trail Network_Policy Kube_Contract
begin

text \<open>
  Verification of the Simian agent, a controller that injects faults into
  Kubernetes workloads.

  \<^bold>\<open>The program.\<close>  A fault manifest reaches the executor (\<^verbatim>\<open>src/pkg/executor\<close>) from an
  operator or from the autonomous loop (\<^verbatim>\<open>src/pkg/loop\<close>), whose plans come from a
  language model (\<^verbatim>\<open>src/pkg/planner\<close>).  The executor checks it against policy and
  cluster, reserves budget, has a driver (\<^verbatim>\<open>src/pkg/driver\<close>) apply it, registers a
  lease (\<^verbatim>\<open>src/pkg/lease\<close>) and waits for probes (\<^verbatim>\<open>src/pkg/probe\<close>); a reaper clears
  what expires.  Every decision is an audit event (\<^verbatim>\<open>src/pkg/audit\<close>), and a restarted
  controller rebuilds leases, refusals and history from the trail.

  \<^bold>\<open>Theories.\<close>
  \<^item> \<open>Simian_Prelude\<close>: decoded JSON, Go's string, map and sort functions, the
    error-and-state computations with their Hoare rules, and the contracts
    components implement (locales \<open>evolution\<close>, \<open>keyed_store\<close>,
    \<open>invariant_system\<close>, \<open>bounded_log\<close>).
  \<^item> \<open>Go_Time\<close>, \<open>Go_Time_Facts\<close>: durations and instants with their textual forms,
    and the round trips of both.
  \<^item> \<open>Simian_Types\<close> (\<^verbatim>\<open>pkg/simian\<close>): manifests, plans, leases, executor errors, the marks
    on cluster objects, the audit record.
  \<^item> \<open>Catalog_Tiers\<close> (\<^verbatim>\<open>pkg/catalog/tiers.go\<close>, \<^verbatim>\<open>outage.go\<close>): blast-radius tiers.
  \<^item> \<open>Lease_Registry\<close> (\<^verbatim>\<open>pkg/lease\<close>): the registry, \<^verbatim>\<open>Reaper.Sweep\<close>, \<^verbatim>\<open>AdoptLive\<close>.
  \<^item> \<open>Audit_Events\<close>, \<open>Probe_Core\<close>, \<open>Fault_History\<close>: event names, the probe interface
    and mux, the ring buffers of recent and refused faults.
  \<^item> \<open>Apply_Budget\<close> (\<^verbatim>\<open>executor/config.go\<close>, the budget half of \<^verbatim>\<open>executor.go\<close>): policy,
    \<^verbatim>\<open>reserve\<close>, \<^verbatim>\<open>release\<close>, \<^verbatim>\<open>recordApply\<close> and their interleavings.
  \<^item> \<open>Selector_Scope\<close> (\<^verbatim>\<open>nsscope.go\<close>, \<^verbatim>\<open>podscope.go\<close>, \<^verbatim>\<open>workloads.go\<close>, \<^verbatim>\<open>eligibility.go\<close>) and
    \<open>Target_Compat\<close> (\<^verbatim>\<open>compat.go\<close>, \<^verbatim>\<open>recovery.go\<close>): what the executor demands of a
    spec and of the target pods.
  \<^item> \<open>Executor_Pipeline\<close> (\<^verbatim>\<open>executor.go\<close>): \<^verbatim>\<open>Apply\<close> stage by stage and \<^verbatim>\<open>Clear\<close>;
    \<open>Executor_Facts\<close>, \<open>Executor_Example\<close>, \<open>Executor_Guarantees\<close>: what every run keeps,
    a concrete run, the properties of callers.
  \<^item> \<open>Audit_Trail\<close> (\<^verbatim>\<open>audit/faults.go\<close>, \<^verbatim>\<open>faultlog.go\<close>, the rebuilding half of
    \<^verbatim>\<open>executor/history.go\<close>) and \<open>Audit_Cycles\<close> (\<^verbatim>\<open>audit/cycles.go\<close>): folding records into
    rows.
  \<^item> \<open>Restart_Recovery\<close>: the executor composed with the fold.
  \<^item> \<open>Topology_Graph\<close> (\<^verbatim>\<open>topology/depgraph.go\<close>, \<^verbatim>\<open>discoverer.go\<close>): a snapshot of a
    namespace from the listings of the informer caches, and its dependency graph.
  \<^item> \<open>Plan_Dag\<close> (\<^verbatim>\<open>planner/dag.go\<close>) and \<open>Plan_Check\<close> (\<^verbatim>\<open>planner/generate.go\<close>,
    \<^verbatim>\<open>translate.go\<close>): plan layers; \<^verbatim>\<open>Generate\<close> and \<^verbatim>\<open>Translate\<close> with their retries, the
    checks of an answer, the summary of refusals.
  \<^item> \<open>Loop_Control\<close> (\<^verbatim>\<open>loop/control.go\<close>, \<^verbatim>\<open>health.go\<close>), \<open>Autonomous_Loop\<close>
    (\<^verbatim>\<open>loop/loop.go\<close>) and \<open>Cycle_Trail\<close>: settings and health gate; a pass of \<^verbatim>\<open>Run\<close>, a
    cycle and the execution of its plan; the cycle's events read back by the fold.
  \<^item> \<open>Network_Policy\<close> (\<^verbatim>\<open>driver/networkpolicy/driver.go\<close>): the driver whose deadlines
    are kept on the cluster.
  \<^item> \<open>Kube_Catalog\<close> (\<^verbatim>\<open>catalog/kubestate.go\<close>, \<^verbatim>\<open>probes.go\<close>): the default gates of a fault;
    \<open>Probe_Loop\<close> and \<open>Probe_Specs\<close> (\<^verbatim>\<open>probe/k8s.go\<close>, \<^verbatim>\<open>logs.go\<close>, \<^verbatim>\<open>http.go\<close>): the probers that
    run them; \<open>Gate_Checks\<close>: the gates against the probers.
  \<^item> \<open>Kube_Objects\<close> (\<^verbatim>\<open>driver/kubestate/kinds.go\<close>, \<^verbatim>\<open>certs.go\<close>): the builders of the kube-state
    faults; \<open>Kube_Shapes\<close>: the fault each bundle has.  \<open>Kube_Driver\<close> (\<^verbatim>\<open>driver.go\<close>,
    \<^verbatim>\<open>resources.go\<close>, \<^verbatim>\<open>rollout.go\<close>): \<^verbatim>\<open>Apply\<close> with its rollback, \<^verbatim>\<open>Clear\<close>, the sweep and the
    listing; \<open>Kube_Cluster\<close>, \<open>Kube_State\<close>: what they leave on a cluster;
    \<open>Kube_Contract\<close>: the driver against the catalog's gates.

  \<^bold>\<open>Correspondence.\<close>  A struct is a record whose fields carry the Go names behind a
  prefix, a Go map an association list with distinct keys, a nil-able value an
  option.  A Go error is a value of a sum; the executor's stages are
  computations \<open>'s \<Rightarrow> (error + 'a) \<times> 's\<close>, so that a failing stage keeps the
  state it reached.  A definition keeps the name of the function it models; a
  part of a function has a name of its own.  An \<^verbatim>\<open>int64\<close> duration is an \<open>int\<close>
  with the bounds where they matter (parsing); an instant is a number of
  nanoseconds, the zero time being 0.

  \<^bold>\<open>Parameters.\<close>  Kubernetes, the chaos engines, probes, the clock, the UID
  source and the language model are functions over a state \<open>'w\<close> of the world
  passed in a record (\<open>chaos_driver\<close>, the executor's environment, \<open>loop_env\<close>,
  \<open>gen_env\<close>, \<open>np_api\<close>, \<open>kube_api\<close>); their answers are arbitrary, and a theorem that needs more
  of them says so in a hypothesis (a clock that moves, an engine that clears).  \<open>np_laws\<close> and
  \<open>kube_laws\<close> say what creating, listing and deleting do to the objects a cluster holds, and
  \<open>patch_laws\<close> that a patch of containers changes containers only; all are shown for a store.
  \<open>kube_laws\<close> takes it that nobody else changes these objects during a call of the driver.

  \<^bold>\<open>What is shown.\<close>  Safety: no lease without passing policy, scope and
  exclusions; concurrency and cooldown under every interleaving of applies,
  clears and expiries; a plan within its limits under every interleaving of its
  goroutines.  Bookkeeping: reservations balance on every path, failures are
  audited, the history holds what was leased and what was refused.  Liveness: settled probes after a
  successful apply, sweeps that clear, loops that end.  Trail: the folds depend
  on a fault's (a namespace's) own records, closing events close, and the
  leases a restarted controller adopts are those the registry held.  Planning: a
  plan that \<^verbatim>\<open>Generate\<close> returns is ready to run whatever the model answers; the
  dependency graph has the declared edges and no others.  Cluster: a sweep deletes
  the expired partitions and bundles only, and a partition outlives its process until
  its deadline; a kube-state fault, on a cluster that holds nothing of it, is applied whole or not
  at all, is born with the fault of its kind, and clearing it restores the cluster.  Gates: a probe that passes
  saw what it states for as long as it must, the default gates decode, and those of a
  kube-state fault look for the objects the cluster holds for it.

  \<^bold>\<open>Loops.\<close>  Recursion is structural or by a measure, except the polls that may
  not end: the recovery wait, the wait for a slot and the probe loops are partial functions
  whose result is shown to exist under a moving clock; the wait for a rollout is one
  too, and the theorems on the kube-state driver speak of an \<^verbatim>\<open>Apply\<close> that returned.  No definition uses fuel.

  \<^bold>\<open>Not modelled.\<close>  The Chaos Mesh and Envoy drivers, the connections the probers open, the
  informers, the arena manager, scenario packs, evaluation and harness, the texts of the drivers'
  catalogs, the language model clients, HTTP, MCP, web UI, metrics and command
  line: I/O against third-party services, the parameters above.  The wording of the
  model's prompts and \<^verbatim>\<open>json.Unmarshal\<close> (parameters of the planner).  Reading and
  writing files (\<^verbatim>\<open>ReadRecords\<close>, \<^verbatim>\<open>FileAuditor\<close>), tickers and the select over timers
  and channels in \<^verbatim>\<open>Loop.Run\<close>.
\<close>

end
